(* ===== verification/Prelude.thy ===== *)
theory Prelude
  imports Main "HOL-Library.Word" "HOL-Library.Sublist" "HOL-Library.Multiset"
begin

text \<open>
  Shared vocabulary of the Tempura development: the machine types of the Go sources, the
  three ways a Go function can end (it returns, it panics, it returns an error value), the
  collections of rewrite rules the component theories extend, and the generic facts on
  lists, maps and words that more than one component needs.
\<close>

section \<open>Machine types and outcomes\<close>

type_synonym byte = "8 word"
type_synonym u32 = "32 word"
type_synonym u64 = "64 word"

text \<open>
  A Go call returns a value, panics, or never returns. \<^verbatim>\<open>net/http\<close> recovers a panic of a
  handler, so the process lives on with whatever state the handler had reached: operations
  that may panic return their outcome next to the state.
\<close>

datatype 'a outcome = Ret 'a | Panic string | Hang

text \<open>
  Go errors: \<open>Errorf\<close> is a plain message, \<open>Wrap\<close> is \<^verbatim>\<open>fmt.Errorf("...: %w", err)\<close> with the
  text before the wrapped error.
\<close>

datatype go_error = Errorf string | Wrap string go_error

fun error_text :: "go_error \<Rightarrow> string" where
  "error_text (Errorf s) = s"
| "error_text (Wrap s e) = s @ '': '' @ error_text e"

type_synonym 'a result = "go_error + 'a"

section \<open>Rule collections\<close>

named_theorems go_simps \<open>rewrite rules for the Go library functions\<close>
named_theorems inv_intros \<open>preservation of the component invariants\<close>
named_theorems frame_simps \<open>fields that an operation leaves unchanged\<close>

section \<open>Outcomes\<close>

fun is_panic :: "'a outcome \<Rightarrow> bool" where
  "is_panic (Ret _) = False"
| "is_panic (Panic _) = True"
| "is_panic Hang = False"

text \<open>Sequencing: the continuation runs only after a return.\<close>

fun and_then :: "'a outcome \<Rightarrow> ('a \<Rightarrow> 'b outcome) \<Rightarrow> 'b outcome" where
  "and_then (Ret x) f = f x"
| "and_then (Panic msg) f = Panic msg"
| "and_then Hang f = Hang"

lemma and_then_Ret_iff: "and_then r f = Ret y \<longleftrightarrow> (\<exists>x. r = Ret x \<and> f x = Ret y)"
  by (cases r) auto

text \<open>
  Calls on a state that may return an error or panic: the next call is made only after a success. \<open>do_call\<close> and \<open>do_err\<close>
  are calls that cannot panic.
\<close>

definition and_try ::
    "'a result outcome \<times> 'd \<Rightarrow> ('a \<Rightarrow> 'd \<Rightarrow> 'b result outcome \<times> 'd) \<Rightarrow> 'b result outcome \<times> 'd" where
  "and_try m f =
     (case m of
        (Ret (Inr x), d) \<Rightarrow> f x d
      | (Ret (Inl err), d) \<Rightarrow> (Ret (Inl err), d)
      | (Panic msg, d) \<Rightarrow> (Panic msg, d)
      | (Hang, d) \<Rightarrow> (Hang, d))"

definition do_call :: "'a result \<times> 'd \<Rightarrow> 'a result outcome \<times> 'd" where
  "do_call x = (Ret (fst x), snd x)"

definition do_err :: "go_error option \<times> 'd \<Rightarrow> unit result outcome \<times> 'd" where
  "do_err x = (Ret (case fst x of None \<Rightarrow> Inr () | Some err \<Rightarrow> Inl err), snd x)"

lemma and_try_Ret:
  "and_try m f = (Ret (Inr y), d') \<longleftrightarrow> (\<exists>x d1. m = (Ret (Inr x), d1) \<and> f x d1 = (Ret (Inr y), d'))"
  by (auto simp: and_try_def split: prod.splits outcome.splits sum.splits)

lemma do_call_Ret [simp]:
  "do_call x = (Ret (Inr y), d') \<longleftrightarrow> x = (Inr y, d')"
  "do_err e = (Ret (Inr u), d') \<longleftrightarrow> e = (None, d')"
  by (auto simp: do_call_def do_err_def prod_eq_iff split: option.splits)

section \<open>Lists\<close>

lemma sorted_first_ge_unique:
  fixes xs :: "'a::linorder list"
  assumes "sorted xs" "i \<le> length xs" "\<forall>k<i. xs ! k < v" "i < length xs \<Longrightarrow> v \<le> xs ! i"
  shows "filter (\<lambda>x. v \<le> x) xs = drop i xs"
proof -
  have "filter (\<lambda>x. v \<le> x) (take i xs) = []"
    using assms(2,3) by (fastforce simp: filter_empty_conv in_set_conv_nth)
  moreover have "filter (\<lambda>x. v \<le> x) (drop i xs) = drop i xs"
  proof (rule filter_True, rule ballI)
    fix x assume "x \<in> set (drop i xs)"
    then obtain k where k: "k < length xs - i" "x = xs ! (i + k)"
      by (auto simp: in_set_conv_nth)
    then have "xs ! i \<le> x"
      using assms(1) by (auto intro: sorted_nth_mono)
    moreover have "v \<le> xs ! i" using k assms(4) by simp
    ultimately show "v \<le> x" by simp
  qed
  ultimately show ?thesis
    by (metis append_Nil append_take_drop_id filter_append)
qed

lemma hd_sorted_Min:
  fixes xs :: "'a::linorder list"
  shows "sorted xs \<Longrightarrow> xs \<noteq> [] \<Longrightarrow> hd xs = Min (set xs)"
  by (cases xs) (auto intro!: Min_eqI[symmetric])

lemma split_at_first_unique:
  "x \<notin> set as \<Longrightarrow> x \<notin> set bs \<Longrightarrow> as @ x # xs = bs @ x # ys \<longleftrightarrow> as = bs \<and> xs = ys"
  by (induction as bs rule: list_induct2') auto

text \<open>A search from the left of a strictly sorted list finds the least match.\<close>

lemma find_first_sorted:
  fixes xs :: "'a::linorder list"
  shows "sorted_wrt (<) xs \<Longrightarrow>
    find P xs = Some x \<longleftrightarrow> x \<in> set xs \<and> P x \<and> (\<forall>y\<in>set xs. y < x \<longrightarrow> \<not> P y)"
  by (induction xs) (auto dest: order.strict_trans order.asym)

section \<open>Maps\<close>

lemma map_of_map_const: "map_of (map (\<lambda>k. (k, v)) ks) k = (if k \<in> set ks then Some v else None)"
  by (induction ks) auto

section \<open>Runs\<close>

text \<open>A relation whose steps decrease a measure has no run longer than the measure of its start.\<close>

lemma relpowp_measure:
  fixes f :: "'s \<Rightarrow> nat"
  assumes "\<And>s s'. R s s' \<Longrightarrow> f s' < f s"
  shows "(R ^^ n) s s' \<Longrightarrow> n + f s' \<le> f s"
proof (induction n arbitrary: s')
  case (Suc n)
  then obtain t where "(R ^^ n) s t" "R t s'"
    by auto
  with Suc.IH[of t] assms[of t s'] show ?case
    by simp
qed simp

end
