(* ===== verification/GoStdlib.thy ===== *)
theory GoStdlib
  imports Prelude
begin

text \<open>
  The parts of the Go standard library that the sources call, written out as the library
  computes them: conversions between strings and byte slices, \<^verbatim>\<open>strings.Contains\<close>,
  \<^verbatim>\<open>strings.Split\<close>, \<^verbatim>\<open>strings.Join\<close>, \<^verbatim>\<open>strconv.Itoa\<close>, \<^verbatim>\<open>sort.Search\<close>, \<^verbatim>\<open>binary.Uvarint\<close> and the
  wrap-around of the 64-bit \<^verbatim>\<open>int\<close>.
\<close>

unbundle bit_operations_syntax

section \<open>Strings and byte slices\<close>

text \<open>A Go string is a sequence of bytes; a HOL \<^typ>\<open>char\<close> is eight bits as well.\<close>

definition bytes_of_string :: "string \<Rightarrow> byte list" where
  "bytes_of_string s = map (\<lambda>c. of_nat (of_char c)) s"

definition string_of_bytes :: "byte list \<Rightarrow> string" where
  "string_of_bytes bs = map (\<lambda>b. char_of (unat b)) bs"

lemma string_of_bytes_of_string [simp, go_simps]: "string_of_bytes (bytes_of_string s) = s"
proof -
  have "unat (of_nat (of_char c) :: byte) = of_char c" for c
    by (simp add: unat_of_nat take_bit_eq_mod)
  then show ?thesis by (simp add: string_of_bytes_def bytes_of_string_def comp_def)
qed

lemma bytes_of_string_of_bytes [simp, go_simps]: "bytes_of_string (string_of_bytes bs) = bs"
proof -
  have "unat (b::byte) < 256" for b using unsigned_less[of b] by simp
  then have "of_nat (of_char (char_of (unat b))) = b" for b :: byte
    by (simp add: take_bit_eq_mod)
  then show ?thesis by (simp add: string_of_bytes_def bytes_of_string_def comp_def)
qed

lemma bytes_of_string_inj [simp]: "bytes_of_string s = bytes_of_string t \<longleftrightarrow> s = t"
  by (metis string_of_bytes_of_string)

lemma length_string_of_bytes [simp]: "length (string_of_bytes bs) = length bs"
  by (simp add: string_of_bytes_def)

lemma length_bytes_of_string [simp]: "length (bytes_of_string s) = length s"
  by (simp add: bytes_of_string_def)

section \<open>strings.Contains, strings.Split, strings.Join\<close>

fun Contains :: "string \<Rightarrow> string \<Rightarrow> bool" where
  "Contains [] sub = (sub = [])"
| "Contains (c # s) sub = (prefix sub (c # s) \<or> Contains s sub)"

lemma Contains_iff_sublist: "Contains s sub \<longleftrightarrow> sublist sub s"
  by (induction s) (auto simp: sublist_Cons_right)

text \<open>
  \<^verbatim>\<open>strings.Split\<close> cuts at every leftmost non-overlapping occurrence of the separator. The
  sources call it with the non-empty separator \<^verbatim>\<open>"::"\<close> only; \<open>acc\<close> is the piece being read.
\<close>

function Split_from :: "string \<Rightarrow> string \<Rightarrow> string \<Rightarrow> string list" where
  "Split_from sep acc s =
     (if sep \<noteq> [] \<and> prefix sep s then acc # Split_from sep [] (drop (length sep) s)
      else (case s of [] \<Rightarrow> [acc] | c # s' \<Rightarrow> Split_from sep (acc @ [c]) s'))"
  by pat_completeness auto
termination
  by (relation "measure (\<lambda>(sep, acc, s). length s)") (auto simp: prefix_def)

declare Split_from.simps [simp del]

definition Split :: "string \<Rightarrow> string \<Rightarrow> string list" where
  "Split s sep = Split_from sep [] s"

fun Join :: "string list \<Rightarrow> string \<Rightarrow> string" where
  "Join [] sep = []"
| "Join [s] sep = s"
| "Join (s # t # ts) sep = s @ sep @ Join (t # ts) sep"

lemma Split_from_not_Nil [simp]: "Split_from sep acc s \<noteq> []"
  by (induction sep acc s rule: Split_from.induct)
     (subst Split_from.simps, auto split: list.splits)

lemma Split_not_Nil [simp]: "Split s sep \<noteq> []"
  by (simp add: Split_def)

lemma Join_Cons_not_Nil: "ts \<noteq> [] \<Longrightarrow> Join (s # ts) sep = s @ sep @ Join ts sep"
  by (cases ts) auto

lemma Join_Split_from: "sep \<noteq> [] \<Longrightarrow> Join (Split_from sep acc s) sep = acc @ s"
proof (induction sep acc s rule: Split_from.induct)
  case (1 sep acc s)
  show ?case
  proof (cases "prefix sep s")
    case True
    then have "Split_from sep acc s = acc # Split_from sep [] (drop (length sep) s)"
      using "1.prems" by (subst Split_from.simps) simp
    with True 1 show ?thesis by (auto simp: Join_Cons_not_Nil prefix_def)
  next
    case False
    with 1 show ?thesis
      by (subst Split_from.simps) (auto split: list.splits)
  qed
qed

text \<open>Splitting and joining again gives the string back.\<close>

lemma Join_Split [go_simps]: "sep \<noteq> [] \<Longrightarrow> Join (Split s sep) sep = s"
  by (simp add: Split_def Join_Split_from)

lemma Split_from_no_sep: "sep \<noteq> [] \<Longrightarrow> \<not> sublist sep s \<Longrightarrow> Split_from sep acc s = [acc @ s]"
proof (induction sep acc s rule: Split_from.induct)
  case (1 sep acc s)
  then have "\<not> prefix sep s" by auto
  with 1 show ?case
    by (subst Split_from.simps) (auto split: list.splits simp: sublist_Cons_right)
qed

lemma Split_no_sep [go_simps]: "sep \<noteq> [] \<Longrightarrow> \<not> sublist sep s \<Longrightarrow> Split s sep = [s]"
  by (simp add: Split_def Split_from_no_sep)

section \<open>strconv.Itoa\<close>

fun digits :: "nat \<Rightarrow> string" where
  "digits n = (if n < 10 then [char_of (48 + n)] else digits (n div 10) @ [char_of (48 + n mod 10)])"

declare digits.simps [simp del]

definition Itoa :: "int \<Rightarrow> string" where
  "Itoa i = (if i < 0 then ''-'' @ digits (nat (- i)) else digits (nat i))"

lemma of_char_digit: "d < 10 \<Longrightarrow> of_char (char_of (48 + d) :: char) = 48 + (d::nat)"
  by (simp add: take_bit_eq_mod)

definition digits_val :: "string \<Rightarrow> nat" where
  "digits_val s = foldl (\<lambda>a c. 10 * a + (of_char c - 48)) 0 s"

lemma digits_val_digits: "digits_val (digits n) = n"
proof (induction n rule: digits.induct)
  case (1 n)
  show ?case
  proof (cases "n < 10")
    case True
    then show ?thesis by (subst digits.simps) (simp add: digits_val_def of_char_digit)
  next
    case False
    with 1 have "digits_val (digits (n div 10)) = n div 10" by simp
    moreover have "of_char (char_of (48 + n mod 10) :: char) = 48 + n mod 10"
      by (rule of_char_digit) simp
    ultimately show ?thesis using False
      by (subst digits.simps) (simp add: digits_val_def)
  qed
qed

lemma digits_inj [simp]: "digits m = digits n \<longleftrightarrow> m = n"
  by (metis digits_val_digits)

lemma digits_chars: "c \<in> set (digits n) \<Longrightarrow> 48 \<le> (of_char c :: nat) \<and> (of_char c :: nat) < 58"
proof (induction n rule: digits.induct)
  case (1 n)
  show ?case
  proof (cases "n < 10")
    case True
    with "1.prems" have "c = char_of (48 + n)"
      by (subst (asm) digits.simps) simp
    with True show ?thesis using of_char_digit[of n] by simp
  next
    case False
    with "1.prems" have "c \<in> set (digits (n div 10)) \<or> c = char_of (48 + n mod 10)"
      by (subst (asm) digits.simps) auto
    with False "1.IH" of_char_digit[of "n mod 10"] show ?thesis by auto
  qed
qed

section \<open>strconv.Atoi, strings.TrimSpace\<close>

definition is_digit :: "char \<Rightarrow> bool" where
  "is_digit c \<longleftrightarrow> 48 \<le> (of_char c :: nat) \<and> (of_char c :: nat) < 58"

text \<open>An optional sign and decimal digits, of an integer of 64 bits.\<close>

definition split_sign :: "string \<Rightarrow> bool \<times> string" where
  "split_sign s =
     (case s of [] \<Rightarrow> (False, [])
      | c # cs \<Rightarrow> if c = CHR ''-'' then (True, cs) else if c = CHR ''+'' then (False, cs) else (False, s))"

definition strconv_Atoi :: "string \<Rightarrow> int result" where
  "strconv_Atoi s =
     (let (neg, ds) = split_sign s;
          n = (if neg then - int (digits_val ds) else int (digits_val ds))
      in if ds = [] \<or> \<not> list_all is_digit ds then Inl (Errorf (''strconv.Atoi: parsing '' @ s @ '': invalid syntax''))
         else if n < - (2 ^ 63) \<or> 2 ^ 63 \<le> n then Inl (Errorf (''strconv.Atoi: parsing '' @ s @ '': value out of range''))
         else Inr n)"

lemma digits_not_Nil [simp]: "digits n \<noteq> []"
  by (subst digits.simps) simp

lemma digits_all: "list_all is_digit (digits n)"
  using digits_chars by (auto simp: list_all_iff is_digit_def)

lemma split_sign_digits: "split_sign (digits n) = (False, digits n)"
proof (cases "digits n")
  case (Cons c cs)
  then have "is_digit c"
    using digits_all[of n] by simp
  then have "c \<noteq> CHR ''-''" "c \<noteq> CHR ''+''"
    by (auto simp: is_digit_def)
  then show ?thesis
    by (simp add: split_sign_def Cons)
qed simp

lemma Atoi_Itoa [go_simps]: "- (2 ^ 63) \<le> i \<Longrightarrow> i < 2 ^ 63 \<Longrightarrow> strconv_Atoi (Itoa i) = Inr i"
  by (cases "i < 0")
    (auto simp: strconv_Atoi_def Itoa_def split_sign_digits digits_all digits_val_digits, auto simp: split_sign_def digits_all digits_val_digits)

lemma Itoa_not_Nil [simp]: "Itoa i \<noteq> ''''"
  by (simp add: Itoa_def)

text \<open>White space of ASCII texts.\<close>

definition is_space :: "char \<Rightarrow> bool" where
  "is_space c \<longleftrightarrow> c \<in> {CHR 0x09, CHR 0x0A, CHR 0x0B, CHR 0x0C, CHR 0x0D, CHR 0x20}"

definition TrimSpace :: "string \<Rightarrow> string" where
  "TrimSpace s = rev (dropWhile is_space (rev (dropWhile is_space s)))"

text \<open>\<^verbatim>\<open>strings.ReplaceAll\<close> of one character by another.\<close>

definition ReplaceAll_char :: "char \<Rightarrow> char \<Rightarrow> string \<Rightarrow> string" where
  "ReplaceAll_char old new = map (\<lambda>c. if c = old then new else c)"

section \<open>sort.Search\<close>

text \<open>
  The binary search of \<^verbatim>\<open>sort.Search\<close>: \<^verbatim>\<open>h := int(uint(i+j) >> 1)\<close>, and \<open>i\<close> or \<open>j\<close> moves to it.
\<close>

function Search_loop :: "(nat \<Rightarrow> bool) \<Rightarrow> nat \<Rightarrow> nat \<Rightarrow> nat" where
  "Search_loop f i j =
     (if i < j then
        let h = (i + j) div 2 in
        if \<not> f h then Search_loop f (h + 1) j else Search_loop f i h
      else i)"
  by pat_completeness auto
termination
  by (relation "measure (\<lambda>(f, i, j). j - i)") auto

declare Search_loop.simps [simp del]

definition Search :: "nat \<Rightarrow> (nat \<Rightarrow> bool) \<Rightarrow> nat" where
  "Search n f = Search_loop f 0 n"

lemma Search_loop_correct:
  assumes "i \<le> j" "j \<le> n" "\<forall>a b. a \<le> b \<longrightarrow> b < n \<longrightarrow> f a \<longrightarrow> f b"
    and "\<forall>k<i. \<not> f k" "\<forall>k. j \<le> k \<and> k < n \<longrightarrow> f k"
  shows "Search_loop f i j \<le> n \<and> (\<forall>k<Search_loop f i j. \<not> f k)
    \<and> (\<forall>k. Search_loop f i j \<le> k \<and> k < n \<longrightarrow> f k)"
  using assms
proof (induction f i j rule: Search_loop.induct)
  case (1 f i j)
  define h where "h = (i + j) div 2"
  show ?case
  proof (cases "i < j")
    case False
    then have "Search_loop f i j = i" by (simp add: Search_loop.simps[of f i j])
    with False "1.prems" show ?thesis by auto
  next
    case True
    then have h: "i \<le> h" "h < j" "h < n" using "1.prems" by (auto simp: h_def)
    show ?thesis
    proof (cases "f h")
      case True
      then have tl: "\<forall>k. h \<le> k \<and> k < n \<longrightarrow> f k" using "1.prems"(3) by blast
      have eq: "Search_loop f i j = Search_loop f i h"
        using True \<open>i < j\<close> by (simp add: Search_loop.simps[of f i j] flip: h_def)
      from "1.IH"(2)[OF \<open>i < j\<close> h_def _ h(1) less_imp_le[OF h(3)] "1.prems"(3,4) tl] True
      show ?thesis unfolding eq by blast
    next
      case False
      have hd: "\<forall>k<h + 1. \<not> f k"
      proof (intro allI impI notI)
        fix k assume "k < h + 1" "f k"
        then have "k \<le> h" by simp
        with \<open>f k\<close> h(3) "1.prems"(3) have "f h" by blast
        with False show False by blast
      qed
      have eq: "Search_loop f i j = Search_loop f (h + 1) j"
        using False \<open>i < j\<close> by (simp add: Search_loop.simps[of f i j] flip: h_def)
      from h have "h + 1 \<le> j" by simp
      from "1.IH"(1)[OF \<open>i < j\<close> h_def False this "1.prems"(2,3) hd "1.prems"(5)]
      show ?thesis unfolding eq .
    qed
  qed
qed

text \<open>
  For a predicate that stays true once it is true, \<^verbatim>\<open>sort.Search\<close> returns the least index where
  it holds, and \<open>n\<close> if there is none.
\<close>

lemma Search_correct:
  assumes mono: "\<forall>a b. a \<le> b \<longrightarrow> b < n \<longrightarrow> f a \<longrightarrow> f b"
  shows "Search n f \<le> n" "\<forall>k<Search n f. \<not> f k" "Search n f < n \<Longrightarrow> f (Search n f)"
proof -
  have "\<forall>k<0. \<not> f k" "\<forall>k. n \<le> k \<and> k < n \<longrightarrow> f k" by auto
  then have *: "Search n f \<le> n \<and> (\<forall>k<Search n f. \<not> f k) \<and> (\<forall>k. Search n f \<le> k \<and> k < n \<longrightarrow> f k)"
    unfolding Search_def by (rule Search_loop_correct[OF le0 order_refl mono])
  show "Search n f \<le> n" "\<forall>k<Search n f. \<not> f k" using * by blast+
  show "f (Search n f)" if "Search n f < n" using * that by blast
qed

section \<open>Machine integers and varints\<close>

text \<open>Go's \<^verbatim>\<open>int\<close> has 64 bits and wraps around; \<open>int64\<close> reduces a mathematical integer to it.\<close>

definition int64 :: "int \<Rightarrow> int" where
  "int64 x = signed_take_bit 63 x"

lemma int64_id [go_simps]: "- (2 ^ 63) \<le> x \<Longrightarrow> x < 2 ^ 63 \<Longrightarrow> int64 x = x"
  by (simp add: int64_def signed_take_bit_int_eq_self)

text \<open>
  \<^verbatim>\<open>binary.Uvarint\<close>: the decoded value and the number of bytes read; the count is 0 when the
  buffer ends inside the number and negative when the number does not fit 64 bits.
\<close>

fun Uvarint_loop :: "nat \<Rightarrow> u64 \<Rightarrow> nat \<Rightarrow> byte list \<Rightarrow> u64 \<times> int" where
  "Uvarint_loop i x s [] = (0, 0)"
| "Uvarint_loop i x s (b # bs) =
     (if i = 10 then (0, - (int i + 1))
      else if b < 0x80 then
        (if i = 9 \<and> b > 1 then (0, - (int i + 1)) else (x OR push_bit s (ucast b), int i + 1))
      else Uvarint_loop (Suc i) (x OR push_bit s (ucast (b AND 0x7f))) (s + 7) bs)"

definition Uvarint :: "byte list \<Rightarrow> u64 \<times> int" where
  "Uvarint buf = Uvarint_loop 0 0 0 buf"

lemma Uvarint_loop_bound:
  "Uvarint_loop i x s bs = (v, n) \<Longrightarrow> i \<le> 10 \<Longrightarrow> 0 < n \<Longrightarrow> int i < n \<and> n \<le> int (i + length bs) \<and> n \<le> 10"
  by (induction i x s bs rule: Uvarint_loop.induct) (fastforce split: if_splits)+

lemma Uvarint_bound:
  "Uvarint bs = (v, n) \<Longrightarrow> 0 < n \<Longrightarrow> n \<le> int (length bs) \<and> n \<le> 10"
  using Uvarint_loop_bound[of 0 0 0 bs v n] by (simp add: Uvarint_def)

section \<open>Base 64\<close>

text \<open>\<^verbatim>\<open>base64.StdEncoding.EncodeToString\<close>: three bytes are four digits of six bits, the last group is padded.\<close>

definition base64_alphabet :: string where
  "base64_alphabet = ''ABCDEFGHIJKLMNOPQRSTUVWXYZabcdefghijklmnopqrstuvwxyz0123456789+/''"

definition base64_digit :: "nat \<Rightarrow> char" where
  "base64_digit n = base64_alphabet ! n"

fun EncodeToString :: "byte list \<Rightarrow> string" where
  "EncodeToString [] = ''''"
| "EncodeToString [a] = [base64_digit (unat a div 4), base64_digit (unat a mod 4 * 16)] @ ''==''"
| "EncodeToString [a, b] = [base64_digit (unat a div 4), base64_digit (unat a mod 4 * 16 + unat b div 16),
     base64_digit (unat b mod 16 * 4)] @ ''=''"
| "EncodeToString (a # b # c # rest) = [base64_digit (unat a div 4), base64_digit (unat a mod 4 * 16 + unat b div 16),
     base64_digit (unat b mod 16 * 4 + unat c div 64), base64_digit (unat c mod 64)] @ EncodeToString rest"

lemma base64_alphabet_facts: "length base64_alphabet = 64" "distinct base64_alphabet" "CHR ''='' \<notin> set base64_alphabet"
  by (simp_all add: base64_alphabet_def)

lemma base64_digit_pad: "n < 64 \<Longrightarrow> base64_digit n \<noteq> CHR ''=''"
  using nth_mem[of n base64_alphabet] base64_alphabet_facts by (metis base64_digit_def)

lemma base64_length: "length (EncodeToString bs) = 4 * ((length bs + 2) div 3)"
proof (induction bs rule: EncodeToString.induct)
  case (4 a b c rest)
  have "(length (a # b # c # rest) + 2) div 3 = Suc ((length rest + 2) div 3)"
    by simp
  with 4 show ?case
    by simp
qed simp_all

text \<open>A reader of such strings, to show that the encoding loses nothing.\<close>

definition base64_value :: "char \<Rightarrow> nat" where
  "base64_value c = length (takeWhile (\<lambda>x. x \<noteq> c) base64_alphabet)"

fun base64_read :: "string \<Rightarrow> byte list" where
  "base64_read (p # q # r # s # rest) =
     (let a = of_nat (base64_value p * 4 + base64_value q div 16);
          b = of_nat (base64_value q mod 16 * 16 + base64_value r div 4);
          c = of_nat (base64_value r mod 4 * 64 + base64_value s)
      in if r = CHR ''='' then [a] else if s = CHR ''='' then [a, b] else a # b # c # base64_read rest)"
| "base64_read _ = []"

lemma base64_value_digit [simp]:
  assumes "n < 64"
  shows "base64_value (base64_digit n) = n"
proof -
  have "takeWhile (\<lambda>x. x \<noteq> base64_alphabet ! n) base64_alphabet = take n base64_alphabet"
    using assms base64_alphabet_facts
    by (intro takeWhile_eq_take_P_nth) (auto simp: nth_eq_iff_index_eq)
  then show ?thesis
    using assms base64_alphabet_facts by (simp add: base64_value_def base64_digit_def)
qed

lemma base64_bounds:
  "unat (x :: byte) div 4 < 64" "unat x mod 4 * 16 < 64" "unat x mod 4 * 16 + unat (y :: byte) div 16 < 64" "unat x mod 16 * 4 < 64"
  "unat x mod 16 * 4 + unat y div 64 < 64" "unat x mod 64 < 64" "unat x div 16 < 16" "unat x div 64 < 4"
proof -
  have "unat x < 256" "unat y < 256"
    using unsigned_less[of x, where ?'a = nat] unsigned_less[of y, where ?'a = nat] by simp_all
  then have "unat x div 4 < 64" "unat x div 16 < 16" "unat y div 16 < 16" "unat x div 64 < 4" "unat y div 64 < 4"
    by (simp_all add: less_mult_imp_div_less)
  moreover have "unat x mod 4 < 4" "unat x mod 16 < 16" "unat x mod 64 < 64"
    by simp_all
  ultimately show "unat (x :: byte) div 4 < 64" "unat x mod 4 * 16 < 64" "unat x mod 4 * 16 + unat (y :: byte) div 16 < 64"
    "unat x mod 16 * 4 < 64" "unat x mod 16 * 4 + unat y div 64 < 64" "unat x mod 64 < 64" "unat x div 16 < 16" "unat x div 64 < 4"
    by linarith+
qed

lemma base64_roundtrip: "base64_read (EncodeToString bs) = bs"
proof (induction bs rule: EncodeToString.induct)
  case (2 a)
  show ?case
    by (simp add: base64_bounds)
next
  case (3 a b)
  show ?case
    by (simp add: base64_bounds base64_digit_pad)
next
  case (4 a b c rest)
  then show ?case
    by (simp add: base64_bounds base64_digit_pad)
qed simp

end
