(* ===== verification/Ring.thy ===== *)
theory Ring
  imports GoStdlib
begin

text \<open>
  The consistent-hash ring of \<^verbatim>\<open>resolver.go\<close>: \<open>ConsistentHash\<close> with \<open>AddSlot\<close>, \<open>GetSlot\<close>,
  \<open>RemoveSlot\<close> and \<open>GetAllSlots\<close>. The Murmur3 function is third-party code, so every operation
  takes it as the argument \<open>sum32\<close>. The read/write lock makes each operation atomic.
  The lemmas show the ring invariant, that \<open>GetSlot\<close> is the clockwise successor, the
  monotonicity of \<open>AddSlot\<close> and \<open>RemoveSlot\<close>, and the panic of \<open>RemoveSlot\<close> on a short ring.
\<close>

section \<open>Model\<close>

type_synonym hash_fun = "byte list \<Rightarrow> u32"

record ConsistentHash =
  virtualNodes :: int
  ring :: "u32 list"
  vnodeToSlot :: "u32 \<rightharpoonup> string"

definition NewConsistentHash :: "int \<Rightarrow> ConsistentHash" where
  "NewConsistentHash n = \<lparr>virtualNodes = n, ring = [], vnodeToSlot = Map.empty\<rparr>"

definition hash32 :: "hash_fun \<Rightarrow> string \<Rightarrow> u32" where
  "hash32 sum32 key = sum32 (bytes_of_string key)"

definition vnodeName :: "string \<Rightarrow> nat \<Rightarrow> string" where
  "vnodeName slot i = slot @ ''#'' @ Itoa (int i)"

fun AddSlot_loop :: "hash_fun \<Rightarrow> string \<Rightarrow> nat list \<Rightarrow> ConsistentHash \<Rightarrow> ConsistentHash" where
  "AddSlot_loop sum32 slot [] ch = ch"
| "AddSlot_loop sum32 slot (i # is) ch =
     (let hash = hash32 sum32 (vnodeName slot i) in
      AddSlot_loop sum32 slot is
        (ch\<lparr>ring := ring ch @ [hash], vnodeToSlot := (vnodeToSlot ch)(hash \<mapsto> slot)\<rparr>))"

definition AddSlot :: "hash_fun \<Rightarrow> string \<Rightarrow> ConsistentHash \<Rightarrow> ConsistentHash" where
  "AddSlot sum32 slot ch =
     (let ch' = AddSlot_loop sum32 slot [0..<nat (virtualNodes ch)] ch
      in ch'\<lparr>ring := sort (ring ch')\<rparr>)"

text \<open>A missing key of a Go map reads as the zero value, here the empty string.\<close>

definition GetSlot :: "hash_fun \<Rightarrow> string \<Rightarrow> ConsistentHash \<Rightarrow> string" where
  "GetSlot sum32 key ch =
     (if length (ring ch) = 0 then ''''
      else
        let hash = hash32 sum32 key;
            idx = Search (length (ring ch)) (\<lambda>i. ring ch ! i \<ge> hash);
            idx = (if idx = length (ring ch) then 0 else idx)
        in case vnodeToSlot ch (ring ch ! idx) of None \<Rightarrow> '''' | Some s \<Rightarrow> s)"

fun RemoveSlot_hashes :: "hash_fun \<Rightarrow> string \<Rightarrow> nat list \<Rightarrow> (u32 \<Rightarrow> bool) \<Rightarrow> (u32 \<rightharpoonup> string)
    \<Rightarrow> (u32 \<Rightarrow> bool) \<times> (u32 \<rightharpoonup> string)" where
  "RemoveSlot_hashes sum32 slot [] rm m = (rm, m)"
| "RemoveSlot_hashes sum32 slot (i # is) rm m =
     (let hash = hash32 sum32 (vnodeName slot i) in
      RemoveSlot_hashes sum32 slot is (rm(hash := True)) (m(hash := None)))"

text \<open>
  \<^verbatim>\<open>make([]uint32, 0, len(ch.ring)-ch.virtualNodes)\<close> panics when the capacity is negative; the
  map entries are deleted by then and the ring is not rebuilt.
\<close>

definition RemoveSlot :: "hash_fun \<Rightarrow> string \<Rightarrow> ConsistentHash \<Rightarrow> unit outcome \<times> ConsistentHash" where
  "RemoveSlot sum32 slot ch =
     (let (hashesToRemove, m) =
            RemoveSlot_hashes sum32 slot [0..<nat (virtualNodes ch)] (\<lambda>_. False) (vnodeToSlot ch);
          ch' = ch\<lparr>vnodeToSlot := m\<rparr>
      in if int (length (ring ch)) - virtualNodes ch < 0
         then (Panic ''makeslice: cap out of range'', ch')
         else (Ret (), ch'\<lparr>ring := filter (\<lambda>hash. \<not> hashesToRemove hash) (ring ch)\<rparr>))"

text \<open>
  Go ranges over a map in an unspecified order: \<open>keys\<close> is the order of this run, an
  enumeration of the map's keys without repetition.
\<close>

fun GetAllSlots_loop :: "(u32 \<rightharpoonup> string) \<Rightarrow> u32 list \<Rightarrow> (string \<Rightarrow> bool) \<Rightarrow> string list \<Rightarrow> string list" where
  "GetAllSlots_loop m [] uniq slots = slots"
| "GetAllSlots_loop m (k # ks) uniq slots =
     (let slot = (case m k of None \<Rightarrow> '''' | Some s \<Rightarrow> s) in
      if \<not> uniq slot then GetAllSlots_loop m ks (uniq(slot := True)) (slots @ [slot])
      else GetAllSlots_loop m ks uniq slots)"

definition GetAllSlots :: "u32 list \<Rightarrow> ConsistentHash \<Rightarrow> string list" where
  "GetAllSlots keys ch = GetAllSlots_loop (vnodeToSlot ch) keys (\<lambda>_. False) []"

section \<open>Virtual node names\<close>

lemma hash_not_in_digits: "CHR ''#'' \<notin> set (digits n)"
  using digits_chars[of "CHR ''#''" n] by auto

lemma vnodeName_inj: "vnodeName s i = vnodeName t j \<longleftrightarrow> s = t \<and> i = j"
proof
  assume "vnodeName s i = vnodeName t j"
  then have "s @ CHR ''#'' # digits i = t @ CHR ''#'' # digits j"
    by (simp add: vnodeName_def Itoa_def)
  then have "rev (digits i) @ CHR ''#'' # rev s = rev (digits j) @ CHR ''#'' # rev t"
    by (metis append.assoc append_Cons append_Nil rev.simps(2) rev_append)
  then have "rev (digits i) = rev (digits j) \<and> rev s = rev t"
    by (subst (asm) split_at_first_unique) (auto simp: hash_not_in_digits)
  then show "s = t \<and> i = j" by simp
qed simp

text \<open>The hashes of a slot's virtual nodes.\<close>

definition vnode_hashes :: "hash_fun \<Rightarrow> int \<Rightarrow> string \<Rightarrow> u32 list" where
  "vnode_hashes sum32 n slot = map (\<lambda>i. hash32 sum32 (vnodeName slot i)) [0..<nat n]"

lemma length_vnode_hashes [simp]: "length (vnode_hashes sum32 n slot) = nat n"
  by (simp add: vnode_hashes_def)

section \<open>The loops in closed form\<close>

lemma AddSlot_loop_eq:
  "AddSlot_loop sum32 slot is ch =
     (let hs = map (\<lambda>i. hash32 sum32 (vnodeName slot i)) is in
      ch\<lparr>ring := ring ch @ hs,
         vnodeToSlot := (\<lambda>h. if h \<in> set hs then Some slot else vnodeToSlot ch h)\<rparr>)"
  by (induction "is" arbitrary: ch) (auto simp: Let_def fun_eq_iff)

lemma RemoveSlot_hashes_eq:
  "RemoveSlot_hashes sum32 slot is rm m =
     (let hs = map (\<lambda>i. hash32 sum32 (vnodeName slot i)) is in
      (\<lambda>h. h \<in> set hs \<or> rm h, \<lambda>h. if h \<in> set hs then None else m h))"
  by (induction "is" arbitrary: rm m) (auto simp: Let_def fun_eq_iff)

lemma AddSlot_eq:
  "AddSlot sum32 slot ch =
     (let hs = vnode_hashes sum32 (virtualNodes ch) slot in
      ch\<lparr>ring := sort (ring ch @ hs),
         vnodeToSlot := (\<lambda>h. if h \<in> set hs then Some slot else vnodeToSlot ch h)\<rparr>)"
  by (simp add: AddSlot_def AddSlot_loop_eq vnode_hashes_def Let_def)

lemma RemoveSlot_eq:
  "RemoveSlot sum32 slot ch =
     (let hs = vnode_hashes sum32 (virtualNodes ch) slot;
          ch' = ch\<lparr>vnodeToSlot := (\<lambda>h. if h \<in> set hs then None else vnodeToSlot ch h)\<rparr> in
      if int (length (ring ch)) < virtualNodes ch then (Panic ''makeslice: cap out of range'', ch')
      else (Ret (), ch'\<lparr>ring := filter (\<lambda>h. h \<notin> set hs) (ring ch)\<rparr>))"
  by (simp add: RemoveSlot_def RemoveSlot_hashes_eq vnode_hashes_def Let_def)

section \<open>The abstract ring: successor lookup\<close>

text \<open>
  The specification of the ring is a finite map from points to slots; a key belongs to the
  slot at the first point at or after its hash, wrapping around to the least point.
\<close>

definition successor :: "u32 set \<Rightarrow> u32 \<Rightarrow> u32" where
  "successor R h = (if {x \<in> R. h \<le> x} = {} then Min R else Min {x \<in> R. h \<le> x})"

definition ring_lookup :: "(u32 \<rightharpoonup> string) \<Rightarrow> u32 \<Rightarrow> string" where
  "ring_lookup m h = (if dom m = {} then '''' else the (m (successor (dom m) h)))"

lemma successor_in:
  assumes "finite R" "R \<noteq> {}"
  shows "successor R h \<in> R"
proof (cases "{x \<in> R. h \<le> x} = {}")
  case False
  with assms have "Min {x \<in> R. h \<le> x} \<in> {x \<in> R. h \<le> x}" by (intro Min_in) auto
  with False show ?thesis by (auto simp: successor_def)
qed (use assms in \<open>simp add: successor_def\<close>)

lemma successor_subset:
  assumes "A \<subseteq> B" "finite B" "successor B h \<in> A"
  shows "successor A h = successor B h"
proof (cases "{x \<in> B. h \<le> x} = {}")
  case True
  with assms have "Min A = Min B"
    by (intro Min_eqI) (auto simp: successor_def intro: finite_subset)
  moreover from True assms(1) have "{x \<in> A. h \<le> x} = {}" by auto
  ultimately show ?thesis using True by (simp add: successor_def)
next
  case False
  let ?y = "Min {x \<in> B. h \<le> x}"
  have y: "successor B h = ?y" using False by (auto simp: successor_def)
  have "?y \<in> {x \<in> B. h \<le> x}" using False assms(2) by (intro Min_in) auto
  with assms(3) y have yA: "?y \<in> {x \<in> A. h \<le> x}" by simp
  have "Min {x \<in> A. h \<le> x} = ?y"
    using yA assms(1,2) by (intro Min_eqI) (auto intro: finite_subset)
  with yA y show ?thesis by (auto simp: successor_def)
qed

lemma ring_lookup_ran: "finite (dom m) \<Longrightarrow> dom m \<noteq> {} \<Longrightarrow> ring_lookup m h \<in> ran m"
  using successor_in[of "dom m" h] by (auto simp: ring_lookup_def ran_def)

text \<open>Points added for one slot attract keys to that slot and move no key between other slots.\<close>

lemma ring_lookup_add:
  assumes "finite (dom m)" "finite H" "H \<noteq> {}"
  shows "ring_lookup (\<lambda>x. if x \<in> H then Some s else m x) h \<in> {s, ring_lookup m h}"
proof -
  let ?m = "\<lambda>x. if x \<in> H then Some s else m x"
  have dom: "dom ?m = dom m \<union> H" by (auto simp: dom_def)
  with assms have "successor (dom ?m) h \<in> dom ?m" by (intro successor_in) auto
  moreover have "successor (dom m) h = successor (dom ?m) h" if "successor (dom ?m) h \<notin> H"
    using that calculation assms by (intro successor_subset) (auto simp: dom)
  ultimately show ?thesis using assms(3) by (auto simp: ring_lookup_def dom)
qed

text \<open>Points taken away move only the keys that sat on them.\<close>

lemma ring_lookup_remove:
  assumes "finite (dom m)" "successor (dom m) h \<notin> H"
  shows "ring_lookup (\<lambda>x. if x \<in> H then None else m x) h = ring_lookup m h"
proof (cases "dom m = {}")
  case True
  then show ?thesis by (simp add: ring_lookup_def dom_def)
next
  case False
  let ?m = "\<lambda>x. if x \<in> H then None else m x"
  have dom: "dom ?m = dom m - H" by (auto simp: dom_def split: if_splits)
  have "successor (dom m) h \<in> dom ?m"
    using False assms successor_in[of "dom m" h] by (simp add: dom)
  moreover from this have "successor (dom ?m) h = successor (dom m) h"
    using assms(1) by (intro successor_subset) (auto simp: dom)
  ultimately show ?thesis using False assms(2) by (auto simp: ring_lookup_def dom)
qed

section \<open>The ring invariant\<close>

text \<open>
  The slice is sorted, its elements are exactly the keys of the map, and every key is the
  hash of a virtual node of the slot it is mapped to.
\<close>

definition ring_inv :: "hash_fun \<Rightarrow> ConsistentHash \<Rightarrow> bool" where
  "ring_inv sum32 ch \<longleftrightarrow>
     0 < virtualNodes ch \<and> sorted (ring ch) \<and> set (ring ch) = dom (vnodeToSlot ch) \<and>
     (\<forall>h s. vnodeToSlot ch h = Some s \<longrightarrow> h \<in> set (vnode_hashes sum32 (virtualNodes ch) s))"

definition ring_slots :: "ConsistentHash \<Rightarrow> string set" where
  "ring_slots ch = ran (vnodeToSlot ch)"

lemma NewConsistentHash_inv [inv_intros]: "0 < n \<Longrightarrow> ring_inv sum32 (NewConsistentHash n)"
  by (simp add: ring_inv_def NewConsistentHash_def)

lemma AddSlot_inv [inv_intros]: "ring_inv sum32 ch \<Longrightarrow> ring_inv sum32 (AddSlot sum32 slot ch)"
  by (auto simp: ring_inv_def AddSlot_eq Let_def dom_def split: if_splits)

lemma RemoveSlot_inv [inv_intros]:
  "ring_inv sum32 ch \<Longrightarrow> RemoveSlot sum32 slot ch = (Ret (), ch') \<Longrightarrow> ring_inv sum32 ch'"
  by (auto simp: ring_inv_def RemoveSlot_eq Let_def dom_def sorted_wrt_filter split: if_splits)

lemma virtualNodes_AddSlot [simp, frame_simps]: "virtualNodes (AddSlot sum32 slot ch) = virtualNodes ch"
  by (simp add: AddSlot_eq Let_def)

lemma virtualNodes_RemoveSlot [simp, frame_simps]:
  "virtualNodes (snd (RemoveSlot sum32 slot ch)) = virtualNodes ch"
  by (simp add: RemoveSlot_eq Let_def)

lemma vnode_hashes_Nil [simp]: "vnode_hashes sum32 n s = [] \<longleftrightarrow> n \<le> 0"
  by (simp add: vnode_hashes_def)

lemma ring_inv_finite: "ring_inv sum32 ch \<Longrightarrow> finite (dom (vnodeToSlot ch))"
  unfolding ring_inv_def by (metis List.finite_set)

section \<open>Binary search refines successor lookup\<close>

lemma sorted_ge_mono:
  fixes xs :: "u32 list"
  shows "sorted xs \<Longrightarrow> \<forall>a b. a \<le> b \<longrightarrow> b < length xs \<longrightarrow> v \<le> xs ! a \<longrightarrow> v \<le> xs ! b"
  by (meson order.trans sorted_nth_mono)

lemma Search_sorted:
  fixes xs :: "u32 list"
  assumes "sorted xs"
  shows "filter (\<lambda>x. v \<le> x) xs = drop (Search (length xs) (\<lambda>i. xs ! i \<ge> v)) xs"
proof -
  let ?i = "Search (length xs) (\<lambda>i. xs ! i \<ge> v)"
  note S = Search_correct[OF sorted_ge_mono[OF assms, of v]]
  show ?thesis
  proof (rule sorted_first_ge_unique[OF assms S(1)])
    show "\<forall>k<?i. xs ! k < v" using S(2) by (simp add: not_le)
  qed (rule S(3))
qed

lemma Search_successor:
  fixes xs :: "u32 list"
  assumes "sorted xs" "xs \<noteq> []"
  shows "(let idx = Search (length xs) (\<lambda>i. xs ! i \<ge> v)
          in xs ! (if idx = length xs then 0 else idx)) = successor (set xs) v"
proof -
  let ?i = "Search (length xs) (\<lambda>i. xs ! i \<ge> v)"
  have f: "filter (\<lambda>x. v \<le> x) xs = drop ?i xs" by (rule Search_sorted) (rule assms)
  have le: "?i \<le> length xs"
    by (rule Search_correct(1)[OF sorted_ge_mono[OF assms(1)]])
  have set: "{x \<in> set xs. v \<le> x} = set (drop ?i xs)" by (simp flip: f)
  show ?thesis
  proof (cases "?i = length xs")
    case True
    with assms set show ?thesis
      using hd_sorted_Min[of xs] by (simp add: successor_def Let_def hd_conv_nth)
  next
    case False
    with le have lt: "?i < length xs" by simp
    then have "drop ?i xs \<noteq> []" "hd (drop ?i xs) = xs ! ?i" by (auto simp: hd_drop_conv_nth)
    moreover have "hd (drop ?i xs) = Min (set (drop ?i xs))"
      using assms(1) calculation by (intro hd_sorted_Min) (auto simp: sorted_wrt_drop)
    ultimately show ?thesis using False set by (simp add: successor_def Let_def)
  qed
qed

lemma GetSlot_refines:
  assumes "ring_inv sum32 ch"
  shows "GetSlot sum32 key ch = ring_lookup (vnodeToSlot ch) (hash32 sum32 key)"
proof (cases "ring ch = []")
  case True
  with assms show ?thesis by (simp add: GetSlot_def ring_lookup_def ring_inv_def)
next
  case False
  with assms have srt: "sorted (ring ch)" and dom: "set (ring ch) = dom (vnodeToSlot ch)"
    by (auto simp: ring_inv_def)
  have "successor (set (ring ch)) (hash32 sum32 key) \<in> set (ring ch)"
    using False by (intro successor_in) auto
  then have "successor (set (ring ch)) (hash32 sum32 key) \<in> dom (vnodeToSlot ch)"
    unfolding dom .
  moreover have "dom (vnodeToSlot ch) \<noteq> {}" using False dom by (metis set_empty)
  ultimately show ?thesis
    using False Search_successor[OF srt False, of "hash32 sum32 key"] dom
    by (auto simp: GetSlot_def ring_lookup_def Let_def)
qed

section \<open>The interface the virtual namespaces rely on\<close>

text \<open>
  What a client of the ring may assume: a lookup returns one of the slots, and adding a slot
  moves keys to that slot only. \<open>universe\<close> is the set of slot names the client uses.
\<close>

locale slot_ring =
  fixes universe :: "string set"
    and add :: "string \<Rightarrow> 'r \<Rightarrow> 'r"
    and get :: "string \<Rightarrow> 'r \<Rightarrow> string"
    and slots :: "'r \<Rightarrow> string set"
    and invar :: "'r \<Rightarrow> bool"
  assumes invar_add: "s \<in> universe \<Longrightarrow> invar r \<Longrightarrow> invar (add s r)"
    and slots_add: "s \<in> universe \<Longrightarrow> invar r \<Longrightarrow> s \<in> slots (add s r) \<and> slots (add s r) \<subseteq> insert s (slots r)"
    and get_member: "invar r \<Longrightarrow> slots r \<noteq> {} \<Longrightarrow> get k r \<in> slots r"
    and get_none: "invar r \<Longrightarrow> slots r = {} \<Longrightarrow> get k r = ''''"
    and get_add: "s \<in> universe \<Longrightarrow> invar r \<Longrightarrow> get k (add s r) \<in> {s, get k r}"
begin

lemma invar_fold_add: "set ss \<subseteq> universe \<Longrightarrow> invar r \<Longrightarrow> invar (fold add ss r)"
  by (induction ss arbitrary: r) (auto intro: invar_add)

lemma get_fold_add:
  "set ss \<subseteq> universe \<Longrightarrow> invar r \<Longrightarrow> get k (fold add ss r) \<in> insert (get k r) (set ss)"
proof (induction ss arbitrary: r)
  case (Cons s ss)
  then have "get k (fold add ss (add s r)) \<in> insert (get k (add s r)) (set ss)"
    by (intro Cons.IH) (auto intro: invar_add)
  moreover have "get k (add s r) \<in> {s, get k r}" using Cons.prems by (auto dest: get_add)
  ultimately show ?case by auto
qed simp

lemma get_fold_add_new:
  assumes "set ss \<subseteq> universe" "invar r" "slots r = {}" "ss \<noteq> []"
  shows "get k (fold add ss r) \<in> set ss"
proof -
  obtain s ss' where ss: "ss = s # ss'" using assms(4) by (cases ss) auto
  have s: "s \<in> universe" using assms(1) ss by simp
  have "slots (add s r) = {s}" using slots_add[OF s assms(2)] assms(3) by auto
  then have "get k (add s r) = s" using get_member[OF invar_add[OF s assms(2)]] by auto
  moreover have "get k (fold add ss' (add s r)) \<in> insert (get k (add s r)) (set ss')"
    using assms(1) ss s by (intro get_fold_add) (auto intro: invar_add assms(2))
  ultimately show ?thesis using ss by auto
qed

end

text \<open>
  With removal: for slot names whose virtual nodes do not collide the ring is determined by
  its set of slots, so no history of additions and removals shows in a lookup.
\<close>

locale draining_ring = slot_ring +
  fixes remove :: "string \<Rightarrow> 'r \<Rightarrow> 'r"
  assumes slots_add_eq: "s \<in> universe \<Longrightarrow> invar r \<Longrightarrow> slots (add s r) = insert s (slots r)"
    and invar_remove: "s \<in> universe \<Longrightarrow> invar r \<Longrightarrow> invar (remove s r)"
    and slots_remove: "s \<in> universe \<Longrightarrow> invar r \<Longrightarrow> slots (remove s r) = slots r - {s}"
    and get_remove: "s \<in> universe \<Longrightarrow> invar r \<Longrightarrow> get k r \<noteq> s \<Longrightarrow> get k (remove s r) = get k r"
    and get_ext: "invar r \<Longrightarrow> invar r' \<Longrightarrow> slots r = slots r' \<Longrightarrow> get k r = get k r'"
begin

lemma get_remove_member:
  assumes "s \<in> universe" "invar r" "slots r - {s} \<noteq> {}"
  shows "get k (remove s r) \<in> slots r - {s}"
  using get_member[OF invar_remove[OF assms(1,2)]] slots_remove[OF assms(1,2)] assms(3) by simp

lemma get_remove_add:
  assumes "s \<in> universe" "invar r" "s \<notin> slots r"
  shows "get k (remove s (add s r)) = get k r"
  using assms by (intro get_ext) (auto simp: invar_add invar_remove slots_remove slots_add_eq)

lemma get_add_remove:
  assumes "s \<in> universe" "invar r" "s \<in> slots r"
  shows "get k (add s (remove s r)) = get k r"
  using assms by (intro get_ext) (auto simp: invar_add invar_remove slots_remove slots_add_eq)

end

interpretation ring: slot_ring UNIV "AddSlot sum32" "GetSlot sum32" ring_slots "ring_inv sum32"
  for sum32
proof
  fix s r assume inv: "ring_inv sum32 r"
  then show "ring_inv sum32 (AddSlot sum32 s r)" by (rule AddSlot_inv)
  show "s \<in> ring_slots (AddSlot sum32 s r) \<and> ring_slots (AddSlot sum32 s r) \<subseteq> insert s (ring_slots r)"
  proof
    have "vnode_hashes sum32 (virtualNodes r) s \<noteq> []" using inv by (auto simp: ring_inv_def)
    then obtain h where "h \<in> set (vnode_hashes sum32 (virtualNodes r) s)"
      by (meson last_in_set)
    then show "s \<in> ring_slots (AddSlot sum32 s r)"
      by (auto simp: ring_slots_def AddSlot_eq Let_def ran_def)
    show "ring_slots (AddSlot sum32 s r) \<subseteq> insert s (ring_slots r)"
      by (auto simp: ring_slots_def AddSlot_eq Let_def ran_def)
  qed
next
  fix r k assume inv: "ring_inv sum32 r"
  note look = GetSlot_refines[OF inv, of k] ring_inv_finite[OF inv]
  { assume "ring_slots r \<noteq> {}"
    then have "dom (vnodeToSlot r) \<noteq> {}" by (auto simp: ring_slots_def)
    with look show "GetSlot sum32 k r \<in> ring_slots r"
      by (simp add: ring_slots_def ring_lookup_ran) }
  { assume "ring_slots r = {}"
    then have "dom (vnodeToSlot r) = {}" by (auto simp: ring_slots_def ran_def dom_def)
    with look show "GetSlot sum32 k r = ''''" by (simp add: ring_lookup_def) }
next
  fix s r k assume inv: "ring_inv sum32 r"
  let ?H = "set (vnode_hashes sum32 (virtualNodes r) s)"
  have "vnodeToSlot (AddSlot sum32 s r) = (\<lambda>h. if h \<in> ?H then Some s else vnodeToSlot r h)"
    by (simp add: AddSlot_eq Let_def)
  moreover have "?H \<noteq> {}" using inv by (auto simp: ring_inv_def)
  ultimately show "GetSlot sum32 k (AddSlot sum32 s r) \<in> {s, GetSlot sum32 k r}"
    using ring_lookup_add[OF ring_inv_finite[OF inv], of ?H s]
      GetSlot_refines[OF inv] GetSlot_refines[OF AddSlot_inv[OF inv]] by simp
qed

section \<open>Rings without collisions\<close>

text \<open>
  \<open>collision_free\<close>: the virtual nodes of different slots of \<open>S\<close> hash to different points.
  \<open>ring_full\<close>: all points of every slot are on the ring.
\<close>

definition collision_free :: "hash_fun \<Rightarrow> int \<Rightarrow> string set \<Rightarrow> bool" where
  "collision_free sum32 n S \<longleftrightarrow>
     (\<forall>s\<in>S. \<forall>t\<in>S. s \<noteq> t \<longrightarrow> set (vnode_hashes sum32 n s) \<inter> set (vnode_hashes sum32 n t) = {})"

definition ring_full :: "hash_fun \<Rightarrow> int \<Rightarrow> string set \<Rightarrow> ConsistentHash \<Rightarrow> bool" where
  "ring_full sum32 n S ch \<longleftrightarrow>
     ring_inv sum32 ch \<and> virtualNodes ch = n \<and> collision_free sum32 n S \<and> ring_slots ch \<subseteq> S \<and>
     (\<forall>s\<in>ring_slots ch. mset (vnode_hashes sum32 n s) \<subseteq># mset (ring ch))"

lemma NewConsistentHash_full [inv_intros]:
  "0 < n \<Longrightarrow> collision_free sum32 n S \<Longrightarrow> ring_full sum32 n S (NewConsistentHash n)"
  by (simp add: ring_full_def NewConsistentHash_inv) (simp add: NewConsistentHash_def ring_slots_def)

lemma ring_full_points:
  assumes "ring_full sum32 n S ch"
  shows "vnodeToSlot ch h = Some s \<longleftrightarrow> s \<in> ring_slots ch \<and> h \<in> set (vnode_hashes sum32 n s)"
proof
  assume "vnodeToSlot ch h = Some s"
  with assms show "s \<in> ring_slots ch \<and> h \<in> set (vnode_hashes sum32 n s)"
    by (auto simp: ring_full_def ring_inv_def ring_slots_def ran_def)
next
  assume s: "s \<in> ring_slots ch \<and> h \<in> set (vnode_hashes sum32 n s)"
  with assms have "h \<in> set (ring ch)" unfolding ring_full_def
    by (metis mset_subset_eqD set_mset_mset)
  with assms obtain t where t: "vnodeToSlot ch h = Some t"
    by (auto simp: ring_full_def ring_inv_def)
  with assms have "t \<in> ring_slots ch" "h \<in> set (vnode_hashes sum32 n t)"
    by (auto simp: ring_full_def ring_inv_def ring_slots_def ran_def)
  with s assms have "t = s" by (auto simp: ring_full_def collision_free_def)
  with t show "vnodeToSlot ch h = Some s" by simp
qed

lemma ring_full_ring_empty: "ring_full sum32 n S ch \<Longrightarrow> ring ch = [] \<longleftrightarrow> ring_slots ch = {}"
  by (force simp: ring_full_def ring_inv_def ring_slots_def ran_def dom_def)

text \<open>On such a ring the capacity computed by \<open>RemoveSlot\<close> is negative only if the ring is empty.\<close>

lemma ring_full_length:
  assumes "ring_full sum32 n S ch" "ring ch \<noteq> []"
  shows "virtualNodes ch \<le> int (length (ring ch))"
proof -
  obtain s where "s \<in> ring_slots ch" using assms ring_full_ring_empty by blast
  with assms have "mset (vnode_hashes sum32 n s) \<subseteq># mset (ring ch)" by (simp add: ring_full_def)
  then have "nat n \<le> length (ring ch)" by (metis length_vnode_hashes size_mset size_mset_mono)
  with assms show ?thesis by (simp add: ring_full_def)
qed

lemma ring_slots_AddSlot:
  assumes "ring_full sum32 n S ch" "s \<in> S"
  shows "ring_slots (AddSlot sum32 s ch) = insert s (ring_slots ch)"
proof -
  have n: "virtualNodes ch = n" "0 < n" using assms by (auto simp: ring_full_def ring_inv_def)
  have "t \<in> ring_slots (AddSlot sum32 s ch)" if t: "t \<in> ring_slots ch" "t \<noteq> s" for t
  proof -
    obtain h where h: "vnodeToSlot ch h = Some t" using t by (auto simp: ring_slots_def ran_def)
    then have "h \<in> set (vnode_hashes sum32 n t)" using ring_full_points[OF assms(1)] by blast
    then have "h \<notin> set (vnode_hashes sum32 n s)"
      using t assms by (auto simp: ring_full_def collision_free_def)
    with h n show ?thesis by (auto simp: ring_slots_def AddSlot_eq Let_def ran_def)
  qed
  moreover have "ring_inv sum32 ch" using assms by (simp add: ring_full_def)
  ultimately show ?thesis using ring.slots_add[of s sum32 ch] by auto
qed

lemma AddSlot_full [inv_intros]:
  assumes "ring_full sum32 n S ch" "s \<in> S"
  shows "ring_full sum32 n S (AddSlot sum32 s ch)"
proof -
  have n: "virtualNodes ch = n" using assms by (simp add: ring_full_def)
  have "mset (ring (AddSlot sum32 s ch)) = mset (ring ch) + mset (vnode_hashes sum32 n s)"
    using n by (simp add: AddSlot_eq Let_def)
  then show ?thesis using assms
    by (auto simp: ring_full_def AddSlot_inv ring_slots_AddSlot[OF assms]
        intro: subset_mset.trans)
qed

lemma RemoveSlot_empty:
  assumes "ring_full sum32 n S ch" "ring ch = []"
  shows "RemoveSlot sum32 s ch = (Panic ''makeslice: cap out of range'', ch)"
proof -
  have "vnodeToSlot ch = Map.empty" "0 < virtualNodes ch"
    using assms by (auto simp: ring_full_def ring_inv_def)
  then show ?thesis using assms(2)
    by (cases ch) (simp add: RemoveSlot_eq Let_def cong: if_cong)
qed

lemma RemoveSlot_full_Ret:
  assumes "ring_full sum32 n S ch" "ring ch \<noteq> []"
  shows "RemoveSlot sum32 s ch = (Ret (), snd (RemoveSlot sum32 s ch))"
  using ring_full_length[OF assms] by (simp add: RemoveSlot_eq Let_def)

lemma ring_slots_RemoveSlot:
  assumes "ring_full sum32 n S ch" "s \<in> S"
  shows "ring_slots (snd (RemoveSlot sum32 s ch)) = ring_slots ch - {s}"
proof -
  have n: "virtualNodes ch = n" using assms by (simp add: ring_full_def)
  have eq: "vnodeToSlot (snd (RemoveSlot sum32 s ch)) =
      (\<lambda>h. if h \<in> set (vnode_hashes sum32 n s) then None else vnodeToSlot ch h)"
    by (simp add: RemoveSlot_eq Let_def n)
  have "h \<notin> set (vnode_hashes sum32 n s)" if "vnodeToSlot ch h = Some t" "t \<noteq> s" for h t
    using that ring_full_points[OF assms(1), of h t] assms
    by (auto simp: ring_full_def collision_free_def)
  moreover have "h \<in> set (vnode_hashes sum32 n s)" if "vnodeToSlot ch h = Some s" for h
    using that ring_full_points[OF assms(1)] by blast
  ultimately show ?thesis
    unfolding ring_slots_def eq ran_def by (auto split: if_splits)
qed

lemma RemoveSlot_full [inv_intros]:
  assumes "ring_full sum32 n S ch" "s \<in> S"
  shows "ring_full sum32 n S (snd (RemoveSlot sum32 s ch))"
proof (cases "ring ch = []")
  case True
  with assms RemoveSlot_empty show ?thesis by simp
next
  case False
  let ?H = "set (vnode_hashes sum32 n s)"
  let ?ch = "snd (RemoveSlot sum32 s ch)"
  have n: "virtualNodes ch = n" using assms by (simp add: ring_full_def)
  have ring: "ring ?ch = filter (\<lambda>h. h \<notin> ?H) (ring ch)"
    using ring_full_length[OF assms(1) False] n by (simp add: RemoveSlot_eq Let_def)
  have "mset (vnode_hashes sum32 n t) \<subseteq># mset (ring ?ch)" if t: "t \<in> ring_slots ch - {s}" for t
  proof -
    have "filter (\<lambda>h. h \<notin> ?H) (vnode_hashes sum32 n t) = vnode_hashes sum32 n t"
      using t assms by (intro filter_True) (auto simp: ring_full_def collision_free_def)
    moreover have "mset (vnode_hashes sum32 n t) \<subseteq># mset (ring ch)"
      using t assms by (simp add: ring_full_def)
    ultimately show ?thesis unfolding ring mset_filter
      by (metis multiset_filter_mono mset_filter)
  qed
  moreover have "ring_inv sum32 ?ch"
    using assms RemoveSlot_inv[OF _ RemoveSlot_full_Ret[OF assms(1) False]] by (simp add: ring_full_def)
  ultimately show ?thesis using assms ring_slots_RemoveSlot[OF assms] by (auto simp: ring_full_def)
qed

interpretation full: draining_ring S "AddSlot sum32" "GetSlot sum32" ring_slots "ring_full sum32 n S"
    "\<lambda>s ch. snd (RemoveSlot sum32 s ch)"
  for S sum32 n
proof
  fix s r assume s: "s \<in> S" and r: "ring_full sum32 n S r"
  have inv: "ring_inv sum32 r" using r by (simp add: ring_full_def)
  show "ring_full sum32 n S (AddSlot sum32 s r)" using r s by (rule AddSlot_full)
  show "s \<in> ring_slots (AddSlot sum32 s r) \<and> ring_slots (AddSlot sum32 s r) \<subseteq> insert s (ring_slots r)"
    by (rule ring.slots_add[OF UNIV_I inv])
  show "ring_slots (AddSlot sum32 s r) = insert s (ring_slots r)" by (rule ring_slots_AddSlot[OF r s])
  show "ring_full sum32 n S (snd (RemoveSlot sum32 s r))" by (rule RemoveSlot_full[OF r s])
  show "ring_slots (snd (RemoveSlot sum32 s r)) = ring_slots r - {s}" by (rule ring_slots_RemoveSlot[OF r s])
  fix k
  show "GetSlot sum32 k (AddSlot sum32 s r) \<in> {s, GetSlot sum32 k r}"
    by (rule ring.get_add[OF UNIV_I inv])
  assume "GetSlot sum32 k r \<noteq> s"
  then have ne: "ring_lookup (vnodeToSlot r) (hash32 sum32 k) \<noteq> s" by (simp add: GetSlot_refines[OF inv])
  let ?x = "successor (dom (vnodeToSlot r)) (hash32 sum32 k)"
  show "GetSlot sum32 k (snd (RemoveSlot sum32 s r)) = GetSlot sum32 k r"
  proof (cases "dom (vnodeToSlot r) = {}")
    case True
    then have "ring_slots r = {}" by (simp add: ring_slots_def)
    then show ?thesis using RemoveSlot_empty[OF r] ring_full_ring_empty[OF r] by simp
  next
    case False
    obtain t where t: "vnodeToSlot r ?x = Some t"
      using successor_in[OF ring_inv_finite[OF inv] False] by blast
    with ne False have "t \<noteq> s" by (simp add: ring_lookup_def)
    with t have "?x \<notin> set (vnode_hashes sum32 n s)"
      using ring_full_points[OF r, of ?x t] r s by (auto simp: ring_full_def collision_free_def)
    from ring_lookup_remove[OF ring_inv_finite[OF inv] this]
    have "ring_lookup (vnodeToSlot (snd (RemoveSlot sum32 s r))) (hash32 sum32 k)
        = ring_lookup (vnodeToSlot r) (hash32 sum32 k)"
      using r by (simp add: RemoveSlot_eq Let_def ring_full_def)
    moreover have "ring_inv sum32 (snd (RemoveSlot sum32 s r))"
      using RemoveSlot_full[OF r s] by (simp add: ring_full_def)
    ultimately show ?thesis by (simp add: GetSlot_refines inv)
  qed
next
  fix r k assume r: "ring_full sum32 n S r"
  then have inv: "ring_inv sum32 r" by (simp add: ring_full_def)
  show "ring_slots r \<noteq> {} \<Longrightarrow> GetSlot sum32 k r \<in> ring_slots r" by (rule ring.get_member[OF inv])
  show "ring_slots r = {} \<Longrightarrow> GetSlot sum32 k r = ''''" by (rule ring.get_none[OF inv])
  fix r' assume r': "ring_full sum32 n S r'" and eq: "ring_slots r = ring_slots r'"
  have "vnodeToSlot r h = Some s \<longleftrightarrow> vnodeToSlot r' h = Some s" for h s
    using ring_full_points[OF r, of h s] ring_full_points[OF r', of h s] eq by simp
  then have "vnodeToSlot r h = vnodeToSlot r' h" for h
    by (metis not_None_eq)
  then have "vnodeToSlot r = vnodeToSlot r'" ..
  moreover have "ring_inv sum32 r'" using r' by (simp add: ring_full_def)
  ultimately show "GetSlot sum32 k r = GetSlot sum32 k r'" by (simp add: GetSlot_refines inv)
qed

section \<open>Listing the slots\<close>

lemma GetAllSlots_loop_spec:
  assumes "distinct slots" "\<forall>s. uniq s \<longleftrightarrow> s \<in> set slots" "set ks \<subseteq> dom m"
  shows "distinct (GetAllSlots_loop m ks uniq slots) \<and>
    set (GetAllSlots_loop m ks uniq slots) = set slots \<union> {s. \<exists>k\<in>set ks. m k = Some s}"
  using assms by (induction m ks uniq slots rule: GetAllSlots_loop.induct) (auto simp: Let_def)

lemma GetAllSlots_spec:
  assumes "set keys = dom (vnodeToSlot ch)"
  shows "distinct (GetAllSlots keys ch)" "set (GetAllSlots keys ch) = ring_slots ch"
  using GetAllSlots_loop_spec[of "[]" "\<lambda>_. False" keys "vnodeToSlot ch"] assms
  by (auto simp: GetAllSlots_def ring_slots_def ran_def dom_def)

section \<open>Histories of a ring\<close>

datatype ring_op = Add_slot string | Remove_slot string

fun op_target :: "ring_op \<Rightarrow> string" where
  "op_target (Add_slot s) = s"
| "op_target (Remove_slot s) = s"

fun apply_ring :: "hash_fun \<Rightarrow> ring_op \<Rightarrow> ConsistentHash \<Rightarrow> ConsistentHash" where
  "apply_ring sum32 (Add_slot s) ch = AddSlot sum32 s ch"
| "apply_ring sum32 (Remove_slot s) ch = snd (RemoveSlot sum32 s ch)"

fun apply_set :: "ring_op \<Rightarrow> string set \<Rightarrow> string set" where
  "apply_set (Add_slot s) A = insert s A"
| "apply_set (Remove_slot s) A = A - {s}"

lemma ring_history:
  assumes "op_target ` set ops \<subseteq> S" "ring_full sum32 n S ch"
  shows "ring_full sum32 n S (fold (apply_ring sum32) ops ch) \<and>
    ring_slots (fold (apply_ring sum32) ops ch) = fold apply_set ops (ring_slots ch)"
  using assms
proof (induction ops arbitrary: ch)
  case (Cons x ops)
  have "ring_full sum32 n S (apply_ring sum32 x ch) \<and> ring_slots (apply_ring sum32 x ch) = apply_set x (ring_slots ch)"
    using Cons.prems by (cases x) (auto simp: AddSlot_full RemoveSlot_full ring_slots_AddSlot ring_slots_RemoveSlot)
  with Cons show ?case by simp
qed simp

text \<open>A hash function for examples: names that begin with different characters never collide.\<close>

definition first_byte :: hash_fun where
  "first_byte bs = (case bs of [] \<Rightarrow> 0 | b # _ \<Rightarrow> ucast b)"

lemma is_up_byte: "is_up (ucast :: byte \<Rightarrow> u32)"
  by (simp add: is_up_def source_size_def target_size_def word_size)

lemma first_byte_collision_free:
  assumes "S \<subseteq> {s. s \<noteq> ''''}" "\<forall>s\<in>S. \<forall>t\<in>S. hd s = hd t \<longrightarrow> s = t"
  shows "collision_free first_byte n S"
proof -
  have h: "h = ucast (of_nat (of_char (hd s)) :: byte)" if "h \<in> set (vnode_hashes first_byte n s)" "s \<noteq> ''''" for h s
    using that by (cases s) (auto simp: vnode_hashes_def hash32_def vnodeName_def first_byte_def bytes_of_string_def)
  have inj: "c = d" if "(ucast (of_nat (of_char c) :: byte) :: u32) = ucast (of_nat (of_char d) :: byte)" for c d
  proof -
    have "(of_nat (of_char c) :: byte) = of_nat (of_char d)" using that by (metis ucast_up_ucast_id is_up_byte)
    then have "bytes_of_string [c] = bytes_of_string [d]" by (simp add: bytes_of_string_def)
    then show ?thesis by (metis list.inject string_of_bytes_of_string)
  qed
  show ?thesis unfolding collision_free_def
  proof (intro ballI impI equals0I)
    fix s t x assume st: "s \<in> S" "t \<in> S" "s \<noteq> t" and x: "x \<in> set (vnode_hashes first_byte n s) \<inter> set (vnode_hashes first_byte n t)"
    then have "hd s = hd t" using h[of x s] h[of x t] inj assms(1) by auto
    with st assms(2) show False by blast
  qed
qed


section \<open>Rings without panics\<close>

text \<open>A history in which every \<open>RemoveSlot\<close> returns.\<close>

fun clean_history :: "hash_fun \<Rightarrow> ring_op list \<Rightarrow> ConsistentHash \<Rightarrow> bool" where
  "clean_history sum32 [] ch = True"
| "clean_history sum32 (Add_slot s # ops) ch = clean_history sum32 ops (AddSlot sum32 s ch)"
| "clean_history sum32 (Remove_slot s # ops) ch =
     (\<not> is_panic (fst (RemoveSlot sum32 s ch)) \<and> clean_history sum32 ops (snd (RemoveSlot sum32 s ch)))"

lemma RemoveSlot_Ret: "\<not> is_panic (fst (RemoveSlot sum32 s ch)) \<Longrightarrow> RemoveSlot sum32 s ch = (Ret (), snd (RemoveSlot sum32 s ch))"
  by (auto simp: RemoveSlot_eq Let_def)

lemma clean_history_inv:
  "clean_history sum32 ops ch \<Longrightarrow> ring_inv sum32 ch \<Longrightarrow> ring_inv sum32 (fold (apply_ring sum32) ops ch)"
proof (induction sum32 ops ch rule: clean_history.induct)
  case (3 sum32 s ops ch)
  then show ?case using RemoveSlot_inv[OF _ RemoveSlot_Ret, of sum32 ch s] by simp
qed (auto intro: AddSlot_inv)

lemma ring_full_two:
  "ring_full first_byte 2 {''a'', ''b''} (AddSlot first_byte ''b'' (AddSlot first_byte ''a'' (NewConsistentHash 2)))"
  by (intro AddSlot_full NewConsistentHash_full first_byte_collision_free) auto

lemma ring_slots_two: "ring_slots (AddSlot first_byte ''b'' (AddSlot first_byte ''a'' (NewConsistentHash 2))) = {''b'', ''a''}"
proof -
  have one: "ring_full first_byte 2 {''a'', ''b''} (AddSlot first_byte ''a'' (NewConsistentHash 2))"
    "ring_full first_byte 2 {''a'', ''b''} (NewConsistentHash 2)"
    by (intro AddSlot_full NewConsistentHash_full first_byte_collision_free; auto)+
  have "ring_slots (NewConsistentHash 2) = {}" by (simp add: ring_slots_def NewConsistentHash_def)
  then show ?thesis using ring_slots_AddSlot[OF one(1), of "''b''"] ring_slots_AddSlot[OF one(2), of "''a''"] by simp
qed

section \<open>Properties\<close>

text \<open>
  C18: After any history of \<open>AddSlot\<close> and returning \<open>RemoveSlot\<close> calls on a new ring, under any hash
  function, collisions included, the slice is sorted and holds exactly the keys of the map,
  and the binary search of \<open>GetSlot\<close> returns the slot at the first virtual node at or after the
  key's hash, wrapping to the least one (the empty string on an empty ring).
\<close>

theorem GetSlot_clockwise:
  assumes "0 < n" "clean_history sum32 ops (NewConsistentHash n)"
  defines "ch \<equiv> fold (apply_ring sum32) ops (NewConsistentHash n)"
  shows "sorted (ring ch) \<and> set (ring ch) = dom (vnodeToSlot ch) \<and>
    GetSlot sum32 key ch = ring_lookup (vnodeToSlot ch) (hash32 sum32 key)"
proof -
  have "ring_inv sum32 ch" unfolding ch_def using assms(1,2) by (intro clean_history_inv NewConsistentHash_inv)
  then show ?thesis by (simp add: GetSlot_refines) (simp add: ring_inv_def)
qed

theorem GetSlot_clockwise_witness:
  "clean_history first_byte [Add_slot ''a'', Add_slot ''b'', Remove_slot ''a''] (NewConsistentHash 2) \<and>
   GetSlot first_byte ''a-key'' (fold (apply_ring first_byte) [Add_slot ''a'', Add_slot ''b'', Remove_slot ''a''] (NewConsistentHash 2))
     = ring_lookup (vnodeToSlot (fold (apply_ring first_byte) [Add_slot ''a'', Add_slot ''b'', Remove_slot ''a''] (NewConsistentHash 2)))
         (hash32 first_byte ''a-key'') \<and>
   GetSlot first_byte ''a-key'' (fold (apply_ring first_byte) [Add_slot ''a'', Add_slot ''b'', Remove_slot ''a''] (NewConsistentHash 2)) = ''b''"
proof -
  have h: "clean_history first_byte [Add_slot ''a'', Add_slot ''b'', Remove_slot ''a''] (NewConsistentHash 2)"
    by code_simp
  have g: "GetSlot first_byte ''a-key'' (fold (apply_ring first_byte) [Add_slot ''a'', Add_slot ''b'', Remove_slot ''a''] (NewConsistentHash 2)) = ''b''"
    by code_simp
  show ?thesis using GetSlot_clockwise[OF _ h, of "''a-key''"] h g by (simp del: fold_simps clean_history.simps)
qed

text \<open>
  C19: Adding a slot moves keys to that slot only: whatever the hash function, a key is afterwards
  served by the new slot or by the one that served it before, and the ring stays well-formed.
\<close>

theorem AddSlot_moves_to_new_only:
  assumes "ring_inv sum32 ch"
  shows "ring_inv sum32 (AddSlot sum32 s ch) \<and> s \<in> ring_slots (AddSlot sum32 s ch) \<and>
    GetSlot sum32 k (AddSlot sum32 s ch) \<in> {s, GetSlot sum32 k ch}"
  using ring.invar_add[OF UNIV_I assms] ring.slots_add[OF UNIV_I assms] ring.get_add[OF UNIV_I assms] by blast

theorem AddSlot_moves_to_new_only_witness:
  "GetSlot first_byte ''b-key'' (AddSlot first_byte ''c'' (NewConsistentHash 2)) \<in> {''c'', GetSlot first_byte ''b-key'' (NewConsistentHash 2)}"
  using AddSlot_moves_to_new_only[OF NewConsistentHash_inv[of 2 first_byte], of "''c''" "''b-key''"] by simp

text \<open>
  C20: Removing a slot from a ring that has at least one, where the names of the slots are collision-free, returns and
  leaves every key of another slot where it is. The keys of the removed slot go to slots that remain; when it was the only
  one, every key goes to the empty string, which stands for no slot.
\<close>

theorem RemoveSlot_moves_own_keys_only:
  assumes "ring_full sum32 n S ch" "s \<in> S" "ring_slots ch \<noteq> {}"
  shows "fst (RemoveSlot sum32 s ch) = Ret () \<and>
    ring_slots (snd (RemoveSlot sum32 s ch)) = ring_slots ch - {s} \<and>
    (if ring_slots ch = {s} then GetSlot sum32 k (snd (RemoveSlot sum32 s ch)) = ''''
     else if GetSlot sum32 k ch = s then GetSlot sum32 k (snd (RemoveSlot sum32 s ch)) \<in> ring_slots ch - {s}
     else GetSlot sum32 k (snd (RemoveSlot sum32 s ch)) = GetSlot sum32 k ch)"
proof -
  have "ring ch \<noteq> []" using assms ring_full_ring_empty by blast
  from RemoveSlot_full_Ret[OF assms(1) this] have "fst (RemoveSlot sum32 s ch) = Ret ()" by (metis fst_conv)
  moreover note slots = ring_slots_RemoveSlot[OF assms(1,2)]
  moreover have "GetSlot sum32 k (snd (RemoveSlot sum32 s ch)) = ''''" if "ring_slots ch = {s}"
    using full.get_none[OF RemoveSlot_full[OF assms(1,2)]] slots that by simp
  moreover have "ring_slots ch - {s} \<noteq> {}" if "ring_slots ch \<noteq> {s}"
    using assms(3) that by blast
  ultimately show ?thesis
    using full.get_remove[OF assms(2,1)] full.get_remove_member[OF assms(2,1)] by simp
qed

theorem RemoveSlot_moves_own_keys_only_witness:
  "GetSlot first_byte ''b-key'' (snd (RemoveSlot first_byte ''a''
      (AddSlot first_byte ''b'' (AddSlot first_byte ''a'' (NewConsistentHash 2))))) = ''b''"
proof -
  have "GetSlot first_byte ''b-key'' (AddSlot first_byte ''b'' (AddSlot first_byte ''a'' (NewConsistentHash 2))) = ''b''"
    by code_simp
  then show ?thesis
    using RemoveSlot_moves_own_keys_only[OF ring_full_two, of "''a''" "''b-key''"] ring_slots_two by auto
qed

text \<open>
  C21: With collision-free names no history shows in a lookup: two rings that end up with the
  same set of slots send every key to the same slot, whatever additions, repeated additions
  and removals led to them.
\<close>

theorem ring_history_independent:
  assumes "0 < n" "collision_free sum32 n S" "op_target ` set ops \<subseteq> S" "op_target ` set ops' \<subseteq> S"
    and "fold apply_set ops {} = fold apply_set ops' {}"
  shows "GetSlot sum32 k (fold (apply_ring sum32) ops (NewConsistentHash n)) =
    GetSlot sum32 k (fold (apply_ring sum32) ops' (NewConsistentHash n))"
proof (rule full.get_ext)
  note new = NewConsistentHash_full[OF assms(1,2)]
  have empty: "ring_slots (NewConsistentHash n) = {}" by (simp add: ring_slots_def NewConsistentHash_def)
  show "ring_full sum32 n S (fold (apply_ring sum32) ops (NewConsistentHash n))"
    "ring_full sum32 n S (fold (apply_ring sum32) ops' (NewConsistentHash n))"
    "ring_slots (fold (apply_ring sum32) ops (NewConsistentHash n)) = ring_slots (fold (apply_ring sum32) ops' (NewConsistentHash n))"
    using ring_history[OF assms(3) new] ring_history[OF assms(4) new] assms(5) by (simp_all add: empty)
qed

theorem ring_history_independent_witness:
  "GetSlot first_byte ''k'' (fold (apply_ring first_byte) [Add_slot ''a'', Add_slot ''b'', Remove_slot ''a'', Add_slot ''a''] (NewConsistentHash 2)) =
    GetSlot first_byte ''k'' (fold (apply_ring first_byte) [Add_slot ''b'', Add_slot ''a''] (NewConsistentHash 2))"
proof (rule ring_history_independent[where S = "{''a'', ''b''}"])
  show "collision_free first_byte 2 {''a'', ''b''}" by (rule first_byte_collision_free) auto
qed auto


text \<open>
  On collision-free rings \<open>RemoveSlot\<close> panics exactly when the ring has no slot left (the
  capacity of the new slice would be negative), and then it changes nothing.
\<close>

theorem RemoveSlot_panics_iff_empty:
  assumes "ring_full sum32 n S ch"
  shows "(is_panic (fst (RemoveSlot sum32 s ch)) \<longleftrightarrow> ring_slots ch = {}) \<and>
    (ring_slots ch = {} \<longrightarrow> snd (RemoveSlot sum32 s ch) = ch)"
proof (cases "ring ch = []")
  case True
  then show ?thesis using RemoveSlot_empty[OF assms True] ring_full_ring_empty[OF assms] by simp
next
  case False
  from RemoveSlot_full_Ret[OF assms False] have "fst (RemoveSlot sum32 s ch) = Ret ()" by (metis fst_conv)
  then show ?thesis using False ring_full_ring_empty[OF assms] by simp
qed

theorem RemoveSlot_panics_iff_empty_witness:
  "is_panic (fst (RemoveSlot first_byte ''a'' (NewConsistentHash 2))) \<and>
   \<not> is_panic (fst (RemoveSlot first_byte ''a'' (AddSlot first_byte ''b'' (AddSlot first_byte ''a'' (NewConsistentHash 2)))))"
proof -
  have "ring_full first_byte 2 {} (NewConsistentHash 2)" by (rule NewConsistentHash_full) (auto simp: collision_free_def)
  moreover have "ring_slots (NewConsistentHash 2) = {}" by (simp add: ring_slots_def NewConsistentHash_def)
  ultimately show ?thesis
    using RemoveSlot_panics_iff_empty[of first_byte 2 "{}" "NewConsistentHash 2" "''a''"]
      RemoveSlot_panics_iff_empty[OF ring_full_two, of "''a''"] ring_slots_two by simp
qed

text \<open>
  In whatever order Go ranges over the map, \<open>GetAllSlots\<close> lists every slot of the ring once.
\<close>

lemma GetAllSlots_lists_slots:
  assumes "set keys = dom (vnodeToSlot ch)"
  shows "distinct (GetAllSlots keys ch) \<and> set (GetAllSlots keys ch) = ring_slots ch"
  using GetAllSlots_spec[OF assms] by simp

end
