(* ===== verification/Mappings.thy ===== *)
theory Mappings
  imports GoStdlib
begin

text \<open>
  The routing cache of \<^verbatim>\<open>mappings.go\<close>: a thin client of a Redis server. Redis and its Go client
  are not part of the repository, so the client is a parameter: a record of the calls the code
  makes, over a state \<open>'w\<close> of the Redis server. \<open>redis_ok\<close> collects the documented behaviour of
  GET, SET, DEL, DBSIZE and FLUSHDB on a server that answers; the operations themselves are
  defined for every client, so the error paths are there as well. The locale \<open>kv_cache\<close> is what
  the resolver relies on; the cache operations are an instance of it.
\<close>

section \<open>The Redis client\<close>

datatype redis_error = RedisNil | RedisErr string

record 'w redis_client =
  rc_get :: "string \<Rightarrow> 'w \<Rightarrow> (redis_error + string) \<times> 'w"
  rc_set :: "string \<Rightarrow> string \<Rightarrow> 'w \<Rightarrow> redis_error option \<times> 'w"
  rc_del :: "string \<Rightarrow> 'w \<Rightarrow> redis_error option \<times> 'w"
  rc_dbsize :: "'w \<Rightarrow> (redis_error + int) \<times> 'w"
  rc_flushdb :: "'w \<Rightarrow> redis_error option \<times> 'w"
  rc_ping :: "'w \<Rightarrow> redis_error option \<times> 'w"

definition redis_view :: "('w, 'x) redis_client_scheme \<Rightarrow> 'w \<Rightarrow> (string \<rightharpoonup> string)" where
  "redis_view rc w k = (case fst (rc_get rc k w) of Inl _ \<Rightarrow> None | Inr v \<Rightarrow> Some v)"

definition redis_ok :: "('w, 'x) redis_client_scheme \<Rightarrow> bool" where
  "redis_ok rc \<longleftrightarrow>
     (\<forall>w k. redis_view rc (snd (rc_get rc k w)) = redis_view rc w) \<and>
     (\<forall>w k v. redis_view rc (snd (rc_set rc k v w)) = (redis_view rc w)(k \<mapsto> v) \<and> fst (rc_set rc k v w) = None) \<and>
     (\<forall>w k. redis_view rc (snd (rc_del rc k w)) = (redis_view rc w)(k := None)) \<and>
     (\<forall>w. redis_view rc (snd (rc_flushdb rc w)) = Map.empty) \<and>
     (\<forall>w. finite (dom (redis_view rc w)) \<and> fst (rc_dbsize rc w) = Inr (int (card (dom (redis_view rc w)))) \<and>
          redis_view rc (snd (rc_dbsize rc w)) = redis_view rc w) \<and>
     (\<forall>w. redis_view rc (snd (rc_ping rc w)) = redis_view rc w)"

section \<open>The cache\<close>

text \<open>
  \<open>server\<close> is the Redis server behind the client; the context is the background context. The counters are Go integers of 64
  bits, which wrap.
\<close>

record 'w Mappings =
  client :: "'w redis_client"
  server :: 'w
  cacheHitCount :: u64
  cacheMissCount :: u64

text \<open>
  \<open>NewMappings\<close> connects to the address (defaulted), pings and only logs a failure. \<open>connect\<close>
  is \<^verbatim>\<open>redis.NewClient\<close>: the client and the server it talks to.
\<close>

definition mappings_addr :: "string \<Rightarrow> string" where
  "mappings_addr redisAddr =
     (if redisAddr = '''' \<or> redisAddr = ''./data/mappings.json'' then ''localhost:6379'' else redisAddr)"

definition NewMappings :: "(string \<Rightarrow> 'w redis_client \<times> 'w) \<Rightarrow> string \<Rightarrow> 'w Mappings" where
  "NewMappings connect redisAddr =
     (let (c, w) = connect (mappings_addr redisAddr);
          (err, w') = rc_ping c w
      in \<lparr>client = c, server = w', cacheHitCount = 0, cacheMissCount = 0\<rparr>)"

definition Mappings_Get :: "string \<Rightarrow> 'w Mappings \<Rightarrow> string \<times> 'w Mappings" where
  "Mappings_Get key m =
     (let (res, w') = rc_get (client m) key (server m);
          m' = m\<lparr>server := w'\<rparr>
      in case res of
           Inl err \<Rightarrow> ('''', m'\<lparr>cacheMissCount := cacheMissCount m' + 1\<rparr>)
         | Inr val \<Rightarrow> (val, m'\<lparr>cacheHitCount := cacheHitCount m' + 1\<rparr>))"

definition Mappings_Put :: "string \<Rightarrow> string \<Rightarrow> 'w Mappings \<Rightarrow> 'w Mappings" where
  "Mappings_Put key value m = m\<lparr>server := snd (rc_set (client m) key value (server m))\<rparr>"

definition Mappings_Delete :: "string \<Rightarrow> 'w Mappings \<Rightarrow> 'w Mappings" where
  "Mappings_Delete key m = m\<lparr>server := snd (rc_del (client m) key (server m))\<rparr>"

text \<open>On an error of DBSIZE the returned size is the zero value.\<close>

definition Mappings_Size :: "'w Mappings \<Rightarrow> int \<times> 'w Mappings" where
  "Mappings_Size m =
     (let (res, w') = rc_dbsize (client m) (server m)
      in (case res of Inl _ \<Rightarrow> 0 | Inr n \<Rightarrow> int64 n, m\<lparr>server := w'\<rparr>))"

definition Mappings_Clear :: "'w Mappings \<Rightarrow> 'w Mappings" where
  "Mappings_Clear m = m\<lparr>server := snd (rc_flushdb (client m) (server m))\<rparr>"

section \<open>The interface of the cache\<close>

definition cache_view :: "'w Mappings \<Rightarrow> (string \<rightharpoonup> string)" where
  "cache_view m = redis_view (client m) (server m)"

definition cache_ok :: "'w Mappings \<Rightarrow> bool" where
  "cache_ok m \<longleftrightarrow> redis_ok (client m)"

text \<open>
  A key-value cache: \<open>get\<close> reads the abstract map, with the empty string for a missing key, and
  leaves it unchanged; \<open>put\<close> and \<open>del\<close> update one key.
\<close>

locale kv_cache =
  fixes get :: "string \<Rightarrow> 'c \<Rightarrow> string \<times> 'c"
    and put :: "string \<Rightarrow> string \<Rightarrow> 'c \<Rightarrow> 'c"
    and del :: "string \<Rightarrow> 'c \<Rightarrow> 'c"
    and view :: "'c \<Rightarrow> (string \<rightharpoonup> string)"
    and ok :: "'c \<Rightarrow> bool"
  assumes get_value: "ok c \<Longrightarrow> fst (get k c) = (case view c k of None \<Rightarrow> '''' | Some v \<Rightarrow> v)"
    and get_view: "ok c \<Longrightarrow> view (snd (get k c)) = view c"
    and put_view: "ok c \<Longrightarrow> view (put k v c) = (view c)(k \<mapsto> v)"
    and del_view: "ok c \<Longrightarrow> view (del k c) = (view c)(k := None)"
    and ok_get: "ok c \<Longrightarrow> ok (snd (get k c))"
    and ok_put: "ok c \<Longrightarrow> ok (put k v c)"
    and ok_del: "ok c \<Longrightarrow> ok (del k c)"
begin

lemma get_put_same: "ok c \<Longrightarrow> fst (get k (put k v c)) = v"
  by (simp add: get_value put_view ok_put)

lemma get_put_other: "ok c \<Longrightarrow> k' \<noteq> k \<Longrightarrow> fst (get k' (put k v c)) = fst (get k' c)"
  by (simp add: get_value put_view ok_put)

lemma get_del_same: "ok c \<Longrightarrow> fst (get k (del k c)) = ''''"
  by (simp add: get_value del_view ok_del)

lemma get_del_other: "ok c \<Longrightarrow> k' \<noteq> k \<Longrightarrow> fst (get k' (del k c)) = fst (get k' c)"
  by (simp add: get_value del_view ok_del)

lemma get_get: "ok c \<Longrightarrow> fst (get k' (snd (get k c))) = fst (get k' c)"
  by (simp add: get_value get_view ok_get)

end

lemma redis_okD:
  assumes "redis_ok rc"
  shows "redis_view rc (snd (rc_get rc k w)) = redis_view rc w"
    "redis_view rc (snd (rc_set rc k v w)) = (redis_view rc w)(k \<mapsto> v)"
    "fst (rc_set rc k v w) = None"
    "redis_view rc (snd (rc_del rc k w)) = (redis_view rc w)(k := None)"
    "redis_view rc (snd (rc_flushdb rc w)) = Map.empty"
    "fst (rc_dbsize rc w) = Inr (int (card (dom (redis_view rc w))))"
    "redis_view rc (snd (rc_dbsize rc w)) = redis_view rc w"
    "redis_view rc (snd (rc_ping rc w)) = redis_view rc w"
    "finite (dom (redis_view rc w))"
  using assms unfolding redis_ok_def by blast+

interpretation cache: kv_cache Mappings_Get Mappings_Put Mappings_Delete cache_view cache_ok
proof
  fix c :: "'w Mappings" and k v :: string
  assume c: "cache_ok c"
  show "fst (Mappings_Get k c) = (case cache_view c k of None \<Rightarrow> '''' | Some v \<Rightarrow> v)"
    by (simp add: Let_def Mappings_Get_def cache_view_def redis_view_def split: prod.splits sum.splits)
  show "cache_view (snd (Mappings_Get k c)) = cache_view c"
    using redis_okD(1)[of "client c" k "server c"] c
    by (auto simp: Let_def Mappings_Get_def cache_view_def cache_ok_def split: prod.splits sum.splits)
  show "cache_view (Mappings_Put k v c) = (cache_view c)(k \<mapsto> v)"
    using redis_okD(2)[of "client c" k v "server c"] c
    by (simp add: Mappings_Put_def cache_view_def cache_ok_def)
  show "cache_view (Mappings_Delete k c) = (cache_view c)(k := None)"
    using redis_okD(4)[of "client c" k "server c"] c
    by (simp add: Mappings_Delete_def cache_view_def cache_ok_def)
  show "cache_ok (snd (Mappings_Get k c))" "cache_ok (Mappings_Put k v c)" "cache_ok (Mappings_Delete k c)"
    using c by (auto simp: Let_def cache_ok_def Mappings_Get_def Mappings_Put_def Mappings_Delete_def
        split: prod.splits sum.splits)
qed

section \<open>Size and clear\<close>

lemma Mappings_Clear_view: "cache_ok m \<Longrightarrow> cache_view (Mappings_Clear m) = Map.empty"
  using redis_okD(5)[of "client m" "server m"] by (simp add: Mappings_Clear_def cache_view_def cache_ok_def)

lemma Mappings_Size_value:
  "cache_ok m \<Longrightarrow> card (dom (cache_view m)) < 2 ^ 63 \<Longrightarrow> fst (Mappings_Size m) = int (card (dom (cache_view m)))"
  using redis_okD(6)[of "client m" "server m"]
  by (auto simp: Mappings_Size_def cache_view_def cache_ok_def int64_id split: prod.splits)

lemma Mappings_counts:
  "cacheHitCount (snd (Mappings_Get k m)) + cacheMissCount (snd (Mappings_Get k m))
     = cacheHitCount m + cacheMissCount m + 1"
  by (simp add: Let_def Mappings_Get_def split: prod.splits sum.splits)

section \<open>An in-memory Redis\<close>

text \<open>
  The smallest server that meets \<open>redis_ok\<close>: a finite association of keys and values, as the
  in-memory Redis of the repository's own test. It shows that the hypothesis can hold and is
  what the witnesses run on.
\<close>

definition mem_redis :: "(string \<times> string) list redis_client" where
  "mem_redis = \<lparr>rc_get = (\<lambda>k w. (case map_of w k of None \<Rightarrow> Inl RedisNil | Some v \<Rightarrow> Inr v, w)),
     rc_set = (\<lambda>k v w. (None, (k, v) # w)),
     rc_del = (\<lambda>k w. (None, filter (\<lambda>(k', v). k' \<noteq> k) w)),
     rc_dbsize = (\<lambda>w. (Inr (int (length (remdups (map fst w)))), w)),
     rc_flushdb = (\<lambda>w. (None, [])),
     rc_ping = (\<lambda>w. (None, w))\<rparr>"

lemma mem_redis_view: "redis_view mem_redis w = map_of w"
  by (rule ext) (simp add: redis_view_def mem_redis_def split: option.splits)

lemma map_of_filter_neq: "map_of (filter (\<lambda>(k', v). k' \<noteq> k) w) = (map_of w)(k := None)"
  by (induction w) auto

lemma mem_redis_ok: "redis_ok mem_redis"
proof -
  have "length (remdups (map fst w)) = card (dom (map_of w))" for w :: "(string \<times> string) list"
    by (simp add: dom_map_of_conv_image_fst length_remdups_card_conv)
  then show ?thesis
    unfolding redis_ok_def mem_redis_view
    by (auto simp: mem_redis_def map_of_filter_neq finite_dom_map_of)
qed

definition mem_cache :: "(string \<times> string) list \<Rightarrow> (string \<times> string) list Mappings" where
  "mem_cache w = \<lparr>client = mem_redis, server = w, cacheHitCount = 0, cacheMissCount = 0\<rparr>"

lemma mem_cache_ok [simp]: "cache_ok (mem_cache w)"
  by (simp add: cache_ok_def mem_cache_def mem_redis_ok)

lemma mem_cache_view [simp]: "cache_view (mem_cache w) = map_of w"
  by (simp add: cache_view_def mem_cache_def mem_redis_view)

section \<open>Histories of the cache\<close>

datatype cache_op = Get_op string | Put_op string string | Delete_op string | Size_op | Clear_op

fun apply_cache :: "cache_op \<Rightarrow> 'w Mappings \<Rightarrow> 'w Mappings" where
  "apply_cache (Get_op k) m = snd (Mappings_Get k m)"
| "apply_cache (Put_op k v) m = Mappings_Put k v m"
| "apply_cache (Delete_op k) m = Mappings_Delete k m"
| "apply_cache Size_op m = snd (Mappings_Size m)"
| "apply_cache Clear_op m = Mappings_Clear m"

text \<open>The plain map that the cache stands for.\<close>

fun apply_map :: "cache_op \<Rightarrow> (string \<rightharpoonup> string) \<Rightarrow> (string \<rightharpoonup> string)" where
  "apply_map (Put_op k v) f = f(k \<mapsto> v)"
| "apply_map (Delete_op k) f = f(k := None)"
| "apply_map Clear_op f = Map.empty"
| "apply_map _ f = f"

fun is_get :: "cache_op \<Rightarrow> bool" where
  "is_get (Get_op _) = True"
| "is_get _ = False"

lemma apply_cache_refines:
  assumes "cache_ok m"
  shows "cache_ok (apply_cache x m) \<and> cache_view (apply_cache x m) = apply_map x (cache_view m) \<and>
    cacheHitCount (apply_cache x m) + cacheMissCount (apply_cache x m) =
      cacheHitCount m + cacheMissCount m + (if is_get x then 1 else 0)"
proof (cases x)
  case (Get_op k)
  then show ?thesis using assms Mappings_counts[of k m] by (simp add: cache.get_view cache.ok_get)
next
  case Size_op
  then show ?thesis using assms redis_okD(7)[of "client m" "server m"]
    by (auto simp: Mappings_Size_def cache_ok_def cache_view_def split: prod.splits)
next
  case Clear_op
  have "cache_ok (Mappings_Clear m)" using assms by (simp add: Mappings_Clear_def cache_ok_def)
  then show ?thesis using assms Clear_op by (simp add: Mappings_Clear_view) (simp add: Mappings_Clear_def)
qed (use assms in \<open>simp_all add: cache.put_view cache.ok_put cache.del_view cache.ok_del\<close>,
     simp_all add: Mappings_Put_def Mappings_Delete_def)

text \<open>
  Over a Redis server that behaves as documented a sequence of gets, puts, deletes, size queries and clears does to the
  stored pairs what it does to a map; the hit and miss counters together count the gets, modulo \<open>2 ^ 64\<close>.
\<close>

lemma cache_history:
  "cache_ok m \<Longrightarrow> cache_ok (fold apply_cache ops m) \<and> cache_view (fold apply_cache ops m) = fold apply_map ops (cache_view m) \<and>
    cacheHitCount (fold apply_cache ops m) + cacheMissCount (fold apply_cache ops m) =
      cacheHitCount m + cacheMissCount m + of_nat (length (filter is_get ops))"
proof (induction ops arbitrary: m)
  case (Cons x ops)
  then show ?case using apply_cache_refines[of m x] by simp
qed simp

end
