(* ===== verification/JsonText.thy ===== *)
theory JsonText
  imports GoStdlib "HOL-Library.List_Lexorder" "HOL-Library.Char_ord"
begin

text \<open>
  A map of maps of strings as JSON text, in the form in which \<^verbatim>\<open>encoding/json\<close> writes it: keys in order, strings in
  quotes with quotes, backslashes, control characters and the characters that mean something in HTML escaped; and a reader of
  such text. The checkpoint of the registry is written with \<^verbatim>\<open>encoding/json\<close>, which is a parameter of the model; the
  writer and the reader here show that what is assumed of it can hold.
\<close>

section \<open>Strings\<close>

definition hex_digits :: string where
  "hex_digits = ''0123456789abcdef''"

definition hex_digit :: "nat \<Rightarrow> char" where
  "hex_digit n = hex_digits ! n"

fun index_of :: "'a \<Rightarrow> 'a list \<Rightarrow> nat" where
  "index_of x [] = 0"
| "index_of x (y # ys) = (if x = y then 0 else Suc (index_of x ys))"

definition unhex :: "char \<Rightarrow> char \<Rightarrow> char" where
  "unhex h l = char_of (index_of h hex_digits * 16 + index_of l hex_digits)"

definition escaped :: "char \<Rightarrow> bool" where
  "escaped c \<longleftrightarrow> (of_char c :: nat) < 32 \<or> c \<in> {CHR ''<'', CHR ''>'', CHR ''&''}"

definition json_char :: "char \<Rightarrow> string" where
  "json_char c =
     (if c \<in> {CHR 0x22, CHR 0x5C} then [CHR 0x5C, c]
      else if escaped c then [CHR 0x5C] @ ''u00'' @ [hex_digit (of_char c div 16), hex_digit (of_char c mod 16)]
      else [c])"

definition json_string :: "string \<Rightarrow> string" where
  "json_string s = CHR 0x22 # concat (map json_char s) @ [CHR 0x22]"

fun read_chars :: "string \<Rightarrow> (string \<times> string) option" where
  "read_chars [] = None"
| "read_chars (c # r) =
     (if c = CHR 0x22 then Some ([], r)
      else if c = CHR 0x5C then
        (case r of
           [] \<Rightarrow> None
         | d # r \<Rightarrow>
           if d = CHR ''u'' then
             (case r of
                _ # _ # h # l # r \<Rightarrow> map_option (\<lambda>(s, r). (unhex h l # s, r)) (read_chars r)
              | _ \<Rightarrow> None)
           else map_option (\<lambda>(s, r). (d # s, r)) (read_chars r))
      else map_option (\<lambda>(s, r). (c # s, r)) (read_chars r))"

fun read_string :: "string \<Rightarrow> (string \<times> string) option" where
  "read_string [] = None"
| "read_string (c # r) = (if c = CHR 0x22 then read_chars r else None)"

lemma index_of_nth: "distinct xs \<Longrightarrow> n < length xs \<Longrightarrow> index_of (xs ! n) xs = n"
  by (induction xs arbitrary: n) (auto simp: nth_Cons split: nat.splits)

lemma unhex_digits: "unhex (hex_digit (of_char c div 16)) (hex_digit (of_char c mod 16)) = c"
proof -
  have "distinct hex_digits" "length hex_digits = 16"
    by (simp_all add: hex_digits_def)
  moreover have "(of_char c :: nat) div 16 < 16"
    by (rule less_mult_imp_div_less) (cases c, simp)
  ultimately show ?thesis
    by (simp add: unhex_def hex_digit_def index_of_nth)
qed

lemma read_chars_written: "read_chars (concat (map json_char s) @ CHR 0x22 # rest) = Some (s, rest)"
proof (induction s)
  case (Cons c s)
  then show ?case
    by (auto simp: json_char_def unhex_digits)
qed simp

lemma read_string_written [simp]: "read_string (json_string s @ rest) = Some (s, rest)"
  by (simp add: json_string_def read_chars_written)

section \<open>Objects\<close>

text \<open>The members of an object, each preceded by a comma but the first.\<close>

fun json_members :: "('v \<Rightarrow> string) \<Rightarrow> (string \<times> 'v) list \<Rightarrow> string" where
  "json_members w [] = ''}''"
| "json_members w ((k, v) # ms) = '','' @ json_string k @ '':'' @ w v @ json_members w ms"

definition json_object :: "('v \<Rightarrow> string) \<Rightarrow> (string \<times> 'v) list \<Rightarrow> string" where
  "json_object w ms = (case ms of [] \<Rightarrow> ''{}'' | (k, v) # ms \<Rightarrow> ''{'' @ json_string k @ '':'' @ w v @ json_members w ms)"

definition read_member :: "(string \<Rightarrow> ('v \<times> string) option) \<Rightarrow> string \<Rightarrow> ((string \<times> 'v) \<times> string) option" where
  "read_member rd s =
     (case read_string s of
        Some (k, c # r) \<Rightarrow> if c = CHR '':'' then map_option (\<lambda>(v, r). ((k, v), r)) (rd r) else None
      | _ \<Rightarrow> None)"

text \<open>A text of length \<open>n\<close> holds at most \<open>n\<close> members.\<close>

fun read_members :: "nat \<Rightarrow> (string \<Rightarrow> ('v \<times> string) option) \<Rightarrow> string \<Rightarrow> ((string \<times> 'v) list \<times> string) option" where
  "read_members 0 rd s = None"
| "read_members (Suc n) rd s =
     (case s of
        [] \<Rightarrow> None
      | c # r \<Rightarrow>
        if c = CHR ''}'' then Some ([], r)
        else if c = CHR '','' then
          (case read_member rd r of
             None \<Rightarrow> None
           | Some (m, r) \<Rightarrow> map_option (\<lambda>(ms, r). (m # ms, r)) (read_members n rd r))
        else None)"

definition read_object :: "(string \<Rightarrow> ('v \<times> string) option) \<Rightarrow> string \<Rightarrow> ((string \<times> 'v) list \<times> string) option" where
  "read_object rd s =
     (case s of
        c # d # r \<Rightarrow>
          if c \<noteq> CHR ''{'' then None
          else if d = CHR ''}'' then Some ([], r)
          else (case read_member rd (d # r) of
                  None \<Rightarrow> None
                | Some (m, r) \<Rightarrow> map_option (\<lambda>(ms, r). (m # ms, r)) (read_members (length s) rd r))
      | _ \<Rightarrow> None)"

lemma read_member_written:
  "rd (w v @ rest) = Some (v, rest) \<Longrightarrow> read_member rd (json_string k @ CHR '':'' # w v @ rest) = Some ((k, v), rest)"
  by (simp add: read_member_def)

lemma read_members_written:
  assumes "\<forall>(k, v)\<in>set ms. \<forall>rest. rd (w v @ rest) = Some (v, rest)" "length ms < n"
  shows "read_members n rd (json_members w ms @ rest) = Some (ms, rest)"
  using assms
proof (induction n arbitrary: ms)
  case (Suc n)
  show ?case
  proof (cases ms)
    case (Cons m ms')
    obtain k v where m: "m = (k, v)"
      by (cases m)
    have "read_members n rd (json_members w ms' @ rest) = Some (ms', rest)"
      using Suc Cons by simp
    then show ?thesis
      using read_member_written[of rd w v "json_members w ms' @ rest" k] Suc.prems Cons m by simp
  qed simp
qed simp

lemma json_members_length: "length ms < length (json_members w ms)"
  by (induction w ms rule: json_members.induct) simp_all

lemma json_string_Cons: "json_string s = CHR 0x22 # tl (json_string s)"
  by (simp add: json_string_def)

lemma read_object_written:
  assumes "\<forall>(k, v)\<in>set ms. \<forall>rest. rd (w v @ rest) = Some (v, rest)"
  shows "read_object rd (json_object w ms @ rest) = Some (ms, rest)"
proof (cases ms)
  case Nil
  then show ?thesis
    by (simp add: json_object_def read_object_def)
next
  case (Cons m ms')
  obtain k v where m: "m = (k, v)"
    by (cases m)
  let ?r = "json_members w ms' @ rest"
  have "read_member rd (json_string k @ CHR '':'' # w v @ ?r) = Some ((k, v), ?r)"
    using assms Cons m by (intro read_member_written) simp
  moreover have "read_members n rd ?r = Some (ms', rest)" if "length (json_members w ms') \<le> n" for n
    using assms Cons m that json_members_length[of ms' w] by (intro read_members_written) auto
  ultimately show ?thesis
    using Cons m by (subst json_object_def) (simp add: read_object_def json_string_def del: read_members.simps)
qed

section \<open>Maps of maps\<close>

text \<open>The entries of a map, in the order of its keys.\<close>

definition sorted_entries :: "(string \<rightharpoonup> 'v) \<Rightarrow> (string \<times> 'v) list" where
  "sorted_entries f = map (\<lambda>k. (k, the (f k))) (sorted_list_of_set (dom f))"

lemma sorted_entries_keys: "map fst (sorted_entries f) = sorted_list_of_set (dom f)"
  by (simp add: sorted_entries_def comp_def)

lemma map_of_sorted_entries:
  assumes "finite (dom f)"
  shows "map_of (sorted_entries f) = f"
proof
  fix k
  show "map_of (sorted_entries f) k = f k"
    using assms by (cases "f k") (auto simp: sorted_entries_def map_of_map_restrict restrict_map_def domIff)
qed

definition json_marshal :: "(string \<rightharpoonup> (string \<rightharpoonup> string)) \<Rightarrow> string result" where
  "json_marshal m = Inr (json_object (\<lambda>f. json_object json_string (sorted_entries f)) (sorted_entries m))"

definition json_unmarshal :: "string \<Rightarrow> (string \<times> (string \<times> string) list) list result" where
  "json_unmarshal json =
     (case read_object (read_object read_string) json of
        Some (ms, []) \<Rightarrow> Inr ms
      | _ \<Rightarrow> Inl (Errorf ''invalid character after top-level value''))"

lemma json_unmarshal_written:
  "json_marshal m = Inr json \<Longrightarrow> json \<noteq> '''' \<and>
     json_unmarshal json = Inr (map (\<lambda>(k, f). (k, sorted_entries f)) (sorted_entries m))"
proof -
  assume json: "json_marshal m = Inr json"
  let ?ms = "map (\<lambda>(k, f). (k, sorted_entries f)) (sorted_entries m)"
  have members: "json_members (\<lambda>f. json_object json_string (sorted_entries f)) ms =
      json_members (json_object json_string) (map (\<lambda>(k, f). (k, sorted_entries f)) ms)" for ms
    by (induction ms) auto
  have eq: "json = json_object (json_object json_string) ?ms"
    using json members by (auto simp: json_marshal_def json_object_def split: list.splits)
  have "read_object read_string (json_object json_string v @ rest) = Some (v, rest)" for v rest
    by (rule read_object_written) simp
  then have "read_object (read_object read_string) (json @ []) = Some (?ms, [])"
    unfolding eq by (intro read_object_written) blast
  moreover have "json \<noteq> ''''"
    by (auto simp: eq json_object_def split: list.splits)
  ultimately show ?thesis
    by (simp add: json_unmarshal_def)
qed

end
