(* ===== verification/Namespaces.thy ===== *)
theory Namespaces
  imports Ring Mappings JsonText
begin

text \<open>
  \<^verbatim>\<open>virtualnamespace.go\<close>: physical namespace names, virtual namespaces (a ring and a status
  table), the registry of virtual namespaces, its start-up load from Redis and its periodic
  checkpoint. Virtual namespaces are shared through pointers, so the registry keeps them in a
  heap and maps names to addresses. JSON encoding is a parameter of load and checkpoint.
\<close>

section \<open>Physical namespace names\<close>

record Cluster =
  address :: string

record Namespace =
  ns_cluster :: "Cluster option"
  ns_name :: string

definition delim :: string where
  "delim = ''::''"

definition buildPhysicalNamespace :: "string \<Rightarrow> string \<Rightarrow> string" where
  "buildPhysicalNamespace actualName clusterAddress = Join [actualName, clusterAddress] delim"

text \<open>Reading \<^verbatim>\<open>s[1]\<close> of a one-element slice panics.\<close>

definition parsePhysicalNamespace :: "string \<Rightarrow> Namespace outcome" where
  "parsePhysicalNamespace physicalNamespace =
     (let s = Split physicalNamespace delim in
      if length s \<le> 1 then Panic ''index out of range [1] with length 1''
      else Ret \<lparr>ns_cluster = Some \<lparr>address = s ! 1\<rparr>, ns_name = s ! 0\<rparr>)"

section \<open>Virtual namespaces\<close>

text \<open>\<^verbatim>\<open>NamespaceStatus\<close> is a string type with two named values.\<close>

type_synonym NamespaceStatus = string

definition NamespaceActive :: NamespaceStatus where
  "NamespaceActive = ''active''"

definition NamespaceCordoned :: NamespaceStatus where
  "NamespaceCordoned = ''cordoned''"

record VirtualNamespace =
  vn_Name :: string
  vn_Ring :: ConsistentHash
  vn_Namespaces :: "string \<rightharpoonup> NamespaceStatus"

definition NewVirtualNamespace :: "string \<Rightarrow> VirtualNamespace" where
  "NewVirtualNamespace name =
     \<lparr>vn_Name = name, vn_Ring = NewConsistentHash 50, vn_Namespaces = Map.empty\<rparr>"

definition VirtualNamespace_Add :: "hash_fun \<Rightarrow> Namespace \<Rightarrow> VirtualNamespace \<Rightarrow> VirtualNamespace" where
  "VirtualNamespace_Add sum32 namespace v =
     (let v' = v\<lparr>vn_Namespaces := (vn_Namespaces v)(ns_name namespace \<mapsto> NamespaceActive)\<rparr>
      in v'\<lparr>vn_Ring := AddSlot sum32 (ns_name namespace) (vn_Ring v')\<rparr>)"

definition VirtualNamespace_Remove ::
    "hash_fun \<Rightarrow> Namespace \<Rightarrow> VirtualNamespace \<Rightarrow> unit outcome \<times> VirtualNamespace" where
  "VirtualNamespace_Remove sum32 namespace v =
     (let v' = (if vn_Namespaces v (ns_name namespace) \<noteq> None
                then v\<lparr>vn_Namespaces := (vn_Namespaces v)(ns_name namespace \<mapsto> NamespaceCordoned)\<rparr>
                else v);
          (res, ring') = RemoveSlot sum32 (ns_name namespace) (vn_Ring v')
      in (res, v'\<lparr>vn_Ring := ring'\<rparr>))"

text \<open>Both copy the status table; \<open>keys\<close> is the order in which Go ranges over it.\<close>

fun copy_status :: "(string \<rightharpoonup> NamespaceStatus) \<Rightarrow> string list \<Rightarrow> (string \<rightharpoonup> NamespaceStatus)
    \<Rightarrow> (string \<rightharpoonup> NamespaceStatus)" where
  "copy_status m [] result = result"
| "copy_status m (k # ks) result = copy_status m ks (result(k := m k))"

definition GetAllNamespacesWithStatus :: "string list \<Rightarrow> VirtualNamespace \<Rightarrow> (string \<rightharpoonup> NamespaceStatus)" where
  "GetAllNamespacesWithStatus keys v = copy_status (vn_Namespaces v) keys Map.empty"

fun collect_keys :: "(string \<rightharpoonup> NamespaceStatus) \<Rightarrow> string list \<Rightarrow> string list \<Rightarrow> string list" where
  "collect_keys m [] result = result"
| "collect_keys m (k # ks) result = collect_keys m ks (if m k \<noteq> None then result @ [k] else result)"

definition GetAllNamespaces :: "string list \<Rightarrow> VirtualNamespace \<Rightarrow> string list" where
  "GetAllNamespaces keys v = collect_keys (vn_Namespaces v) keys []"

section \<open>The registry\<close>

record VirtualNamespaceRegistry =
  reg_namespaces :: "string \<rightharpoonup> nat"
  reg_heap :: "VirtualNamespace list"

definition empty_registry :: VirtualNamespaceRegistry where
  "empty_registry = \<lparr>reg_namespaces = Map.empty, reg_heap = []\<rparr>"

text \<open>A pointer is an index of the heap; a new object gets the next free one.\<close>

definition alloc :: "VirtualNamespace \<Rightarrow> VirtualNamespaceRegistry \<Rightarrow> nat \<times> VirtualNamespaceRegistry" where
  "alloc v reg = (length (reg_heap reg), reg\<lparr>reg_heap := reg_heap reg @ [v]\<rparr>)"

definition deref :: "nat \<Rightarrow> VirtualNamespaceRegistry \<Rightarrow> VirtualNamespace" where
  "deref p reg = reg_heap reg ! p"

definition update_at :: "nat \<Rightarrow> VirtualNamespace \<Rightarrow> VirtualNamespaceRegistry \<Rightarrow> VirtualNamespaceRegistry" where
  "update_at p v reg = reg\<lparr>reg_heap := (reg_heap reg)[p := v]\<rparr>"

definition Registry_Resolve :: "string \<Rightarrow> VirtualNamespaceRegistry \<Rightarrow> nat option" where
  "Registry_Resolve namespace reg = reg_namespaces reg namespace"

definition Registry_Register :: "nat \<Rightarrow> VirtualNamespaceRegistry \<Rightarrow> VirtualNamespaceRegistry" where
  "Registry_Register p reg = reg\<lparr>reg_namespaces := (reg_namespaces reg)(vn_Name (deref p reg) \<mapsto> p)\<rparr>"

definition Registry_GetSize :: "VirtualNamespaceRegistry \<Rightarrow> nat" where
  "Registry_GetSize reg = card (dom (reg_namespaces reg))"

subsection \<open>Load and checkpoint\<close>

text \<open>
  \<open>unmarshal\<close> is \<^verbatim>\<open>json.Unmarshal\<close> into \<^verbatim>\<open>map[string]map[string]NamespaceStatus\<close>; the two maps come
  as the lists of their entries in the order in which Go ranges over them. \<open>marshal\<close> is
  \<^verbatim>\<open>json.Marshal\<close> of such a map.
\<close>

type_synonym schema = "(string \<times> (string \<times> NamespaceStatus) list) list"

fun load_slots :: "hash_fun \<Rightarrow> (string \<times> NamespaceStatus) list \<Rightarrow> VirtualNamespace \<Rightarrow> VirtualNamespace" where
  "load_slots sum32 [] vNs = vNs"
| "load_slots sum32 ((slot, status) # rest) vNs =
     load_slots sum32 rest
       (if status = NamespaceActive
        then VirtualNamespace_Add sum32 \<lparr>ns_cluster = None, ns_name = slot\<rparr> vNs
        else vNs\<lparr>vn_Namespaces := (vn_Namespaces vNs)(slot \<mapsto> status)\<rparr>)"

fun load_schema :: "hash_fun \<Rightarrow> schema \<Rightarrow> VirtualNamespaceRegistry \<Rightarrow> VirtualNamespaceRegistry" where
  "load_schema sum32 [] v = v"
| "load_schema sum32 ((virtualName, slotsMap) # rest) v =
     (let vNs = load_slots sum32 slotsMap (NewVirtualNamespace virtualName);
          (p, v') = alloc vNs v
      in load_schema sum32 rest (v'\<lparr>reg_namespaces := (reg_namespaces v')(virtualName \<mapsto> p)\<rparr>))"

definition registry_key :: string where
  "registry_key = ''virtual_namespace_registry''"

definition registry_addr :: "string \<Rightarrow> string" where
  "registry_addr redisAddr = (if redisAddr = '''' then ''localhost:6379'' else redisAddr)"

definition NewVirtualNamespaceRegistry ::
    "hash_fun \<Rightarrow> (string \<Rightarrow> schema result) \<Rightarrow> (string \<Rightarrow> 'w redis_client \<times> 'w) \<Rightarrow> string
     \<Rightarrow> VirtualNamespaceRegistry \<times> 'w" where
  "NewVirtualNamespaceRegistry sum32 unmarshal connect redisAddr =
     (let (c, w) = connect (registry_addr redisAddr);
          (err, w1) = rc_ping c w;
          (redisRes, w2) = rc_get c registry_key w1;
          namespaceData = (case redisRes of Inl _ \<Rightarrow> '''' | Inr redisData \<Rightarrow> redisData)
      in (if length namespaceData > 0 then
            (case unmarshal namespaceData of
               Inl _ \<Rightarrow> empty_registry
             | Inr newSchema \<Rightarrow> load_schema sum32 newSchema empty_registry)
          else empty_registry, w2))"

text \<open>One tick of the checkpoint goroutine, with the registry read under its lock.\<close>

definition registry_schema :: "(nat \<Rightarrow> string list) \<Rightarrow> VirtualNamespaceRegistry \<Rightarrow> (string \<rightharpoonup> (string \<rightharpoonup> NamespaceStatus))" where
  "registry_schema keys reg =
     (\<lambda>name. map_option (\<lambda>p. GetAllNamespacesWithStatus (keys p) (deref p reg)) (reg_namespaces reg name))"

definition checkpoint ::
    "((string \<rightharpoonup> (string \<rightharpoonup> NamespaceStatus)) \<Rightarrow> string result) \<Rightarrow> 'w redis_client
     \<Rightarrow> (nat \<Rightarrow> string list) \<Rightarrow> VirtualNamespaceRegistry \<Rightarrow> 'w \<Rightarrow> 'w" where
  "checkpoint marshal c keys reg w =
     (case marshal (registry_schema keys reg) of
        Inl _ \<Rightarrow> w
      | Inr byteData \<Rightarrow> snd (rc_set c registry_key byteData w))"

section \<open>Building and parsing names\<close>

lemma delim_eq: "delim = CHR '':'' # CHR '':'' # []"
  by (simp add: delim_def)

lemma delim_not_Nil [simp]: "delim \<noteq> []"
  by (simp add: delim_def)

text \<open>The first separator is found where it was put when the text before it cannot form one.\<close>

lemma Split_from_delim_append:
  "\<not> sublist delim (n @ '':'') \<Longrightarrow> Split_from delim acc (n @ delim @ t) = (acc @ n) # Split_from delim [] t"
proof (induction n arbitrary: acc)
  case Nil
  then show ?case by (subst Split_from.simps) (simp add: delim_def)
next
  case (Cons c n)
  then have IH: "Split_from delim (acc @ [c]) (n @ delim @ t) = (acc @ c # n) # Split_from delim [] t"
    by (auto simp: sublist_Cons_right)
  have "\<not> prefix delim (c # n @ '':'')" using Cons.prems by (auto simp: sublist_Cons_right)
  then have "\<not> prefix delim (c # n @ delim @ t)" by (cases n) (auto simp: delim_def)
  then show ?case by (subst Split_from.simps) (simp add: IH del: append_Cons append_assoc flip: append_assoc, simp add: IH)
qed

text \<open>Conversely, the first piece of a split that found a separator cannot form one.\<close>

lemma Split_from_two:
  "Split_from delim acc s = x # y # zs \<Longrightarrow>
     \<exists>t u. s = t @ delim @ u \<and> x = acc @ t \<and> \<not> sublist delim (t @ '':'') \<and> Split_from delim [] u = y # zs"
proof (induction s arbitrary: acc)
  case Nil
  then show ?case by (subst (asm) Split_from.simps) (simp add: delim_def)
next
  case (Cons c s)
  show ?case
  proof (cases "prefix delim (c # s)")
    case True
    then obtain u where u: "c # s = delim @ u" by (auto simp: prefix_def)
    with Cons.prems have "x = acc \<and> Split_from delim [] u = y # zs"
      by (subst (asm) Split_from.simps) simp
    moreover have "\<not> sublist delim ([] @ '':'')" by (simp add: delim_def sublist_Cons_right)
    ultimately show ?thesis using u by (intro exI[of _ "[]"] exI[of _ u]) simp
  next
    case False
    with Cons.prems have "Split_from delim (acc @ [c]) s = x # y # zs"
      by (subst (asm) Split_from.simps) simp
    then obtain t u where tu: "s = t @ delim @ u" "x = (acc @ [c]) @ t"
      "\<not> sublist delim (t @ '':'')" "Split_from delim [] u = y # zs"
      using Cons.IH by blast
    have "\<not> prefix delim (c # t @ '':'')"
      using False tu(1) by (cases t) (auto simp: delim_def)
    then show ?thesis using tu
      by (intro exI[of _ "c # t"] exI[of _ u]) (simp add: sublist_Cons_right)
  qed
qed

lemma Split_from_one: "Split_from delim acc s = [x] \<Longrightarrow> x = acc @ s \<and> \<not> sublist delim s"
proof (induction s arbitrary: acc)
  case Nil
  then show ?case by (subst (asm) Split_from.simps) (simp add: delim_def)
next
  case (Cons c s)
  have "\<not> prefix delim (c # s)"
    using Cons.prems by (subst (asm) Split_from.simps) (auto split: if_splits)
  moreover from this Cons.prems have "Split_from delim (acc @ [c]) s = [x]"
    by (subst (asm) Split_from.simps) simp
  ultimately show ?case using Cons.IH by (fastforce simp: sublist_Cons_right)
qed

definition plain_name :: "string \<Rightarrow> bool" where
  "plain_name n \<longleftrightarrow> \<not> Contains (n @ '':'') delim"

definition plain_addr :: "string \<Rightarrow> bool" where
  "plain_addr a \<longleftrightarrow> \<not> Contains a delim"

lemma parse_build:
  "plain_name n \<Longrightarrow> plain_addr a \<Longrightarrow>
     parsePhysicalNamespace (buildPhysicalNamespace n a) = Ret \<lparr>ns_cluster = Some \<lparr>address = a\<rparr>, ns_name = n\<rparr>"
  using Split_from_delim_append[of n "[]" a] Split_from_no_sep[of delim a "[]"]
  by (simp add: plain_name_def plain_addr_def Contains_iff_sublist parsePhysicalNamespace_def
      buildPhysicalNamespace_def Split_def Let_def)

lemma parse_buildD:
  assumes "parsePhysicalNamespace (buildPhysicalNamespace n a) = Ret \<lparr>ns_cluster = Some \<lparr>address = a\<rparr>, ns_name = n\<rparr>"
  shows "plain_name n \<and> plain_addr a"
proof -
  let ?p = "n @ delim @ a"
  obtain x y zs where s: "Split_from delim [] ?p = x # y # zs"
    using assms by (cases "Split_from delim [] ?p" rule: remdups_adj.cases)
      (auto simp: parsePhysicalNamespace_def buildPhysicalNamespace_def Split_def Let_def)
  then have xy: "x = n" "y = a"
    using assms by (auto simp: parsePhysicalNamespace_def buildPhysicalNamespace_def Split_def Let_def)
  from Split_from_two[OF s] xy have n: "\<not> sublist delim (n @ '':'')" and a: "Split_from delim [] a = a # zs"
    by auto
  have "zs = []"
  proof (rule ccontr)
    assume "zs \<noteq> []"
    with Join_Split_from[of delim "[]" a] a show False by (simp add: Join_Cons_not_Nil)
  qed
  with a Split_from_one have "\<not> sublist delim a" by blast
  with n show ?thesis by (simp add: plain_name_def plain_addr_def Contains_iff_sublist)
qed

lemma parse_panics_iff: "is_panic (parsePhysicalNamespace p) \<longleftrightarrow> \<not> Contains p delim"
proof -
  have "length (Split_from delim [] p) \<le> 1 \<longleftrightarrow> \<not> sublist delim p"
  proof
    assume "length (Split_from delim [] p) \<le> 1"
    then obtain x where "Split_from delim [] p = [x]"
      by (metis Split_from_not_Nil One_nat_def Suc_le_mono le_zero_eq length_0_conv length_Suc_conv not_less_eq_eq less_one linorder_not_le order_antisym_conv)
    then show "\<not> sublist delim p" using Split_from_one by blast
  qed (simp add: Split_from_no_sep)
  then show ?thesis by (simp add: parsePhysicalNamespace_def Let_def Split_def Contains_iff_sublist)
qed

lemma parse_examples:
  "parsePhysicalNamespace ''a::h1'' = Ret \<lparr>ns_cluster = Some \<lparr>address = ''h1''\<rparr>, ns_name = ''a''\<rparr>"
  "parsePhysicalNamespace ''b::h2'' = Ret \<lparr>ns_cluster = Some \<lparr>address = ''h2''\<rparr>, ns_name = ''b''\<rparr>"
  by code_simp+

section \<open>Invariants of a virtual namespace\<close>

text \<open>
  \<open>vn_inv\<close> always holds: the slots of the ring are active namespaces. \<open>vn_full\<close> adds, for names
  from a collision-free set \<open>S\<close>, that every active namespace is on the ring.
\<close>

definition vn_active :: "VirtualNamespace \<Rightarrow> string set" where
  "vn_active v = {s. vn_Namespaces v s = Some NamespaceActive}"

definition vn_inv :: "hash_fun \<Rightarrow> VirtualNamespace \<Rightarrow> bool" where
  "vn_inv sum32 v \<longleftrightarrow> ring_inv sum32 (vn_Ring v) \<and> virtualNodes (vn_Ring v) = 50 \<and>
     ring_slots (vn_Ring v) \<subseteq> vn_active v"

definition vn_full :: "hash_fun \<Rightarrow> string set \<Rightarrow> VirtualNamespace \<Rightarrow> bool" where
  "vn_full sum32 S v \<longleftrightarrow> ring_full sum32 50 S (vn_Ring v) \<and> ring_slots (vn_Ring v) = vn_active v \<and>
     dom (vn_Namespaces v) \<subseteq> S"

lemma status_distinct [simp]: "NamespaceActive \<noteq> NamespaceCordoned" "NamespaceCordoned \<noteq> NamespaceActive"
  by (simp_all add: NamespaceActive_def NamespaceCordoned_def)

lemma vn_Namespaces_Add [simp]:
  "vn_Namespaces (VirtualNamespace_Add sum32 ns v) = (vn_Namespaces v)(ns_name ns \<mapsto> NamespaceActive)"
  "vn_Ring (VirtualNamespace_Add sum32 ns v) = AddSlot sum32 (ns_name ns) (vn_Ring v)"
  "vn_Name (VirtualNamespace_Add sum32 ns v) = vn_Name v"
  by (simp_all add: VirtualNamespace_Add_def Let_def)

lemma vn_Namespaces_Remove [simp]:
  "vn_Namespaces (snd (VirtualNamespace_Remove sum32 ns v)) =
     (if vn_Namespaces v (ns_name ns) \<noteq> None
      then (vn_Namespaces v)(ns_name ns \<mapsto> NamespaceCordoned) else vn_Namespaces v)"
  "vn_Ring (snd (VirtualNamespace_Remove sum32 ns v)) = snd (RemoveSlot sum32 (ns_name ns) (vn_Ring v))"
  "vn_Name (snd (VirtualNamespace_Remove sum32 ns v)) = vn_Name v"
  "fst (VirtualNamespace_Remove sum32 ns v) = fst (RemoveSlot sum32 (ns_name ns) (vn_Ring v))"
  by (simp_all add: VirtualNamespace_Remove_def Let_def split: prod.splits)

lemma vn_active_Add [simp]: "vn_active (VirtualNamespace_Add sum32 ns v) = insert (ns_name ns) (vn_active v)"
  by (auto simp: vn_active_def)

lemma vn_active_Remove [simp]:
  "vn_active (snd (VirtualNamespace_Remove sum32 ns v)) = vn_active v - {ns_name ns}"
  by (auto simp: vn_active_def)

lemma NewVirtualNamespace_inv [inv_intros]: "vn_inv sum32 (NewVirtualNamespace name)"
  using NewConsistentHash_inv[of 50 sum32]
  by (simp add: vn_inv_def NewVirtualNamespace_def) (simp add: ring_slots_def NewConsistentHash_def)

lemma VirtualNamespace_Add_inv [inv_intros]:
  assumes "vn_inv sum32 v"
  shows "vn_inv sum32 (VirtualNamespace_Add sum32 ns v)"
proof -
  have "ring_inv sum32 (vn_Ring v)" using assms by (simp add: vn_inv_def)
  from ring.slots_add[OF UNIV_I this, of "ns_name ns"] assms show ?thesis
    by (auto simp: vn_inv_def intro: AddSlot_inv)
qed

lemma VirtualNamespace_Remove_inv [inv_intros]:
  assumes "vn_inv sum32 v" "VirtualNamespace_Remove sum32 ns v = (Ret (), v')"
  shows "vn_inv sum32 v'"
proof -
  have v': "v' = snd (VirtualNamespace_Remove sum32 ns v)" using assms(2) by simp
  have inv: "ring_inv sum32 (vn_Ring v)" "virtualNodes (vn_Ring v) = 50" using assms by (auto simp: vn_inv_def)
  have "fst (RemoveSlot sum32 (ns_name ns) (vn_Ring v)) = Ret ()"
    using assms(2) vn_Namespaces_Remove(4)[of sum32 ns v] by simp
  then have "ring_inv sum32 (vn_Ring v')"
    unfolding v' using RemoveSlot_inv[OF inv(1)] by (metis surjective_pairing vn_Namespaces_Remove(2))
  moreover have "ring_slots (vn_Ring v') \<subseteq> ring_slots (vn_Ring v) - {ns_name ns}"
    using inv unfolding v'
    by (auto simp: ring_slots_def RemoveSlot_eq Let_def ran_def ring_inv_def split: if_splits)
  ultimately show ?thesis using assms(1) inv unfolding v' by (auto simp: vn_inv_def)
qed

lemma NewVirtualNamespace_full [inv_intros]:
  assumes "collision_free sum32 50 S"
  shows "vn_full sum32 S (NewVirtualNamespace name)"
  using NewConsistentHash_full[OF _ assms]
  by (simp add: vn_full_def NewVirtualNamespace_def vn_active_def) (simp add: ring_slots_def NewConsistentHash_def)

lemma VirtualNamespace_Add_full [inv_intros]:
  assumes "vn_full sum32 S v" "ns_name ns \<in> S"
  shows "vn_full sum32 S (VirtualNamespace_Add sum32 ns v)"
  using assms AddSlot_full[of sum32 50 S "vn_Ring v" "ns_name ns"]
    ring_slots_AddSlot[of sum32 50 S "vn_Ring v" "ns_name ns"]
  by (auto simp: vn_full_def)

lemma VirtualNamespace_Remove_full [inv_intros]:
  assumes "vn_full sum32 S v" "ns_name ns \<in> S"
  shows "vn_full sum32 S (snd (VirtualNamespace_Remove sum32 ns v))"
  using assms RemoveSlot_full[of sum32 50 S "vn_Ring v" "ns_name ns"]
    ring_slots_RemoveSlot[of sum32 50 S "vn_Ring v" "ns_name ns"]
  by (auto simp: vn_full_def)

lemma vn_full_inv: "vn_full sum32 S v \<Longrightarrow> vn_inv sum32 v"
  by (simp add: vn_full_def vn_inv_def ring_full_def)

section \<open>A group of namespaces that can be drained\<close>

text \<open>
  The contract of a virtual namespace towards the resolver and the admin API: \<open>route\<close> picks an
  active member, cordoning keeps a member known but takes it out of the routing, and neither
  operation moves a key between two members that stay active.
\<close>

datatype group_op = Join_op string | Cordon_op string

locale drainable_group =
  fixes universe :: "string set"
    and join :: "string \<Rightarrow> 'g \<Rightarrow> 'g"
    and cordon :: "string \<Rightarrow> 'g \<Rightarrow> 'g"
    and route :: "string \<Rightarrow> 'g \<Rightarrow> string"
    and active :: "'g \<Rightarrow> string set"
    and known :: "'g \<Rightarrow> string set"
    and invar :: "'g \<Rightarrow> bool"
  assumes invar_join: "s \<in> universe \<Longrightarrow> invar g \<Longrightarrow> invar (join s g)"
    and invar_cordon: "s \<in> universe \<Longrightarrow> invar g \<Longrightarrow> invar (cordon s g)"
    and active_join: "s \<in> universe \<Longrightarrow> invar g \<Longrightarrow> active (join s g) = insert s (active g)"
    and active_cordon: "s \<in> universe \<Longrightarrow> invar g \<Longrightarrow> active (cordon s g) = active g - {s}"
    and known_join: "known (join s g) = insert s (known g)"
    and known_cordon: "known (cordon s g) = known g"
    and route_active: "invar g \<Longrightarrow> active g \<noteq> {} \<Longrightarrow> route k g \<in> active g"
    and route_join: "s \<in> universe \<Longrightarrow> invar g \<Longrightarrow> route k (join s g) \<in> {s, route k g}"
    and route_cordon: "s \<in> universe \<Longrightarrow> invar g \<Longrightarrow> route k g \<noteq> s \<Longrightarrow> route k (cordon s g) = route k g"
    and route_ext: "invar g \<Longrightarrow> invar g' \<Longrightarrow> active g = active g' \<Longrightarrow> route k g = route k g'"
begin

fun apply_op :: "group_op \<Rightarrow> 'g \<Rightarrow> 'g" where
  "apply_op (Join_op s) g = join s g"
| "apply_op (Cordon_op s) g = cordon s g"

fun op_slot :: "group_op \<Rightarrow> string" where
  "op_slot (Join_op s) = s"
| "op_slot (Cordon_op s) = s"

lemma invar_run: "op_slot ` set ops \<subseteq> universe \<Longrightarrow> invar g \<Longrightarrow> invar (fold apply_op ops g)"
proof (induction ops arbitrary: g)
  case (Cons x ops)
  then show ?case by (cases x) (auto simp: invar_join invar_cordon)
qed simp

lemma known_run: "known g \<subseteq> known (fold apply_op ops g)"
proof (induction ops arbitrary: g)
  case (Cons x ops)
  have "known g \<subseteq> known (apply_op x g)" by (cases x) (auto simp: known_join known_cordon)
  with Cons show ?case by (simp, blast)
qed simp

text \<open>A key moves only to a slot that was added or away from a slot that was cordoned.\<close>

lemma route_run_stable:
  assumes "op_slot ` set ops \<subseteq> universe" "invar g" "route k g \<notin> op_slot ` set ops"
    "\<forall>x\<in>set ops. \<exists>s. x = Cordon_op s"
  shows "route k (fold apply_op ops g) = route k g"
  using assms
proof (induction ops arbitrary: g)
  case (Cons x ops)
  then obtain s where x: "x = Cordon_op s" by auto
  have r: "route k (cordon s g) = route k g" using Cons.prems x by (intro route_cordon) auto
  have "route k (fold apply_op ops (cordon s g)) = route k (cordon s g)"
    using Cons.prems x r by (intro Cons.IH) (auto simp: invar_cordon)
  with r x show ?case by simp
qed simp

lemma route_run_active:
  assumes "op_slot ` set ops \<subseteq> universe" "invar g" "active (fold apply_op ops g) \<noteq> {}"
  shows "route k (fold apply_op ops g) \<in> active (fold apply_op ops g)"
  using assms by (intro route_active invar_run)

end

interpretation vns: drainable_group S
    "\<lambda>s. VirtualNamespace_Add sum32 \<lparr>ns_cluster = None, ns_name = s\<rparr>"
    "\<lambda>s v. snd (VirtualNamespace_Remove sum32 \<lparr>ns_cluster = None, ns_name = s\<rparr> v)"
    "\<lambda>k v. GetSlot sum32 k (vn_Ring v)" vn_active "\<lambda>v. dom (vn_Namespaces v)" "vn_full sum32 S"
  for S sum32
proof
  fix s g assume s: "s \<in> S" and g: "vn_full sum32 S g"
  have r: "ring_full sum32 50 S (vn_Ring g)" using g by (simp add: vn_full_def)
  show "vn_full sum32 S (VirtualNamespace_Add sum32 \<lparr>ns_cluster = None, ns_name = s\<rparr> g)"
    using g s by (intro VirtualNamespace_Add_full) auto
  show "vn_full sum32 S (snd (VirtualNamespace_Remove sum32 \<lparr>ns_cluster = None, ns_name = s\<rparr> g))"
    using g s by (intro VirtualNamespace_Remove_full) auto
  fix k
  show "GetSlot sum32 k (vn_Ring (VirtualNamespace_Add sum32 \<lparr>ns_cluster = None, ns_name = s\<rparr> g))
      \<in> {s, GetSlot sum32 k (vn_Ring g)}"
    using full.get_add[OF s r] by simp
  show "GetSlot sum32 k (vn_Ring g) \<noteq> s \<Longrightarrow>
      GetSlot sum32 k (vn_Ring (snd (VirtualNamespace_Remove sum32 \<lparr>ns_cluster = None, ns_name = s\<rparr> g)))
        = GetSlot sum32 k (vn_Ring g)"
    using full.get_remove[OF s r] by simp
next
  fix g k assume "vn_full sum32 S g" "vn_active g \<noteq> {}"
  then show "GetSlot sum32 k (vn_Ring g) \<in> vn_active g"
    using full.get_member[of sum32 50 S "vn_Ring g" k] by (simp add: vn_full_def)
next
  fix g g' k assume "vn_full sum32 S g" "vn_full sum32 S g'" "vn_active g = vn_active g'"
  then show "GetSlot sum32 k (vn_Ring g) = GetSlot sum32 k (vn_Ring g')"
    by (intro full.get_ext[of sum32 50 S]) (auto simp: vn_full_def)
qed auto

section \<open>Listing\<close>

lemma copy_status_eq: "copy_status m ks result = (\<lambda>k. if k \<in> set ks then m k else result k)"
  by (induction ks arbitrary: result) (auto simp: fun_eq_iff)

lemma GetAllNamespacesWithStatus_eq:
  "dom (vn_Namespaces v) \<subseteq> set keys \<Longrightarrow> GetAllNamespacesWithStatus keys v = vn_Namespaces v"
  by (force simp: GetAllNamespacesWithStatus_def copy_status_eq fun_eq_iff domIff subset_iff)

lemma collect_keys_eq: "collect_keys m ks result = result @ filter (\<lambda>k. m k \<noteq> None) ks"
  by (induction m ks result rule: collect_keys.induct) auto

lemma set_GetAllNamespaces:
  "dom (vn_Namespaces v) \<subseteq> set keys \<Longrightarrow> set (GetAllNamespaces keys v) = dom (vn_Namespaces v)"
  by (auto simp: GetAllNamespaces_def collect_keys_eq)

section \<open>Load after checkpoint\<close>

lemma load_slots_full:
  assumes "vn_full sum32 S v" "fst ` set al \<subseteq> S" "distinct (map fst al)"
    "fst ` set al \<inter> dom (vn_Namespaces v) = {}"
  shows "vn_full sum32 S (load_slots sum32 al v) \<and>
    vn_Namespaces (load_slots sum32 al v) = vn_Namespaces v ++ map_of al \<and>
    vn_Name (load_slots sum32 al v) = vn_Name v"
  using assms
proof (induction sum32 al v rule: load_slots.induct)
  case (2 sum32 slot status rest v)
  let ?v = "if status = NamespaceActive then VirtualNamespace_Add sum32 \<lparr>ns_cluster = None, ns_name = slot\<rparr> v
            else v\<lparr>vn_Namespaces := (vn_Namespaces v)(slot \<mapsto> status)\<rparr>"
  have ns: "vn_Namespaces ?v = (vn_Namespaces v)(slot \<mapsto> status)" by simp
  have "vn_full sum32 S ?v"
  proof (cases "status = NamespaceActive")
    case True
    with 2 show ?thesis by (simp add: VirtualNamespace_Add_full)
  next
    case False
    have "vn_active ?v = vn_active v" using False "2.prems"(4) by (auto simp: vn_active_def)
    with False 2 show ?thesis by (auto simp: vn_full_def)
  qed
  moreover have "fst ` set rest \<inter> dom (vn_Namespaces ?v) = {}" using "2.prems"(3,4) unfolding ns by auto
  ultimately have "vn_full sum32 S (load_slots sum32 rest ?v) \<and>
    vn_Namespaces (load_slots sum32 rest ?v) = vn_Namespaces ?v ++ map_of rest \<and>
    vn_Name (load_slots sum32 rest ?v) = vn_Name ?v"
    using "2.prems" by (intro "2.IH") auto
  moreover have "vn_Namespaces ?v ++ map_of rest = vn_Namespaces v ++ map_of ((slot, status) # rest)"
    using "2.prems"(3) unfolding ns
    by (subst map_add_upd_left) (auto simp: dom_map_of_conv_image_fst)
  moreover have "vn_Name ?v = vn_Name v" by simp
  ultimately show ?case unfolding load_slots.simps by argo
qed simp

definition schema_map :: "schema \<Rightarrow> (string \<rightharpoonup> (string \<rightharpoonup> NamespaceStatus))" where
  "schema_map sch = map_of (map (\<lambda>(name, al). (name, map_of al)) sch)"

definition schema_ok :: "string set \<Rightarrow> schema \<Rightarrow> bool" where
  "schema_ok S sch \<longleftrightarrow> distinct (map fst sch) \<and> (\<forall>(name, al)\<in>set sch. distinct (map fst al) \<and> fst ` set al \<subseteq> S)"

definition reg_full :: "hash_fun \<Rightarrow> string set \<Rightarrow> VirtualNamespaceRegistry \<Rightarrow> bool" where
  "reg_full sum32 S reg \<longleftrightarrow> (\<forall>name p. reg_namespaces reg name = Some p \<longrightarrow>
     p < length (reg_heap reg) \<and> vn_full sum32 S (deref p reg) \<and> vn_Name (deref p reg) = name)"

definition reg_statuses :: "VirtualNamespaceRegistry \<Rightarrow> (string \<rightharpoonup> (string \<rightharpoonup> NamespaceStatus))" where
  "reg_statuses reg = (\<lambda>name. map_option (\<lambda>p. vn_Namespaces (deref p reg)) (reg_namespaces reg name))"

lemma schema_map_simps:
  "schema_map [] = Map.empty"
  "schema_map ((name, al) # sch) = (schema_map sch)(name \<mapsto> map_of al)"
  "dom (schema_map sch) = fst ` set sch"
  by (simp_all add: schema_map_def dom_map_of_conv_image_fst image_image case_prod_beta)

lemma load_schema_full:
  assumes "collision_free sum32 50 S" "reg_full sum32 S reg" "schema_ok S sch"
    "fst ` set sch \<inter> dom (reg_namespaces reg) = {}"
  shows "reg_full sum32 S (load_schema sum32 sch reg) \<and>
    reg_statuses (load_schema sum32 sch reg) = reg_statuses reg ++ schema_map sch"
  using assms(2-)
proof (induction sch arbitrary: reg)
  case (Cons x sch)
  obtain name al where x: "x = (name, al)" by (cases x)
  let ?vn = "load_slots sum32 al (NewVirtualNamespace name)"
  let ?reg = "reg\<lparr>reg_heap := reg_heap reg @ [?vn], reg_namespaces := (reg_namespaces reg)(name \<mapsto> length (reg_heap reg))\<rparr>"
  have new: "vn_full sum32 S (NewVirtualNamespace name)" by (rule NewVirtualNamespace_full[OF assms(1)])
  have vn: "vn_full sum32 S ?vn" "vn_Namespaces ?vn = map_of al" "vn_Name ?vn = name"
    using load_slots_full[OF new, of al] Cons.prems(2) x
    by (auto simp: schema_ok_def NewVirtualNamespace_def)
  have full: "reg_full sum32 S ?reg"
    using Cons.prems(1) vn by (auto simp: reg_full_def deref_def nth_append less_Suc_eq)
  have "reg_statuses ?reg n = ((reg_statuses reg)(name \<mapsto> map_of al)) n" for n
  proof (cases "reg_namespaces reg n")
    case (Some p)
    then have "p < length (reg_heap reg)" using Cons.prems(1) by (simp add: reg_full_def)
    with Some vn show ?thesis by (auto simp: reg_statuses_def deref_def nth_append)
  qed (use vn in \<open>auto simp: reg_statuses_def deref_def\<close>)
  then have st: "reg_statuses ?reg = (reg_statuses reg)(name \<mapsto> map_of al)" by (rule ext)
  have name: "name \<notin> fst ` set sch" "fst ` set sch \<inter> dom (reg_namespaces reg) = {}"
    using Cons.prems x by (auto simp: schema_ok_def)
  have "dom (reg_namespaces ?reg) = insert name (dom (reg_namespaces reg))" by auto
  with name have dis: "fst ` set sch \<inter> dom (reg_namespaces ?reg) = {}" by simp
  have "reg_full sum32 S (load_schema sum32 sch ?reg) \<and>
      reg_statuses (load_schema sum32 sch ?reg) = reg_statuses ?reg ++ schema_map sch"
    using Cons.prems x by (intro Cons.IH full dis) (auto simp: schema_ok_def)
  moreover have "(reg_statuses reg)(name \<mapsto> map_of al) ++ schema_map sch = reg_statuses reg ++ schema_map (x # sch)"
    unfolding x schema_map_simps(2) map_add_upd
    using name(1) by (intro map_add_upd_left) (simp add: schema_map_simps(3))
  ultimately show ?case using x st by (simp add: alloc_def Let_def)
qed (simp add: schema_map_def)

text \<open>
  \<open>json_faithful\<close>: what the checkpoint relies on in \<^verbatim>\<open>encoding/json\<close>: a finite map of ASCII texts is marshalled to a text that
  unmarshals to the same map, whatever the order in which Go then ranges over it. (Bytes that are not UTF-8 are replaced.)
\<close>

definition ascii :: "string \<Rightarrow> bool" where
  "ascii s \<longleftrightarrow> (\<forall>c\<in>set s. (of_char c :: nat) < 128)"

definition ascii_table :: "(string \<rightharpoonup> NamespaceStatus) \<Rightarrow> bool" where
  "ascii_table t \<longleftrightarrow> finite (dom t) \<and> (\<forall>s status. t s = Some status \<longrightarrow> ascii s \<and> ascii status)"

definition ascii_tables :: "(string \<rightharpoonup> (string \<rightharpoonup> NamespaceStatus)) \<Rightarrow> bool" where
  "ascii_tables m \<longleftrightarrow> finite (dom m) \<and> (\<forall>name t. m name = Some t \<longrightarrow> ascii name \<and> ascii_table t)"

definition json_faithful ::
    "((string \<rightharpoonup> (string \<rightharpoonup> NamespaceStatus)) \<Rightarrow> string result) \<Rightarrow> (string \<Rightarrow> schema result) \<Rightarrow> bool" where
  "json_faithful marshal unmarshal \<longleftrightarrow>
     (\<forall>m. ascii_tables m \<longrightarrow>
        (\<exists>json sch. marshal m = Inr json \<and> json \<noteq> '''' \<and> unmarshal json = Inr sch \<and> schema_ok UNIV sch \<and> schema_map sch = m))"

text \<open>The JSON text of \<open>JsonText\<close> meets it.\<close>

lemma json_text_faithful: "json_faithful json_marshal json_unmarshal"
  unfolding json_faithful_def
proof (intro allI impI)
  fix m :: "string \<rightharpoonup> (string \<rightharpoonup> NamespaceStatus)"
  assume m: "ascii_tables m"
  let ?sch = "map (\<lambda>(k, f). (k, sorted_entries f)) (sorted_entries m)"
  obtain json where json: "json_marshal m = Inr json"
    by (simp add: json_marshal_def)
  have keys: "map fst ?sch = map fst (sorted_entries m)"
    by (simp add: case_prod_beta comp_def)
  have inner: "m name = Some t" if "(name, t) \<in> set (sorted_entries m)" for name t
    using that m by (auto simp: sorted_entries_def ascii_tables_def)
  have "schema_ok UNIV ?sch"
    using keys by (auto simp: schema_ok_def sorted_entries_keys)
  moreover have "map_of (sorted_entries t) = t" if "(name, t) \<in> set (sorted_entries m)" for name t
    using inner[OF that] m by (intro map_of_sorted_entries) (auto simp: ascii_tables_def ascii_table_def)
  then have "map (\<lambda>(name, al). (name, map_of al)) ?sch = sorted_entries m"
    by (auto intro!: map_idI)
  then have "schema_map ?sch = m"
    using m map_of_sorted_entries[of m] by (simp add: schema_map_def ascii_tables_def)
  ultimately show "\<exists>json sch. json_marshal m = Inr json \<and> json \<noteq> '''' \<and> json_unmarshal json = Inr sch \<and>
      schema_ok UNIV sch \<and> schema_map sch = m"
    using json json_unmarshal_written[OF json] by blast
qed

lemma empty_registry_full: "reg_full sum32 S empty_registry"
  by (simp add: reg_full_def empty_registry_def)

text \<open>What is read back from the tables of a well-formed registry names the same namespaces.\<close>

lemma schema_ok_statuses:
  assumes "schema_ok UNIV sch" "schema_map sch = reg_statuses reg" "reg_full sum32 S reg"
  shows "schema_ok S sch"
proof -
  have "fst ` set al \<subseteq> S" if "(name, al) \<in> set sch" for name al
  proof -
    have "distinct (map fst (map (\<lambda>(name, al). (name, map_of al)) sch))"
      using assms(1) by (simp add: schema_ok_def case_prod_beta comp_def)
    then have "schema_map sch name = Some (map_of al)"
      unfolding schema_map_def using that by (intro map_of_is_SomeI) force+
    then obtain p where "reg_namespaces reg name = Some p" "vn_Namespaces (deref p reg) = map_of al"
      using assms(2) by (auto simp: reg_statuses_def)
    then have "dom (map_of al) \<subseteq> S"
      using assms(3) unfolding reg_full_def vn_full_def by metis
    then show ?thesis
      by (simp add: dom_map_of_conv_image_fst)
  qed
  then show ?thesis
    using assms(1) by (auto simp: schema_ok_def)
qed

lemma restore_checkpoint:
  assumes "redis_ok c" "json_faithful marshal unmarshal" "collision_free sum32 50 S" "reg_full sum32 S reg"
    and "ascii_tables (reg_statuses reg)"
    and "\<forall>name p. reg_namespaces reg name = Some p \<longrightarrow> dom (vn_Namespaces (deref p reg)) \<subseteq> set (keys p)"
    and "connect (registry_addr addr) = (c, checkpoint marshal c keys reg w)"
  shows "reg_full sum32 S (fst (NewVirtualNamespaceRegistry sum32 unmarshal connect addr))"
    and "reg_statuses (fst (NewVirtualNamespaceRegistry sum32 unmarshal connect addr)) = reg_statuses reg"
proof -
  let ?w = "snd (rc_ping c (checkpoint marshal c keys reg w))"
  have tables: "registry_schema keys reg = reg_statuses reg"
    using assms(6) by (auto simp: registry_schema_def reg_statuses_def GetAllNamespacesWithStatus_eq intro!: ext option.map_cong0)
  obtain json sch where json: "marshal (registry_schema keys reg) = Inr json" "json \<noteq> ''''"
    and sch: "unmarshal json = Inr sch" "schema_ok UNIV sch" "schema_map sch = reg_statuses reg"
    using assms(2,5) unfolding tables json_faithful_def by blast
  have "redis_view c ?w registry_key = Some json"
    using redis_okD(8)[OF assms(1)] redis_okD(2)[OF assms(1)] json(1)
    by (simp add: checkpoint_def)
  then have get: "fst (rc_get c registry_key ?w) = Inr json"
    by (auto simp: redis_view_def split: sum.splits)
  have "fst (NewVirtualNamespaceRegistry sum32 unmarshal connect addr) = load_schema sum32 sch empty_registry"
    using assms(7) get json(2) sch(1) unfolding NewVirtualNamespaceRegistry_def
    by (auto simp: Let_def split: prod.splits)
  moreover note load_schema_full[OF assms(3) empty_registry_full schema_ok_statuses[OF sch(2,3) assms(4)]]
  ultimately show "reg_full sum32 S (fst (NewVirtualNamespaceRegistry sum32 unmarshal connect addr))"
    "reg_statuses (fst (NewVirtualNamespaceRegistry sum32 unmarshal connect addr)) = reg_statuses reg"
    using sch(3) by (auto simp: empty_registry_def reg_statuses_def map_add_def fun_eq_iff)
qed

text \<open>Registries with equal status tables route every workflow alike.\<close>

lemma reg_statuses_route:
  assumes "reg_full sum32 S reg" "reg_full sum32 S reg'" "reg_statuses reg = reg_statuses reg'"
    and "reg_namespaces reg name = Some p"
  shows "\<exists>p'. reg_namespaces reg' name = Some p' \<and> vn_Namespaces (deref p' reg') = vn_Namespaces (deref p reg) \<and>
    (\<forall>k. GetSlot sum32 k (vn_Ring (deref p' reg')) = GetSlot sum32 k (vn_Ring (deref p reg)))"
proof -
  have "reg_statuses reg' name = Some (vn_Namespaces (deref p reg))"
    using assms(3,4) by (metis (mono_tags) option.simps(9) reg_statuses_def)
  then obtain p' where p': "reg_namespaces reg' name = Some p'" "vn_Namespaces (deref p' reg') = vn_Namespaces (deref p reg)"
    by (auto simp: reg_statuses_def)
  then have "vn_active (deref p' reg') = vn_active (deref p reg)" by (simp add: vn_active_def)
  moreover have "vn_full sum32 S (deref p' reg')" "vn_full sum32 S (deref p reg)"
    using assms p'(1) by (auto simp: reg_full_def)
  ultimately show ?thesis using p' vns.route_ext by blast
qed

section \<open>Histories of a virtual namespace\<close>

fun vn_apply :: "hash_fun \<Rightarrow> group_op \<Rightarrow> VirtualNamespace \<Rightarrow> VirtualNamespace" where
  "vn_apply sum32 (Join_op s) v = VirtualNamespace_Add sum32 \<lparr>ns_cluster = None, ns_name = s\<rparr> v"
| "vn_apply sum32 (Cordon_op s) v = snd (VirtualNamespace_Remove sum32 \<lparr>ns_cluster = None, ns_name = s\<rparr> v)"

fun group_slot :: "group_op \<Rightarrow> string" where
  "group_slot (Join_op s) = s"
| "group_slot (Cordon_op s) = s"

text \<open>The status table alone.\<close>

fun status_apply :: "group_op \<Rightarrow> (string \<rightharpoonup> NamespaceStatus) \<Rightarrow> (string \<rightharpoonup> NamespaceStatus)" where
  "status_apply (Join_op s) f = f(s \<mapsto> NamespaceActive)"
| "status_apply (Cordon_op s) f = (if f s \<noteq> None then f(s \<mapsto> NamespaceCordoned) else f)"

lemma vn_apply_eq: "vn_apply sum32 x = vns.apply_op sum32 x" and group_slot_eq: "group_slot x = vns.op_slot x"
  by (cases x; auto simp: fun_eq_iff)+

lemma vn_apply_status: "vn_Namespaces (vn_apply sum32 x v) = status_apply x (vn_Namespaces v)"
  by (cases x) simp_all

lemma vn_history_status: "vn_Namespaces (fold (vn_apply sum32) ops v) = fold status_apply ops (vn_Namespaces v)"
  by (induction ops arbitrary: v) (simp_all add: vn_apply_status)

lemma vn_history_full:
  "group_slot ` set ops \<subseteq> S \<Longrightarrow> vn_full sum32 S v \<Longrightarrow> vn_full sum32 S (fold (vn_apply sum32) ops v)"
  using vns.invar_run[of ops S sum32 v] by (simp add: vn_apply_eq[abs_def] group_slot_eq[abs_def])

lemma vn_full_route_none: "vn_full sum32 S v \<Longrightarrow> vn_active v = {} \<Longrightarrow> GetSlot sum32 k (vn_Ring v) = ''''"
  using full.get_none[of sum32 50 S "vn_Ring v" k] by (simp add: vn_full_def)

section \<open>Properties\<close>

text \<open>
  C23: A physical namespace name can be taken apart again exactly when the separator neither
  occurs in the address nor begins inside the namespace name followed by a colon: IPv6
  addresses and names that end in a colon do not survive.
\<close>

theorem parse_build_iff:
  "parsePhysicalNamespace (buildPhysicalNamespace n a) = Ret \<lparr>ns_cluster = Some \<lparr>address = a\<rparr>, ns_name = n\<rparr>
     \<longleftrightarrow> plain_name n \<and> plain_addr a"
  using parse_build parse_buildD by blast

text \<open>
  \<open>parsePhysicalNamespace\<close> on every string: without a separator it panics; otherwise the name is
  the text before the first separator and the address the text up to the second one or the end.
\<close>

theorem parse_total:
  "case parsePhysicalNamespace p of
     Ret ns \<Rightarrow> \<exists>a rest. p = ns_name ns @ delim @ Join (a # rest) delim \<and> plain_name (ns_name ns) \<and>
        ns_cluster ns = Some \<lparr>address = a\<rparr> \<and> Split (Join (a # rest) delim) delim = a # rest
   | Panic msg \<Rightarrow> \<not> Contains p delim
   | Hang \<Rightarrow> False"
proof (cases "length (Split_from delim [] p) \<le> 1")
  case True
  then have "is_panic (parsePhysicalNamespace p)" by (simp add: parsePhysicalNamespace_def Split_def)
  then show ?thesis using parse_panics_iff[of p] True by (simp add: parsePhysicalNamespace_def Split_def)
next
  case False
  then obtain x y zs where s: "Split_from delim [] p = x # y # zs"
    by (cases "Split_from delim [] p" rule: remdups_adj.cases) auto
  from Split_from_two[OF s] obtain u where u: "p = x @ delim @ u" "\<not> sublist delim (x @ '':'')" "Split_from delim [] u = y # zs"
    by auto
  then have "u = Join (y # zs) delim" using Join_Split_from[of delim "[]" u] by simp
  with u s show ?thesis
    by (auto simp: parsePhysicalNamespace_def Split_def plain_name_def Contains_iff_sublist Let_def intro!: exI[of _ y] exI[of _ zs])
qed

text \<open>
  C24: Draining, for physical namespaces whose virtual nodes do not collide on the ring: after any sequence of \<open>Add\<close> and
  \<open>Remove\<close> calls (removals that panic on an empty ring included) a new workflow goes to a namespace whose status is active, or nowhere when none is; a removed namespace
  stays in the table as cordoned, and cordoning namespaces moves none of the keys of the others.
\<close>

theorem virtual_namespace_drains:
  assumes "collision_free sum32 50 S" "group_slot ` set ops \<subseteq> S" "set drained \<subseteq> S"
    and "v = fold (vn_apply sum32) ops (NewVirtualNamespace name)"
    and "statuses = fold status_apply ops Map.empty"
  shows "vn_Namespaces v = statuses \<and>
    (if \<exists>s. statuses s = Some NamespaceActive then statuses (GetSlot sum32 k (vn_Ring v)) = Some NamespaceActive
     else GetSlot sum32 k (vn_Ring v) = '''') \<and>
    (GetSlot sum32 k (vn_Ring v) \<notin> set drained \<longrightarrow>
       GetSlot sum32 k (vn_Ring (fold (vn_apply sum32) (map Cordon_op drained) v)) = GetSlot sum32 k (vn_Ring v))"
proof -
  have full: "vn_full sum32 S v"
    unfolding assms(4) using assms(2) by (intro vn_history_full NewVirtualNamespace_full assms(1))
  have st: "vn_Namespaces v = statuses"
    unfolding assms(4,5) by (simp add: vn_history_status) (simp add: NewVirtualNamespace_def)
  have "GetSlot sum32 k (vn_Ring (fold (vn_apply sum32) (map Cordon_op drained) v)) = GetSlot sum32 k (vn_Ring v)"
    if "GetSlot sum32 k (vn_Ring v) \<notin> set drained"
    using vns.route_run_stable[of "map Cordon_op drained" S sum32 v k] full assms(3) that
    by (simp add: vn_apply_eq[abs_def] image_image)
  moreover have "vn_active v \<noteq> {} \<longleftrightarrow> (\<exists>s. statuses s = Some NamespaceActive)" using st by (auto simp: vn_active_def)
  ultimately show ?thesis
    using st vns.route_active[OF full] vn_full_route_none[OF full] by (auto simp: vn_active_def)
qed

theorem virtual_namespace_drains_witness:
  "GetSlot first_byte ''k'' (vn_Ring (fold (vn_apply first_byte) [Join_op ''a'', Join_op ''b'', Cordon_op ''a''] (NewVirtualNamespace ''vns''))) = ''b''"
proof -
  have cf: "collision_free first_byte 50 {''a'', ''b''}" by (rule first_byte_collision_free) auto
  have st: "fold status_apply [Join_op ''a'', Join_op ''b'', Cordon_op ''a''] Map.empty =
      [''a'' \<mapsto> NamespaceCordoned, ''b'' \<mapsto> NamespaceActive]" by (auto simp: fun_eq_iff)
  have ex: "\<exists>s. [''a'' \<mapsto> NamespaceCordoned, ''b'' \<mapsto> NamespaceActive] s = Some NamespaceActive" by (rule exI[of _ "''b''"]) simp
  have "group_slot ` set [Join_op ''a'', Join_op ''b'', Cordon_op ''a''] \<subseteq> {''a'', ''b''}" by simp
  from virtual_namespace_drains[OF cf this, of "[]" _ "''vns''" _ "''k''", OF _ refl refl]
  show ?thesis unfolding st using ex by (auto split: if_splits)
qed

text \<open>
  C25: Restart: a process that starts from the checkpoint of a registry has a virtual namespace for
  exactly the same names, with the same status tables, and places every workflow where the old
  process would have. The names and statuses are ASCII text and the virtual nodes of the physical namespaces do not collide; JSON is a
  parameter that is assumed to read back the maps of ASCII text that it wrote.
\<close>

theorem restart_routes_alike:
  assumes "redis_ok c" "json_faithful marshal unmarshal" "collision_free sum32 50 S" "reg_full sum32 S reg"
    and "ascii_tables (reg_statuses reg)"
    and "\<forall>name p. reg_namespaces reg name = Some p \<longrightarrow> dom (vn_Namespaces (deref p reg)) \<subseteq> set (keys p)"
    and "connect (registry_addr addr) = (c, checkpoint marshal c keys reg w)"
    and "reg' = fst (NewVirtualNamespaceRegistry sum32 unmarshal connect addr)"
  shows "dom (reg_namespaces reg') = dom (reg_namespaces reg) \<and>
    (\<forall>name p. reg_namespaces reg name = Some p \<longrightarrow>
       (\<exists>p'. reg_namespaces reg' name = Some p' \<and> vn_Name (deref p' reg') = name \<and>
          vn_Namespaces (deref p' reg') = vn_Namespaces (deref p reg) \<and>
          (\<forall>k. GetSlot sum32 k (vn_Ring (deref p' reg')) = GetSlot sum32 k (vn_Ring (deref p reg)))))"
proof -
  have full: "reg_full sum32 S reg'" and st: "reg_statuses reg' = reg_statuses reg"
    using restore_checkpoint[where connect = connect and keys = keys and addr = addr, OF assms(1-7)] assms(8) by simp_all
  have "dom (reg_statuses r) = dom (reg_namespaces r)" for r by (auto simp: reg_statuses_def)
  then have "dom (reg_namespaces reg') = dom (reg_namespaces reg)" using st by metis
  moreover have "\<exists>p'. reg_namespaces reg' name = Some p' \<and> vn_Name (deref p' reg') = name \<and>
      vn_Namespaces (deref p' reg') = vn_Namespaces (deref p reg) \<and>
      (\<forall>k. GetSlot sum32 k (vn_Ring (deref p' reg')) = GetSlot sum32 k (vn_Ring (deref p reg)))"
    if "reg_namespaces reg name = Some p" for name p
    using reg_statuses_route[OF assms(4) full st[symmetric] that] full unfolding reg_full_def by blast
  ultimately show ?thesis by blast
qed

definition example_schema :: schema where
  "example_schema = [(''vns'', [(''a'', NamespaceActive), (''b'', NamespaceCordoned)])]"

lemma example_schema_tables: "ascii_tables (schema_map example_schema)"
  by (simp add: ascii_tables_def ascii_table_def ascii_def schema_map_def example_schema_def NamespaceActive_def NamespaceCordoned_def)

theorem restart_routes_alike_witness:
  "let reg = load_schema first_byte example_schema empty_registry;
       reg' = fst (NewVirtualNamespaceRegistry first_byte json_unmarshal
                (\<lambda>addr. (mem_redis, checkpoint json_marshal mem_redis (\<lambda>p. [''b'', ''a'']) reg [])) ''redis:6379'')
   in dom (reg_namespaces reg') = {''vns''}"
proof -
  define reg where "reg = load_schema first_byte example_schema empty_registry"
  have cf: "collision_free first_byte 50 {''a'', ''b''}" by (rule first_byte_collision_free) auto
  have ok: "schema_ok {''a'', ''b''} example_schema" by (simp add: schema_ok_def example_schema_def)
  have full: "reg_full first_byte {''a'', ''b''} reg" and st: "reg_statuses reg = schema_map example_schema"
    using load_schema_full[OF cf empty_registry_full ok] unfolding reg_def
    by (auto simp: empty_registry_def reg_statuses_def map_add_def fun_eq_iff)
  have dom: "dom (reg_namespaces reg) = {''vns''}"
  proof -
    have "dom (reg_namespaces reg) = dom (reg_statuses reg)" by (auto simp: reg_statuses_def)
    then show ?thesis using st by (simp add: schema_map_simps(3)) (simp add: example_schema_def)
  qed
  have keys: "\<forall>name p. reg_namespaces reg name = Some p \<longrightarrow> dom (vn_Namespaces (deref p reg)) \<subseteq> set [''b'', ''a'']"
    using full by (auto simp: reg_full_def vn_full_def)
  show ?thesis unfolding Let_def reg_def[symmetric]
    using restart_routes_alike[where keys = "\<lambda>p. [''b'', ''a'']" and w = "[]" and addr = "''redis:6379''" and
        connect = "\<lambda>addr. (mem_redis, checkpoint json_marshal mem_redis (\<lambda>p. [''b'', ''a'']) reg [])",
        OF mem_redis_ok json_text_faithful cf full] example_schema_tables keys dom st by simp
qed

end
