(* ===== verification/Resolver.thy ===== *)
theory Resolver
  imports Namespaces
begin

text \<open>
  The workflow resolver of \<^verbatim>\<open>resolver.go\<close> with the payloads of \<^verbatim>\<open>payload.go\<close>: a workflow id that
  is in the routing cache keeps its physical namespace, any other is placed by the ring of its
  virtual namespace and then cached. The locale \<open>sticky_router\<close> is what the request handlers
  rely on.
\<close>

section \<open>Payloads\<close>

record Payload =
  WorkflowID :: string
  VirtualNamespaceName :: string

definition charset :: string where
  "charset = ''abcdefghijklmnopqrstuvwxyzABCDEFGHIJKLMNOPQRSTUVWXYZ0123456789''"

text \<open>
  \<^verbatim>\<open>rand.N(n)\<close> returns some number below \<open>n\<close>: the draws of a run are the stream \<open>rnd\<close>, indexed by
  their position.
\<close>

fun random_chars :: "(nat \<Rightarrow> nat) \<Rightarrow> nat \<Rightarrow> nat \<Rightarrow> string" where
  "random_chars rnd i 0 = []"
| "random_chars rnd i (Suc n) = charset ! (rnd i mod length charset) # random_chars rnd (Suc i) n"

definition GenerateRandomString :: "(nat \<Rightarrow> nat) \<Rightarrow> nat \<Rightarrow> nat \<Rightarrow> string" where
  "GenerateRandomString rnd i len = random_chars rnd i len"

definition makePayload :: "(nat \<Rightarrow> nat) \<Rightarrow> nat \<Rightarrow> string \<Rightarrow> Payload" where
  "makePayload rnd i vNamespace =
     \<lparr>WorkflowID = GenerateRandomString rnd i 128, VirtualNamespaceName = vNamespace\<rparr>"

fun makePayloads :: "(nat \<Rightarrow> nat) \<Rightarrow> nat \<Rightarrow> nat \<Rightarrow> string \<Rightarrow> Payload list" where
  "makePayloads rnd i 0 vNamespace = []"
| "makePayloads rnd i (Suc n) vNamespace =
     makePayload rnd i vNamespace # makePayloads rnd (i + 128) n vNamespace"

section \<open>Resolve\<close>

text \<open>\<open>totalWorkflowAllocated\<close> is the Prometheus counter: the number of increments per label.\<close>

record 'w Resolver =
  Cache :: "'w Mappings"
  totalWorkflowAllocated :: "string \<Rightarrow> nat"

definition NewResolver :: "'w Mappings \<Rightarrow> 'w Resolver" where
  "NewResolver cache = \<lparr>Cache = cache, totalWorkflowAllocated = (\<lambda>_. 0)\<rparr>"

definition Resolver_Resolve ::
    "hash_fun \<Rightarrow> Payload \<Rightarrow> VirtualNamespaceRegistry \<Rightarrow> 'w Resolver \<Rightarrow> (string \<times> bool) \<times> 'w Resolver" where
  "Resolver_Resolve sum32 payload registry r =
     (let key = WorkflowID payload;
          (physNs, cache) = Mappings_Get key (Cache r);
          r = r\<lparr>Cache := cache\<rparr>
      in if physNs \<noteq> '''' then ((physNs, True), r)
         else case Registry_Resolve (VirtualNamespaceName payload) registry of
           None \<Rightarrow> (('''', False), r)
         | Some virtualNamespace \<Rightarrow>
             let physNs = GetSlot sum32 key (vn_Ring (deref virtualNamespace registry));
                 r = r\<lparr>totalWorkflowAllocated := (totalWorkflowAllocated r)(physNs := totalWorkflowAllocated r physNs + 1)\<rparr>;
                 r = r\<lparr>Cache := Mappings_Put key physNs (Cache r)\<rparr>
             in ((physNs, False), r))"

section \<open>What a resolve returns and changes\<close>

definition assigned :: "'w Resolver \<Rightarrow> (string \<rightharpoonup> string)" where
  "assigned r = cache_view (Cache r)"

definition resolver_ok :: "'w Resolver \<Rightarrow> bool" where
  "resolver_ok r \<longleftrightarrow> cache_ok (Cache r)"

lemma Resolve_hit:
  assumes "resolver_ok r" "assigned r (WorkflowID p) = Some v" "v \<noteq> ''''"
  shows "fst (Resolver_Resolve sum32 p reg r) = (v, True)"
    "assigned (snd (Resolver_Resolve sum32 p reg r)) = assigned r"
    "totalWorkflowAllocated (snd (Resolver_Resolve sum32 p reg r)) = totalWorkflowAllocated r"
  using assms cache.get_value[of "Cache r" "WorkflowID p"] cache.get_view[of "Cache r" "WorkflowID p"]
  by (auto simp: Resolver_Resolve_def resolver_ok_def assigned_def Let_def split: prod.splits)

definition uncached :: "'w Resolver \<Rightarrow> string \<Rightarrow> bool" where
  "uncached r k \<longleftrightarrow> assigned r k = None \<or> assigned r k = Some ''''"

lemma Resolve_miss_unknown:
  assumes "resolver_ok r" "uncached r (WorkflowID p)" "reg_namespaces reg (VirtualNamespaceName p) = None"
  shows "fst (Resolver_Resolve sum32 p reg r) = ('''', False)"
    "assigned (snd (Resolver_Resolve sum32 p reg r)) = assigned r"
    "totalWorkflowAllocated (snd (Resolver_Resolve sum32 p reg r)) = totalWorkflowAllocated r"
  using assms cache.get_value[of "Cache r" "WorkflowID p"] cache.get_view[of "Cache r" "WorkflowID p"]
  by (auto simp: Resolver_Resolve_def resolver_ok_def assigned_def uncached_def Registry_Resolve_def Let_def
      split: prod.splits)

lemma Resolve_miss:
  assumes "resolver_ok r" "uncached r (WorkflowID p)" "reg_namespaces reg (VirtualNamespaceName p) = Some a"
    and slot: "slot = GetSlot sum32 (WorkflowID p) (vn_Ring (deref a reg))"
  shows "fst (Resolver_Resolve sum32 p reg r) = (slot, False)"
    "assigned (snd (Resolver_Resolve sum32 p reg r)) = (assigned r)(WorkflowID p \<mapsto> slot)"
    "totalWorkflowAllocated (snd (Resolver_Resolve sum32 p reg r)) =
       (totalWorkflowAllocated r)(slot := totalWorkflowAllocated r slot + 1)"
proof -
  let ?c = "snd (Mappings_Get (WorkflowID p) (Cache r))"
  have ok: "cache_ok (Cache r)" "cache_ok ?c" using assms(1) cache.ok_get by (auto simp: resolver_ok_def)
  have v: "cache_view ?c = cache_view (Cache r)" by (rule cache.get_view[OF ok(1)])
  have g: "fst (Mappings_Get (WorkflowID p) (Cache r)) = ''''"
    using assms(2) cache.get_value[OF ok(1)] by (auto simp: uncached_def assigned_def)
  have *: "Resolver_Resolve sum32 p reg r = ((slot, False),
      r\<lparr>Cache := Mappings_Put (WorkflowID p) slot ?c,
        totalWorkflowAllocated := (totalWorkflowAllocated r)(slot := totalWorkflowAllocated r slot + 1)\<rparr>)"
    using g assms(3) by (auto simp: Resolver_Resolve_def Registry_Resolve_def Let_def slot split: prod.splits)
  show "fst (Resolver_Resolve sum32 p reg r) = (slot, False)" by (simp add: *)
  show "assigned (snd (Resolver_Resolve sum32 p reg r)) = (assigned r)(WorkflowID p \<mapsto> slot)"
    unfolding * assigned_def using cache.put_view[OF ok(2)] v by simp
  show "totalWorkflowAllocated (snd (Resolver_Resolve sum32 p reg r)) =
       (totalWorkflowAllocated r)(slot := totalWorkflowAllocated r slot + 1)" by (simp add: *)
qed

lemma Resolve_ok: "resolver_ok r \<Longrightarrow> resolver_ok (snd (Resolver_Resolve sum32 p reg r))"
  using cache.ok_get[of "Cache r" "WorkflowID p"]
  by (auto simp: Resolver_Resolve_def resolver_ok_def Let_def cache.ok_put split: prod.splits option.splits)

section \<open>The interface of the request handlers\<close>

text \<open>
  A sticky router: an assigned key answers with its assignment, and resolving a key changes
  no other assignment and no assignment that is already there.
\<close>

locale sticky_router =
  fixes resolve :: "'p \<Rightarrow> 'reg \<Rightarrow> 'r \<Rightarrow> (string \<times> bool) \<times> 'r"
    and key :: "'p \<Rightarrow> string"
    and assignment :: "'r \<Rightarrow> (string \<rightharpoonup> string)"
    and ok :: "'r \<Rightarrow> bool"
  assumes hit: "ok r \<Longrightarrow> assignment r (key p) = Some v \<Longrightarrow> v \<noteq> '''' \<Longrightarrow> fst (resolve p reg r) = (v, True)"
    and keeps: "ok r \<Longrightarrow> assignment r k = Some v \<Longrightarrow> v \<noteq> '''' \<Longrightarrow>
      assignment (snd (resolve p reg r)) k = Some v"
    and frame: "ok r \<Longrightarrow> k \<noteq> key p \<Longrightarrow> assignment (snd (resolve p reg r)) k = assignment r k"
    and records: "ok r \<Longrightarrow> fst (fst (resolve p reg r)) \<noteq> '''' \<Longrightarrow>
      assignment (snd (resolve p reg r)) (key p) = Some (fst (fst (resolve p reg r)))"
    and ok_resolve: "ok r \<Longrightarrow> ok (snd (resolve p reg r))"
begin

fun resolve_all :: "('p \<times> 'reg) list \<Rightarrow> 'r \<Rightarrow> 'r" where
  "resolve_all [] r = r"
| "resolve_all ((p, reg) # rest) r = resolve_all rest (snd (resolve p reg r))"

lemma ok_resolve_all: "ok r \<Longrightarrow> ok (resolve_all reqs r)"
  by (induction reqs r rule: resolve_all.induct) (auto intro: ok_resolve)

lemma keeps_all: "ok r \<Longrightarrow> assignment r k = Some v \<Longrightarrow> v \<noteq> '''' \<Longrightarrow> assignment (resolve_all reqs r) k = Some v"
  by (induction reqs r rule: resolve_all.induct) (auto intro: ok_resolve keeps)

text \<open>Whatever is resolved in between, under whatever registries, a key stays where it was put.\<close>

lemma sticky:
  assumes "ok r" "fst (fst (resolve p reg r)) = v" "v \<noteq> ''''" "key p' = key p"
  shows "fst (resolve p' reg' (resolve_all reqs (snd (resolve p reg r)))) = (v, True)"
proof (rule hit)
  show "ok (resolve_all reqs (snd (resolve p reg r)))" by (intro ok_resolve_all ok_resolve assms(1))
  have "assignment (snd (resolve p reg r)) (key p) = Some v" using records[of r p reg] assms by simp
  then show "assignment (resolve_all reqs (snd (resolve p reg r))) (key p') = Some v"
    using assms by (simp add: keeps_all ok_resolve)
qed (rule assms(3))

end

interpretation router: sticky_router "Resolver_Resolve sum32" WorkflowID assigned resolver_ok
  for sum32
proof
  fix r :: "'w Resolver" and p :: Payload and reg k v
  assume ok: "resolver_ok r"
  show "resolver_ok (snd (Resolver_Resolve sum32 p reg r))" by (rule Resolve_ok[OF ok])
  show "assigned r (WorkflowID p) = Some v \<Longrightarrow> v \<noteq> '''' \<Longrightarrow> fst (Resolver_Resolve sum32 p reg r) = (v, True)"
    by (rule Resolve_hit(1)[OF ok])
  consider (hit) w where "assigned r (WorkflowID p) = Some w" "w \<noteq> ''''"
    | (unknown) "uncached r (WorkflowID p)" "reg_namespaces reg (VirtualNamespaceName p) = None"
    | (miss) a where "uncached r (WorkflowID p)" "reg_namespaces reg (VirtualNamespaceName p) = Some a"
    by (metis not_None_eq uncached_def)
  note cases = this
  show "assigned (snd (Resolver_Resolve sum32 p reg r)) k = Some v"
    if "assigned r k = Some v" "v \<noteq> ''''"
    by (cases rule: cases) (use that Resolve_hit(2)[OF ok] Resolve_miss_unknown(2)[OF ok] Resolve_miss(2)[OF ok _ _ refl]
        in \<open>auto simp: uncached_def\<close>)
  show "assigned (snd (Resolver_Resolve sum32 p reg r)) k = assigned r k" if "k \<noteq> WorkflowID p"
    by (cases rule: cases) (use that Resolve_hit(2)[OF ok] Resolve_miss_unknown(2)[OF ok] Resolve_miss(2)[OF ok _ _ refl]
        in \<open>auto\<close>)
  show "assigned (snd (Resolver_Resolve sum32 p reg r)) (WorkflowID p) = Some (fst (fst (Resolver_Resolve sum32 p reg r)))"
    if "fst (fst (Resolver_Resolve sum32 p reg r)) \<noteq> ''''"
    by (cases rule: cases) (use that Resolve_hit(1,2)[OF ok] Resolve_miss_unknown(1,2)[OF ok] Resolve_miss(1,2)[OF ok _ _ refl]
        in \<open>auto\<close>)
qed

section \<open>Random payloads\<close>

lemma charset_length: "length charset = 62"
  by (simp add: charset_def)

lemma random_chars_spec: "length (random_chars rnd i n) = n \<and> set (random_chars rnd i n) \<subseteq> set charset"
proof (induction rnd i n rule: random_chars.induct)
  case (2 rnd i n)
  have "rnd i mod length charset < length charset" by (simp add: charset_length)
  with 2 show ?case by (auto intro: nth_mem)
qed simp

lemma length_makePayloads: "length (makePayloads rnd i n v) = n"
  by (induction rnd i n v rule: makePayloads.induct) auto

lemma makePayloads_elem:
  "p \<in> set (makePayloads rnd i n v) \<Longrightarrow>
     VirtualNamespaceName p = v \<and> length (WorkflowID p) = 128 \<and> set (WorkflowID p) \<subseteq> set charset"
  by (induction rnd i n v rule: makePayloads.induct)
     (auto simp: makePayload_def GenerateRandomString_def random_chars_spec dest: subsetD[OF conjunct2[OF random_chars_spec]])

section \<open>Properties\<close>

lemma resolve_all_fold:
  "router.resolve_all sum32 reqs r = fold (\<lambda>(q, g) r. snd (Resolver_Resolve sum32 q g r)) reqs r"
proof (induction reqs arbitrary: r)
  case (Cons x reqs)
  then show ?case by (cases x) simp
qed simp

text \<open>
  C17: Stickiness: once a workflow id has resolved to a physical namespace, with a Redis that keeps
  what it is given, every later resolve of that id is a cache hit with the same answer, whatever was resolved in between and however the
  registry changed meanwhile, and even when the later request names another virtual namespace
  (the cache is keyed by the workflow id alone).
\<close>

theorem resolve_sticky:
  assumes "resolver_ok r" "fst (fst (Resolver_Resolve sum32 p reg r)) = v" "v \<noteq> ''''" "WorkflowID p' = WorkflowID p"
  shows "fst (Resolver_Resolve sum32 p' reg'
      (fold (\<lambda>(q, g) r. snd (Resolver_Resolve sum32 q g r)) reqs (snd (Resolver_Resolve sum32 p reg r)))) = (v, True)"
  using router.sticky[OF assms] by (simp add: resolve_all_fold)

definition example_registry :: VirtualNamespaceRegistry where
  "example_registry = load_schema first_byte [(''vns'', [(''a::h1'', NamespaceActive), (''b::h2'', NamespaceActive)])] empty_registry"

definition example_resolver :: "(string \<times> string) list \<Rightarrow> (string \<times> string) list Resolver" where
  "example_resolver w = NewResolver (mem_cache w)"

lemma example_resolver_ok [simp]: "resolver_ok (example_resolver w)"
  by (simp add: resolver_ok_def example_resolver_def NewResolver_def)

lemma example_resolver_assigned [simp]: "assigned (example_resolver w) = map_of w"
  by (simp add: assigned_def example_resolver_def NewResolver_def)

lemma example_registry_full: "reg_full first_byte {''a::h1'', ''b::h2''} example_registry"
  and example_registry_statuses:
    "reg_statuses example_registry = [''vns'' \<mapsto> [''b::h2'' \<mapsto> NamespaceActive, ''a::h1'' \<mapsto> NamespaceActive]]"
proof -
  have "collision_free first_byte 50 {''a::h1'', ''b::h2''}" by (rule first_byte_collision_free) auto
  from load_schema_full[OF this empty_registry_full,
      of "[(''vns'', [(''a::h1'', NamespaceActive), (''b::h2'', NamespaceActive)])]"]
  show "reg_full first_byte {''a::h1'', ''b::h2''} example_registry"
    "reg_statuses example_registry = [''vns'' \<mapsto> [''b::h2'' \<mapsto> NamespaceActive, ''a::h1'' \<mapsto> NamespaceActive]]"
    unfolding example_registry_def
    by (auto simp: schema_ok_def empty_registry_def reg_statuses_def schema_map_def map_add_def fun_eq_iff)
qed

lemma example_registry_entry:
  "reg_namespaces example_registry ''vns'' = Some 0"
  "vn_Namespaces (deref 0 example_registry) = [''b::h2'' \<mapsto> NamespaceActive, ''a::h1'' \<mapsto> NamespaceActive]"
proof -
  show e: "reg_namespaces example_registry ''vns'' = Some 0"
    by (simp add: example_registry_def empty_registry_def alloc_def)
  have "reg_statuses example_registry ''vns'' = Some (vn_Namespaces (deref 0 example_registry))" by (simp add: reg_statuses_def e)
  then show "vn_Namespaces (deref 0 example_registry) = [''b::h2'' \<mapsto> NamespaceActive, ''a::h1'' \<mapsto> NamespaceActive]"
    by (simp add: example_registry_statuses)
qed

theorem resolve_sticky_witness:
  "fst (Resolver_Resolve first_byte \<lparr>WorkflowID = ''wf'', VirtualNamespaceName = ''other''\<rparr> empty_registry
     (fold (\<lambda>(q, g) r. snd (Resolver_Resolve first_byte q g r))
        [(\<lparr>WorkflowID = ''x'', VirtualNamespaceName = ''vns''\<rparr>, empty_registry)]
        (snd (Resolver_Resolve first_byte \<lparr>WorkflowID = ''wf'', VirtualNamespaceName = ''vns''\<rparr> empty_registry
           (example_resolver [(''wf'', ''a::h1'')]))))) = (''a::h1'', True)"
proof -
  have "fst (Resolver_Resolve first_byte \<lparr>WorkflowID = ''wf'', VirtualNamespaceName = ''vns''\<rparr> empty_registry
      (example_resolver [(''wf'', ''a::h1'')])) = (''a::h1'', True)"
    by (rule Resolve_hit) simp_all
  then show ?thesis by (intro resolve_sticky) simp_all
qed

text \<open>
  A workflow without an assignment: when its virtual namespace is known and has an active
  namespace, it is placed on an active one, the placement is cached and counted once, and no other
  assignment changes; when the virtual namespace is unknown the answer is the empty string and
  nothing is cached or counted.
\<close>

theorem resolve_places_on_active:
  assumes "resolver_ok r" "uncached r (WorkflowID p)" "reg_full sum32 S reg"
    and "\<forall>tbl. reg_statuses reg (VirtualNamespaceName p) = Some tbl \<longrightarrow> (\<exists>s. tbl s = Some NamespaceActive)"
  shows "let ((physNs, hit), r') = Resolver_Resolve sum32 p reg r in \<not> hit \<and> resolver_ok r' \<and>
    (case reg_statuses reg (VirtualNamespaceName p) of
       None \<Rightarrow> physNs = '''' \<and> assigned r' = assigned r \<and> totalWorkflowAllocated r' = totalWorkflowAllocated r
     | Some tbl \<Rightarrow> tbl physNs = Some NamespaceActive \<and> assigned r' = (assigned r)(WorkflowID p \<mapsto> physNs) \<and>
         totalWorkflowAllocated r' = (totalWorkflowAllocated r)(physNs := totalWorkflowAllocated r physNs + 1))"
proof -
  obtain physNs hit r' where R: "Resolver_Resolve sum32 p reg r = ((physNs, hit), r')"
    by (metis prod.collapse)
  have ok: "resolver_ok r'" using Resolve_ok[OF assms(1), of sum32 p reg] by (simp add: R)
  show ?thesis
  proof (cases "reg_namespaces reg (VirtualNamespaceName p)")
    case None
    then show ?thesis using Resolve_miss_unknown[OF assms(1,2), of reg sum32] R ok by (simp add: reg_statuses_def)
  next
    case (Some a)
    let ?v = "deref a reg"
    have full: "vn_full sum32 S ?v" using assms(3) Some by (simp add: reg_full_def)
    have st: "reg_statuses reg (VirtualNamespaceName p) = Some (vn_Namespaces ?v)" using Some by (simp add: reg_statuses_def)
    with assms(4) have "vn_active ?v \<noteq> {}" by (auto simp: vn_active_def)
    from vns.route_active[OF full this] have "vn_Namespaces ?v (GetSlot sum32 (WorkflowID p) (vn_Ring ?v)) = Some NamespaceActive"
      by (simp add: vn_active_def)
    then show ?thesis using Resolve_miss[OF assms(1,2) Some refl, of sum32] R ok st by simp
  qed
qed

theorem resolve_places_on_active_witness:
  "fst (fst (Resolver_Resolve first_byte \<lparr>WorkflowID = ''wf'', VirtualNamespaceName = ''vns''\<rparr> example_registry (example_resolver [])))
     \<in> {''a::h1'', ''b::h2''}"
proof -
  let ?p = "\<lparr>WorkflowID = ''wf'', VirtualNamespaceName = ''vns''\<rparr>"
  have "uncached (example_resolver []) (WorkflowID ?p)" by (simp add: uncached_def)
  moreover have "\<exists>s. [''b::h2'' \<mapsto> NamespaceActive, ''a::h1'' \<mapsto> NamespaceActive] s = Some NamespaceActive"
    by (rule exI[of _ "''a::h1''"]) simp
  ultimately show ?thesis
    using resolve_places_on_active[OF example_resolver_ok _ example_registry_full, of "[]" ?p]
    by (auto simp: example_registry_statuses Let_def case_prod_beta split: if_splits)
qed

end
