(* ===== verification/Framing.thy ===== *)
theory Framing
  imports GoStdlib
begin

text \<open>
  The gRPC message framing: \<open>extractPayload\<close> of \<^verbatim>\<open>connpark.go\<close> and \<open>encodeGRPCPayload\<close> of
  \<^verbatim>\<open>proxy.go\<close>, with the parts of an HTTP request they touch. Decompression (\<^verbatim>\<open>compress/gzip\<close>) is
  a parameter: for every input it fails at once, fails while reading with the bytes read so far,
  or yields the whole content.
\<close>

unbundle bit_operations_syntax

section \<open>Requests and decompression\<close>

datatype gzip_result = BadHeader go_error | BadBody "byte list" go_error | Unzipped "byte list"

type_synonym gunzip = "byte list \<Rightarrow> gzip_result"

type_synonym header = "string \<rightharpoonup> string list"

text \<open>
  The fields of \<^verbatim>\<open>http.Request\<close> that the code reads or writes. \<open>req_body\<close> is what the stream of the body gives: the bytes
  up to its end, or some bytes and then an error. \<^verbatim>\<open>io.ReadAll\<close> takes all of it; what is left of a body that failed is the error.
\<close>

type_synonym http_body = "(byte list \<times> go_error) + byte list"

record http_request =
  url_path :: string
  url_scheme :: string
  url_host :: string
  req_host :: string
  ContentLength :: int
  req_header :: header
  RequestURI :: string
  req_body :: http_body

section \<open>Framing\<close>

definition extractPayload :: "gunzip \<Rightarrow> byte list \<Rightarrow> (byte list \<times> bool) result" where
  "extractPayload gz bodyBytes =
     (if length bodyBytes \<le> 5 then Inl (Errorf ''payload too short to be valid gRPC'')
      else
        let isCompressed = (bodyBytes ! 0 = 1) in
        if isCompressed then
          (case gz (drop 5 bodyBytes) of
             BadHeader err \<Rightarrow> Inl (Wrap ''failed to create gzip reader'' err)
           | BadBody _ err \<Rightarrow> Inl (Wrap ''failed to decompress gzip payload'' err)
           | Unzipped pbPayload \<Rightarrow> Inr (pbPayload, isCompressed))
        else Inr (drop 5 bodyBytes, isCompressed))"

text \<open>The five header bytes: flag 0 and the length, most significant byte first.\<close>

definition frame :: "byte list \<Rightarrow> byte list" where
  "frame payload =
     (let newBodyLen = length payload in
      [0, of_nat (newBodyLen div 2 ^ 24), of_nat (newBodyLen div 2 ^ 16), of_nat (newBodyLen div 2 ^ 8),
       of_nat newBodyLen] @ payload)"

definition encodeGRPCPayload :: "byte list \<Rightarrow> http_request \<Rightarrow> byte list \<times> http_request" where
  "encodeGRPCPayload finalPayload r =
     (frame finalPayload,
      r\<lparr>ContentLength := -1, req_header := (req_header r)(''Content-Length'' := None)\<rparr>)"

text \<open>The length a gRPC receiver reads from a frame.\<close>

definition frame_length :: "byte list \<Rightarrow> nat" where
  "frame_length bs = unat (bs ! 1) * 2 ^ 24 + unat (bs ! 2) * 2 ^ 16 + unat (bs ! 3) * 2 ^ 8 + unat (bs ! 4)"

section \<open>Round trip\<close>

lemma length_frame [simp]: "length (frame p) = length p + 5"
  by (simp add: frame_def Let_def)

lemma drop_frame [simp]: "drop 5 (frame p) = p"
  by (simp add: frame_def Let_def)

lemma extractPayload_frame:
  "extractPayload gz (frame p) =
     (if p = [] then Inl (Errorf ''payload too short to be valid gRPC'') else Inr (p, False))"
proof -
  have "frame p ! 0 = 0" by (simp add: frame_def Let_def)
  moreover have "length (frame p) \<le> 5 \<longleftrightarrow> p = []" by simp
  ultimately show ?thesis by (simp add: extractPayload_def)
qed

lemma unat_of_nat_byte: "unat (of_nat n :: byte) = n mod 256"
  by (simp add: unat_of_nat take_bit_eq_mod)

lemma base256_digits:
  fixes n :: nat
  assumes "n < 4294967296"
  shows "n div 16777216 mod 256 * 16777216 + n div 65536 mod 256 * 65536 + n div 256 mod 256 * 256 + n mod 256 = n"
proof -
  let ?a = "n div 256" and ?b = "n div 65536" and ?c = "n div 16777216"
  have "n = 256 * ?a + n mod 256" "?a = 256 * (?a div 256) + ?a mod 256" "?b = 256 * (?b div 256) + ?b mod 256"
    by simp_all
  moreover have "?a div 256 = ?b" "?b div 256 = ?c" by (simp_all flip: div_mult2_eq)
  moreover have "?c mod 256 = ?c" using assms by (simp add: less_mult_imp_div_less)
  ultimately show ?thesis by linarith
qed

lemma frame_length_frame: "length p < 2 ^ 32 \<Longrightarrow> frame_length (frame p) = length p"
  using base256_digits[of "length p"]
  by (simp add: frame_length_def frame_def Let_def unat_of_nat_byte less_mult_imp_div_less)

lemma extractPayload_Inr:
  "extractPayload gz body = Inr (p, c) \<Longrightarrow> 5 < length body \<and> (c \<longleftrightarrow> body ! 0 = 1) \<and>
     (if c then gz (drop 5 body) = Unzipped p else p = drop 5 body)"
  by (auto simp: extractPayload_def Let_def split: if_splits gzip_result.splits)

section \<open>Properties\<close>

text \<open>
  C26: A rewritten body reads back as it was written: a receiver that follows the gRPC framing finds
  the announced length and the payload, flagged as uncompressed, and the request no longer
  declares a length. Only the empty message is refused, as too short, by \<open>extractPayload\<close> itself.
\<close>

theorem framing_roundtrip:
  assumes "length p < 2 ^ 32" "encodeGRPCPayload p r = (body, r')"
  shows "extractPayload gz body =
      (if p = [] then Inl (Errorf ''payload too short to be valid gRPC'') else Inr (p, False)) \<and>
    frame_length body = length p \<and> ContentLength r' = -1 \<and> req_header r' ''Content-Length'' = None \<and>
    (\<forall>h. h \<noteq> ''Content-Length'' \<longrightarrow> req_header r' h = req_header r h)"
proof -
  have "body = frame p" "r' = r\<lparr>ContentLength := -1, req_header := (req_header r)(''Content-Length'' := None)\<rparr>"
    using assms(2) by (simp_all add: encodeGRPCPayload_def)
  then show ?thesis using assms(1) by (simp add: extractPayload_frame frame_length_frame)
qed

theorem framing_roundtrip_witness:
  "extractPayload Unzipped (frame [7, 8]) = Inr ([7, 8], False) \<and> frame_length (frame [7, 8]) = 2"
  using framing_roundtrip[of "[7, 8]" "\<lparr>url_path = ''/'', url_scheme = '''', url_host = '''', req_host = '''', ContentLength = 7,
      req_header = Map.empty, RequestURI = ''/'', req_body = Inr []\<rparr>" "frame [7, 8]" _ Unzipped]
  by (simp add: encodeGRPCPayload_def)

end
