(* ===== verification/Messages.thy ===== *)
theory Messages
  imports Framing Ring
begin

text \<open>
  What the proxy sees of the Temporal API messages and of HTTP responses. The generated message
  types and \<^verbatim>\<open>proto.Marshal\<close>/\<^verbatim>\<open>proto.Unmarshal\<close> are not part of the repository: every message is a
  record of the fields the proxy reads or writes and of the other fields, which it only carries
  along, and every codec is a parameter. \<open>codec_ok\<close> is the one documented fact used of a codec:
  what it writes, it reads back.
\<close>

section \<open>Codecs\<close>

record 'm codec =
  Unmarshal :: "byte list \<Rightarrow> 'm result"
  Marshal :: "'m \<Rightarrow> byte list result"

definition codec_ok :: "'m codec \<Rightarrow> bool" where
  "codec_ok c \<longleftrightarrow> (\<forall>m bs. Marshal c m = Inr bs \<longrightarrow> Unmarshal c bs = Inr m)"

lemma codec_okD: "codec_ok c \<Longrightarrow> Marshal c m = Inr bs \<Longrightarrow> Unmarshal c bs = Inr m"
  by (simp add: codec_ok_def)

section \<open>Messages\<close>

record WorkflowExecution =
  WorkflowId :: string
  exec_other :: "byte list"

text \<open>\<^verbatim>\<open>GetWorkflowId\<close> of a nil execution is the empty string.\<close>

definition GetWorkflowId :: "WorkflowExecution option \<Rightarrow> string" where
  "GetWorkflowId e = (case e of None \<Rightarrow> '''' | Some x \<Rightarrow> WorkflowId x)"

text \<open>Only the type of a command is read.\<close>

datatype CommandType = COMMAND_TYPE_COMPLETE_WORKFLOW_EXECUTION | OTHER_COMMAND nat

record PollWorkflowTaskQueueRequest =
  pwq_Namespace :: string
  pwq_other :: "byte list"

record PollWorkflowTaskQueueResponse =
  pwr_TaskToken :: "byte list"
  pwr_WorkflowExecution :: "WorkflowExecution option"
  pwr_other :: "byte list"

record PollActivityTaskQueueRequest =
  paq_Namespace :: string
  paq_other :: "byte list"

record PollActivityTaskQueueResponse =
  par_TaskToken :: "byte list"
  par_WorkflowExecution :: "WorkflowExecution option"
  par_other :: "byte list"

record StartWorkflowExecutionRequest =
  start_Namespace :: string
  start_WorkflowId :: string
  start_other :: "byte list"

record RespondWorkflowTaskCompletedRequest =
  rwt_Namespace :: string
  rwt_TaskToken :: "byte list"
  rwt_ResourceId :: string
  rwt_Commands :: "CommandType list"
  rwt_other :: "byte list"

record RespondActivityTaskCompletedRequest =
  rat_Namespace :: string
  rat_TaskToken :: "byte list"
  rat_ResourceId :: string
  rat_other :: "byte list"

record RequestCancelWorkflowExecutionRequest =
  cancel_Namespace :: string
  cancel_WorkflowExecution :: "WorkflowExecution option"
  cancel_other :: "byte list"

record SignalWorkflowExecutionRequest =
  signal_Namespace :: string
  signal_WorkflowExecution :: "WorkflowExecution option"
  signal_other :: "byte list"

record QueryWorkflowRequest =
  query_Namespace :: string
  query_Execution :: "WorkflowExecution option"
  query_other :: "byte list"

record RespondQueryTaskCompletedRequest =
  rqt_Namespace :: string
  rqt_TaskToken :: "byte list"
  rqt_other :: "byte list"

record GetWorkflowExecutionHistoryRequest =
  hist_Namespace :: string
  hist_Execution :: "WorkflowExecution option"
  hist_other :: "byte list"

section \<open>The libraries as one parameter\<close>

record externals =
  ext_sum32 :: hash_fun
  ext_gunzip :: gunzip
  c_pwq :: "PollWorkflowTaskQueueRequest codec"
  c_pwr :: "PollWorkflowTaskQueueResponse codec"
  c_paq :: "PollActivityTaskQueueRequest codec"
  c_par :: "PollActivityTaskQueueResponse codec"
  c_start :: "StartWorkflowExecutionRequest codec"
  c_rwt :: "RespondWorkflowTaskCompletedRequest codec"
  c_rat :: "RespondActivityTaskCompletedRequest codec"
  c_cancel :: "RequestCancelWorkflowExecutionRequest codec"
  c_signal :: "SignalWorkflowExecutionRequest codec"
  c_query :: "QueryWorkflowRequest codec"
  c_rqt :: "RespondQueryTaskCompletedRequest codec"
  c_hist :: "GetWorkflowExecutionHistoryRequest codec"

section \<open>Responses\<close>

text \<open>\<open>resp_Body\<close> is what \<^verbatim>\<open>io.ReadAll\<close> of the body gives.\<close>

record http_response =
  StatusCode :: int
  resp_Header :: header
  resp_Trailer :: header
  resp_Body :: "byte list result"

type_synonym transport = "http_request \<Rightarrow> http_response result"

text \<open>
  A response writer: the header map the handler edits, and what has been sent. \<open>w_sent\<close> is the
  header map at the time of \<^verbatim>\<open>WriteHeader\<close>; entries added later under \<^verbatim>\<open>http.TrailerPrefix\<close> go out as
  trailers.
\<close>

record writer =
  w_header :: header
  w_status :: "int option"
  w_sent :: header
  w_body :: "byte list"

definition new_writer :: writer where
  "new_writer = \<lparr>w_header = Map.empty, w_status = None, w_sent = Map.empty, w_body = []\<rparr>"

definition WriteHeader :: "int \<Rightarrow> writer \<Rightarrow> writer" where
  "WriteHeader code w = (if w_status w = None then w\<lparr>w_status := Some code, w_sent := w_header w\<rparr> else w)"

definition http_Error :: "string \<Rightarrow> int \<Rightarrow> writer \<Rightarrow> writer" where
  "http_Error msg code w =
     (let w = w\<lparr>w_header := (w_header w)(''Content-Length'' := None,
            ''Content-Type'' \<mapsto> [''text/plain; charset=utf-8''], ''X-Content-Type-Options'' \<mapsto> [''nosniff''])\<rparr>;
          w = WriteHeader code w
      in w\<lparr>w_body := w_body w @ bytes_of_string (msg @ [CHR 0x0A])\<rparr>)"

section \<open>Example codecs\<close>

text \<open>
  A codec for messages that are given by two strings, with a length byte before the first. The
  examples run on it; it meets \<open>codec_ok\<close>.
\<close>

definition pair_codec :: "(string \<Rightarrow> string \<Rightarrow> 'm) \<Rightarrow> ('m \<Rightarrow> string) \<Rightarrow> ('m \<Rightarrow> string) \<Rightarrow> 'm codec" where
  "pair_codec mk a b =
     \<lparr>Unmarshal = (\<lambda>bs. case bs of [] \<Rightarrow> Inl (Errorf ''truncated'')
        | n # rest \<Rightarrow> Inr (mk (string_of_bytes (take (unat n) rest)) (string_of_bytes (drop (unat n) rest)))),
      Marshal = (\<lambda>m. if mk (a m) (b m) = m \<and> length (a m) < 256
        then Inr (of_nat (length (a m)) # bytes_of_string (a m) @ bytes_of_string (b m)) else Inl (Errorf ''unsupported''))\<rparr>"

lemma pair_codec_ok: "codec_ok (pair_codec mk a b)"
proof -
  have "unat (of_nat n :: byte) = n" if "n < 256" for n using that by (simp add: unat_of_nat_byte)
  then show ?thesis by (auto simp: codec_ok_def pair_codec_def split: if_splits)
qed

definition example_ext :: externals where
  "example_ext = \<lparr>ext_sum32 = first_byte, ext_gunzip = Unzipped,
     c_pwq = pair_codec (\<lambda>a b. \<lparr>pwq_Namespace = a, pwq_other = bytes_of_string b\<rparr>)
       pwq_Namespace (\<lambda>m. string_of_bytes (pwq_other m)),
     c_pwr = pair_codec (\<lambda>a b. \<lparr>pwr_TaskToken = bytes_of_string a,
         pwr_WorkflowExecution = Some \<lparr>WorkflowId = b, exec_other = []\<rparr>, pwr_other = []\<rparr>)
       (\<lambda>m. string_of_bytes (pwr_TaskToken m)) (\<lambda>m. GetWorkflowId (pwr_WorkflowExecution m)),
     c_paq = pair_codec (\<lambda>a b. \<lparr>paq_Namespace = a, paq_other = bytes_of_string b\<rparr>)
       paq_Namespace (\<lambda>m. string_of_bytes (paq_other m)),
     c_par = pair_codec (\<lambda>a b. \<lparr>par_TaskToken = bytes_of_string a,
         par_WorkflowExecution = Some \<lparr>WorkflowId = b, exec_other = []\<rparr>, par_other = []\<rparr>)
       (\<lambda>m. string_of_bytes (par_TaskToken m)) (\<lambda>m. GetWorkflowId (par_WorkflowExecution m)),
     c_start = pair_codec (\<lambda>a b. \<lparr>start_Namespace = a, start_WorkflowId = b, start_other = []\<rparr>)
       start_Namespace start_WorkflowId,
     c_rwt = pair_codec (\<lambda>a b. \<lparr>rwt_Namespace = a, rwt_TaskToken = [], rwt_ResourceId = b,
         rwt_Commands = [COMMAND_TYPE_COMPLETE_WORKFLOW_EXECUTION], rwt_other = []\<rparr>) rwt_Namespace rwt_ResourceId,
     c_rat = pair_codec (\<lambda>a b. \<lparr>rat_Namespace = a, rat_TaskToken = [], rat_ResourceId = b, rat_other = []\<rparr>)
       rat_Namespace rat_ResourceId,
     c_cancel = pair_codec (\<lambda>a b. \<lparr>cancel_Namespace = a,
         cancel_WorkflowExecution = Some \<lparr>WorkflowId = b, exec_other = []\<rparr>, cancel_other = []\<rparr>)
       cancel_Namespace (\<lambda>m. GetWorkflowId (cancel_WorkflowExecution m)),
     c_signal = pair_codec (\<lambda>a b. \<lparr>signal_Namespace = a,
         signal_WorkflowExecution = Some \<lparr>WorkflowId = b, exec_other = []\<rparr>, signal_other = []\<rparr>)
       signal_Namespace (\<lambda>m. GetWorkflowId (signal_WorkflowExecution m)),
     c_query = pair_codec (\<lambda>a b. \<lparr>query_Namespace = a,
         query_Execution = Some \<lparr>WorkflowId = b, exec_other = []\<rparr>, query_other = []\<rparr>)
       query_Namespace (\<lambda>m. GetWorkflowId (query_Execution m)),
     c_rqt = pair_codec (\<lambda>a b. \<lparr>rqt_Namespace = a, rqt_TaskToken = bytes_of_string b, rqt_other = []\<rparr>)
       rqt_Namespace (\<lambda>m. string_of_bytes (rqt_TaskToken m)),
     c_hist = pair_codec (\<lambda>a b. \<lparr>hist_Namespace = a,
         hist_Execution = Some \<lparr>WorkflowId = b, exec_other = []\<rparr>, hist_other = []\<rparr>)
       hist_Namespace (\<lambda>m. GetWorkflowId (hist_Execution m))\<rparr>"

definition example_body :: "string \<Rightarrow> string \<Rightarrow> byte list" where
  "example_body a b = frame (of_nat (length a) # bytes_of_string a @ bytes_of_string b)"

definition example_request :: "string \<Rightarrow> byte list \<Rightarrow> http_request" where
  "example_request path body = \<lparr>url_path = path, url_scheme = ''http'', url_host = '''', req_host = ''proxy'',
     ContentLength = int (length body), req_header = [''Content-Length'' \<mapsto> [''1'']], RequestURI = path, req_body = Inr body\<rparr>"

lemma extractPayload_example: "extractPayload gz (example_body a b) = Inr (of_nat (length a) # bytes_of_string a @ bytes_of_string b, False)"
  by (simp add: example_body_def extractPayload_frame)

lemma Unmarshal_pair:
  "length a < 256 \<Longrightarrow> Unmarshal (pair_codec mk f g) (of_nat (length a) # bytes_of_string a @ bytes_of_string b) = Inr (mk a b)"
  by (simp add: pair_codec_def unat_of_nat_byte)

end
