(* ===== verification/ConnPark.thy ===== *)
theory ConnPark
  imports Resolver Messages
begin

text \<open>
  The poll fan-out of \<^verbatim>\<open>connpark.go\<close>. A poll is sent to every physical namespace of the virtual
  one; the first answer that carries a task is returned and its workflow is cached, an empty
  answer is kept as a fallback. \<open>ExecutePoll\<close> and \<open>ExecutePollActivity\<close> are given the order in
  which the answers arrive. The goroutines themselves are the step relation \<open>fan_step\<close>, and the
  last section shows that its runs end, in exactly the results the sequential functions give.
\<close>

section \<open>Polling one cluster\<close>

text \<open>\<^verbatim>\<open>ns.cluster.address\<close>; a parsed namespace always has a cluster.\<close>

definition ns_address :: "Namespace \<Rightarrow> string" where
  "ns_address ns = (case ns_cluster ns of None \<Rightarrow> '''' | Some c \<Rightarrow> address c)"

definition redirect_poll :: "http_request \<Rightarrow> Namespace \<Rightarrow> byte list \<Rightarrow> http_request" where
  "redirect_poll originalReq ns newPbPayload =
     originalReq\<lparr>url_scheme := ''http'', url_host := ns_address ns, req_host := ns_address ns,
       ContentLength := -1, req_header := (req_header originalReq)(''Content-Length'' := None),
       req_body := Inr (frame newPbPayload), RequestURI := ''''\<rparr>"

definition pollSingleCluster ::
    "externals \<Rightarrow> transport \<Rightarrow> http_request \<Rightarrow> PollWorkflowTaskQueueRequest \<Rightarrow> string \<Rightarrow> bool
     \<Rightarrow> http_response result outcome" where
  "pollSingleCluster ext transport originalReq reqStruct physNs wasCompressed =
     and_then (parsePhysicalNamespace physNs) (\<lambda>ns.
       let clonedReqStruct = reqStruct\<lparr>pwq_Namespace := ns_name ns\<rparr> in
       case Marshal (c_pwq ext) clonedReqStruct of
         Inl err \<Rightarrow> Ret (Inl err)
       | Inr newPbPayload \<Rightarrow> Ret (transport (redirect_poll originalReq ns newPbPayload)))"

definition pollSingleActivityCluster ::
    "externals \<Rightarrow> transport \<Rightarrow> http_request \<Rightarrow> PollActivityTaskQueueRequest \<Rightarrow> string \<Rightarrow> bool
     \<Rightarrow> http_response result outcome" where
  "pollSingleActivityCluster ext transport originalReq reqStruct physNs wasCompressed =
     and_then (parsePhysicalNamespace physNs) (\<lambda>ns.
       let clonedReqStruct = reqStruct\<lparr>paq_Namespace := ns_name ns\<rparr> in
       case Marshal (c_paq ext) clonedReqStruct of
         Inl err \<Rightarrow> Ret (Inl err)
       | Inr newPbPayload \<Rightarrow> Ret (transport (redirect_poll originalReq ns newPbPayload)))"

section \<open>Collecting the answers\<close>

text \<open>The pair of a response and an error of which one is nil is a value of the result type.\<close>

record pollResult =
  pr_resp :: "http_response result"
  pr_physNs :: string

text \<open>
  The payload that is looked at for a task: when decompression fails halfway the bytes read
  so far are used, when it fails at once the compressed bytes are.
\<close>

definition poll_payload :: "gunzip \<Rightarrow> byte list \<Rightarrow> byte list" where
  "poll_payload gz respBodyBytes =
     (let respPbPayload = drop 5 respBodyBytes in
      if respBodyBytes ! 0 = 1
      then (case gz respPbPayload of
              BadHeader _ \<Rightarrow> respPbPayload
            | BadBody partly _ \<Rightarrow> partly
            | Unzipped full \<Rightarrow> full)
      else respPbPayload)"

text \<open>
  The task of an answer, if it has one: the execution it belongs to. \<open>unm\<close>, \<open>tok\<close> and \<open>exe\<close> are
  the codec and the two fields of the response message.
\<close>

definition polled_task ::
    "gunzip \<Rightarrow> (byte list \<Rightarrow> 'm result) \<Rightarrow> ('m \<Rightarrow> byte list) \<Rightarrow> ('m \<Rightarrow> WorkflowExecution option)
     \<Rightarrow> http_response \<Rightarrow> byte list \<Rightarrow> WorkflowExecution option option" where
  "polled_task gz unm tok exe resp respBodyBytes =
     (if length respBodyBytes > 5 \<and> StatusCode resp = 200 then
        (case unm (poll_payload gz respBodyBytes) of
           Inl _ \<Rightarrow> None
         | Inr pollResp \<Rightarrow> if length (tok pollResp) > 0 then Some (exe pollResp) else None)
      else None)"

definition cache_task :: "WorkflowExecution option \<Rightarrow> string \<Rightarrow> 'w Resolver \<Rightarrow> 'w Resolver" where
  "cache_task exec physNs r =
     (case exec of
        None \<Rightarrow> r
      | Some e \<Rightarrow> if WorkflowId e \<noteq> '''' then r\<lparr>Cache := Mappings_Put (WorkflowId e) physNs (Cache r)\<rparr> else r)"

record poll_acc =
  lastEmptyResp :: "http_response option"
  lastErr :: "go_error option"

text \<open>One iteration of the receive loop: it returns a response, or goes on with new fallbacks.\<close>

definition receive_one ::
    "gunzip \<Rightarrow> (byte list \<Rightarrow> 'm result) \<Rightarrow> ('m \<Rightarrow> byte list) \<Rightarrow> ('m \<Rightarrow> WorkflowExecution option)
     \<Rightarrow> pollResult \<Rightarrow> poll_acc \<Rightarrow> 'w Resolver \<Rightarrow> (http_response + poll_acc) \<times> 'w Resolver" where
  "receive_one gz unm tok exe res acc r =
     (case pr_resp res of
        Inl err \<Rightarrow> (Inr (acc\<lparr>lastErr := Some err\<rparr>), r)
      | Inr resp \<Rightarrow>
          (case resp_Body resp of
             Inl err \<Rightarrow> (Inr (acc\<lparr>lastErr := Some err\<rparr>), r)
           | Inr respBodyBytes \<Rightarrow>
               (case polled_task gz unm tok exe resp respBodyBytes of
                  Some exec \<Rightarrow> (Inl (resp\<lparr>resp_Body := Inr respBodyBytes\<rparr>), cache_task exec (pr_physNs res) r)
                | None \<Rightarrow> (Inr (acc\<lparr>lastEmptyResp := Some (resp\<lparr>resp_Body := Inr respBodyBytes\<rparr>)\<rparr>), r))))"

definition no_task :: "poll_acc \<Rightarrow> http_response result" where
  "no_task acc =
     (case lastEmptyResp acc of
        Some resp \<Rightarrow> Inr resp
      | None \<Rightarrow> Inl (Errorf (''all polling attempts failed, last error: '' @
          (case lastErr acc of None \<Rightarrow> ''<nil>'' | Some err \<Rightarrow> error_text err))))"

fun receive_loop ::
    "(pollResult \<Rightarrow> poll_acc \<Rightarrow> 'w Resolver \<Rightarrow> (http_response + poll_acc) \<times> 'w Resolver)
     \<Rightarrow> pollResult list \<Rightarrow> poll_acc \<Rightarrow> 'w Resolver \<Rightarrow> http_response result \<times> 'w Resolver" where
  "receive_loop recv [] acc r = (no_task acc, r)"
| "receive_loop recv (res # rest) acc r =
     (case recv res acc r of
        (Inl resp, r') \<Rightarrow> (Inr resp, r')
      | (Inr acc', r') \<Rightarrow> receive_loop recv rest acc' r')"

definition no_answers :: poll_acc where
  "no_answers = \<lparr>lastEmptyResp = None, lastErr = None\<rparr>"

definition answer :: "(string \<Rightarrow> http_response result outcome) \<Rightarrow> string \<Rightarrow> pollResult" where
  "answer poll physNs = \<lparr>pr_resp = (case poll physNs of Ret x \<Rightarrow> x), pr_physNs = physNs\<rparr>"

text \<open>
  A panic of a polling goroutine is not recovered: it ends the process. The other goroutines
  send their results in the order \<open>arrival slots\<close>.
\<close>

definition fan_out ::
    "(string \<Rightarrow> http_response result outcome)
     \<Rightarrow> (pollResult \<Rightarrow> poll_acc \<Rightarrow> 'w Resolver \<Rightarrow> (http_response + poll_acc) \<times> 'w Resolver)
     \<Rightarrow> string list \<Rightarrow> string list \<Rightarrow> 'w Resolver \<Rightarrow> http_response result outcome \<times> 'w Resolver" where
  "fan_out poll recv slots arrival r =
     (case find (\<lambda>s. is_panic (poll s)) slots of
        Some s \<Rightarrow> (and_then (poll s) Ret, r)
      | None \<Rightarrow>
          (let (res, r') = receive_loop recv (map (answer poll) arrival) no_answers r
           in (Ret res, r')))"

definition ExecutePoll ::
    "externals \<Rightarrow> transport \<Rightarrow> string list \<Rightarrow> (string list \<Rightarrow> string list) \<Rightarrow> http_request \<Rightarrow> byte list
     \<Rightarrow> VirtualNamespaceRegistry \<Rightarrow> 'w Resolver \<Rightarrow> http_response result outcome \<times> 'w Resolver" where
  "ExecutePoll ext transport keys arrival originalReq bodyBytes registry r =
     (case extractPayload (ext_gunzip ext) bodyBytes of
        Inl err \<Rightarrow> (Ret (Inl (Wrap ''failed to extract payload'' err)), r)
      | Inr (pbPayload, isCompressed) \<Rightarrow>
        (case Unmarshal (c_pwq ext) pbPayload of
           Inl err \<Rightarrow> (Ret (Inl (Wrap ''failed to unmarshal PollWorkflowTaskQueueRequest'' err)), r)
         | Inr reqStruct \<Rightarrow>
           (let virtualNamespaceStr = pwq_Namespace reqStruct in
            case Registry_Resolve virtualNamespaceStr registry of
              None \<Rightarrow> (Ret (Inl (Errorf (''virtual namespace not found: '' @ virtualNamespaceStr))), r)
            | Some virtualNs \<Rightarrow>
                let slots = GetAllNamespaces keys (deref virtualNs registry) in
                if length slots = 0 then
                  (Ret (Inl (Errorf (''no physical namespaces found for virtual namespace: '' @ virtualNamespaceStr))), r)
                else
                  fan_out (\<lambda>physNs. pollSingleCluster ext transport originalReq reqStruct physNs isCompressed)
                    (receive_one (ext_gunzip ext) (Unmarshal (c_pwr ext)) pwr_TaskToken pwr_WorkflowExecution)
                    slots (arrival slots) r)))"

definition ExecutePollActivity ::
    "externals \<Rightarrow> transport \<Rightarrow> string list \<Rightarrow> (string list \<Rightarrow> string list) \<Rightarrow> http_request \<Rightarrow> byte list
     \<Rightarrow> VirtualNamespaceRegistry \<Rightarrow> 'w Resolver \<Rightarrow> http_response result outcome \<times> 'w Resolver" where
  "ExecutePollActivity ext transport keys arrival originalReq bodyBytes registry r =
     (case extractPayload (ext_gunzip ext) bodyBytes of
        Inl err \<Rightarrow> (Ret (Inl (Wrap ''failed to extract payload'' err)), r)
      | Inr (pbPayload, isCompressed) \<Rightarrow>
        (case Unmarshal (c_paq ext) pbPayload of
           Inl err \<Rightarrow> (Ret (Inl (Wrap ''failed to unmarshal PollActivityTaskQueueRequest'' err)), r)
         | Inr reqStruct \<Rightarrow>
           (let virtualNamespaceStr = paq_Namespace reqStruct in
            case Registry_Resolve virtualNamespaceStr registry of
              None \<Rightarrow> (Ret (Inl (Errorf (''virtual namespace not found: '' @ virtualNamespaceStr))), r)
            | Some virtualNs \<Rightarrow>
                let slots = GetAllNamespaces keys (deref virtualNs registry) in
                if length slots = 0 then
                  (Ret (Inl (Errorf (''no physical namespaces found for virtual namespace: '' @ virtualNamespaceStr))), r)
                else
                  fan_out (\<lambda>physNs. pollSingleActivityCluster ext transport originalReq reqStruct physNs isCompressed)
                    (receive_one (ext_gunzip ext) (Unmarshal (c_par ext)) par_TaskToken par_WorkflowExecution)
                    slots (arrival slots) r)))"

section \<open>The goroutines\<close>

text \<open>
  The concurrent program: every goroutine in \<open>polling\<close> has yet to send, \<open>channel\<close> is the buffered
  channel, \<open>received\<close> the loop's fallbacks, \<open>finished\<close> the value the function has returned. A
  goroutine may still send, or panic, after the function has returned.
\<close>

record 'w fan_state =
  polling :: "string list"
  channel :: "pollResult list"
  received :: poll_acc
  finished :: "http_response result option"
  crashed :: bool
  fan_resolver :: "'w Resolver"

definition fan_init :: "string list \<Rightarrow> 'w Resolver \<Rightarrow> 'w fan_state" where
  "fan_init slots r = \<lparr>polling = slots, channel = [], received = no_answers, finished = None,
     crashed = False, fan_resolver = r\<rparr>"

inductive fan_step ::
    "(string \<Rightarrow> http_response result outcome)
     \<Rightarrow> (pollResult \<Rightarrow> poll_acc \<Rightarrow> 'w Resolver \<Rightarrow> (http_response + poll_acc) \<times> 'w Resolver)
     \<Rightarrow> 'w fan_state \<Rightarrow> 'w fan_state \<Rightarrow> bool"
  for poll recv where
  send: "\<not> crashed s \<Longrightarrow> polling s = xs @ p # ys \<Longrightarrow> poll p = Ret x \<Longrightarrow>
    fan_step poll recv s (s\<lparr>polling := xs @ ys, channel := channel s @ [\<lparr>pr_resp = x, pr_physNs = p\<rparr>]\<rparr>)"
| crash: "\<not> crashed s \<Longrightarrow> polling s = xs @ p # ys \<Longrightarrow> poll p = Panic msg \<Longrightarrow>
    fan_step poll recv s (s\<lparr>polling := xs @ ys, crashed := True\<rparr>)"
| return_task: "\<not> crashed s \<Longrightarrow> finished s = None \<Longrightarrow> channel s = res # rest \<Longrightarrow>
    recv res (received s) (fan_resolver s) = (Inl resp, r) \<Longrightarrow>
    fan_step poll recv s (s\<lparr>channel := rest, finished := Some (Inr resp), fan_resolver := r\<rparr>)"
| go_on: "\<not> crashed s \<Longrightarrow> finished s = None \<Longrightarrow> channel s = res # rest \<Longrightarrow>
    recv res (received s) (fan_resolver s) = (Inr acc, r) \<Longrightarrow>
    fan_step poll recv s (s\<lparr>channel := rest, received := acc, fan_resolver := r\<rparr>)"
| closed: "\<not> crashed s \<Longrightarrow> finished s = None \<Longrightarrow> polling s = [] \<Longrightarrow> channel s = [] \<Longrightarrow>
    fan_step poll recv s (s\<lparr>finished := Some (no_task (received s))\<rparr>)"

inductive_cases fan_stepE: "fan_step poll recv s s'"

abbreviation fan_reach where
  "fan_reach poll recv \<equiv> (fan_step poll recv)\<^sup>*\<^sup>*"

section \<open>What is returned\<close>

text \<open>The answer a cluster gave, as far as the loop can read it.\<close>

definition readable :: "pollResult \<Rightarrow> http_response option" where
  "readable a = (case pr_resp a of Inl _ \<Rightarrow> None
     | Inr resp \<Rightarrow> (case resp_Body resp of Inl _ \<Rightarrow> None | Inr _ \<Rightarrow> Some resp))"

definition answer_task ::
    "gunzip \<Rightarrow> (byte list \<Rightarrow> 'm result) \<Rightarrow> ('m \<Rightarrow> byte list) \<Rightarrow> ('m \<Rightarrow> WorkflowExecution option)
     \<Rightarrow> pollResult \<Rightarrow> (http_response \<times> WorkflowExecution option) option" where
  "answer_task gz unm tok exe a =
     (case pr_resp a of Inl _ \<Rightarrow> None
      | Inr resp \<Rightarrow> (case resp_Body resp of Inl _ \<Rightarrow> None
          | Inr bs \<Rightarrow> map_option (Pair resp) (polled_task gz unm tok exe resp bs)))"

lemma restore_body: "resp_Body resp = Inr bs \<Longrightarrow> resp\<lparr>resp_Body := Inr bs\<rparr> = resp"
  by (cases resp) simp

lemma receive_one_task:
  "answer_task gz unm tok exe a = Some (resp, exec) \<Longrightarrow>
     receive_one gz unm tok exe a acc r = (Inl resp, cache_task exec (pr_physNs a) r)"
  by (auto simp: answer_task_def receive_one_def restore_body split: sum.splits)

lemma receive_one_no_task:
  "answer_task gz unm tok exe a = None \<Longrightarrow> \<exists>acc'. receive_one gz unm tok exe a acc r = (Inr acc', r) \<and>
     lastEmptyResp acc' = (case readable a of Some resp \<Rightarrow> Some resp | None \<Rightarrow> lastEmptyResp acc)"
  by (auto simp: answer_task_def receive_one_def readable_def restore_body split: sum.splits)

text \<open>The first answer with a task wins, whatever came before it.\<close>

lemma receive_loop_task:
  assumes "answer_task gz unm tok exe a = Some (resp, exec)" "\<forall>b\<in>set pre. answer_task gz unm tok exe b = None"
  shows "receive_loop (receive_one gz unm tok exe) (pre @ a # post) acc r =
    (Inr resp, cache_task exec (pr_physNs a) r)"
  using assms(2)
proof (induction pre arbitrary: acc)
  case Nil
  then show ?case by (simp add: receive_one_task[OF assms(1)])
next
  case (Cons b pre)
  then obtain acc' where "receive_one gz unm tok exe b acc r = (Inr acc', r)"
    using receive_one_no_task by (metis list.set_intros(1))
  with Cons show ?case by simp
qed

text \<open>Without a task the last readable answer is returned, and an error only if there is none.\<close>

lemma receive_loop_no_task:
  assumes "\<forall>b\<in>set answers. answer_task gz unm tok exe b = None"
  shows "\<exists>err. receive_loop (receive_one gz unm tok exe) answers acc r =
    ((case rev (List.map_filter readable answers) @ (case lastEmptyResp acc of None \<Rightarrow> [] | Some x \<Rightarrow> [x]) of
        [] \<Rightarrow> Inl err | resp # _ \<Rightarrow> Inr resp), r)"
  using assms
proof (induction answers arbitrary: acc)
  case Nil
  then show ?case by (auto simp: no_task_def map_filter_simps split: option.splits)
next
  case (Cons b answers)
  then obtain acc' where b: "receive_one gz unm tok exe b acc r = (Inr acc', r)"
    "lastEmptyResp acc' = (case readable b of Some resp \<Rightarrow> Some resp | None \<Rightarrow> lastEmptyResp acc)"
    using receive_one_no_task by (metis list.set_intros(1))
  moreover obtain err where "receive_loop (receive_one gz unm tok exe) answers acc' r =
    ((case rev (List.map_filter readable answers) @ (case lastEmptyResp acc' of None \<Rightarrow> [] | Some x \<Rightarrow> [x]) of
        [] \<Rightarrow> Inl err | resp # _ \<Rightarrow> Inr resp), r)"
    using Cons by (metis list.set_intros(2))
  ultimately show ?case
    by (cases "readable b"; cases "rev (List.map_filter readable answers)") (auto simp: map_filter_simps)
qed

section \<open>The runs of the goroutines\<close>

definition fan_inv ::
    "(string \<Rightarrow> http_response result outcome)
     \<Rightarrow> (pollResult \<Rightarrow> poll_acc \<Rightarrow> 'w Resolver \<Rightarrow> (http_response + poll_acc) \<times> 'w Resolver)
     \<Rightarrow> string list \<Rightarrow> 'w Resolver \<Rightarrow> 'w fan_state \<Rightarrow> bool" where
  "fan_inv poll recv slots r0 s \<longleftrightarrow>
     (\<exists>got pend. channel s = map (answer poll) pend \<and>
        mset got + mset pend + mset (polling s) = mset slots \<and>
        (\<forall>p\<in>set got \<union> set pend. \<exists>x. poll p = Ret x) \<and>
        (case finished s of
           None \<Rightarrow> \<forall>rest. receive_loop recv (map (answer poll) got @ rest) no_answers r0 =
             receive_loop recv rest (received s) (fan_resolver s)
         | Some res \<Rightarrow> \<exists>arrival. mset arrival = mset slots \<and>
             receive_loop recv (map (answer poll) arrival) no_answers r0 = (res, fan_resolver s)))"



lemma fan_inv_init: "fan_inv poll recv slots r (fan_init slots r)"
  unfolding fan_inv_def fan_init_def by (intro exI[of _ "[]"]) simp

lemma fan_inv_step:
  assumes "fan_step poll recv s s'" "fan_inv poll recv slots r0 s" "\<not> crashed s'"
  shows "fan_inv poll recv slots r0 s'"
proof -
  obtain got pend where I: "channel s = map (answer poll) pend"
    "mset got + mset pend + mset (polling s) = mset slots" "\<forall>p\<in>set got \<union> set pend. \<exists>x. poll p = Ret x"
    "case finished s of
           None \<Rightarrow> \<forall>rest. receive_loop recv (map (answer poll) got @ rest) no_answers r0 =
             receive_loop recv rest (received s) (fan_resolver s)
         | Some res \<Rightarrow> \<exists>arrival. mset arrival = mset slots \<and>
             receive_loop recv (map (answer poll) arrival) no_answers r0 = (res, fan_resolver s)"
    using assms(2) unfolding fan_inv_def by blast
  from assms(1) show ?thesis
  proof (cases rule: fan_step.cases)
    case (send xs p ys x)
    with I show ?thesis unfolding fan_inv_def
      by - (rule exI[of _ got], rule exI[of _ "pend @ [p]"], auto simp: answer_def split: option.splits)
  next
    case (crash xs p ys msg)
    then show ?thesis using assms(3) by simp
  next
    case (return_task res rest resp r)
    then obtain p pend' where p: "pend = p # pend'" "res = answer poll p" "rest = map (answer poll) pend'"
      using I(1) by (cases pend) auto
    have "receive_loop recv (map (answer poll) (got @ pend @ polling s)) no_answers r0 = (Inr resp, r)"
      using I(4) return_task p by simp
    moreover have "mset (got @ pend @ polling s) = mset slots" using I(2) by (simp add: ac_simps)
    ultimately have "\<exists>arrival. mset arrival = mset slots \<and>
        receive_loop recv (map (answer poll) arrival) no_answers r0 = (Inr resp, r)" by blast
    with I return_task p show ?thesis unfolding fan_inv_def
      by - (rule exI[of _ "got @ [p]"], rule exI[of _ pend'], auto)
  next
    case (go_on res rest acc r)
    then obtain p pend' where p: "pend = p # pend'" "res = answer poll p" "rest = map (answer poll) pend'"
      using I(1) by (cases pend) auto
    with I go_on show ?thesis unfolding fan_inv_def
      by - (rule exI[of _ "got @ [p]"], rule exI[of _ pend'], auto)
  next
    case closed
    then have "receive_loop recv (map (answer poll) got @ []) no_answers r0 = (no_task (received s), fan_resolver s)"
      using I(4) by (simp only: option.case) simp
    moreover have "mset got = mset slots" using I(1,2) closed by simp
    ultimately show ?thesis using I closed unfolding fan_inv_def
      by - (rule exI[of _ got], rule exI[of _ pend], auto)
  qed
qed

lemma fan_step_not_crashed: "fan_step poll recv s s' \<Longrightarrow> \<not> crashed s"
  by (cases rule: fan_step.cases) auto

lemma fan_inv_reach:
  "fan_reach poll recv (fan_init slots r) s \<Longrightarrow> \<not> crashed s \<Longrightarrow> fan_inv poll recv slots r s"
  by (induction rule: rtranclp_induct) (auto simp: fan_inv_init intro: fan_inv_step dest: fan_step_not_crashed)


lemma is_panic_iff: "is_panic x \<longleftrightarrow> (\<exists>msg. x = Panic msg)"
  by (cases x) auto


text \<open>Conversely, every order of arrival is the order of some run.\<close>

lemma fan_send_all:
  assumes "\<not> crashed s" "mset (polling s) = mset arrival" "\<forall>p\<in>set arrival. \<exists>x. poll p = Ret x"
  shows "fan_reach poll recv s (s\<lparr>polling := [], channel := channel s @ map (answer poll) arrival\<rparr>)"
  using assms
proof (induction arrival arbitrary: s)
  case Nil
  then have "s\<lparr>polling := [], channel := channel s @ map (answer poll) []\<rparr> = s" by (cases s) simp
  then show ?case by simp
next
  case (Cons p ps)
  then have "p \<in> set (polling s)" by (metis list.set_intros(1) set_mset_mset)
  then obtain xs ys where xy: "polling s = xs @ p # ys" by (meson split_list)
  obtain x where x: "poll p = Ret x" using Cons.prems by auto
  let ?s = "s\<lparr>polling := xs @ ys, channel := channel s @ [\<lparr>pr_resp = x, pr_physNs = p\<rparr>]\<rparr>"
  have "fan_step poll recv s ?s" using Cons.prems xy x by (intro fan_step.send)
  moreover have "fan_reach poll recv ?s (?s\<lparr>polling := [], channel := channel ?s @ map (answer poll) ps\<rparr>)"
    using Cons.prems xy by (intro Cons.IH) auto
  moreover have "answer poll p = \<lparr>pr_resp = x, pr_physNs = p\<rparr>" using x by (simp add: answer_def)
  ultimately show ?case by (simp add: converse_rtranclp_into_rtranclp)
qed

lemma fan_receive_all:
  assumes "\<not> crashed s" "finished s = None" "polling s = []"
    "receive_loop recv (channel s) (received s) (fan_resolver s) = (res, r)"
  shows "\<exists>s'. fan_reach poll recv s s' \<and> finished s' = Some res \<and> fan_resolver s' = r"
  using assms
proof (induction "channel s" arbitrary: s)
  case Nil
  then have "fan_step poll recv s (s\<lparr>finished := Some (no_task (received s))\<rparr>)" by (intro fan_step.closed) auto
  with Nil show ?case by (intro exI[of _ "s\<lparr>finished := Some res\<rparr>"]) (auto simp flip: Nil.hyps)
next
  case (Cons a as)
  obtain out r' where out: "recv a (received s) (fan_resolver s) = (out, r')" by fastforce
  note ch = Cons.hyps(2)[symmetric]
  show ?case
  proof (cases out)
    case (Inl resp)
    then have "fan_step poll recv s (s\<lparr>channel := as, finished := Some (Inr resp), fan_resolver := r'\<rparr>)"
      using Cons.prems out ch by (intro fan_step.return_task[where res = a]) auto
    with Cons.prems out ch Inl show ?thesis
      by (intro exI[of _ "s\<lparr>channel := as, finished := Some (Inr resp), fan_resolver := r'\<rparr>"]) auto
  next
    case (Inr acc)
    let ?s = "s\<lparr>channel := as, received := acc, fan_resolver := r'\<rparr>"
    have "fan_step poll recv s ?s"
      using Cons.prems out ch Inr by (intro fan_step.go_on[where res = a]) auto
    moreover have "\<exists>s'. fan_reach poll recv ?s s' \<and> finished s' = Some res \<and> fan_resolver s' = r"
      using Cons.prems out ch Inr by (intro Cons.hyps(1)) auto
    ultimately show ?thesis by (metis converse_rtranclp_into_rtranclp)
  qed
qed

lemma fan_out_run:
  assumes "mset arrival = mset slots" "fan_out poll recv slots arrival r = (Ret res, r')"
    and hang: "\<And>p. poll p \<noteq> Hang"
  shows "\<exists>s. fan_reach poll recv (fan_init slots r) s \<and> finished s = Some res \<and> fan_resolver s = r'"
proof -
  have find: "find (\<lambda>s. is_panic (poll s)) slots = None"
    using assms(2) by (auto simp: fan_out_def is_panic_iff find_Some_iff split: option.splits)
  have loop: "receive_loop recv (map (answer poll) arrival) no_answers r = (res, r')"
    using assms(2) find by (auto simp: fan_out_def split: prod.splits)
  have "\<forall>p\<in>set arrival. \<exists>x. poll p = Ret x"
    using find hang assms(1) by (metis find_None_iff is_panic.simps(2) outcome.exhaust set_mset_mset)
  from fan_send_all[OF _ _ this, of "fan_init slots r"]
  have "fan_reach poll recv (fan_init slots r) ((fan_init slots r)\<lparr>polling := [], channel := map (answer poll) arrival\<rparr>)"
    using assms(1) by (simp add: fan_init_def)
  moreover have "\<exists>s. fan_reach poll recv ((fan_init slots r)\<lparr>polling := [], channel := map (answer poll) arrival\<rparr>) s
      \<and> finished s = Some res \<and> fan_resolver s = r'"
    using loop by (intro fan_receive_all) (auto simp: fan_init_def)
  ultimately show ?thesis by (metis rtranclp_trans)
qed


section \<open>A poll as a whole\<close>

lemma ExecutePoll_fans_out:
  assumes "extractPayload (ext_gunzip ext) bs = Inr (pb, c)" "Unmarshal (c_pwq ext) pb = Inr req"
    "reg_namespaces reg (pwq_Namespace req) = Some vns" "GetAllNamespaces keys (deref vns reg) = slots" "slots \<noteq> []"
  shows "ExecutePoll ext tr keys arrival r bs reg res =
    fan_out (\<lambda>p. pollSingleCluster ext tr r req p c)
      (receive_one (ext_gunzip ext) (Unmarshal (c_pwr ext)) pwr_TaskToken pwr_WorkflowExecution) slots (arrival slots) res"
  using assms by (simp add: ExecutePoll_def Registry_Resolve_def)

lemma pollSingleCluster_panics_iff: "is_panic (pollSingleCluster ext tr r req p c) \<longleftrightarrow> \<not> Contains p delim"
  using parse_panics_iff[of p]
  by (cases "parsePhysicalNamespace p") (auto simp: pollSingleCluster_def Let_def split: sum.splits)

lemma no_panic_find: "\<forall>p\<in>set slots. \<not> is_panic (poll p) \<Longrightarrow> find (\<lambda>s. is_panic (poll s)) slots = None"
  by (simp add: find_None_iff)

lemma fan_out_no_panic:
  assumes "\<forall>p\<in>set slots. \<not> is_panic (poll p)"
  shows "fan_out poll recv slots arrival r =
    (Ret (fst (receive_loop recv (map (answer poll) arrival) no_answers r)),
     snd (receive_loop recv (map (answer poll) arrival) no_answers r))"
  using no_panic_find[OF assms] by (simp add: fan_out_def case_prod_beta)

lemma assigned_cache_task:
  "resolver_ok r \<Longrightarrow> resolver_ok (cache_task exec p r) \<and> assigned (cache_task exec p r) =
     (case exec of Some e \<Rightarrow> if WorkflowId e \<noteq> '''' then (assigned r)(WorkflowId e \<mapsto> p) else assigned r | None \<Rightarrow> assigned r)"
  by (auto simp: cache_task_def resolver_ok_def assigned_def cache.put_view cache.ok_put split: option.splits)

lemma fan_not_crashed:
  assumes "fan_reach poll recv (fan_init slots r) s" "\<forall>p\<in>set slots. \<not> is_panic (poll p)"
  shows "\<not> crashed s"
  using assms(1)
proof (induction rule: rtranclp_induct)
  case base
  then show ?case by (simp add: fan_init_def)
next
  case (step t u)
  have "set (polling t) \<subseteq> set slots"
    using fan_inv_reach[OF step.hyps(1) step.IH] unfolding fan_inv_def
    by (metis mset_subset_eq_add_right set_mset_mono set_mset_mset)
  with step.hyps(2) step.IH assms(2) show ?case by (cases rule: fan_step.cases) (auto simp: is_panic_iff)
qed


section \<open>An example\<close>

text \<open>The cluster at \<open>h2\<close> has a task of workflow \<open>wf\<close>, every other cluster answers with an empty poll.\<close>

definition example_task :: http_response where
  "example_task = \<lparr>StatusCode = 200, resp_Header = Map.empty, resp_Trailer = Map.empty, resp_Body = Inr (example_body ''tok'' ''wf'')\<rparr>"

definition example_empty :: http_response where
  "example_empty = \<lparr>StatusCode = 200, resp_Header = Map.empty, resp_Trailer = Map.empty, resp_Body = Inr (example_body '''' '''')\<rparr>"

definition example_transport :: transport where
  "example_transport r = (if url_host r = ''h2'' then Inr example_task else Inr example_empty)"

definition example_pwq :: PollWorkflowTaskQueueRequest where
  "example_pwq = \<lparr>pwq_Namespace = ''vns'', pwq_other = bytes_of_string ''q''\<rparr>"

lemma example_pwq_Namespace [simp]: "pwq_Namespace example_pwq = ''vns''"
  by (simp add: example_pwq_def)

lemma example_pwq_decoded:
  "Unmarshal (c_pwq example_ext) (of_nat (length ''vns'') # bytes_of_string ''vns'' @ bytes_of_string ''q'') = Inr example_pwq"
  unfolding example_ext_def example_pwq_def by (simp only: externals.simps) (rule Unmarshal_pair, simp)

lemma example_poll:
  "pollSingleCluster example_ext example_transport r example_pwq ''a::h1'' c = Ret (Inr example_empty)"
  "pollSingleCluster example_ext example_transport r example_pwq ''b::h2'' c = Ret (Inr example_task)"
  by (simp_all add: pollSingleCluster_def parse_examples example_ext_def pair_codec_def example_pwq_def
      redirect_poll_def example_transport_def ns_address_def)

lemma example_answers:
  "answer_task (ext_gunzip example_ext) (Unmarshal (c_pwr example_ext)) pwr_TaskToken pwr_WorkflowExecution
     \<lparr>pr_resp = Inr example_empty, pr_physNs = p\<rparr> = None"
  "answer_task (ext_gunzip example_ext) (Unmarshal (c_pwr example_ext)) pwr_TaskToken pwr_WorkflowExecution
     \<lparr>pr_resp = Inr example_task, pr_physNs = p\<rparr> = Some (example_task, Some \<lparr>WorkflowId = ''wf'', exec_other = []\<rparr>)"
proof -
  have "poll_payload (ext_gunzip example_ext) (example_body a b) = of_nat (length a) # bytes_of_string a @ bytes_of_string b" for a b
    by (simp add: poll_payload_def example_body_def Let_def) (simp add: frame_def Let_def)
  then have "Unmarshal (c_pwr example_ext) (poll_payload (ext_gunzip example_ext) (example_body a b)) =
      Inr \<lparr>pwr_TaskToken = bytes_of_string a, pwr_WorkflowExecution = Some \<lparr>WorkflowId = b, exec_other = []\<rparr>, pwr_other = []\<rparr>"
    if "length a < 256" for a b
    using Unmarshal_pair[OF that] by (simp add: example_ext_def)
  moreover have "length (example_body a b) > 5" for a b by (simp add: example_body_def)
  ultimately show
    "answer_task (ext_gunzip example_ext) (Unmarshal (c_pwr example_ext)) pwr_TaskToken pwr_WorkflowExecution
     \<lparr>pr_resp = Inr example_empty, pr_physNs = p\<rparr> = None"
    "answer_task (ext_gunzip example_ext) (Unmarshal (c_pwr example_ext)) pwr_TaskToken pwr_WorkflowExecution
     \<lparr>pr_resp = Inr example_task, pr_physNs = p\<rparr> = Some (example_task, Some \<lparr>WorkflowId = ''wf'', exec_other = []\<rparr>)"
    by (simp_all add: answer_task_def polled_task_def example_empty_def example_task_def)
qed

lemma example_slots: "GetAllNamespaces [''a::h1'', ''b::h2''] (deref 0 example_registry) = [''a::h1'', ''b::h2'']"
  by (simp add: GetAllNamespaces_def example_registry_entry)

section \<open>Properties\<close>

text \<open>
  C13: A poll returns the first task. When the clusters answer in the order \<open>arrival\<close>, the first
  answer that carries a task is the response, with its status, headers and body untouched; its
  workflow is cached for the cluster it came from, nothing else changes in the cache, and the next
  resolve of that workflow is a hit on that cluster.
\<close>

theorem poll_returns_first_task:
  assumes "extractPayload (ext_gunzip ext) bs = Inr (pb, c)" "Unmarshal (c_pwq ext) pb = Inr req"
    and "reg_namespaces reg (pwq_Namespace req) = Some vns" "GetAllNamespaces keys (deref vns reg) = slots" "slots \<noteq> []"
    and "\<forall>p\<in>set slots. Contains p delim" "arrival slots = pre @ p # post"
    and "answer_of = (\<lambda>p. answer_task (ext_gunzip ext) (Unmarshal (c_pwr ext)) pwr_TaskToken pwr_WorkflowExecution
           (answer (\<lambda>p. pollSingleCluster ext tr r req p c) p))"
    and "\<forall>q\<in>set pre. answer_of q = None" "answer_of p = Some (resp, Some e)" "WorkflowId e \<noteq> ''''"
    and "resolver_ok res" "p \<noteq> ''''"
  shows "\<exists>res'. ExecutePoll ext tr keys arrival r bs reg res = (Ret (Inr resp), res') \<and>
    resolver_ok res' \<and> assigned res' = (assigned res)(WorkflowId e \<mapsto> p) \<and>
    (\<forall>sum32 vn reg'. fst (Resolver_Resolve sum32 \<lparr>WorkflowID = WorkflowId e, VirtualNamespaceName = vn\<rparr> reg' res') = (p, True))"
proof -
  let ?poll = "\<lambda>p. pollSingleCluster ext tr r req p c"
  let ?recv = "receive_one (ext_gunzip ext) (Unmarshal (c_pwr ext)) pwr_TaskToken pwr_WorkflowExecution"
  let ?res = "cache_task (Some e) p res"
  have pre: "\<forall>b\<in>set (map (answer ?poll) pre). answer_task (ext_gunzip ext) (Unmarshal (c_pwr ext)) pwr_TaskToken pwr_WorkflowExecution b = None"
    and task: "answer_task (ext_gunzip ext) (Unmarshal (c_pwr ext)) pwr_TaskToken pwr_WorkflowExecution (answer ?poll p) = Some (resp, Some e)"
    using assms(8-10) by auto
  have "receive_loop ?recv (map (answer ?poll) (arrival slots)) no_answers res = (Inr resp, ?res)"
    using receive_loop_task[OF task pre] assms(7) by (simp add: answer_def)
  then have "ExecutePoll ext tr keys arrival r bs reg res = (Ret (Inr resp), ?res)"
    unfolding ExecutePoll_fans_out[OF assms(1-5)]
    using assms(6) by (subst fan_out_no_panic) (simp_all add: pollSingleCluster_panics_iff)
  moreover have "resolver_ok ?res" "assigned ?res = (assigned res)(WorkflowId e \<mapsto> p)"
    using assigned_cache_task[OF assms(12)] assms(11) by auto
  ultimately show ?thesis using Resolve_hit(1)[of ?res] assms(13) by auto
qed

theorem poll_returns_first_task_witness:
  "\<exists>res'. ExecutePoll example_ext example_transport [''a::h1'', ''b::h2''] id (example_request ''/poll'' (example_body ''vns'' ''q''))
       (example_body ''vns'' ''q'') example_registry (example_resolver []) = (Ret (Inr example_task), res') \<and>
     assigned res' = [''wf'' \<mapsto> ''b::h2'']"
proof -
  have "\<forall>p\<in>set [''a::h1'', ''b::h2'']. Contains p delim" by (simp add: Contains_iff_sublist delim_def sublist_Cons_right)
  from poll_returns_first_task[OF extractPayload_example example_pwq_decoded _ example_slots _ this,
      where arrival = id and pre = "[''a::h1'']" and p = "''b::h2''" and post = "[]" and tr = example_transport
        and r = "example_request ''/poll'' (example_body ''vns'' ''q'')" and resp = example_task
        and e = "\<lparr>WorkflowId = ''wf'', exec_other = []\<rparr>" and res = "example_resolver []", OF _ _ _ refl]
  show ?thesis by (auto simp: answer_def example_poll example_answers example_registry_entry)
qed

text \<open>
  C14: The goroutines compute what the sequential reading says. For polls that neither hang nor panic,
  the values the concurrent function can return, with the caches it leaves, are exactly the
  results of receiving the answers one by one in some order of arrival.
\<close>

theorem goroutines_refine_sequence:
  assumes "\<forall>p. poll p \<noteq> Hang" "\<forall>p\<in>set slots. \<not> is_panic (poll p)"
  shows "(\<exists>s. fan_reach poll recv (fan_init slots r) s \<and> finished s = Some ret \<and> fan_resolver s = r') \<longleftrightarrow>
    (\<exists>arrival. mset arrival = mset slots \<and> fan_out poll recv slots arrival r = (Ret ret, r'))"
proof
  assume "\<exists>s. fan_reach poll recv (fan_init slots r) s \<and> finished s = Some ret \<and> fan_resolver s = r'"
  then obtain s where s: "fan_reach poll recv (fan_init slots r) s" "finished s = Some ret" "fan_resolver s = r'" by blast
  with fan_inv_reach[OF s(1) fan_not_crashed[OF s(1) assms(2)]]
  obtain arrival where a: "mset arrival = mset slots" "receive_loop recv (map (answer poll) arrival) no_answers r = (ret, r')"
    unfolding fan_inv_def by auto
  then have "fan_out poll recv slots arrival r = (Ret ret, r')" by (simp add: fan_out_no_panic[OF assms(2)])
  with a(1) show "\<exists>arrival. mset arrival = mset slots \<and> fan_out poll recv slots arrival r = (Ret ret, r')" by blast
qed (use fan_out_run assms(1) in blast)

theorem goroutines_refine_sequence_witness:
  "\<exists>s. fan_reach (\<lambda>p. Ret (Inl (Errorf p))) (\<lambda>res acc r. (Inr acc, r)) (fan_init [''a'', ''b''] (example_resolver [])) s \<and>
     finished s = Some (no_task no_answers) \<and> fan_resolver s = example_resolver []"
proof -
  have "fan_out (\<lambda>p. Ret (Inl (Errorf p))) (\<lambda>res acc r. (Inr acc, r)) [''a'', ''b''] [''b'', ''a''] (example_resolver []) =
    (Ret (no_task no_answers), example_resolver [])" by (simp add: fan_out_def)
  then show ?thesis
    by (subst goroutines_refine_sequence) (auto intro!: exI[of _ "[''b'', ''a'']"])
qed



text \<open>
  C16: A poll without a task: when the request is understood, its virtual namespace has physical namespaces, all of
  well-formed names, and no answer carries a task, the caller gets the last answer whose body
  could be read (the empty poll of a cluster that timed out), an error only if there was none, and
  the routing cache is untouched.
\<close>

theorem poll_without_task:
  assumes "extractPayload (ext_gunzip ext) bs = Inr (pb, c)" "Unmarshal (c_pwq ext) pb = Inr req"
    and "reg_namespaces reg (pwq_Namespace req) = Some vns" "GetAllNamespaces keys (deref vns reg) = slots" "slots \<noteq> []"
    and "\<forall>p\<in>set slots. Contains p delim"
    and "answers = map (answer (\<lambda>p. pollSingleCluster ext tr r req p c)) (arrival slots)"
    and "\<forall>a\<in>set answers.
      answer_task (ext_gunzip ext) (Unmarshal (c_pwr ext)) pwr_TaskToken pwr_WorkflowExecution a = None"
  shows "\<exists>err. ExecutePoll ext tr keys arrival r bs reg res =
    (Ret (case rev (List.map_filter readable answers) of [] \<Rightarrow> Inl err | resp # _ \<Rightarrow> Inr resp), res)"
proof -
  have "ExecutePoll ext tr keys arrival r bs reg res =
    (Ret (fst (receive_loop (receive_one (ext_gunzip ext) (Unmarshal (c_pwr ext)) pwr_TaskToken pwr_WorkflowExecution) answers no_answers res)),
     snd (receive_loop (receive_one (ext_gunzip ext) (Unmarshal (c_pwr ext)) pwr_TaskToken pwr_WorkflowExecution) answers no_answers res))"
    unfolding ExecutePoll_fans_out[OF assms(1-5)] assms(7)
    using assms(6) by (intro fan_out_no_panic) (simp add: pollSingleCluster_panics_iff)
  with receive_loop_no_task[OF assms(8), of no_answers res] show ?thesis by (auto simp: no_answers_def)
qed

theorem poll_without_task_witness:
  "\<exists>err. ExecutePoll example_ext (\<lambda>_. Inr example_empty) [''a::h1'', ''b::h2''] id (example_request ''/poll'' (example_body ''vns'' ''q''))
       (example_body ''vns'' ''q'') example_registry (example_resolver []) = (Ret (Inr example_empty), example_resolver [])"
proof -
  let ?r = "example_request ''/poll'' (example_body ''vns'' ''q'')"
  have c: "\<forall>p\<in>set [''a::h1'', ''b::h2'']. Contains p delim" by (simp add: Contains_iff_sublist delim_def sublist_Cons_right)
  have p: "pollSingleCluster example_ext (\<lambda>_. Inr example_empty) ?r example_pwq ''a::h1'' False = Ret (Inr example_empty)"
    "pollSingleCluster example_ext (\<lambda>_. Inr example_empty) ?r example_pwq ''b::h2'' False = Ret (Inr example_empty)"
    by (simp_all add: pollSingleCluster_def parse_examples example_ext_def pair_codec_def example_pwq_def)
  have "readable \<lparr>pr_resp = Inr example_empty, pr_physNs = q\<rparr> = Some example_empty" for q
    by (simp add: readable_def example_empty_def)
  with p show ?thesis
    using poll_without_task[OF extractPayload_example example_pwq_decoded _ example_slots _ c refl,
      where arrival = id and tr = "\<lambda>_. Inr example_empty" and r = ?r and res = "example_resolver []"]
    by (simp add: answer_def example_answers example_registry_entry map_filter_simps)
qed

text \<open>
  The request a poll sends to one cluster goes to the address in the physical namespace name, is
  an uncompressed gRPC frame whose message is the caller's with only the namespace replaced, and
  keeps the path and every header but the content length; this holds for workflow and for activity polls.
\<close>

theorem poll_redirected:
  assumes "plain_name n" "plain_addr a" "codec_ok (c_pwq ext)" "codec_ok (c_paq ext)"
    and "Marshal (c_pwq ext) (req\<lparr>pwq_Namespace := n\<rparr>) = Inr pb" "pb \<noteq> []"
    and "Marshal (c_paq ext) (req'\<lparr>paq_Namespace := n\<rparr>) = Inr pb'" "pb' \<noteq> []"
  shows "\<exists>q q'. pollSingleCluster ext tr r req (buildPhysicalNamespace n a) c = Ret (tr q) \<and>
    pollSingleActivityCluster ext tr r req' (buildPhysicalNamespace n a) c = Ret (tr q') \<and>
    url_host q = a \<and> req_host q = a \<and> url_path q = url_path r \<and> url_host q' = a \<and> url_path q' = url_path r \<and>
    req_header q = (req_header r)(''Content-Length'' := None) \<and>
    Option.bind (case req_body q of Inl _ \<Rightarrow> None | Inr bs \<Rightarrow> Some bs)
      (\<lambda>bs. case extractPayload gz bs of Inl _ \<Rightarrow> None | Inr (p, _) \<Rightarrow> Some (Unmarshal (c_pwq ext) p))
      = Some (Inr (req\<lparr>pwq_Namespace := n\<rparr>)) \<and>
    Option.bind (case req_body q' of Inl _ \<Rightarrow> None | Inr bs \<Rightarrow> Some bs)
      (\<lambda>bs. case extractPayload gz bs of Inl _ \<Rightarrow> None | Inr (p, _) \<Rightarrow> Some (Unmarshal (c_paq ext) p))
      = Some (Inr (req'\<lparr>paq_Namespace := n\<rparr>))"
proof -
  let ?ns = "\<lparr>ns_cluster = Some \<lparr>address = a\<rparr>, ns_name = n\<rparr>"
  have "pollSingleCluster ext tr r req (buildPhysicalNamespace n a) c = Ret (tr (redirect_poll r ?ns pb))"
    "pollSingleActivityCluster ext tr r req' (buildPhysicalNamespace n a) c = Ret (tr (redirect_poll r ?ns pb'))"
    using parse_build[OF assms(1,2)] assms(5,7)
    by (simp_all add: pollSingleCluster_def pollSingleActivityCluster_def)
  then show ?thesis
    using codec_okD[OF assms(3,5)] codec_okD[OF assms(4,7)] assms(6,8)
    by (intro exI[of _ "redirect_poll r ?ns pb"] exI[of _ "redirect_poll r ?ns pb'"])
       (simp add: redirect_poll_def ns_address_def extractPayload_frame)
qed

theorem poll_redirected_witness:
  "\<exists>q. pollSingleCluster example_ext example_transport (example_request ''/poll'' []) example_pwq (buildPhysicalNamespace ''a'' ''h1'') True
     = Ret (example_transport q) \<and> url_host q = ''h1'' \<and> url_path q = ''/poll''"
proof -
  let ?req' = "\<lparr>paq_Namespace = ''vns'', paq_other = bytes_of_string ''q''\<rparr>"
  have pl: "plain_name ''a''" "plain_addr ''h1''" by code_simp+
  have ok: "codec_ok (c_pwq example_ext)" "codec_ok (c_paq example_ext)" by (simp_all add: example_ext_def pair_codec_ok)
  have m: "Marshal (c_pwq example_ext) (example_pwq\<lparr>pwq_Namespace := ''a''\<rparr>) = Inr (1 # bytes_of_string ''a'' @ bytes_of_string ''q'')"
    "Marshal (c_paq example_ext) (?req'\<lparr>paq_Namespace := ''a''\<rparr>) = Inr (1 # bytes_of_string ''a'' @ bytes_of_string ''q'')"
    by (simp_all add: example_ext_def pair_codec_def example_pwq_def)
  have r: "url_path (example_request ''/poll'' []) = ''/poll''" by (simp add: example_request_def)
  show ?thesis
    using poll_redirected[OF pl ok m(1) _ m(2) list.simps(3), of example_transport "example_request ''/poll'' []" True Unzipped] r
    by fastforce
qed

end
