(* ===== verification/TaskToken.thy ===== *)
theory TaskToken
  imports GoStdlib
begin

text \<open>
  \<open>extractWorkflowIDFromTaskToken\<close> of \<^verbatim>\<open>proxy.go\<close>: a hand-written walk over the protobuf fields of
  a task token, with Go's slice bounds and 64-bit wrap-around. The walk may return, panic or
  run forever, so it is a partial function whose value \<open>None\<close> stands for not returning.
\<close>

unbundle bit_operations_syntax

section \<open>Model\<close>

text \<open>\<^verbatim>\<open>token[i:]\<close> and \<^verbatim>\<open>token[i:j]\<close> panic outside the bounds.\<close>

definition slice_from :: "'a list \<Rightarrow> int \<Rightarrow> 'a list outcome" where
  "slice_from xs i = (if 0 \<le> i \<and> i \<le> int (length xs) then Ret (drop (nat i) xs)
     else Panic ''slice bounds out of range'')"

definition slice :: "'a list \<Rightarrow> int \<Rightarrow> int \<Rightarrow> 'a list outcome" where
  "slice xs i j = (if 0 \<le> i \<and> i \<le> j \<and> j \<le> int (length xs) then Ret (take (nat (j - i)) (drop (nat i) xs))
     else Panic ''slice bounds out of range'')"

partial_function (option) token_loop :: "byte list \<Rightarrow> int \<Rightarrow> string result outcome option" where
  "token_loop token i =
     (if i < int (length token) then
        (case slice_from token i of
           Panic msg \<Rightarrow> Some (Panic msg)
         | Hang \<Rightarrow> None
         | Ret rest \<Rightarrow>
           (let (tag, n) = Uvarint rest in
            if n \<le> 0 then Some (Ret (Inl (Errorf (''invalid varint at index '' @ Itoa i))))
            else
              let i = int64 (i + n);
                  fieldNum = drop_bit 3 tag;
                  wireType = tag AND 7
              in
              if wireType = 0 then
                (case slice_from token i of
                   Panic msg \<Rightarrow> Some (Panic msg)
                 | Hang \<Rightarrow> None
                 | Ret rest \<Rightarrow>
                   (let (_, n) = Uvarint rest in
                    if n \<le> 0 then Some (Ret (Inl (Errorf ''invalid varint value'')))
                    else token_loop token (int64 (i + n))))
              else if wireType = 1 then token_loop token (int64 (i + 8))
              else if wireType = 2 then
                (case slice_from token i of
                   Panic msg \<Rightarrow> Some (Panic msg)
                 | Hang \<Rightarrow> None
                 | Ret rest \<Rightarrow>
                   (let (len, n) = Uvarint rest in
                    if n \<le> 0 then Some (Ret (Inl (Errorf ''invalid length value'')))
                    else
                      let i = int64 (i + n) in
                      if fieldNum = 2 then
                        (if int64 (i + sint len) > int (length token)
                         then Some (Ret (Inl (Errorf ''length-delimited field extends past end'')))
                         else (case slice token i (int64 (i + sint len)) of
                                 Panic msg \<Rightarrow> Some (Panic msg)
                               | Hang \<Rightarrow> None
                               | Ret bs \<Rightarrow> Some (Ret (Inr (string_of_bytes bs)))))
                      else token_loop token (int64 (i + sint len))))
              else if wireType = 5 then token_loop token (int64 (i + 4))
              else Some (Ret (Inl (Errorf (''unsupported wire type '' @ Itoa (uint wireType)))))))
      else Some (Ret (Inl (Errorf ''workflow_id (field 2) not found in TaskToken''))))"

definition extractWorkflowIDFromTaskToken :: "byte list \<Rightarrow> string result outcome" where
  "extractWorkflowIDFromTaskToken token = (case token_loop token 0 of None \<Rightarrow> Hang | Some r \<Rightarrow> r)"

section \<open>The wire format the token is written in\<close>

text \<open>
  The protobuf encoding, as the reference the walk is compared with: base-128 varints, a tag
  \<open>8 * number + wire type\<close> before each field. All six wire types are there; a group is a message between a start
  and an end tag of its number.
\<close>

fun varint :: "nat \<Rightarrow> byte list" where
  "varint n = (if n < 128 then [of_nat n] else of_nat (n mod 128 + 128) # varint (n div 128))"

declare varint.simps [simp del]

datatype wire_field =
    VarintF nat nat
  | I64F nat "byte list"
  | LenF nat "byte list"
  | GroupF nat "wire_field list"
  | I32F nat "byte list"

fun enc_field :: "wire_field \<Rightarrow> byte list" where
  "enc_field (VarintF num v) = varint (num * 8 + 0) @ varint v"
| "enc_field (I64F num bs) = varint (num * 8 + 1) @ bs"
| "enc_field (LenF num bs) = varint (num * 8 + 2) @ varint (length bs) @ bs"
| "enc_field (GroupF num fs) = varint (num * 8 + 3) @ concat (map enc_field fs) @ varint (num * 8 + 4)"
| "enc_field (I32F num bs) = varint (num * 8 + 5) @ bs"

fun field_ok :: "wire_field \<Rightarrow> bool" where
  "field_ok (VarintF num v) = (num < 2 ^ 61 \<and> v < 2 ^ 64)"
| "field_ok (I64F num bs) = (num < 2 ^ 61 \<and> length bs = 8)"
| "field_ok (LenF num bs) = (num < 2 ^ 61)"
| "field_ok (GroupF num fs) = (num < 2 ^ 61 \<and> list_all field_ok fs)"
| "field_ok (I32F num bs) = (num < 2 ^ 61 \<and> length bs = 4)"

text \<open>The fields at which the walk ends.\<close>

fun stops_walk :: "wire_field \<Rightarrow> bool" where
  "stops_walk (LenF num bs) = (num = 2)"
| "stops_walk (GroupF num fs) = True"
| "stops_walk _ = False"

definition enc_token :: "wire_field list \<Rightarrow> byte list" where
  "enc_token fs = concat (map enc_field fs)"

section \<open>Decoding varints\<close>

lemma or_push_bit_of_nat:
  assumes "acc < 2 ^ s"
  shows "(of_nat acc OR push_bit s (of_nat n) :: u64) = of_nat (acc + n * 2 ^ s)"
proof -
  have "acc AND push_bit s n = 0"
  proof (rule bit_eqI)
    fix k
    have "bit acc k \<Longrightarrow> k < s"
      using assms by (metis bit_take_bit_iff take_bit_nat_eq_self)
    then show "bit (acc AND push_bit s n) k \<longleftrightarrow> bit (0::nat) k"
      by (auto simp: bit_and_iff bit_push_bit_iff)
  qed
  then have "acc + push_bit s n = acc OR push_bit s n" by (rule disjunctive_add_eq_or)
  then have "(of_nat (acc + n * 2 ^ s) :: u64) = of_nat (acc OR push_bit s n)"
    by (simp add: push_bit_eq_mult)
  then show ?thesis by (simp add: of_nat_or_eq push_bit_of_nat)
qed

lemma continuation_byte:
  assumes "m < 128"
  shows "\<not> (of_nat (m + 128) :: byte) < 0x80" "(of_nat (m + 128) :: byte) AND 0x7f = of_nat m"
proof -
  have u: "unat (of_nat (m + 128) :: byte) = m + 128"
    using assms by (simp add: unat_of_nat take_bit_eq_mod del: of_nat_add)
  show "\<not> (of_nat (m + 128) :: byte) < 0x80" unfolding word_less_nat_alt u by simp
  have "(of_nat (m + 128) :: byte) AND mask 7 = of_nat (take_bit 7 (m + 128))"
    by (simp only: take_bit_eq_mask[symmetric] take_bit_of_nat)
  moreover have "take_bit 7 (m + 128) = m" using assms by (simp add: take_bit_eq_mod)
  ultimately show "(of_nat (m + 128) :: byte) AND 0x7f = of_nat m" by (simp add: mask_eq_exp_minus_1)
qed

lemma ucast_byte_of_nat: "m < 256 \<Longrightarrow> (ucast (of_nat m :: byte) :: u64) = of_nat m"
  by (simp add: word_eq_iff_unsigned unat_of_nat take_bit_eq_mod unsigned_ucast_eq unsigned_of_nat)

lemma Uvarint_loop_varint:
  "acc < 2 ^ (7 * i) \<Longrightarrow> i \<le> 9 \<Longrightarrow> n < 2 ^ (64 - 7 * i) \<Longrightarrow>
     Uvarint_loop i (of_nat acc) (7 * i) (varint n @ rest) = (of_nat (acc + n * 2 ^ (7 * i)), int i + int (length (varint n)))"
proof (induction n arbitrary: acc i rule: varint.induct)
  case (1 n)
  show ?case
  proof (cases "n < 128")
    case True
    have b: "(of_nat n :: byte) < 0x80" using True by (simp add: word_less_nat_alt unat_of_nat take_bit_eq_mod)
    have "\<not> (i = 9 \<and> (of_nat n :: byte) > 1)"
      using "1.prems"(3) by (auto simp: word_less_nat_alt unat_of_nat take_bit_eq_mod)
    with b True "1.prems" show ?thesis
      by (subst (1 2) varint.simps) (auto simp: ucast_byte_of_nat or_push_bit_of_nat)
  next
    case False
    have i: "i \<le> 8"
    proof (rule ccontr)
      assume "\<not> i \<le> 8"
      with "1.prems" have "i = 9" by simp
      with "1.prems" False show False by simp
    qed
    let ?acc = "acc + n mod 128 * 2 ^ (7 * i)"
    have m: "n mod 128 < 128" by simp
    have "n mod 128 * 2 ^ (7 * i) \<le> 127 * 2 ^ (7 * i)" using m by (intro mult_right_mono) auto
    moreover have "(2::nat) ^ (7 * Suc i) = 128 * 2 ^ (7 * i)" by (simp add: power_add)
    ultimately have acc: "?acc < 2 ^ (7 * Suc i)" using "1.prems"(1) by linarith
    have e: "(64 - 7 * Suc i) + 7 = 64 - 7 * i" using i by simp
    have "n < 2 ^ ((64 - 7 * Suc i) + 7)" unfolding e by (rule "1.prems"(3))
    then have "n < 2 ^ (64 - 7 * Suc i) * 2 ^ 7" unfolding power_add .
    then have nd: "n div 128 < 2 ^ (64 - 7 * Suc i)" by (simp add: less_mult_imp_div_less)
    have IH: "Uvarint_loop (Suc i) (of_nat ?acc) (7 * Suc i) (varint (n div 128) @ rest) =
        (of_nat (?acc + n div 128 * 2 ^ (7 * Suc i)), int (Suc i) + int (length (varint (n div 128))))"
      using False i acc nd by (intro "1.IH") auto
    have "?acc + n div 128 * 2 ^ (7 * Suc i) = acc + (n mod 128 + 128 * (n div 128)) * 2 ^ (7 * i)"
      unfolding add_mult_distrib by (simp add: power_add)
    then have val: "?acc + n div 128 * 2 ^ (7 * Suc i) = acc + n * 2 ^ (7 * i)" by simp
    have "varint n = of_nat (n mod 128 + 128) # varint (n div 128)"
      using False by (subst varint.simps) simp
    then show ?thesis
      using IH i "1.prems"(1) continuation_byte[OF m] unfolding val
      by (simp add: ucast_byte_of_nat or_push_bit_of_nat add.commute)
  qed
qed

lemma Uvarint_varint:
  "n < 2 ^ 64 \<Longrightarrow> Uvarint (varint n @ rest) = (of_nat n, int (length (varint n)))"
  using Uvarint_loop_varint[of 0 0 n rest] by (simp add: Uvarint_def)

lemma tag_bits:
  assumes "num < 2 ^ 61" "k < 8"
  shows "(of_nat (num * 8 + k) :: u64) AND 7 = of_nat k"
    and "drop_bit 3 (of_nat (num * 8 + k) :: u64) = of_nat num"
proof -
  have "(of_nat (num * 8 + k) :: u64) AND mask 3 = of_nat (take_bit 3 (num * 8 + k))"
    by (simp only: take_bit_eq_mask[symmetric] take_bit_of_nat)
  moreover have "take_bit 3 (num * 8 + k) = k" using assms by (simp add: take_bit_eq_mod)
  ultimately show "(of_nat (num * 8 + k) :: u64) AND 7 = of_nat k" by (simp add: mask_eq_exp_minus_1)
  have "num * 8 + k < 2 ^ 64" using assms by simp
  then have "unat (of_nat (num * 8 + k) :: u64) = num * 8 + k"
    by (simp add: unat_of_nat take_bit_eq_mod del: of_nat_add of_nat_mult)
  moreover have "drop_bit 3 (num * 8 + k) = num" using assms(2) by (simp add: drop_bit_eq_div)
  moreover have "unat (of_nat num :: u64) = num" using assms by (simp add: unat_of_nat take_bit_eq_mod)
  ultimately show "drop_bit 3 (of_nat (num * 8 + k) :: u64) = of_nat num"
    by (metis unat_drop_bit_eq word_unat_eq_iff)
qed

lemma tag_small: "num < 2 ^ 61 \<Longrightarrow> k < 8 \<Longrightarrow> num * 8 + k < (2::nat) ^ 64"
  by simp

lemma of_nat_eq_2: "num < 2 ^ 61 \<Longrightarrow> (of_nat num :: u64) = 2 \<longleftrightarrow> num = 2"
proof -
  assume "num < 2 ^ 61"
  then have "unat (of_nat num :: u64) = num" by (simp add: unat_of_nat take_bit_eq_mod)
  moreover have "unat (2 :: u64) = 2" by simp
  ultimately show ?thesis by (metis of_nat_numeral)
qed

lemma slice_from_append: "slice_from (xs @ ys) (int (length xs)) = Ret ys"
  by (simp add: slice_from_def)

lemma varint_not_Nil [simp]: "varint n \<noteq> []"
  by (subst varint.simps) simp

lemma sint_of_nat_small: "n < 2 ^ 63 \<Longrightarrow> sint (of_nat n :: u64) = int n"
  by (simp add: signed_of_nat signed_take_bit_int_eq_self)

section \<open>One field of a well-formed token\<close>

text \<open>What the walk does once a tag is read: \<open>i\<close> is the index after it.\<close>

definition after_tag :: "byte list \<Rightarrow> int \<Rightarrow> u64 \<Rightarrow> u64 \<Rightarrow> string result outcome option" where
  "after_tag token i fieldNum wireType =
     (if wireType = 0 then
        (case slice_from token i of
           Panic msg \<Rightarrow> Some (Panic msg)
         | Hang \<Rightarrow> None
         | Ret rest \<Rightarrow>
           (let (_, n) = Uvarint rest in
            if n \<le> 0 then Some (Ret (Inl (Errorf ''invalid varint value'')))
            else token_loop token (int64 (i + n))))
      else if wireType = 1 then token_loop token (int64 (i + 8))
      else if wireType = 2 then
        (case slice_from token i of
           Panic msg \<Rightarrow> Some (Panic msg)
         | Hang \<Rightarrow> None
         | Ret rest \<Rightarrow>
           (let (len, n) = Uvarint rest in
            if n \<le> 0 then Some (Ret (Inl (Errorf ''invalid length value'')))
            else
              let i = int64 (i + n) in
              if fieldNum = 2 then
                (if int64 (i + sint len) > int (length token)
                 then Some (Ret (Inl (Errorf ''length-delimited field extends past end'')))
                 else (case slice token i (int64 (i + sint len)) of
                         Panic msg \<Rightarrow> Some (Panic msg)
                       | Hang \<Rightarrow> None
                       | Ret bs \<Rightarrow> Some (Ret (Inr (string_of_bytes bs)))))
              else token_loop token (int64 (i + sint len))))
      else if wireType = 5 then token_loop token (int64 (i + 4))
      else Some (Ret (Inl (Errorf (''unsupported wire type '' @ Itoa (uint wireType))))))"

lemma token_loop_eq:
  "token_loop token i =
     (if i < int (length token) then
        (case slice_from token i of
           Panic msg \<Rightarrow> Some (Panic msg)
         | Hang \<Rightarrow> None
         | Ret rest \<Rightarrow>
           (let (tag, n) = Uvarint rest in
            if n \<le> 0 then Some (Ret (Inl (Errorf (''invalid varint at index '' @ Itoa i))))
            else after_tag token (int64 (i + n)) (drop_bit 3 tag) (tag AND 7)))
      else Some (Ret (Inl (Errorf ''workflow_id (field 2) not found in TaskToken''))))"
  unfolding after_tag_def Let_def by (subst token_loop.simps) (simp only: Let_def)

lemma token_loop_tag:
  assumes "token = pre @ varint (num * 8 + k) @ rest" "length token < 2 ^ 62" "num < 2 ^ 61" "k < 8"
  shows "token_loop token (int (length pre)) =
    after_tag token (int (length (pre @ varint (num * 8 + k)))) (of_nat num) (of_nat k)"
proof -
  let ?t = "varint (num * 8 + k)"
  have "Uvarint (?t @ rest) = (of_nat (num * 8 + k), int (length ?t))"
    by (intro Uvarint_varint tag_small assms)
  moreover have "slice_from token (int (length pre)) = Ret (?t @ rest)"
    unfolding assms(1) by (rule slice_from_append)
  moreover have pos: "0 < length ?t" by simp
  moreover have "int (length pre) < int (length token)" using assms(1) pos by (simp del: length_greater_0_conv)
  moreover have "int64 (int (length pre) + int (length ?t)) = int (length (pre @ ?t))"
    using assms(1,2) by (simp add: int64_id)
  ultimately show ?thesis
    using tag_bits[OF assms(3,4)] by (simp add: token_loop_eq del: of_nat_add of_nat_mult)
qed

lemma token_loop_skip:
  assumes tok: "token = pre @ enc_field f @ post" and len: "length token < 2 ^ 62"
    and f: "field_ok f" "\<not> stops_walk f"
  shows "token_loop token (int (length pre)) = token_loop token (int (length (pre @ enc_field f)))"
proof (cases f)
  case (VarintF num v)
  let ?p = "pre @ varint (num * 8 + 0)"
  have "token_loop token (int (length pre)) = after_tag token (int (length ?p)) (of_nat num) (of_nat 0)"
    using tok f len VarintF by (intro token_loop_tag) auto
  moreover have "slice_from token (int (length ?p)) = Ret (varint v @ post)"
    using tok VarintF slice_from_append[of ?p "varint v @ post"] by simp
  moreover have "Uvarint (varint v @ post) = (of_nat v, int (length (varint v)))"
    using f VarintF by (intro Uvarint_varint) simp
  moreover have "int64 (int (length ?p) + int (length (varint v))) = int (length (pre @ enc_field f))"
    using tok len VarintF by (simp add: int64_id)
  ultimately show ?thesis by (simp add: after_tag_def)
next
  case (I64F num bs)
  let ?p = "pre @ varint (num * 8 + 1)"
  have "token_loop token (int (length pre)) = after_tag token (int (length ?p)) (of_nat num) (of_nat 1)"
    using tok f len I64F by (intro token_loop_tag) auto
  moreover have "int64 (int (length ?p) + 8) = int (length (pre @ enc_field f))"
    using tok f len I64F by (simp add: int64_id)
  ultimately show ?thesis by (simp add: after_tag_def)
next
  case (LenF num bs)
  let ?p = "pre @ varint (num * 8 + 2)"
  have bs: "length bs < 2 ^ 62" using tok len LenF by simp
  have "token_loop token (int (length pre)) = after_tag token (int (length ?p)) (of_nat num) (of_nat 2)"
    using tok f len LenF by (intro token_loop_tag) auto
  moreover have "slice_from token (int (length ?p)) = Ret (varint (length bs) @ bs @ post)"
    using tok LenF slice_from_append[of ?p "varint (length bs) @ bs @ post"] by simp
  moreover have "Uvarint (varint (length bs) @ bs @ post) = (of_nat (length bs), int (length (varint (length bs))))"
    using bs by (intro Uvarint_varint) simp
  moreover have "int64 (int (length ?p) + int (length (varint (length bs)))) = int (length (?p @ varint (length bs)))"
    using tok len LenF by (simp add: int64_id)
  moreover have "int64 (int (length (?p @ varint (length bs))) + int (length bs)) = int (length (pre @ enc_field f))"
    using tok len LenF by (simp add: int64_id)
  moreover have "(of_nat num :: u64) \<noteq> 2" using f LenF of_nat_eq_2 by simp
  ultimately show ?thesis using bs by (simp add: after_tag_def sint_of_nat_small)
next
  case (I32F num bs)
  let ?p = "pre @ varint (num * 8 + 5)"
  have "token_loop token (int (length pre)) = after_tag token (int (length ?p)) (of_nat num) (of_nat 5)"
    using tok f len I32F by (intro token_loop_tag) auto
  moreover have "int64 (int (length ?p) + 4) = int (length (pre @ enc_field f))"
    using tok f len I32F by (simp add: int64_id)
  ultimately show ?thesis by (simp add: after_tag_def)
qed (use f in simp)

lemma token_loop_found:
  assumes tok: "token = pre @ enc_field (LenF 2 bs) @ post" and len: "length token < 2 ^ 62"
  shows "token_loop token (int (length pre)) = Some (Ret (Inr (string_of_bytes bs)))"
proof -
  let ?p = "pre @ varint (2 * 8 + 2)"
  let ?q = "?p @ varint (length bs)"
  have bs: "length bs < 2 ^ 62" using tok len by simp
  have "token_loop token (int (length pre)) = after_tag token (int (length ?p)) (of_nat 2) (of_nat 2)"
    using tok len by (intro token_loop_tag) auto
  moreover have "slice_from token (int (length ?p)) = Ret (varint (length bs) @ bs @ post)"
    using tok slice_from_append[of ?p "varint (length bs) @ bs @ post"] by simp
  moreover have "Uvarint (varint (length bs) @ bs @ post) = (of_nat (length bs), int (length (varint (length bs))))"
    using bs by (intro Uvarint_varint) simp
  moreover have "int64 (int (length ?p) + int (length (varint (length bs)))) = int (length ?q)"
    using tok len by (simp add: int64_id)
  moreover have "int64 (int (length ?q) + int (length bs)) = int (length (?q @ bs))"
    using tok len by (simp add: int64_id)
  moreover have "slice token (int (length ?q)) (int (length (?q @ bs))) = Ret bs"
    using tok by (simp add: slice_def nat_add_distrib)
  moreover have "int (length (?q @ bs)) \<le> int (length token)" using tok by simp
  ultimately show ?thesis using bs by (simp add: after_tag_def sint_of_nat_small)
qed

lemma token_loop_group:
  assumes "token = pre @ enc_field (GroupF num fs) @ post" "length token < 2 ^ 62" "num < 2 ^ 61"
  shows "token_loop token (int (length pre)) = Some (Ret (Inl (Errorf ''unsupported wire type 3'')))"
proof -
  have "token_loop token (int (length pre)) =
      after_tag token (int (length (pre @ varint (num * 8 + 3)))) (of_nat num) (of_nat 3)"
    using assms by (intro token_loop_tag) auto
  moreover have "Itoa (uint (3 :: u64)) = ''3''"
    by code_simp
  ultimately show ?thesis
    by (simp add: after_tag_def)
qed

section \<open>When the walk returns\<close>

text \<open>
  If no varint of the token reads as \<open>2 ^ 62\<close> or more, the index only grows: the walk returns a
  workflow id or an error value and never panics.
\<close>

definition small_varints :: "byte list \<Rightarrow> bool" where
  "small_varints token \<longleftrightarrow>
     (\<forall>j\<le>length token. case Uvarint (drop j token) of (v, n) \<Rightarrow> 0 < n \<longrightarrow> v < 2 ^ 62)"

lemma slice_from_ok: "0 \<le> i \<Longrightarrow> i \<le> int (length xs) \<Longrightarrow> slice_from xs i = Ret (drop (nat i) xs)"
  by (simp add: slice_from_def)

lemma Uvarint_drop_bound:
  assumes "Uvarint (drop (nat i) token) = (v, n)" "0 < n" "0 \<le> i" "i \<le> int (length token)"
  shows "i + n \<le> int (length token)"
  using Uvarint_bound[OF assms(1,2)] assms(3,4) by (simp add: of_nat_diff nat_le_iff)

lemma sint_small: "v < (2 ^ 62 :: u64) \<Longrightarrow> 0 \<le> sint v \<and> sint v < 2 ^ 62"
proof -
  assume v: "v < 2 ^ 62"
  have "unat (2 ^ 62 :: u64) = 2 ^ 62" by simp
  with v have u: "unat v < 2 ^ 62" by (simp add: word_less_nat_alt)
  have "sint v = sint (of_nat (unat v) :: u64)" by simp
  also have "\<dots> = int (unat v)" using u by (intro sint_of_nat_small) simp
  finally show ?thesis using u by (simp del: of_nat_unat add: nat_less_iff flip: of_nat_less_iff)
qed

lemma after_tag_returns:
  assumes "small_varints token" "length token < 2 ^ 62" "0 \<le> j" "j \<le> int (length token)"
    and rec: "\<And>k. j \<le> k \<Longrightarrow> \<exists>r. token_loop token k = Some (Ret r)"
  shows "\<exists>r. after_tag token j fn wt = Some (Ret r)"
proof -
  obtain v n where U: "Uvarint (drop (nat j) token) = (v, n)" by fastforce
  have sl: "slice_from token j = Ret (drop (nat j) token)" using assms by (intro slice_from_ok)
  have n: "j + n \<le> int (length token)" "int64 (j + n) = j + n" if "0 < n"
    using Uvarint_drop_bound[OF U that] assms that by (auto simp: int64_id)
  have v: "0 \<le> sint v" "sint v < 2 ^ 62" if "0 < n"
  proof -
    have "nat j \<le> length token" using assms by simp
    then have "v < 2 ^ 62" using assms(1) U that unfolding small_varints_def by (metis case_prodD)
    then show "0 \<le> sint v" "sint v < 2 ^ 62" using sint_small by auto
  qed
  have i8: "int64 (j + 8) = j + 8" "int64 (j + 4) = j + 4" using assms by (auto simp: int64_id)
  have jv: "int64 (j + n + sint v) = j + n + sint v" if "0 < n"
    using n[OF that] v[OF that] assms that by (intro int64_id) auto
  consider "wt = 0" | "wt = 1" | "wt = 2" "n \<le> 0" | "wt = 2" "0 < n" | "wt = 5" | "wt \<notin> {0, 1, 2, 5}"
    by force
  then show ?thesis
  proof cases
    case 1
    then show ?thesis using U sl n rec[of "j + n"] by (auto simp: after_tag_def)
  next
    case 4
    show ?thesis
    proof (cases "fn = 2 \<and> j + n + sint v \<le> int (length token)")
      case True
      then have "slice token (j + n) (j + n + sint v) = Ret (take (nat (sint v)) (drop (nat (j + n)) token))"
        using v assms n 4 by (simp add: slice_def)
      with True 4 U sl n jv show ?thesis by (simp add: after_tag_def)
    next
      case False
      with 4 U sl n jv v rec[of "j + n + sint v"] show ?thesis by (auto simp: after_tag_def Let_def)
    qed
  qed (use U sl i8 rec[of "j + 8"] rec[of "j + 4"] in \<open>auto simp: after_tag_def\<close>)
qed

lemma token_loop_returns:
  assumes "small_varints token" "length token < 2 ^ 62" "0 \<le> i"
  shows "\<exists>r. token_loop token i = Some (Ret r)"
  using assms(3)
proof (induction "nat (int (length token) - i)" arbitrary: i rule: less_induct)
  case less
  obtain v n where U: "Uvarint (drop (nat i) token) = (v, n)" by fastforce
  show ?case
  proof (cases "i < int (length token) \<and> 0 < n")
    case True
    have b: "i + n \<le> int (length token)" using Uvarint_drop_bound[OF U] True less.prems by simp
    then have e: "int64 (i + n) = i + n" using assms(2) less.prems True by (intro int64_id) auto
    have "\<exists>r. after_tag token (i + n) (drop_bit 3 v) (v AND 7) = Some (Ret r)"
    proof (rule after_tag_returns[OF assms(1,2) _ b])
      fix k assume "i + n \<le> k"
      then show "\<exists>r. token_loop token k = Some (Ret r)" using True less.prems by (intro less.hyps) auto
    qed (use less.prems True in simp)
    then show ?thesis using True U e less.prems by (subst token_loop_eq) (simp add: slice_from_ok)
  next
    case False
    then show ?thesis using U less.prems by (subst token_loop_eq) (auto simp: slice_from_ok)
  qed
qed

section \<open>When it does not\<close>

text \<open>
  A length is an unsigned 64-bit number that the code converts to \<^verbatim>\<open>int\<close>: a large one becomes
  negative and moves the index back. Field 1 with length \<open>2 ^ 64 - 11\<close> brings it back to the
  start.
\<close>

definition looping_token :: "byte list" where
  "looping_token = [0x0A, 0xF5, 0xFF, 0xFF, 0xFF, 0xFF, 0xFF, 0xFF, 0xFF, 0xFF, 0x01]"

lemma looping_token_step:
  "length looping_token = 11" "slice_from looping_token 0 = Ret looping_token"
  "Uvarint looping_token = (10, 1)" "slice_from looping_token 1 = Ret (drop 1 looping_token)"
  "Uvarint (drop (Suc 0) looping_token) = (0xFFFFFFFFFFFFFFF5, 10)"
  by (simp_all add: looping_token_def slice_from_def Uvarint_def)

text \<open>Field 2 with length \<open>2 ^ 64 - 1\<close> passes the length check and slices with its end before its start.\<close>

definition panicking_token :: "byte list" where
  "panicking_token = [0x12, 0xFF, 0xFF, 0xFF, 0xFF, 0xFF, 0xFF, 0xFF, 0xFF, 0xFF, 0x01]"

lemma looping_token_back: "int64 (11 + sint (0xFFFFFFFFFFFFFFF5 :: u64)) = 0"
  by (simp add: int64_def)

lemma token_loop_diverges:
  assumes "token_loop token i = Some y"
  shows "token \<noteq> looping_token \<or> i \<noteq> 0"
  using assms
  apply (rule token_loop.raw_induct[where P = "\<lambda>token i y. token \<noteq> looping_token \<or> i \<noteq> 0", rotated])
  subgoal premises body for f token i y
  proof (rule ccontr)
    assume "\<not> (token \<noteq> looping_token \<or> i \<noteq> 0)"
    then have [simp]: "token = looping_token" "i = 0" by auto
    have "f looping_token 0 = Some y"
      using body(2) looping_token_back by (simp add: looping_token_step int64_id Let_def)
    then show False using body(1) by blast
  qed
  done

lemma looping_token_hangs: "extractWorkflowIDFromTaskToken looping_token = Hang"
  using token_loop_diverges[of looping_token 0] by (auto simp: extractWorkflowIDFromTaskToken_def split: option.splits)

lemma panicking_token_step:
  "length panicking_token = 11" "slice_from panicking_token 0 = Ret panicking_token"
  "Uvarint panicking_token = (18, 1)" "slice_from panicking_token 1 = Ret (drop 1 panicking_token)"
  "Uvarint (drop (Suc 0) panicking_token) = (0xFFFFFFFFFFFFFFFF, 10)"
  by (simp_all add: panicking_token_def slice_from_def Uvarint_def)

lemma panicking_token_panics:
  "extractWorkflowIDFromTaskToken panicking_token = Panic ''slice bounds out of range''"
  unfolding extractWorkflowIDFromTaskToken_def
  by (subst token_loop.simps) (simp add: panicking_token_step int64_id Let_def slice_def)

section \<open>Properties\<close>

lemma varint_small: "n < 128 \<Longrightarrow> varint n = [of_nat n]"
  by (subst varint.simps) simp

text \<open>What a reader of the fields, one after the other, finds.\<close>

fun read_workflow_id :: "wire_field list \<Rightarrow> string result" where
  "read_workflow_id [] = Inl (Errorf ''workflow_id (field 2) not found in TaskToken'')"
| "read_workflow_id (LenF num bs # fs) = (if num = 2 then Inr (string_of_bytes bs) else read_workflow_id fs)"
| "read_workflow_id (GroupF num gs # fs) = Inl (Errorf ''unsupported wire type 3'')"
| "read_workflow_id (_ # fs) = read_workflow_id fs"

lemma read_workflow_id_skip: "\<not> stops_walk f \<Longrightarrow> read_workflow_id (f # fs) = read_workflow_id fs"
  by (cases f) auto

lemma token_loop_reads:
  assumes "\<forall>f\<in>set fs. field_ok f" "token = pre @ enc_token fs" "length token < 2 ^ 62"
  shows "token_loop token (int (length pre)) = Some (Ret (read_workflow_id fs))"
  using assms
proof (induction fs arbitrary: pre)
  case Nil
  then show ?case
    by (subst token_loop_eq) (simp add: enc_token_def)
next
  case (Cons f fs)
  have tok: "token = pre @ enc_field f @ enc_token fs"
    using Cons.prems by (simp add: enc_token_def)
  show ?case
  proof (cases "stops_walk f")
    case True
    then consider bs where "f = LenF 2 bs" | num gs where "f = GroupF num gs"
      by (cases f) auto
    then show ?thesis
    proof cases
      case 1
      then show ?thesis
        using token_loop_found tok Cons.prems(3) by simp
    next
      case 2
      then show ?thesis
        using token_loop_group[of token pre num gs] tok Cons.prems by simp
    qed
  next
    case False
    have "token_loop token (int (length pre)) = token_loop token (int (length (pre @ enc_field f)))"
      using Cons.prems False by (intro token_loop_skip[OF tok]) simp_all
    also have "\<dots> = Some (Ret (read_workflow_id fs))"
      using Cons.prems tok by (intro Cons.IH) simp_all
    finally show ?thesis
      using read_workflow_id_skip[OF False] by simp
  qed
qed

text \<open>
  C27: On every protobuf message, written with fields of any of the six wire types in any order, the walk over the task token
  returns the first length-delimited field 2 that no group precedes. When a group comes first it returns the error for
  the wire type 3, which it does not support, although such a message is well-formed; when there is neither, the not-found error.
\<close>

theorem task_token_roundtrip:
  assumes "\<forall>f\<in>set fs. field_ok f" "length (enc_token fs) < 2 ^ 62"
  shows "extractWorkflowIDFromTaskToken (enc_token fs) = Ret (read_workflow_id fs)"
  using token_loop_reads[OF assms(1), of "enc_token fs" "[]"] assms(2) by (simp add: extractWorkflowIDFromTaskToken_def)

theorem task_token_roundtrip_witness:
  "extractWorkflowIDFromTaskToken (enc_token [LenF 1 [7], VarintF 3 300, LenF 2 (bytes_of_string ''wf''), I32F 4 [1, 2, 3, 4]]) =
     Ret (Inr ''wf'')"
proof -
  let ?fs = "[LenF 1 [7], VarintF 3 300, LenF 2 (bytes_of_string ''wf''), I32F 4 [1, 2, 3, 4]]"
  have "length (enc_token ?fs) < 2 ^ 62"
    unfolding enc_token_def using varint_small varint.simps[of 300] by simp
  then show ?thesis using task_token_roundtrip[of ?fs] by simp
qed

text \<open>
  C28: The walk ends: on every token, well-formed or not, in which no varint reads as \<open>2 ^ 62\<close> or
  more, \<open>extractWorkflowIDFromTaskToken\<close> returns a workflow id or an error value; it neither loops
  nor panics.
\<close>

theorem task_token_walk_returns:
  assumes "small_varints token" "length token < 2 ^ 62"
  shows "\<exists>r. extractWorkflowIDFromTaskToken token = Ret r"
  using token_loop_returns[OF assms, of 0] by (auto simp: extractWorkflowIDFromTaskToken_def)

theorem task_token_walk_returns_witness: "\<exists>r. extractWorkflowIDFromTaskToken [0x12, 0x05, 0x61] = Ret r"
proof (rule task_token_walk_returns)
  have small: "\<forall>j\<in>{0, 1, 2, 3 :: nat}. case Uvarint (drop j [0x12, 0x05, 0x61]) of (v, n) \<Rightarrow> 0 < n \<longrightarrow> v < 2 ^ 62"
    by (simp add: Uvarint_def)
  show "small_varints [0x12, 0x05, 0x61]"
    unfolding small_varints_def
  proof (intro allI impI)
    fix j :: nat assume "j \<le> length [0x12, 0x05, 0x61 :: byte]"
    then have "j \<in> {0, 1, 2, 3}" by auto
    then show "case Uvarint (drop j [0x12, 0x05, 0x61]) of (v, n) \<Rightarrow> 0 < n \<longrightarrow> v < 2 ^ 62"
      by (rule bspec[OF small])
  qed
qed simp

text \<open>
  C29: Two eleven-byte tokens on which the walk does not return: a length above \<open>2 ^ 63\<close> becomes
  negative as an int, so the first token moves the index back to its start for ever, and the
  second passes the length check and slices out of bounds.
\<close>

theorem task_token_walk_fails:
  "extractWorkflowIDFromTaskToken looping_token = Hang \<and>
   extractWorkflowIDFromTaskToken panicking_token = Panic ''slice bounds out of range''"
  using looping_token_hangs panicking_token_panics by simp

end
