(* ===== verification/Proxy.thy ===== *)
theory Proxy
  imports ConnPark TaskToken
begin

text \<open>
  \<^verbatim>\<open>proxy.go\<close>: one handler per RPC, which resolves the workflow to a physical namespace, rewrites the
  message and the target host and re-encodes the body; the dispatch on the path; the writing of
  poll responses; the reverse proxy's director. The handlers mutate the request in place, so
  each returns it next to its result.
\<close>

section \<open>Handlers\<close>

text \<open>What a handler leaves: its result, the request, the resolver.\<close>

type_synonym 'w handled = "byte list result outcome \<times> http_request \<times> 'w Resolver"

text \<open>
  The common end of the handlers: the request goes to the cluster of \<open>physNs\<close>, and the message,
  with its namespace replaced, is framed anew. The host is set before the message is marshalled.
\<close>

definition forward_to ::
    "string \<Rightarrow> (string \<Rightarrow> byte list result) \<Rightarrow> string \<Rightarrow> http_request \<Rightarrow> 'w Resolver \<Rightarrow> 'w handled" where
  "forward_to physNs marshal_with what r res =
     (case parsePhysicalNamespace physNs of
        Panic msg \<Rightarrow> (Panic msg, r, res)
      | Hang \<Rightarrow> (Hang, r, res)
      | Ret ns \<Rightarrow>
          (let r = r\<lparr>url_host := ns_address ns, req_host := ns_address ns\<rparr> in
           case marshal_with (ns_name ns) of
             Inl err \<Rightarrow> (Ret (Inl (Wrap (''failed to marshal updated '' @ what) err)), r, res)
           | Inr newPbPayload \<Rightarrow>
               (let (newBody, r) = encodeGRPCPayload newPbPayload r in (Ret (Inr newBody), r, res))))"

definition handleStartWorkflowExecution ::
    "externals \<Rightarrow> http_request \<Rightarrow> byte list \<Rightarrow> VirtualNamespaceRegistry \<Rightarrow> 'w Resolver \<Rightarrow> 'w handled" where
  "handleStartWorkflowExecution ext r bodyBytes registry res =
     (case extractPayload (ext_gunzip ext) bodyBytes of
        Inl err \<Rightarrow> (Ret (Inl err), r, res)
      | Inr (pbPayload, _) \<Rightarrow>
        (case Unmarshal (c_start ext) pbPayload of
           Inl err \<Rightarrow> (Ret (Inl (Wrap ''failed to unmarshal StartWorkflowExecutionRequest'' err)), r, res)
         | Inr req \<Rightarrow>
           (let payload = \<lparr>WorkflowID = start_WorkflowId req, VirtualNamespaceName = start_Namespace req\<rparr>;
                ((physNs, _), res) = Resolver_Resolve (ext_sum32 ext) payload registry res
            in forward_to physNs (\<lambda>n. Marshal (c_start ext) (req\<lparr>start_Namespace := n\<rparr>))
                 ''StartWorkflowExecutionRequest'' r res)))"

fun delete_completed :: "CommandType list \<Rightarrow> string \<Rightarrow> 'w Resolver \<Rightarrow> 'w Resolver" where
  "delete_completed [] workflowID res = res"
| "delete_completed (command # commands) workflowID res =
     delete_completed commands workflowID
       (if command = COMMAND_TYPE_COMPLETE_WORKFLOW_EXECUTION
        then res\<lparr>Cache := Mappings_Delete workflowID (Cache res)\<rparr> else res)"

text \<open>The workflow id of a token, or \<open>fallback\<close> when there is none.\<close>

definition token_id :: "byte list \<Rightarrow> string \<Rightarrow> string outcome" where
  "token_id taskToken fallback =
     and_then (extractWorkflowIDFromTaskToken taskToken) (\<lambda>x.
       Ret (case x of Inl err \<Rightarrow> fallback | Inr workflowID \<Rightarrow> if workflowID = '''' then fallback else workflowID))"

definition handleRespondWorkflowTaskCompleted ::
    "externals \<Rightarrow> http_request \<Rightarrow> byte list \<Rightarrow> VirtualNamespaceRegistry \<Rightarrow> 'w Resolver \<Rightarrow> 'w handled" where
  "handleRespondWorkflowTaskCompleted ext r bodyBytes registry res =
     (case extractPayload (ext_gunzip ext) bodyBytes of
        Inl err \<Rightarrow> (Ret (Inl err), r, res)
      | Inr (pbPayload, _) \<Rightarrow>
        (case Unmarshal (c_rwt ext) pbPayload of
           Inl err \<Rightarrow> (Ret (Inl (Wrap ''failed to unmarshal RespondWorkflowTaskCompletedRequest'' err)), r, res)
         | Inr req \<Rightarrow>
           (case token_id (rwt_TaskToken req) (rwt_ResourceId req) of
              Panic msg \<Rightarrow> (Panic msg, r, res)
            | Hang \<Rightarrow> (Hang, r, res)
            | Ret workflowID \<Rightarrow>
              (let payload = \<lparr>WorkflowID = workflowID, VirtualNamespaceName = rwt_Namespace req\<rparr>;
                   ((physNs, _), res) = Resolver_Resolve (ext_sum32 ext) payload registry res;
                   res = delete_completed (rwt_Commands req) workflowID res
               in forward_to physNs (\<lambda>n. Marshal (c_rwt ext) (req\<lparr>rwt_Namespace := n\<rparr>))
                    ''RespondWorkflowTaskCompletedRequest'' r res))))"

definition handleRespondActivityTaskCompleted ::
    "externals \<Rightarrow> http_request \<Rightarrow> byte list \<Rightarrow> VirtualNamespaceRegistry \<Rightarrow> 'w Resolver \<Rightarrow> 'w handled" where
  "handleRespondActivityTaskCompleted ext r bodyBytes registry res =
     (case extractPayload (ext_gunzip ext) bodyBytes of
        Inl err \<Rightarrow> (Ret (Inl err), r, res)
      | Inr (pbPayload, _) \<Rightarrow>
        (case Unmarshal (c_rat ext) pbPayload of
           Inl err \<Rightarrow> (Ret (Inl (Wrap ''failed to unmarshal RespondActivityTaskCompletedRequest'' err)), r, res)
         | Inr req \<Rightarrow>
           (case token_id (rat_TaskToken req) (rat_ResourceId req) of
              Panic msg \<Rightarrow> (Panic msg, r, res)
            | Hang \<Rightarrow> (Hang, r, res)
            | Ret workflowID \<Rightarrow>
              (let payload = \<lparr>WorkflowID = workflowID, VirtualNamespaceName = rat_Namespace req\<rparr>;
                   ((physNs, _), res) = Resolver_Resolve (ext_sum32 ext) payload registry res
               in forward_to physNs (\<lambda>n. Marshal (c_rat ext) (req\<lparr>rat_Namespace := n\<rparr>))
                    ''RespondActivityTaskCompletedRequest'' r res))))"

text \<open>The error texts of the cancel handler name another request.\<close>

definition handleCancelWorkflow ::
    "externals \<Rightarrow> http_request \<Rightarrow> byte list \<Rightarrow> VirtualNamespaceRegistry \<Rightarrow> 'w Resolver \<Rightarrow> 'w handled" where
  "handleCancelWorkflow ext r bodyBytes registry res =
     (case extractPayload (ext_gunzip ext) bodyBytes of
        Inl err \<Rightarrow> (Ret (Inl err), r, res)
      | Inr (pbPayload, _) \<Rightarrow>
        (case Unmarshal (c_cancel ext) pbPayload of
           Inl err \<Rightarrow> (Ret (Inl (Wrap ''failed to unmarshal RespondActivityTaskCompletedRequest'' err)), r, res)
         | Inr req \<Rightarrow>
           (let workflowID = GetWorkflowId (cancel_WorkflowExecution req);
                payload = \<lparr>WorkflowID = workflowID, VirtualNamespaceName = cancel_Namespace req\<rparr>;
                ((physNs, _), res) = Resolver_Resolve (ext_sum32 ext) payload registry res
            in forward_to physNs (\<lambda>n. Marshal (c_cancel ext) (req\<lparr>cancel_Namespace := n\<rparr>))
                 ''RespondActivityTaskCompletedRequest'' r res)))"

definition handleSignalWorkflow ::
    "externals \<Rightarrow> http_request \<Rightarrow> byte list \<Rightarrow> VirtualNamespaceRegistry \<Rightarrow> 'w Resolver \<Rightarrow> 'w handled" where
  "handleSignalWorkflow ext r bodyBytes registry res =
     (case extractPayload (ext_gunzip ext) bodyBytes of
        Inl err \<Rightarrow> (Ret (Inl err), r, res)
      | Inr (pbPayload, _) \<Rightarrow>
        (case Unmarshal (c_signal ext) pbPayload of
           Inl err \<Rightarrow> (Ret (Inl (Wrap ''failed to unmarshal SignalWorkflowExecutionRequest'' err)), r, res)
         | Inr req \<Rightarrow>
           (let workflowID = GetWorkflowId (signal_WorkflowExecution req);
                payload = \<lparr>WorkflowID = workflowID, VirtualNamespaceName = signal_Namespace req\<rparr>;
                ((physNs, _), res) = Resolver_Resolve (ext_sum32 ext) payload registry res
            in forward_to physNs (\<lambda>n. Marshal (c_signal ext) (req\<lparr>signal_Namespace := n\<rparr>))
                 ''SignalWorkflowExecutionRequest'' r res)))"

definition handleQueryWorkflow ::
    "externals \<Rightarrow> http_request \<Rightarrow> byte list \<Rightarrow> VirtualNamespaceRegistry \<Rightarrow> 'w Resolver \<Rightarrow> 'w handled" where
  "handleQueryWorkflow ext r bodyBytes registry res =
     (case extractPayload (ext_gunzip ext) bodyBytes of
        Inl err \<Rightarrow> (Ret (Inl err), r, res)
      | Inr (pbPayload, _) \<Rightarrow>
        (case Unmarshal (c_query ext) pbPayload of
           Inl err \<Rightarrow> (Ret (Inl (Wrap ''failed to unmarshal QueryWorkflowRequest'' err)), r, res)
         | Inr req \<Rightarrow>
           (let workflowID = GetWorkflowId (query_Execution req);
                payload = \<lparr>WorkflowID = workflowID, VirtualNamespaceName = query_Namespace req\<rparr>;
                ((physNs, _), res) = Resolver_Resolve (ext_sum32 ext) payload registry res
            in forward_to physNs (\<lambda>n. Marshal (c_query ext) (req\<lparr>query_Namespace := n\<rparr>))
                 ''QueryWorkflowRequest'' r res)))"

text \<open>Without a workflow id in the token this handler goes on with the empty id.\<close>

definition handleRespondQueryTaskCompleted ::
    "externals \<Rightarrow> http_request \<Rightarrow> byte list \<Rightarrow> VirtualNamespaceRegistry \<Rightarrow> 'w Resolver \<Rightarrow> 'w handled" where
  "handleRespondQueryTaskCompleted ext r bodyBytes registry res =
     (case extractPayload (ext_gunzip ext) bodyBytes of
        Inl err \<Rightarrow> (Ret (Inl err), r, res)
      | Inr (pbPayload, _) \<Rightarrow>
        (case Unmarshal (c_rqt ext) pbPayload of
           Inl err \<Rightarrow> (Ret (Inl (Wrap ''failed to unmarshal RespondQueryTaskCompletedRequest'' err)), r, res)
         | Inr req \<Rightarrow>
           (case token_id (rqt_TaskToken req) '''' of
              Panic msg \<Rightarrow> (Panic msg, r, res)
            | Hang \<Rightarrow> (Hang, r, res)
            | Ret workflowID \<Rightarrow>
              (let payload = \<lparr>WorkflowID = workflowID, VirtualNamespaceName = rqt_Namespace req\<rparr>;
                   ((physNs, _), res) = Resolver_Resolve (ext_sum32 ext) payload registry res
               in forward_to physNs (\<lambda>n. Marshal (c_rqt ext) (req\<lparr>rqt_Namespace := n\<rparr>))
                    ''RespondQueryTaskCompletedReqeust'' r res))))"

definition handleGetWorkflowExecutionHistory ::
    "externals \<Rightarrow> http_request \<Rightarrow> byte list \<Rightarrow> VirtualNamespaceRegistry \<Rightarrow> 'w Resolver \<Rightarrow> 'w handled" where
  "handleGetWorkflowExecutionHistory ext r bodyBytes registry res =
     (case extractPayload (ext_gunzip ext) bodyBytes of
        Inl err \<Rightarrow> (Ret (Inl err), r, res)
      | Inr (pbPayload, _) \<Rightarrow>
        (case Unmarshal (c_hist ext) pbPayload of
           Inl err \<Rightarrow> (Ret (Inl (Wrap ''failed to unmarshal GetWorkflowExecutionHistoryRequest'' err)), r, res)
         | Inr req \<Rightarrow>
           (let workflowID = GetWorkflowId (hist_Execution req);
                payload = \<lparr>WorkflowID = workflowID, VirtualNamespaceName = hist_Namespace req\<rparr>;
                ((physNs, _), res) = Resolver_Resolve (ext_sum32 ext) payload registry res
            in forward_to physNs (\<lambda>n. Marshal (c_hist ext) (req\<lparr>hist_Namespace := n\<rparr>))
                 ''GetWorkflowExecutionHistoryRequest'' r res)))"

section \<open>Writing a response\<close>

definition TrailerPrefix :: string where
  "TrailerPrefix = ''Trailer:''"

fun header_add :: "string \<Rightarrow> string list \<Rightarrow> header \<Rightarrow> header" where
  "header_add k [] h = h"
| "header_add k (vv # v) h = header_add k v (h(k \<mapsto> (case h k of None \<Rightarrow> [] | Some vs \<Rightarrow> vs) @ [vv]))"

fun add_trailers :: "header \<Rightarrow> string list \<Rightarrow> header \<Rightarrow> header" where
  "add_trailers trailer [] h = h"
| "add_trailers trailer (k # ks) h =
     add_trailers trailer ks (case trailer k of None \<Rightarrow> h | Some v \<Rightarrow> header_add (TrailerPrefix @ k) v h)"

text \<open>\<open>tkeys\<close> and \<open>tkeys'\<close> are the orders of the two ranges over the trailer map.\<close>

definition writeProxyResponse :: "string list \<Rightarrow> string list \<Rightarrow> http_response \<Rightarrow> writer \<Rightarrow> writer" where
  "writeProxyResponse tkeys tkeys' resp w =
     (let w = w\<lparr>w_header := w_header w ++ resp_Header resp\<rparr>;
          w = (if tkeys \<noteq> [] then w\<lparr>w_header := (w_header w)(''Trailer'' \<mapsto> [Join tkeys '',''])\<rparr> else w);
          w = WriteHeader (StatusCode resp) w;
          w = w\<lparr>w_body := w_body w @ (case resp_Body resp of Inr bs \<Rightarrow> bs | Inl _ \<Rightarrow> [])\<rparr>
      in w\<lparr>w_header := add_trailers (resp_Trailer resp) tkeys' (w_header w)\<rparr>)"

section \<open>The server\<close>

text \<open>
  The choices a run makes: the order of a range over the status table of a virtual namespace,
  the order in which poll answers arrive, and the orders of the ranges over a trailer map.
\<close>

record choices =
  ch_keys :: "string list"
  ch_arrival :: "string list \<Rightarrow> string list"
  ch_trailers :: "header \<Rightarrow> string list"
  ch_trailers' :: "header \<Rightarrow> string list"

datatype served = Forwarded http_request | Replied writer

definition servePollWorkflowTaskQueue ::
    "externals \<Rightarrow> transport \<Rightarrow> choices \<Rightarrow> VirtualNamespaceRegistry \<Rightarrow> http_request \<Rightarrow> writer
     \<Rightarrow> 'w Resolver \<Rightarrow> writer outcome \<times> 'w Resolver" where
  "servePollWorkflowTaskQueue ext transport ch registry r w res =
     (case req_body r of
        Inl err \<Rightarrow> (Ret (http_Error ''Error reading request body'' 500 w), res)
      | Inr bodyBytes \<Rightarrow>
        (case ExecutePoll ext transport (ch_keys ch) (ch_arrival ch) r bodyBytes registry res of
           (Panic msg, res) \<Rightarrow> (Panic msg, res)
         | (Hang, res) \<Rightarrow> (Hang, res)
         | (Ret (Inl err), res) \<Rightarrow> (Ret (http_Error (error_text err) 500 w), res)
         | (Ret (Inr resp), res) \<Rightarrow>
             (Ret (writeProxyResponse (ch_trailers ch (resp_Trailer resp)) (ch_trailers' ch (resp_Trailer resp)) resp w),
              res)))"

definition servePollActivityTaskQueue ::
    "externals \<Rightarrow> transport \<Rightarrow> choices \<Rightarrow> VirtualNamespaceRegistry \<Rightarrow> http_request \<Rightarrow> writer
     \<Rightarrow> 'w Resolver \<Rightarrow> writer outcome \<times> 'w Resolver" where
  "servePollActivityTaskQueue ext transport ch registry r w res =
     (case req_body r of
        Inl err \<Rightarrow> (Ret (http_Error ''Error reading request body'' 500 w), res)
      | Inr bodyBytes \<Rightarrow>
        (case ExecutePollActivity ext transport (ch_keys ch) (ch_arrival ch) r bodyBytes registry res of
           (Panic msg, res) \<Rightarrow> (Panic msg, res)
         | (Hang, res) \<Rightarrow> (Hang, res)
         | (Ret (Inl err), res) \<Rightarrow> (Ret (http_Error (error_text err) 500 w), res)
         | (Ret (Inr resp), res) \<Rightarrow>
             (Ret (writeProxyResponse (ch_trailers ch (resp_Trailer resp)) (ch_trailers' ch (resp_Trailer resp)) resp w),
              res)))"

subsection \<open>Dispatch\<close>

datatype rpc = StartWorkflowExecution | PollWorkflowTaskQueue | PollActivityTaskQueue
  | RespondWorkflowTaskCompleted | RespondActivityTaskCompleted | CancelWorkflowExecution
  | GetWorkflowExecutionHistory | SignalWorkflowExecution | QueryWorkflow | RespondQueryTaskCompleted

definition dispatch :: "string \<Rightarrow> rpc option" where
  "dispatch path =
     (if Contains path ''StartWorkflowExecution'' then Some StartWorkflowExecution
      else if Contains path ''PollWorkflowTaskQueue'' then Some PollWorkflowTaskQueue
      else if Contains path ''PollActivityTaskQueue'' then Some PollActivityTaskQueue
      else if Contains path ''RespondWorkflowTaskCompleted'' then Some RespondWorkflowTaskCompleted
      else if Contains path ''RespondActivityTaskCompleted'' then Some RespondActivityTaskCompleted
      else if Contains path ''CancelWorkflowExecution'' then Some CancelWorkflowExecution
      else if Contains path ''GetWorkflowExecutionHistory'' then Some GetWorkflowExecutionHistory
      else if Contains path ''SignalWorkflowExecution'' then Some SignalWorkflowExecution
      else if Contains path ''QueryWorkflow'' then Some QueryWorkflow
      else if Contains path ''RespondQueryTaskCompleted'' then Some RespondQueryTaskCompleted
      else None)"

text \<open>The director of the reverse proxy: a request without a target goes to the default one.\<close>

definition Director :: "string \<Rightarrow> http_request \<Rightarrow> http_request" where
  "Director defaultHost req =
     (let req = req\<lparr>url_scheme := ''http''\<rparr> in
      if url_host req = '''' then req\<lparr>url_host := defaultHost, req_host := defaultHost\<rparr> else req)"

text \<open>
  One branch of the handler: read the body, let \<open>handle\<close> rewrite it, and fall back to the bytes
  that were read when it reports an error. A body that could not be read to its end has been drained: the request goes on
  with what is left of it.
\<close>

definition rewrite_body ::
    "(http_request \<Rightarrow> byte list \<Rightarrow> 'w Resolver \<Rightarrow> 'w handled) \<Rightarrow> http_request \<Rightarrow> 'w Resolver
     \<Rightarrow> http_request outcome \<times> 'w Resolver" where
  "rewrite_body handle r res =
     (case req_body r of
        Inl (_, err) \<Rightarrow> (Ret (r\<lparr>req_body := Inl ([], err)\<rparr>), res)
      | Inr bodyBytes \<Rightarrow>
        (case handle r bodyBytes res of
           (Panic msg, _, res) \<Rightarrow> (Panic msg, res)
         | (Hang, _, res) \<Rightarrow> (Hang, res)
         | (Ret (Inl err), r, res) \<Rightarrow> (Ret (r\<lparr>req_body := Inr bodyBytes\<rparr>), res)
         | (Ret (Inr newBodyBytes), r, res) \<Rightarrow> (Ret (r\<lparr>req_body := Inr newBodyBytes\<rparr>), res)))"

definition forward ::
    "string \<Rightarrow> http_request outcome \<times> 'w Resolver \<Rightarrow> served outcome \<times> 'w Resolver" where
  "forward defaultHost x =
     (case x of (out, res) \<Rightarrow> (and_then out (\<lambda>r. Ret (Forwarded (Director defaultHost r))), res))"

definition proxy_handler ::
    "externals \<Rightarrow> transport \<Rightarrow> string \<Rightarrow> choices \<Rightarrow> VirtualNamespaceRegistry \<Rightarrow> http_request
     \<Rightarrow> 'w Resolver \<Rightarrow> served outcome \<times> 'w Resolver" where
  "proxy_handler ext transport defaultHost ch registry r res =
     (let forwarded = (\<lambda>handle. forward defaultHost (rewrite_body (\<lambda>r bs. handle ext r bs registry) r res)) in
      case dispatch (url_path r) of
        Some StartWorkflowExecution \<Rightarrow> forwarded handleStartWorkflowExecution
      | Some PollWorkflowTaskQueue \<Rightarrow>
          (case servePollWorkflowTaskQueue ext transport ch registry r new_writer res of
             (out, res) \<Rightarrow> (and_then out (\<lambda>w. Ret (Replied w)), res))
      | Some PollActivityTaskQueue \<Rightarrow>
          (case servePollActivityTaskQueue ext transport ch registry r new_writer res of
             (out, res) \<Rightarrow> (and_then out (\<lambda>w. Ret (Replied w)), res))
      | Some RespondWorkflowTaskCompleted \<Rightarrow> forwarded handleRespondWorkflowTaskCompleted
      | Some RespondActivityTaskCompleted \<Rightarrow> forwarded handleRespondActivityTaskCompleted
      | Some CancelWorkflowExecution \<Rightarrow> forwarded handleCancelWorkflow
      | Some GetWorkflowExecutionHistory \<Rightarrow> forwarded handleGetWorkflowExecutionHistory
      | Some SignalWorkflowExecution \<Rightarrow> forwarded handleSignalWorkflow
      | Some QueryWorkflow \<Rightarrow> forwarded handleQueryWorkflow
      | Some RespondQueryTaskCompleted \<Rightarrow> forwarded handleRespondQueryTaskCompleted
      | None \<Rightarrow> (Ret (Forwarded (Director defaultHost r)), res))"

subsection \<open>Construction\<close>

record 'w StickyProxy =
  sp_listenAddr :: string
  sp_Resolver :: "'w Resolver"
  sp_defaultHost :: string

text \<open>\<open>url_parse\<close> is \<^verbatim>\<open>url.Parse\<close>, of which the proxy uses the host.\<close>

definition NewStickyProxy ::
    "(string \<Rightarrow> string result) \<Rightarrow> (string \<Rightarrow> 'w redis_client \<times> 'w) \<Rightarrow> string \<Rightarrow> string \<Rightarrow> string
     \<Rightarrow> 'w StickyProxy result" where
  "NewStickyProxy url_parse connect listenAddr redisAddr defaultTargetURLStr =
     (case url_parse defaultTargetURLStr of
        Inl err \<Rightarrow> Inl (Wrap ''failed to parse default target URL'' err)
      | Inr defaultTargetHost \<Rightarrow>
          (let mappings = NewMappings connect redisAddr;
               resolver = NewResolver mappings
           in Inr \<lparr>sp_listenAddr = listenAddr, sp_Resolver = resolver, sp_defaultHost = defaultTargetHost\<rparr>))"

text \<open>The HTTP server is a parameter: it listens until it is shut down or fails.\<close>

definition StickyProxy_Start :: "(string \<Rightarrow> go_error) \<Rightarrow> 'w StickyProxy \<Rightarrow> go_error" where
  "StickyProxy_Start ListenAndServe tp = ListenAndServe (sp_listenAddr tp)"

definition StickyProxy_Stop :: "(string \<Rightarrow> 'c \<Rightarrow> go_error option) \<Rightarrow> 'c \<Rightarrow> 'w StickyProxy \<Rightarrow> go_error option" where
  "StickyProxy_Stop Shutdown ctx tp = Shutdown (sp_listenAddr tp) ctx"

section \<open>Dispatch takes the first match\<close>

fun rpc_name :: "rpc \<Rightarrow> string" where
  "rpc_name StartWorkflowExecution = ''StartWorkflowExecution''"
| "rpc_name PollWorkflowTaskQueue = ''PollWorkflowTaskQueue''"
| "rpc_name PollActivityTaskQueue = ''PollActivityTaskQueue''"
| "rpc_name RespondWorkflowTaskCompleted = ''RespondWorkflowTaskCompleted''"
| "rpc_name RespondActivityTaskCompleted = ''RespondActivityTaskCompleted''"
| "rpc_name CancelWorkflowExecution = ''CancelWorkflowExecution''"
| "rpc_name GetWorkflowExecutionHistory = ''GetWorkflowExecutionHistory''"
| "rpc_name SignalWorkflowExecution = ''SignalWorkflowExecution''"
| "rpc_name QueryWorkflow = ''QueryWorkflow''"
| "rpc_name RespondQueryTaskCompleted = ''RespondQueryTaskCompleted''"

text \<open>The RPCs in the order in which the handler tries them.\<close>

fun rpc_rank :: "rpc \<Rightarrow> nat" where
  "rpc_rank StartWorkflowExecution = 0"
| "rpc_rank PollWorkflowTaskQueue = 1"
| "rpc_rank PollActivityTaskQueue = 2"
| "rpc_rank RespondWorkflowTaskCompleted = 3"
| "rpc_rank RespondActivityTaskCompleted = 4"
| "rpc_rank CancelWorkflowExecution = 5"
| "rpc_rank GetWorkflowExecutionHistory = 6"
| "rpc_rank SignalWorkflowExecution = 7"
| "rpc_rank QueryWorkflow = 8"
| "rpc_rank RespondQueryTaskCompleted = 9"

lemma rpc_rank_inj: "rpc_rank a = rpc_rank b \<Longrightarrow> a = b"
  by (cases a; cases b) simp_all

instantiation rpc :: linorder
begin

definition less_eq_rpc :: "rpc \<Rightarrow> rpc \<Rightarrow> bool" where
  "less_eq_rpc a b \<longleftrightarrow> rpc_rank a \<le> rpc_rank b"

definition less_rpc :: "rpc \<Rightarrow> rpc \<Rightarrow> bool" where
  "less_rpc a b \<longleftrightarrow> rpc_rank a < rpc_rank b"

instance
  by standard (auto simp: less_eq_rpc_def less_rpc_def intro: rpc_rank_inj)

end

definition matching :: "string \<Rightarrow> rpc set" where
  "matching path = {m. Contains path (rpc_name m)}"

definition rpcs :: "rpc list" where
  "rpcs = [StartWorkflowExecution, PollWorkflowTaskQueue, PollActivityTaskQueue, RespondWorkflowTaskCompleted,
     RespondActivityTaskCompleted, CancelWorkflowExecution, GetWorkflowExecutionHistory,
     SignalWorkflowExecution, QueryWorkflow, RespondQueryTaskCompleted]"

lemma rpcs_all: "set rpcs = UNIV"
proof -
  have "m \<in> set rpcs" for m by (cases m) (simp_all add: rpcs_def)
  then show ?thesis by blast
qed

lemma rpcs_sorted: "sorted_wrt (<) rpcs"
  by (simp add: rpcs_def less_rpc_def)

lemma dispatch_find: "dispatch path = find (\<lambda>m. Contains path (rpc_name m)) rpcs"
  unfolding dispatch_def rpcs_def by (simp only: find.simps rpc_name.simps)

lemma dispatch_first:
  "dispatch path = Some m \<longleftrightarrow> m \<in> matching path \<and> (\<forall>m'<m. m' \<notin> matching path)"
  unfolding dispatch_find matching_def
  using find_first_sorted[OF rpcs_sorted] by (simp add: rpcs_all)

lemma dispatch_none: "dispatch path = None \<longleftrightarrow> matching path = {}"
  unfolding dispatch_find matching_def by (auto simp: find_None_iff rpcs_all)

section \<open>The contract of the rewriting handlers\<close>

text \<open>The message in a request body, when it can be read.\<close>

definition decode :: "gunzip \<Rightarrow> 'm codec \<Rightarrow> byte list \<Rightarrow> 'm option" where
  "decode gz c bs = (case extractPayload gz bs of Inl _ \<Rightarrow> None
     | Inr (pb, _) \<Rightarrow> (case Unmarshal c pb of Inl _ \<Rightarrow> None | Inr m \<Rightarrow> Some m))"

definition returned :: "'a outcome \<Rightarrow> 'a option" where
  "returned x = (case x of Ret a \<Rightarrow> Some a | _ \<Rightarrow> None)"

text \<open>The workflow a request body is about, under each RPC.\<close>

fun request_payload :: "externals \<Rightarrow> rpc \<Rightarrow> byte list \<Rightarrow> Payload option" where
  "request_payload ext StartWorkflowExecution bs =
     map_option (\<lambda>m. \<lparr>WorkflowID = start_WorkflowId m, VirtualNamespaceName = start_Namespace m\<rparr>)
       (decode (ext_gunzip ext) (c_start ext) bs)"
| "request_payload ext PollWorkflowTaskQueue bs = None"
| "request_payload ext PollActivityTaskQueue bs = None"
| "request_payload ext RespondWorkflowTaskCompleted bs =
     Option.bind (decode (ext_gunzip ext) (c_rwt ext) bs) (\<lambda>m.
       map_option (\<lambda>w. \<lparr>WorkflowID = w, VirtualNamespaceName = rwt_Namespace m\<rparr>)
         (returned (token_id (rwt_TaskToken m) (rwt_ResourceId m))))"
| "request_payload ext RespondActivityTaskCompleted bs =
     Option.bind (decode (ext_gunzip ext) (c_rat ext) bs) (\<lambda>m.
       map_option (\<lambda>w. \<lparr>WorkflowID = w, VirtualNamespaceName = rat_Namespace m\<rparr>)
         (returned (token_id (rat_TaskToken m) (rat_ResourceId m))))"
| "request_payload ext CancelWorkflowExecution bs =
     map_option (\<lambda>m. \<lparr>WorkflowID = GetWorkflowId (cancel_WorkflowExecution m), VirtualNamespaceName = cancel_Namespace m\<rparr>)
       (decode (ext_gunzip ext) (c_cancel ext) bs)"
| "request_payload ext GetWorkflowExecutionHistory bs =
     map_option (\<lambda>m. \<lparr>WorkflowID = GetWorkflowId (hist_Execution m), VirtualNamespaceName = hist_Namespace m\<rparr>)
       (decode (ext_gunzip ext) (c_hist ext) bs)"
| "request_payload ext SignalWorkflowExecution bs =
     map_option (\<lambda>m. \<lparr>WorkflowID = GetWorkflowId (signal_WorkflowExecution m), VirtualNamespaceName = signal_Namespace m\<rparr>)
       (decode (ext_gunzip ext) (c_signal ext) bs)"
| "request_payload ext QueryWorkflow bs =
     map_option (\<lambda>m. \<lparr>WorkflowID = GetWorkflowId (query_Execution m), VirtualNamespaceName = query_Namespace m\<rparr>)
       (decode (ext_gunzip ext) (c_query ext) bs)"
| "request_payload ext RespondQueryTaskCompleted bs =
     Option.bind (decode (ext_gunzip ext) (c_rqt ext) bs) (\<lambda>m.
       map_option (\<lambda>w. \<lparr>WorkflowID = w, VirtualNamespaceName = rqt_Namespace m\<rparr>)
         (returned (token_id (rqt_TaskToken m) '''')))"

text \<open>The same message with another namespace, marshalled.\<close>

fun renamed :: "externals \<Rightarrow> rpc \<Rightarrow> byte list \<Rightarrow> string \<Rightarrow> byte list result" where
  "renamed ext StartWorkflowExecution bs = (\<lambda>n.
     Marshal (c_start ext) ((the (decode (ext_gunzip ext) (c_start ext) bs))\<lparr>start_Namespace := n\<rparr>))"
| "renamed ext PollWorkflowTaskQueue bs = (\<lambda>n. Inr bs)"
| "renamed ext PollActivityTaskQueue bs = (\<lambda>n. Inr bs)"
| "renamed ext RespondWorkflowTaskCompleted bs = (\<lambda>n.
     Marshal (c_rwt ext) ((the (decode (ext_gunzip ext) (c_rwt ext) bs))\<lparr>rwt_Namespace := n\<rparr>))"
| "renamed ext RespondActivityTaskCompleted bs = (\<lambda>n.
     Marshal (c_rat ext) ((the (decode (ext_gunzip ext) (c_rat ext) bs))\<lparr>rat_Namespace := n\<rparr>))"
| "renamed ext CancelWorkflowExecution bs = (\<lambda>n.
     Marshal (c_cancel ext) ((the (decode (ext_gunzip ext) (c_cancel ext) bs))\<lparr>cancel_Namespace := n\<rparr>))"
| "renamed ext GetWorkflowExecutionHistory bs = (\<lambda>n.
     Marshal (c_hist ext) ((the (decode (ext_gunzip ext) (c_hist ext) bs))\<lparr>hist_Namespace := n\<rparr>))"
| "renamed ext SignalWorkflowExecution bs = (\<lambda>n.
     Marshal (c_signal ext) ((the (decode (ext_gunzip ext) (c_signal ext) bs))\<lparr>signal_Namespace := n\<rparr>))"
| "renamed ext QueryWorkflow bs = (\<lambda>n.
     Marshal (c_query ext) ((the (decode (ext_gunzip ext) (c_query ext) bs))\<lparr>query_Namespace := n\<rparr>))"
| "renamed ext RespondQueryTaskCompleted bs = (\<lambda>n.
     Marshal (c_rqt ext) ((the (decode (ext_gunzip ext) (c_rqt ext) bs))\<lparr>rqt_Namespace := n\<rparr>))"

text \<open>Whether a request ends the workflow it is about.\<close>

definition completes :: "externals \<Rightarrow> rpc \<Rightarrow> byte list \<Rightarrow> bool" where
  "completes ext m bs \<longleftrightarrow> m = RespondWorkflowTaskCompleted \<and>
     (case decode (ext_gunzip ext) (c_rwt ext) bs of None \<Rightarrow> False
      | Some req \<Rightarrow> COMMAND_TYPE_COMPLETE_WORKFLOW_EXECUTION \<in> set (rwt_Commands req))"

text \<open>The handler the dispatch calls; polls are answered without one.\<close>

fun rpc_handler :: "externals \<Rightarrow> rpc \<Rightarrow> http_request \<Rightarrow> byte list \<Rightarrow> VirtualNamespaceRegistry \<Rightarrow> 'w Resolver \<Rightarrow> 'w handled" where
  "rpc_handler ext StartWorkflowExecution = handleStartWorkflowExecution ext"
| "rpc_handler ext PollWorkflowTaskQueue = (\<lambda>r bs reg res. (Ret (Inl (Errorf [])), r, res))"
| "rpc_handler ext PollActivityTaskQueue = (\<lambda>r bs reg res. (Ret (Inl (Errorf [])), r, res))"
| "rpc_handler ext RespondWorkflowTaskCompleted = handleRespondWorkflowTaskCompleted ext"
| "rpc_handler ext RespondActivityTaskCompleted = handleRespondActivityTaskCompleted ext"
| "rpc_handler ext CancelWorkflowExecution = handleCancelWorkflow ext"
| "rpc_handler ext GetWorkflowExecutionHistory = handleGetWorkflowExecutionHistory ext"
| "rpc_handler ext SignalWorkflowExecution = handleSignalWorkflow ext"
| "rpc_handler ext QueryWorkflow = handleQueryWorkflow ext"
| "rpc_handler ext RespondQueryTaskCompleted = handleRespondQueryTaskCompleted ext"

definition after_resolve :: "externals \<Rightarrow> rpc \<Rightarrow> byte list \<Rightarrow> string \<Rightarrow> 'w Resolver \<Rightarrow> 'w Resolver" where
  "after_resolve ext m bs w res =
     (if m = RespondWorkflowTaskCompleted
      then delete_completed (rwt_Commands (the (decode (ext_gunzip ext) (c_rwt ext) bs))) w res else res)"

lemmas handler_defs = handleStartWorkflowExecution_def handleRespondWorkflowTaskCompleted_def
  handleRespondActivityTaskCompleted_def handleCancelWorkflow_def handleSignalWorkflow_def handleQueryWorkflow_def
  handleRespondQueryTaskCompleted_def handleGetWorkflowExecutionHistory_def

lemma handler_routed:
  assumes "request_payload ext m bs = Some p"
  shows "\<exists>what. rpc_handler ext m r bs reg res =
    forward_to (fst (fst (Resolver_Resolve (ext_sum32 ext) p reg res))) (renamed ext m bs) what r
      (after_resolve ext m bs (WorkflowID p) (snd (Resolver_Resolve (ext_sum32 ext) p reg res)))"
  using assms
  by (cases m) (auto simp: handler_defs decode_def returned_def after_resolve_def Let_def
      split: sum.splits prod.splits outcome.splits bind_splits)

lemma handler_rejected:
  assumes "request_payload ext m bs = None"
  shows "\<exists>out. rpc_handler ext m r bs reg res = (out, r, res) \<and> (\<forall>b. out \<noteq> Ret (Inr b))"
  using assms
  by (cases m) (auto simp: handler_defs decode_def returned_def Let_def
      split: sum.splits prod.splits outcome.splits bind_splits)

lemma assigned_delete_completed:
  "resolver_ok res \<Longrightarrow> resolver_ok (delete_completed cs w res) \<and> assigned (delete_completed cs w res) =
     (if COMMAND_TYPE_COMPLETE_WORKFLOW_EXECUTION \<in> set cs then (assigned res)(w := None) else assigned res)"
  by (induction cs w res rule: delete_completed.induct)
     (auto simp: resolver_ok_def assigned_def cache.ok_del cache.del_view)

lemma forward_to_Ret:
  assumes "parsePhysicalNamespace physNs = Ret ns"
  shows "\<exists>out r'. forward_to physNs marshal what r res = (Ret out, r', res) \<and>
    url_host r' = ns_address ns \<and> req_host r' = ns_address ns \<and> url_path r' = url_path r \<and>
    (case marshal (ns_name ns) of Inl err \<Rightarrow> \<exists>e. out = Inl e
      | Inr pb \<Rightarrow> out = Inr (frame pb) \<and> ContentLength r' = -1 \<and> req_header r' ''Content-Length'' = None)"
  using assms by (auto simp: forward_to_def encodeGRPCPayload_def Let_def split: sum.splits)

lemma forward_to_state: "snd (snd (forward_to physNs marshal what r res)) = res"
  by (auto simp: forward_to_def encodeGRPCPayload_def Let_def split: outcome.splits sum.splits)

lemma forward_to_panics:
  "parsePhysicalNamespace physNs = Panic msg \<Longrightarrow> forward_to physNs marshal what r res = (Panic msg, r, res)"
  by (simp add: forward_to_def)

text \<open>
  The contract: a body either is not about a workflow, and nothing changes, or it is resolved
  as its payload \<open>p\<close>, forwarded to the result, and then perhaps dropped from the cache.
\<close>

locale routed_handler =
  fixes sum32 :: hash_fun
    and handle :: "http_request \<Rightarrow> byte list \<Rightarrow> VirtualNamespaceRegistry \<Rightarrow> 'w Resolver \<Rightarrow> 'w handled"
    and payload_of :: "byte list \<Rightarrow> Payload option"
    and rename :: "byte list \<Rightarrow> string \<Rightarrow> byte list result"
    and finish :: "byte list \<Rightarrow> string \<Rightarrow> 'w Resolver \<Rightarrow> 'w Resolver"
    and ends :: "byte list \<Rightarrow> bool"
  assumes routed: "payload_of bs = Some p \<Longrightarrow> \<exists>what. handle r bs reg res =
      forward_to (fst (fst (Resolver_Resolve sum32 p reg res))) (rename bs) what r
        (finish bs (WorkflowID p) (snd (Resolver_Resolve sum32 p reg res)))"
    and rejected: "payload_of bs = None \<Longrightarrow>
      \<exists>out. handle r bs reg res = (out, r, res) \<and> (\<forall>b. out \<noteq> Ret (Inr b))"
    and finish_ok: "resolver_ok res \<Longrightarrow> resolver_ok (finish bs w res)"
    and finish_view: "payload_of bs = Some p \<Longrightarrow> resolver_ok res \<Longrightarrow>
      assigned (finish bs w res) = (if ends bs then (assigned res)(w := None) else assigned res)"
begin

lemma handle_state:
  "snd (snd (handle r bs reg res)) =
     (case payload_of bs of None \<Rightarrow> res
      | Some p \<Rightarrow> finish bs (WorkflowID p) (snd (Resolver_Resolve sum32 p reg res)))"
proof (cases "payload_of bs")
  case None
  then show ?thesis using rejected[OF None, of r reg res] by auto
next
  case (Some p)
  then show ?thesis using routed[OF Some, of r reg res] by (auto simp: forward_to_state)
qed

lemma handle_ok: "resolver_ok res \<Longrightarrow> resolver_ok (snd (snd (handle r bs reg res)))"
  by (auto simp: handle_state finish_ok Resolve_ok split: option.splits)

lemma handle_frame:
  assumes "resolver_ok res" "\<forall>p. payload_of bs = Some p \<longrightarrow> WorkflowID p \<noteq> k"
  shows "assigned (snd (snd (handle r bs reg res))) k = assigned res k"
  using assms router.frame[OF assms(1)] finish_view Resolve_ok[OF assms(1)]
  by (auto simp: handle_state split: option.splits)

lemma handle_keeps:
  assumes "resolver_ok res" "assigned res k = Some v" "v \<noteq> ''''"
    "\<forall>p. payload_of bs = Some p \<longrightarrow> WorkflowID p = k \<longrightarrow> \<not> ends bs"
  shows "assigned (snd (snd (handle r bs reg res))) k = Some v"
  using assms router.keeps[OF assms(1-3)] finish_view Resolve_ok[OF assms(1)]
  by (auto simp: handle_state split: option.splits)

lemma handle_ends:
  assumes "resolver_ok res" "payload_of bs = Some p" "ends bs"
  shows "assigned (snd (snd (handle r bs reg res))) (WorkflowID p) = None"
  using assms finish_view Resolve_ok[OF assms(1)] by (simp add: handle_state)

lemma handle_target:
  assumes "payload_of bs = Some p" "fst (fst (Resolver_Resolve sum32 p reg res)) = v"
    "parsePhysicalNamespace v = Ret ns"
  shows "\<exists>out r'. fst (handle r bs reg res) = Ret out \<and> fst (snd (handle r bs reg res)) = r' \<and>
    url_host r' = ns_address ns \<and> req_host r' = ns_address ns \<and> url_path r' = url_path r \<and>
    (case rename bs (ns_name ns) of Inl err \<Rightarrow> \<exists>e. out = Inl e
      | Inr pb \<Rightarrow> out = Inr (frame pb) \<and> ContentLength r' = -1 \<and> req_header r' ''Content-Length'' = None)"
proof -
  obtain what where w: "handle r bs reg res =
      forward_to v (rename bs) what r (finish bs (WorkflowID p) (snd (Resolver_Resolve sum32 p reg res)))"
    using routed[OF assms(1)] assms(2) by blast
  show ?thesis
    using forward_to_Ret[OF assms(3), of "rename bs" what r
        "finish bs (WorkflowID p) (snd (Resolver_Resolve sum32 p reg res))"]
    unfolding w by force
qed

lemma handle_panics:
  assumes "payload_of bs = Some p" "fst (fst (Resolver_Resolve sum32 p reg res)) = v"
    "parsePhysicalNamespace v = Panic msg"
  shows "fst (handle r bs reg res) = Panic msg"
  using routed[OF assms(1), of r reg res] assms(2,3) by (auto simp: forward_to_def)

end

lemma after_resolve_ok: "resolver_ok res \<Longrightarrow> resolver_ok (after_resolve ext m bs w res)"
  by (simp add: after_resolve_def assigned_delete_completed)

lemma after_resolve_view:
  assumes "request_payload ext m bs = Some p" "resolver_ok res"
  shows "assigned (after_resolve ext m bs w res) =
    (if completes ext m bs then (assigned res)(w := None) else assigned res)"
  using assms by (auto simp: after_resolve_def completes_def assigned_delete_completed split: option.splits)

interpretation rpc_h: routed_handler "ext_sum32 ext" "rpc_handler ext m" "request_payload ext m" "renamed ext m"
    "after_resolve ext m" "completes ext m"
  for ext m
  by unfold_locales (fact handler_routed handler_rejected after_resolve_ok after_resolve_view)+

section \<open>Trailers\<close>

lemma header_add_eq:
  "header_add k v h = (if v = [] then h else h(k \<mapsto> (case h k of None \<Rightarrow> [] | Some vs \<Rightarrow> vs) @ v))"
proof (induction v arbitrary: h)
  case (Cons vv v)
  show ?case unfolding header_add.simps Cons.IH by (auto simp: fun_eq_iff)
qed simp

lemma add_trailers_other: "(\<And>k. x \<noteq> TrailerPrefix @ k) \<Longrightarrow> add_trailers tr ks h x = h x"
  by (induction tr ks h rule: add_trailers.induct) (auto simp: header_add_eq split: option.splits)

lemma add_trailers_absent: "k \<notin> set ks \<Longrightarrow> add_trailers tr ks h (TrailerPrefix @ k) = h (TrailerPrefix @ k)"
  by (induction tr ks h rule: add_trailers.induct) (auto simp: header_add_eq split: option.splits)

lemma add_trailers_at:
  "distinct ks \<Longrightarrow> k \<in> set ks \<Longrightarrow> tr k = Some v \<Longrightarrow> v \<noteq> [] \<Longrightarrow>
     add_trailers tr ks h (TrailerPrefix @ k) = Some ((case h (TrailerPrefix @ k) of None \<Rightarrow> [] | Some vs \<Rightarrow> vs) @ v)"
proof (induction tr ks h rule: add_trailers.induct)
  case (2 tr k' ks h)
  show ?case
  proof (cases "k' = k")
    case True
    then show ?thesis using 2 by (simp add: add_trailers_absent header_add_eq)
  next
    case False
    then show ?thesis using 2 by (auto simp: header_add_eq split: option.splits)
  qed
qed simp

lemma TrailerPrefix_differs: "''Trailer'' \<noteq> TrailerPrefix @ k"
  by (simp add: TrailerPrefix_def)

section \<open>Properties\<close>

definition service_path :: "string \<Rightarrow> string" where
  "service_path rpc = ''/temporal.api.workflowservice.v1.WorkflowService/'' @ rpc"

text \<open>
  Each of the ten RPCs is recognised under its path of the Temporal service, and so are four
  others the handlers are not written for: signal-with-start is taken for a start, completion by
  id for a completion by token, the reverse history for the history (and request-cancel, as
  intended, for the cancel). RPCs whose names contain none of the ten are passed through.
\<close>

theorem dispatch_service_paths:
  "dispatch (service_path (rpc_name m)) = Some m \<and>
   dispatch (service_path ''RequestCancelWorkflowExecution'') = Some CancelWorkflowExecution \<and>
   dispatch (service_path ''SignalWithStartWorkflowExecution'') = Some StartWorkflowExecution \<and>
   dispatch (service_path ''RespondActivityTaskCompletedById'') = Some RespondActivityTaskCompleted \<and>
   dispatch (service_path ''GetWorkflowExecutionHistoryReverse'') = Some GetWorkflowExecutionHistory \<and>
   dispatch (service_path ''DescribeWorkflowExecution'') = None \<and>
   dispatch (service_path ''TerminateWorkflowExecution'') = None"
proof -
  have "dispatch (service_path (rpc_name m)) = Some m" by (cases m; simp only:; code_simp)
  moreover have
    "dispatch (service_path ''RequestCancelWorkflowExecution'') = Some CancelWorkflowExecution"
    "dispatch (service_path ''SignalWithStartWorkflowExecution'') = Some StartWorkflowExecution"
    "dispatch (service_path ''RespondActivityTaskCompletedById'') = Some RespondActivityTaskCompleted"
    "dispatch (service_path ''GetWorkflowExecutionHistoryReverse'') = Some GetWorkflowExecutionHistory"
    "dispatch (service_path ''DescribeWorkflowExecution'') = None"
    "dispatch (service_path ''TerminateWorkflowExecution'') = None"
    by code_simp+
  ultimately show ?thesis by blast
qed

text \<open>
  A poll response is written to the client as it came: status, headers and body are those of the
  cluster's response, a \<open>Trailer\<close> header announces the trailers when there are any, and each trailer
  value follows under the trailer prefix; no other header is touched after the status was sent.
\<close>

theorem poll_response_relayed:
  assumes "set tkeys = dom (resp_Trailer resp)" "set tkeys' = dom (resp_Trailer resp)" "distinct tkeys'"
    and "\<forall>k. resp_Header resp (TrailerPrefix @ k) = None" "resp_Body resp = Inr bs"
    and "w = writeProxyResponse tkeys tkeys' resp new_writer"
  shows "w_status w = Some (StatusCode resp) \<and> w_body w = bs \<and>
    w_sent w = (if resp_Trailer resp = Map.empty then resp_Header resp
      else (resp_Header resp)(''Trailer'' \<mapsto> [Join tkeys '','']) ) \<and>
    (\<forall>k v. resp_Trailer resp k = Some v \<longrightarrow> v \<noteq> [] \<longrightarrow> w_header w (TrailerPrefix @ k) = Some v) \<and>
    (\<forall>x. (\<forall>k. x \<noteq> TrailerPrefix @ k) \<longrightarrow> w_header w x = w_sent w x)"
proof -
  have empty: "tkeys = [] \<longleftrightarrow> resp_Trailer resp = Map.empty" using assms(1) by (metis dom_eq_empty_conv set_empty)
  let ?h = "if tkeys \<noteq> [] then (resp_Header resp)(''Trailer'' \<mapsto> [Join tkeys '','']) else resp_Header resp"
  have w: "w_status w = Some (StatusCode resp)" "w_body w = bs" "w_sent w = ?h"
    "w_header w = add_trailers (resp_Trailer resp) tkeys' ?h"
    using assms(5,6) by (auto simp: writeProxyResponse_def WriteHeader_def new_writer_def Let_def)
  have "?h (TrailerPrefix @ k) = None" for k using assms(4) TrailerPrefix_differs[of k] by (auto dest: sym)
  moreover have "k \<in> set tkeys'" if "resp_Trailer resp k = Some v" for k v using that assms(2) by auto
  ultimately have "w_header w (TrailerPrefix @ k) = Some v" if "resp_Trailer resp k = Some v" "v \<noteq> []" for k v
    using that add_trailers_at[OF assms(3)] by (simp add: w(4))
  moreover have "w_header w x = w_sent w x" if "\<forall>k. x \<noteq> TrailerPrefix @ k" for x
    using add_trailers_other[of x] that by (simp add: w)
  ultimately show ?thesis using w empty by simp
qed

theorem poll_response_relayed_witness:
  "w_header (writeProxyResponse [''grpc-status''] [''grpc-status'']
      \<lparr>StatusCode = 200, resp_Header = Map.empty, resp_Trailer = [''grpc-status'' \<mapsto> [''0'']], resp_Body = Inr [1]\<rparr> new_writer)
     ''Trailer:grpc-status'' = Some [''0'']"
  using poll_response_relayed[of "[''grpc-status'']" "\<lparr>StatusCode = 200, resp_Header = Map.empty,
      resp_Trailer = [''grpc-status'' \<mapsto> [''0'']], resp_Body = Inr [1]\<rparr>" "[''grpc-status'']" "[1]", OF _ _ _ _ _ refl]
  by (simp add: TrailerPrefix_def)

end
