(* ===== verification/Admin.thy ===== *)
theory Admin
  imports Namespaces Messages
begin

text \<open>
  The admin API of \<^verbatim>\<open>apis.go\<close>: create and read virtual namespaces, add and remove physical ones.
  JSON decoding and encoding are parameters. A handler that panics leaves the registry as it was
  at the panic; \<^verbatim>\<open>net/http\<close> recovers.
\<close>

section \<open>Handlers\<close>

record CreateVirtualNamespaceRequest =
  create_Name :: string

record ManagePhysicalNamespaceRequest =
  mp_VirtualNamespace :: string
  mp_PhysicalNamespace :: string
  mp_ClusterAddress :: string

text \<open>\<open>ar_name\<close> is \<^verbatim>\<open>r.URL.Query().Get("name")\<close>.\<close>

record admin_request =
  ar_path :: string
  ar_Method :: string
  ar_body :: "byte list"
  ar_name :: string

record json =
  decode_create :: "byte list \<Rightarrow> CreateVirtualNamespaceRequest result"
  decode_manage :: "byte list \<Rightarrow> ManagePhysicalNamespaceRequest result"
  encode_get :: "string \<Rightarrow> (string \<rightharpoonup> NamespaceStatus) \<Rightarrow> byte list"

definition reply :: "int \<Rightarrow> string \<Rightarrow> writer \<Rightarrow> writer" where
  "reply code msg w = (let w = WriteHeader code w in w\<lparr>w_body := w_body w @ bytes_of_string (msg @ [CHR 0x0A])\<rparr>)"

text \<open>
  The create handler takes the registry's lock twice, once to look the name up and once to
  register it: everything before the second time is \<open>create_check\<close>.
\<close>

definition create_check :: "json \<Rightarrow> admin_request \<Rightarrow> VirtualNamespaceRegistry \<Rightarrow> writer \<Rightarrow> writer + string" where
  "create_check js r registry w =
     (if ar_Method r \<noteq> ''POST'' then Inl (http_Error ''Method not allowed'' 405 w)
      else case decode_create js (ar_body r) of
        Inl err \<Rightarrow> Inl (http_Error (error_text err) 400 w)
      | Inr req \<Rightarrow>
          if create_Name req = '''' then Inl (http_Error ''name is required'' 400 w)
          else if Registry_Resolve (create_Name req) registry \<noteq> None
          then Inl (http_Error ''virtual namespace already exists'' 409 w)
          else Inr (create_Name req))"

definition create_register :: "string \<Rightarrow> VirtualNamespaceRegistry \<Rightarrow> writer \<Rightarrow> writer \<times> VirtualNamespaceRegistry" where
  "create_register name registry w =
     (let (vNs, registry) = alloc (NewVirtualNamespace name) registry;
          registry = Registry_Register vNs registry
      in (reply 201 (''Virtual namespace '' @ [CHR 0x27] @ name @ [CHR 0x27] @ '' created successfully'') w, registry))"

definition create_virtual ::
    "json \<Rightarrow> admin_request \<Rightarrow> VirtualNamespaceRegistry \<Rightarrow> writer \<Rightarrow> writer outcome \<times> VirtualNamespaceRegistry" where
  "create_virtual js r registry w =
     (case create_check js r registry w of
        Inl w \<Rightarrow> (Ret w, registry)
      | Inr name \<Rightarrow> (let (w, registry) = create_register name registry w in (Ret w, registry)))"

text \<open>The two handlers for physical namespaces check their input in the same way.\<close>

definition manage_check ::
    "json \<Rightarrow> admin_request \<Rightarrow> VirtualNamespaceRegistry \<Rightarrow> writer
     \<Rightarrow> writer + ManagePhysicalNamespaceRequest \<times> nat" where
  "manage_check js r registry w =
     (if ar_Method r \<noteq> ''POST'' then Inl (http_Error ''Method not allowed'' 405 w)
      else case decode_manage js (ar_body r) of
        Inl err \<Rightarrow> Inl (http_Error (error_text err) 400 w)
      | Inr req \<Rightarrow>
          if mp_VirtualNamespace req = '''' \<or> mp_PhysicalNamespace req = '''' \<or> mp_ClusterAddress req = ''''
          then Inl (http_Error ''virtual_namespace, physical_namespace, and cluster_address are required'' 400 w)
          else case Registry_Resolve (mp_VirtualNamespace req) registry of
            None \<Rightarrow> Inl (http_Error ''virtual namespace not found'' 404 w)
          | Some vNs \<Rightarrow> Inr (req, vNs))"

definition add_physical ::
    "hash_fun \<Rightarrow> json \<Rightarrow> admin_request \<Rightarrow> VirtualNamespaceRegistry \<Rightarrow> writer
     \<Rightarrow> writer outcome \<times> VirtualNamespaceRegistry" where
  "add_physical sum32 js r registry w =
     (case manage_check js r registry w of
        Inl w \<Rightarrow> (Ret w, registry)
      | Inr (req, vNs) \<Rightarrow>
          (let formattedName = buildPhysicalNamespace (mp_PhysicalNamespace req) (mp_ClusterAddress req);
               v = VirtualNamespace_Add sum32 \<lparr>ns_cluster = None, ns_name = formattedName\<rparr> (deref vNs registry);
               registry = update_at vNs v registry
           in (Ret (reply 200 (''Physical namespace '' @ [CHR 0x27] @ mp_PhysicalNamespace req @ [CHR 0x27] @
                 '' added to virtual namespace '' @ [CHR 0x27] @ mp_VirtualNamespace req @ [CHR 0x27]) w), registry)))"

definition remove_physical ::
    "hash_fun \<Rightarrow> json \<Rightarrow> admin_request \<Rightarrow> VirtualNamespaceRegistry \<Rightarrow> writer
     \<Rightarrow> writer outcome \<times> VirtualNamespaceRegistry" where
  "remove_physical sum32 js r registry w =
     (case manage_check js r registry w of
        Inl w \<Rightarrow> (Ret w, registry)
      | Inr (req, vNs) \<Rightarrow>
          (let formattedName = buildPhysicalNamespace (mp_PhysicalNamespace req) (mp_ClusterAddress req);
               (out, v) = VirtualNamespace_Remove sum32 \<lparr>ns_cluster = None, ns_name = formattedName\<rparr> (deref vNs registry);
               registry = update_at vNs v registry
           in (and_then out (\<lambda>_. Ret (reply 200 (''Physical namespace '' @ [CHR 0x27] @ mp_PhysicalNamespace req @
                 [CHR 0x27] @ '' removed from virtual namespace '' @ [CHR 0x27] @ mp_VirtualNamespace req @ [CHR 0x27]) w)),
               registry)))"

definition get_virtual ::
    "json \<Rightarrow> string list \<Rightarrow> admin_request \<Rightarrow> VirtualNamespaceRegistry \<Rightarrow> writer
     \<Rightarrow> writer outcome \<times> VirtualNamespaceRegistry" where
  "get_virtual js keys r registry w =
     (if ar_Method r \<noteq> ''GET'' then (Ret (http_Error ''Method not allowed'' 405 w), registry)
      else if ar_name r = '''' then (Ret (http_Error ''name query parameter is required'' 400 w), registry)
      else case Registry_Resolve (ar_name r) registry of
        None \<Rightarrow> (Ret (http_Error ''virtual namespace not found'' 404 w), registry)
      | Some vNs \<Rightarrow>
          (let namespacesWithStatus = GetAllNamespacesWithStatus keys (deref vNs registry);
               w = w\<lparr>w_header := (w_header w)(''Content-Type'' \<mapsto> [''application/json''])\<rparr>;
               w = WriteHeader 200 w
           in (Ret (w\<lparr>w_body := w_body w @ encode_get js (ar_name r) namespacesWithStatus\<rparr>), registry)))"

text \<open>
  The routes of the admin server. \<open>metrics\<close> is the Prometheus handler; any other path is answered
  with 404 by the multiplexer.
\<close>

definition admin_handler ::
    "hash_fun \<Rightarrow> json \<Rightarrow> (writer \<Rightarrow> writer) \<Rightarrow> string list \<Rightarrow> admin_request \<Rightarrow> VirtualNamespaceRegistry
     \<Rightarrow> writer outcome \<times> VirtualNamespaceRegistry" where
  "admin_handler sum32 js metrics keys r registry =
     (if ar_path r = ''/metrics'' then (Ret (metrics new_writer), registry)
      else if ar_path r = ''/namespace/virtual/create'' then create_virtual js r registry new_writer
      else if ar_path r = ''/namespace/physical/add'' then add_physical sum32 js r registry new_writer
      else if ar_path r = ''/namespace/physical/remove'' then remove_physical sum32 js r registry new_writer
      else if ar_path r = ''/namespace/virtual/get'' then get_virtual js keys r registry new_writer
      else (Ret (http_Error ''404 page not found'' 404 new_writer), registry))"

definition admin_addr :: "int \<Rightarrow> string" where
  "admin_addr port = '':'' @ Itoa port"

section \<open>What a request asks for\<close>

text \<open>
  The specification of the admin API, on the status tables alone: the change a request makes and
  the status code it is answered with.
\<close>

datatype admin_op = Reject int | Create string | AddPhysical string string | RemovePhysical string string
  | Read string | Metrics

fun manage_op :: "(string \<Rightarrow> string \<Rightarrow> admin_op) \<Rightarrow> json \<Rightarrow> admin_request \<Rightarrow> string set \<Rightarrow> admin_op" where
  "manage_op f js r names =
     (if ar_Method r \<noteq> ''POST'' then Reject 405
      else case decode_manage js (ar_body r) of
        Inl _ \<Rightarrow> Reject 400
      | Inr req \<Rightarrow>
          if '''' \<in> {mp_VirtualNamespace req, mp_PhysicalNamespace req, mp_ClusterAddress req} then Reject 400
          else if mp_VirtualNamespace req \<notin> names then Reject 404
          else f (mp_VirtualNamespace req) (buildPhysicalNamespace (mp_PhysicalNamespace req) (mp_ClusterAddress req)))"

definition admin_op_of :: "json \<Rightarrow> admin_request \<Rightarrow> string set \<Rightarrow> admin_op" where
  "admin_op_of js r names =
     (if ar_path r = ''/metrics'' then Metrics
      else if ar_path r = ''/namespace/virtual/create'' then
        (if ar_Method r \<noteq> ''POST'' then Reject 405
         else case decode_create js (ar_body r) of
           Inl _ \<Rightarrow> Reject 400
         | Inr req \<Rightarrow> if create_Name req = '''' then Reject 400
             else if create_Name req \<in> names then Reject 409 else Create (create_Name req))
      else if ar_path r = ''/namespace/physical/add'' then manage_op AddPhysical js r names
      else if ar_path r = ''/namespace/physical/remove'' then manage_op RemovePhysical js r names
      else if ar_path r = ''/namespace/virtual/get'' then
        (if ar_Method r \<noteq> ''GET'' then Reject 405
         else if ar_name r = '''' then Reject 400
         else if ar_name r \<notin> names then Reject 404 else Read (ar_name r))
      else Reject 404)"

type_synonym tables = "string \<rightharpoonup> (string \<rightharpoonup> NamespaceStatus)"

fun apply_admin :: "admin_op \<Rightarrow> tables \<Rightarrow> tables" where
  "apply_admin (Create v) t = t(v \<mapsto> Map.empty)"
| "apply_admin (AddPhysical v p) t = t(v := map_option (\<lambda>m. m(p \<mapsto> NamespaceActive)) (t v))"
| "apply_admin (RemovePhysical v p) t =
     t(v := map_option (\<lambda>m. if m p = None then m else m(p \<mapsto> NamespaceCordoned)) (t v))"
| "apply_admin _ t = t"

fun admin_code :: "admin_op \<Rightarrow> int" where
  "admin_code (Reject c) = c"
| "admin_code (Create _) = 201"
| "admin_code _ = 200"

fun op_name :: "admin_op \<Rightarrow> string option" where
  "op_name (AddPhysical _ p) = Some p"
| "op_name (RemovePhysical _ p) = Some p"
| "op_name _ = None"

section \<open>The registry under the admin API\<close>

lemma w_status_simps [simp]:
  "w_status (http_Error msg code new_writer) = Some code"
  "w_status (reply code msg new_writer) = Some code"
  "w_status new_writer = None"
  "w_status (WriteHeader code w) = (if w_status w = None then Some code else w_status w)"
  by (simp_all add: http_Error_def reply_def WriteHeader_def new_writer_def Let_def)

lemma dom_reg_statuses: "dom (reg_statuses reg) = dom (reg_namespaces reg)"
  by (auto simp: reg_statuses_def)

lemma deref_update_at:
  "p < length (reg_heap reg) \<Longrightarrow> deref q (update_at p v reg) = (if q = p then v else deref q reg)"
  by (simp add: deref_def update_at_def nth_list_update)

lemma update_at_frame [simp]:
  "reg_namespaces (update_at p v reg) = reg_namespaces reg"
  "length (reg_heap (update_at p v reg)) = length (reg_heap reg)"
  by (simp_all add: update_at_def)

text \<open>Names own their objects: replacing one object changes the entry of its name only.\<close>

lemma reg_full_update_at:
  assumes "reg_full sum32 S reg" "reg_namespaces reg name = Some p"
    "vn_full sum32 S v" "vn_Name v = name"
  shows "reg_full sum32 S (update_at p v reg)"
    "reg_statuses (update_at p v reg) = (reg_statuses reg)(name \<mapsto> vn_Namespaces v)"
proof -
  have p: "p < length (reg_heap reg)" "vn_Name (deref p reg) = name" using assms by (auto simp: reg_full_def)
  have own: "q = p \<longleftrightarrow> n = name" if "reg_namespaces reg n = Some q" for n q
    using assms that p(2) by (auto simp: reg_full_def)
  show "reg_full sum32 S (update_at p v reg)"
    unfolding reg_full_def update_at_frame
  proof (intro allI impI)
    fix n q assume "reg_namespaces reg n = Some q"
    with own[OF this] assms p(1) show "q < length (reg_heap reg) \<and> vn_full sum32 S (deref q (update_at p v reg)) \<and>
        vn_Name (deref q (update_at p v reg)) = n"
      by (auto simp: reg_full_def deref_update_at)
  qed
  from own have "reg_statuses (update_at p v reg) n = ((reg_statuses reg)(name \<mapsto> vn_Namespaces v)) n" for n
    using p(1) assms(2) by (cases "reg_namespaces reg n") (auto simp: reg_statuses_def deref_update_at)
  then show "reg_statuses (update_at p v reg) = (reg_statuses reg)(name \<mapsto> vn_Namespaces v)" by (rule ext)
qed

lemma reg_full_create:
  assumes "reg_full sum32 S reg" "collision_free sum32 50 S"
  shows "reg_full sum32 S (snd (create_register name reg w))"
    "reg_statuses (snd (create_register name reg w)) = (reg_statuses reg)(name \<mapsto> Map.empty)"
proof -
  let ?p = "length (reg_heap reg)" and ?reg = "snd (create_register name reg w)"
  have r: "reg_namespaces ?reg = (reg_namespaces reg)(name \<mapsto> ?p)"
    "reg_heap ?reg = reg_heap reg @ [NewVirtualNamespace name]"
    by (simp_all add: create_register_def alloc_def Registry_Register_def deref_def NewVirtualNamespace_def Let_def)
  have d: "deref q ?reg = deref q reg" if "reg_namespaces reg n = Some q" for n q
    using that assms(1) r(2) by (auto simp: deref_def nth_append reg_full_def)
  have new: "deref ?p ?reg = NewVirtualNamespace name" by (simp add: deref_def r(2))
  show "reg_full sum32 S ?reg"
    unfolding reg_full_def r(1)
  proof (intro allI impI)
    fix n q assume nq: "((reg_namespaces reg)(name \<mapsto> ?p)) n = Some q"
    show "q < length (reg_heap ?reg) \<and> vn_full sum32 S (deref q ?reg) \<and> vn_Name (deref q ?reg) = n"
    proof (cases "n = name")
      case True
      with nq new NewVirtualNamespace_full[OF assms(2)] show ?thesis
        by (auto simp: r(2) NewVirtualNamespace_def)
    next
      case False
      with nq d assms(1) show ?thesis by (auto simp: r(2) reg_full_def less_Suc_eq)
    qed
  qed
  show "reg_statuses ?reg = (reg_statuses reg)(name \<mapsto> Map.empty)"
  proof
    fix n
    show "reg_statuses ?reg n = ((reg_statuses reg)(name \<mapsto> Map.empty)) n"
      using d new by (cases "reg_namespaces reg n") (auto simp: reg_statuses_def r(1) NewVirtualNamespace_def)
  qed
qed

text \<open>Each handler makes the change its request asks for, and answers with the code for it.\<close>

lemma deref_full: "reg_full sum32 S reg \<Longrightarrow> reg_namespaces reg name = Some p \<Longrightarrow>
    vn_full sum32 S (deref p reg) \<and> vn_Name (deref p reg) = name"
  by (simp add: reg_full_def)

lemma reg_statuses_Some: "reg_namespaces reg name = Some p \<Longrightarrow> reg_statuses reg name = Some (vn_Namespaces (deref p reg))"
  by (simp add: reg_statuses_def)

lemma reg_full_add:
  assumes "reg_full sum32 S reg" "reg_namespaces reg v = Some p" "s \<in> S"
  shows "let reg' = update_at p (VirtualNamespace_Add sum32 \<lparr>ns_cluster = None, ns_name = s\<rparr> (deref p reg)) reg in
    reg_full sum32 S reg' \<and> reg_statuses reg' = apply_admin (AddPhysical v s) (reg_statuses reg)"
proof -
  let ?v = "VirtualNamespace_Add sum32 \<lparr>ns_cluster = None, ns_name = s\<rparr> (deref p reg)"
  have "vn_full sum32 S ?v" "vn_Name ?v = v"
    using deref_full[OF assms(1,2)] assms(3) by (auto intro: VirtualNamespace_Add_full)
  from reg_full_update_at[OF assms(1,2) this] show ?thesis
    by (simp add: reg_statuses_Some[OF assms(2)])
qed

lemma reg_full_remove:
  assumes "reg_full sum32 S reg" "reg_namespaces reg v = Some p" "s \<in> S"
  shows "let reg' = update_at p (snd (VirtualNamespace_Remove sum32 \<lparr>ns_cluster = None, ns_name = s\<rparr> (deref p reg))) reg in
    reg_full sum32 S reg' \<and> reg_statuses reg' = apply_admin (RemovePhysical v s) (reg_statuses reg)"
proof -
  let ?v = "snd (VirtualNamespace_Remove sum32 \<lparr>ns_cluster = None, ns_name = s\<rparr> (deref p reg))"
  have "vn_full sum32 S ?v" "vn_Name ?v = v"
    using deref_full[OF assms(1,2)] assms(3) by (auto intro: VirtualNamespace_Remove_full)
  from reg_full_update_at[OF assms(1,2) this] show ?thesis
    by (simp add: reg_statuses_Some[OF assms(2)])
qed

lemma remove_outcome:
  assumes "reg_full sum32 S reg" "reg_namespaces reg v = Some p"
  shows "fst (VirtualNamespace_Remove sum32 ns (deref p reg)) =
    (if vn_active (deref p reg) = {} then Panic ''makeslice: cap out of range'' else Ret ())"
proof -
  have f: "ring_full sum32 50 S (vn_Ring (deref p reg))" "ring_slots (vn_Ring (deref p reg)) = vn_active (deref p reg)"
    using deref_full[OF assms] by (auto simp: vn_full_def)
  then show ?thesis using RemoveSlot_empty[OF f(1)] RemoveSlot_full_Ret[OF f(1)] ring_full_ring_empty[OF f(1)]
    by (metis fst_conv vn_Namespaces_Remove(4))
qed

definition admin_panics :: "admin_op \<Rightarrow> tables \<Rightarrow> bool" where
  "admin_panics op t \<longleftrightarrow> (case op of RemovePhysical v p \<Rightarrow>
     (\<forall>m. t v = Some m \<longrightarrow> NamespaceActive \<notin> ran m) | _ \<Rightarrow> False)"

lemma vn_active_empty: "vn_active v = {} \<longleftrightarrow> NamespaceActive \<notin> ran (vn_Namespaces v)"
  by (auto simp: vn_active_def ran_def)

lemmas admin_path_defs = create_virtual_def create_check_def add_physical_def remove_physical_def manage_check_def
  get_virtual_def Registry_Resolve_def

lemma manage_check_op:
  "manage_check js r reg new_writer = Inr (req, p) \<longleftrightarrow>
     manage_op f js r (dom (reg_namespaces reg)) =
       f (mp_VirtualNamespace req) (buildPhysicalNamespace (mp_PhysicalNamespace req) (mp_ClusterAddress req)) \<and>
     ar_Method r = ''POST'' \<and> decode_manage js (ar_body r) = Inr req \<and>
     '''' \<notin> {mp_VirtualNamespace req, mp_PhysicalNamespace req, mp_ClusterAddress req} \<and>
     reg_namespaces reg (mp_VirtualNamespace req) = Some p"
  by (auto simp: manage_check_def Registry_Resolve_def split: if_splits sum.splits option.splits)

lemma manage_check_reject:
  "manage_check js r reg new_writer = Inl w \<Longrightarrow>
     \<exists>c. manage_op f js r (dom (reg_namespaces reg)) = Reject c \<and> w_status w = Some c"
  by (auto simp: manage_check_def Registry_Resolve_def split: if_splits sum.splits option.splits)

text \<open>What it means for a handler's result to implement an operation.\<close>

definition admin_ok ::
    "hash_fun \<Rightarrow> string set \<Rightarrow> admin_op \<Rightarrow> VirtualNamespaceRegistry \<Rightarrow> writer outcome \<times> VirtualNamespaceRegistry \<Rightarrow> bool" where
  "admin_ok sum32 S op reg res \<longleftrightarrow>
     reg_full sum32 S (snd res) \<and> reg_statuses (snd res) = apply_admin op (reg_statuses reg) \<and>
     (\<forall>w. fst res = Ret w \<longrightarrow> op \<noteq> Metrics \<longrightarrow> w_status w = Some (admin_code op)) \<and>
     (is_panic (fst res) \<longleftrightarrow> admin_panics op (reg_statuses reg))"

lemma admin_ok_reject:
  "reg_full sum32 S reg \<Longrightarrow> w_status w = Some c \<Longrightarrow> admin_ok sum32 S (Reject c) reg (Ret w, reg)"
  by (simp add: admin_ok_def admin_panics_def)

lemma create_refines:
  assumes full: "reg_full sum32 S reg" "collision_free sum32 50 S" and path: "ar_path r = ''/namespace/virtual/create''"
  shows "admin_ok sum32 S (admin_op_of js r (dom (reg_namespaces reg))) reg (create_virtual js r reg new_writer)"
proof (cases "create_check js r reg new_writer")
  case (Inl w)
  then have "\<exists>c. admin_op_of js r (dom (reg_namespaces reg)) = Reject c \<and> w_status w = Some c"
    using path by (auto simp: create_check_def admin_op_of_def Registry_Resolve_def split: sum.splits if_splits)
  then show ?thesis using Inl full by (auto simp: create_virtual_def intro: admin_ok_reject)
next
  case (Inr name)
  then have o: "admin_op_of js r (dom (reg_namespaces reg)) = Create name"
    using path by (auto simp: create_check_def admin_op_of_def Registry_Resolve_def split: sum.splits if_splits)
  have "w_status (fst (create_register name reg new_writer)) = Some 201"
    by (simp add: create_register_def case_prod_beta Let_def)
  then show ?thesis unfolding o using Inr reg_full_create[OF full, of name new_writer]
    by (simp add: create_virtual_def admin_ok_def admin_panics_def case_prod_beta)
qed

lemma add_refines:
  assumes full: "reg_full sum32 S reg" and op: "op = manage_op AddPhysical js r (dom (reg_namespaces reg))"
    and name: "\<forall>p. op_name op = Some p \<longrightarrow> p \<in> S"
  shows "admin_ok sum32 S op reg (add_physical sum32 js r reg new_writer)"
proof (cases "manage_check js r reg new_writer")
  case (Inl w')
  then show ?thesis using manage_check_reject[OF Inl, of AddPhysical] op full
    by (auto simp: add_physical_def intro: admin_ok_reject)
next
  case (Inr x)
  obtain req p where x: "x = (req, p)" by (cases x)
  note mc = Inr[unfolded x, unfolded manage_check_op[where f = AddPhysical]]
  then have "buildPhysicalNamespace (mp_PhysicalNamespace req) (mp_ClusterAddress req) \<in> S"
    "reg_namespaces reg (mp_VirtualNamespace req) = Some p"
    using name op by (simp_all del: manage_op.simps)
  from reg_full_add[OF full this(2,1)] mc op show ?thesis
    by (simp add: add_physical_def Inr x Let_def admin_panics_def admin_ok_def del: manage_op.simps)
qed

lemma remove_refines:
  assumes full: "reg_full sum32 S reg" and op: "op = manage_op RemovePhysical js r (dom (reg_namespaces reg))"
    and name: "\<forall>p. op_name op = Some p \<longrightarrow> p \<in> S"
  shows "admin_ok sum32 S op reg (remove_physical sum32 js r reg new_writer)"
proof (cases "manage_check js r reg new_writer")
  case (Inl w')
  then show ?thesis using manage_check_reject[OF Inl, of RemovePhysical] op full
    by (auto simp: remove_physical_def intro: admin_ok_reject)
next
  case (Inr x)
  obtain req p where x: "x = (req, p)" by (cases x)
  note mc = Inr[unfolded x, unfolded manage_check_op[where f = RemovePhysical]]
  let ?s = "buildPhysicalNamespace (mp_PhysicalNamespace req) (mp_ClusterAddress req)"
  have p: "reg_namespaces reg (mp_VirtualNamespace req) = Some p"
    and o: "op = RemovePhysical (mp_VirtualNamespace req) ?s"
    using mc op by (simp_all del: manage_op.simps)
  have s: "?s \<in> S" using name o by simp
  let ?res = "VirtualNamespace_Remove sum32 \<lparr>ns_cluster = None, ns_name = ?s\<rparr> (deref p reg)"
  obtain msg where r: "remove_physical sum32 js r reg new_writer =
      (and_then (fst ?res) (\<lambda>_. Ret (reply 200 msg new_writer)), update_at p (snd ?res) reg)"
    by (simp add: remove_physical_def Inr x Let_def case_prod_beta)
  show ?thesis
    using reg_full_remove[OF full p s] remove_outcome[OF full p, of "\<lparr>ns_cluster = None, ns_name = ?s\<rparr>"]
    unfolding r o Let_def admin_ok_def
    by (auto simp: admin_panics_def reg_statuses_Some[OF p] vn_active_empty)
qed

lemma admin_refines:
  assumes full: "reg_full sum32 S reg" "collision_free sum32 50 S"
    and op: "op = admin_op_of js r (dom (reg_statuses reg))" and name: "\<forall>p. op_name op = Some p \<longrightarrow> p \<in> S"
  shows "admin_ok sum32 S op reg (admin_handler sum32 js metrics keys r reg)"
proof -
  consider "ar_path r = ''/namespace/virtual/create''" | "ar_path r = ''/namespace/physical/add''"
    | "ar_path r = ''/namespace/physical/remove''"
    | "ar_path r \<notin> {''/namespace/virtual/create'', ''/namespace/physical/add'', ''/namespace/physical/remove''}"
    by blast
  then show ?thesis
  proof cases
    case 1
    then show ?thesis using create_refines[OF full 1] op by (simp add: admin_handler_def dom_reg_statuses)
  next
    case 2
    then have "op = manage_op AddPhysical js r (dom (reg_namespaces reg))"
      using op by (simp add: admin_op_of_def dom_reg_statuses del: manage_op.simps)
    with 2 add_refines[OF full(1) this name] show ?thesis by (simp add: admin_handler_def)
  next
    case 3
    then have "op = manage_op RemovePhysical js r (dom (reg_namespaces reg))"
      using op by (simp add: admin_op_of_def dom_reg_statuses del: manage_op.simps)
    with 3 remove_refines[OF full(1) this name] show ?thesis by (simp add: admin_handler_def)
  next
    case 4
    then show ?thesis using op full unfolding admin_ok_def
      by (auto simp: admin_handler_def get_virtual_def Registry_Resolve_def admin_panics_def Let_def
          admin_op_of_def dom_reg_statuses split: option.splits if_splits)
  qed
qed

section \<open>Runs\<close>

definition admin_step ::
    "hash_fun \<Rightarrow> json \<Rightarrow> (writer \<Rightarrow> writer) \<Rightarrow> admin_request \<times> string list \<Rightarrow> VirtualNamespaceRegistry \<Rightarrow> VirtualNamespaceRegistry" where
  "admin_step sum32 js metrics x reg = snd (admin_handler sum32 js metrics (snd x) (fst x) reg)"

definition spec_step :: "json \<Rightarrow> admin_request \<Rightarrow> tables \<Rightarrow> tables" where
  "spec_step js r t = apply_admin (admin_op_of js r (dom t)) t"

text \<open>Every physical namespace that a request names is in \<open>S\<close>.\<close>

definition names_in :: "json \<Rightarrow> string set \<Rightarrow> admin_request \<Rightarrow> bool" where
  "names_in js S r \<longleftrightarrow> (case decode_manage js (ar_body r) of Inl _ \<Rightarrow> True
     | Inr req \<Rightarrow> buildPhysicalNamespace (mp_PhysicalNamespace req) (mp_ClusterAddress req) \<in> S)"

lemma names_in_op: "names_in js S r \<Longrightarrow> op_name (admin_op_of js r names) = Some p \<Longrightarrow> p \<in> S"
  by (auto simp: names_in_def admin_op_of_def split: if_splits sum.splits)

lemma admin_run_refines:
  assumes "reg_full sum32 S reg" "collision_free sum32 50 S" "\<forall>x\<in>set reqs. names_in js S (fst x)"
  shows "reg_full sum32 S (fold (admin_step sum32 js metrics) reqs reg) \<and>
    reg_statuses (fold (admin_step sum32 js metrics) reqs reg) = fold (spec_step js) (map fst reqs) (reg_statuses reg)"
  using assms(1,3)
proof (induction reqs arbitrary: reg)
  case (Cons x reqs)
  have "admin_ok sum32 S (admin_op_of js (fst x) (dom (reg_statuses reg))) reg
      (admin_handler sum32 js metrics (snd x) (fst x) reg)"
    using Cons.prems names_in_op[of js S "fst x"] by (intro admin_refines[OF _ assms(2) refl]) auto
  then have "reg_full sum32 S (admin_step sum32 js metrics x reg)"
    "reg_statuses (admin_step sum32 js metrics x reg) = spec_step js (fst x) (reg_statuses reg)"
    by (simp_all add: admin_ok_def admin_step_def spec_step_def)
  with Cons show ?case by simp
qed simp

section \<open>Properties\<close>

text \<open>
  C32: The admin API refines its specification, for physical namespaces whose virtual nodes do not collide on the ring. After any sequence of admin requests the status tables
  are those that the specification computes, and the next request is answered with the
  specification's status code, except that a removal panics exactly when the virtual namespace
  has no active physical namespace (the table is updated all the same).
\<close>

theorem admin_api_refines:
  assumes "reg_full sum32 S reg" "collision_free sum32 50 S" "\<forall>x\<in>set reqs. names_in js S (fst x)" "names_in js S r"
    and "t = fold (spec_step js) (map fst reqs) (reg_statuses reg)"
    and "op = admin_op_of js r (dom t)"
    and "res = admin_handler sum32 js metrics keys r (fold (admin_step sum32 js metrics) reqs reg)"
  shows "reg_full sum32 S (snd res) \<and> reg_statuses (snd res) = apply_admin op t \<and>
    (is_panic (fst res) \<longleftrightarrow> (\<exists>v p m. op = RemovePhysical v p \<and> t v = Some m \<and> NamespaceActive \<notin> ran m)) \<and>
    (\<forall>w. fst res = Ret w \<longrightarrow> op \<noteq> Metrics \<longrightarrow> w_status w = Some (admin_code op))"
proof -
  let ?reg = "fold (admin_step sum32 js metrics) reqs reg"
  have run: "reg_full sum32 S ?reg" "reg_statuses ?reg = t" using admin_run_refines[OF assms(1-3)] assms(5) by auto
  have ok: "admin_ok sum32 S op ?reg res"
    unfolding assms(6,7) using run names_in_op[OF assms(4)] by (intro admin_refines[OF run(1) assms(2)]) auto
  have known: "v \<in> dom t" if "op = RemovePhysical v p" for v p
    using that unfolding assms(6) admin_op_of_def by (auto split: if_splits sum.splits)
  have "admin_panics op t \<longleftrightarrow> (\<exists>v p m. op = RemovePhysical v p \<and> t v = Some m \<and> NamespaceActive \<notin> ran m)"
    using known by (cases op) (auto simp: admin_panics_def)
  with ok run(2) show ?thesis by (simp add: admin_ok_def)
qed

definition example_json :: json where
  "example_json = \<lparr>decode_create = (\<lambda>bs. Inr \<lparr>create_Name = string_of_bytes bs\<rparr>),
     decode_manage = (\<lambda>bs. Inr \<lparr>mp_VirtualNamespace = string_of_bytes bs, mp_PhysicalNamespace = ''a'', mp_ClusterAddress = ''h1''\<rparr>),
     encode_get = (\<lambda>_ _. [])\<rparr>"

definition example_admin :: "string \<Rightarrow> string \<Rightarrow> admin_request" where
  "example_admin path name = \<lparr>ar_path = path, ar_Method = ''POST'', ar_body = bytes_of_string name, ar_name = ''''\<rparr>"

lemma example_names_in: "names_in example_json {''a::h1''} (example_admin path name)"
  by (simp add: names_in_def example_json_def example_admin_def buildPhysicalNamespace_def delim_def)

lemma example_collision_free: "collision_free first_byte 50 {''a::h1''}"
  by (rule first_byte_collision_free) auto

theorem admin_api_refines_witness:
  "reg_statuses (snd (admin_handler first_byte example_json id [] (example_admin ''/namespace/physical/add'' ''v'')
     (fold (admin_step first_byte example_json id) [(example_admin ''/namespace/virtual/create'' ''v'', [])] empty_registry)))
   = [''v'' \<mapsto> [''a::h1'' \<mapsto> NamespaceActive]]"
proof -
  have "fold (spec_step example_json) [example_admin ''/namespace/virtual/create'' ''v''] (reg_statuses empty_registry) = [''v'' \<mapsto> Map.empty]"
    by (simp add: spec_step_def admin_op_of_def example_admin_def example_json_def empty_registry_def reg_statuses_def)
  moreover have "admin_op_of example_json (example_admin ''/namespace/physical/add'' ''v'') {''v''} = AddPhysical ''v'' ''a::h1''"
    by (simp add: admin_op_of_def example_admin_def example_json_def buildPhysicalNamespace_def delim_def)
  ultimately show ?thesis
    using admin_api_refines[OF empty_registry_full example_collision_free, of "[(example_admin ''/namespace/virtual/create'' ''v'', [])]"
        example_json "example_admin ''/namespace/physical/add'' ''v''", OF _ _ refl refl refl, of id "[]"] example_names_in
    by simp
qed

text \<open>
  C33: The create handler checks and registers under two separate locks. When two creates of one name
  both pass the check before either registers, both are answered 201, and the second
  registration replaces the virtual namespace of the first by an empty one: whatever physical
  namespaces were added in between are lost. One after the other, the second create is refused
  with 409.
\<close>

theorem concurrent_creates_lose_updates:
  assumes "reg_full sum32 S reg" "collision_free sum32 50 S"
    and "create_check js r1 reg new_writer = Inr name" "create_check js r2 reg new_writer = Inr name"
    and "(w1, reg1) = create_register name reg new_writer"
    and "admin_op_of js ra (dom (reg_statuses reg1)) = AddPhysical name p" "p \<in> S"
    and "reg2 = snd (admin_handler sum32 js metrics keys ra reg1)"
    and "(w2, reg3) = create_register name reg2 new_writer"
  shows "w_status w1 = Some 201 \<and> w_status w2 = Some 201 \<and>
    reg_statuses reg2 name = Some [p \<mapsto> NamespaceActive] \<and> reg_statuses reg3 name = Some Map.empty \<and>
    (\<exists>w. create_check js r2 reg1 new_writer = Inl w \<and> w_status w = Some 409)"
proof -
  have code: "w_status (fst (create_register name reg' new_writer)) = Some 201" for reg'
    by (simp add: create_register_def case_prod_beta Let_def)
  have r1: "reg_full sum32 S reg1" "reg_statuses reg1 = (reg_statuses reg)(name \<mapsto> Map.empty)"
    using reg_full_create[OF assms(1,2), of name new_writer] assms(5)[symmetric] by simp_all
  have "admin_ok sum32 S (AddPhysical name p) reg1 (admin_handler sum32 js metrics keys ra reg1)"
    using assms(6,7) by (intro admin_refines[OF r1(1) assms(2)]) auto
  then have r2: "reg_full sum32 S reg2" "reg_statuses reg2 name = Some [p \<mapsto> NamespaceActive]"
    using r1(2) assms(8) by (auto simp: admin_ok_def)
  have "reg_statuses reg3 name = Some Map.empty"
    using reg_full_create(2)[OF r2(1) assms(2), of name new_writer] assms(9)[symmetric] by simp
  moreover have "reg_namespaces reg1 name \<noteq> None" using r1(2) by (auto simp: reg_statuses_def fun_eq_iff split: if_splits)
  then have "\<exists>w. create_check js r2 reg1 new_writer = Inl w \<and> w_status w = Some 409"
    using assms(4) by (auto simp: create_check_def Registry_Resolve_def split: if_splits sum.splits)
  ultimately show ?thesis using r2(2) code[of reg] code[of reg2] assms(5,9) by (metis fst_conv)
qed

theorem concurrent_creates_lose_updates_witness:
  "let reg1 = snd (create_register ''v'' empty_registry new_writer);
       reg2 = snd (admin_handler first_byte example_json id [] (example_admin ''/namespace/physical/add'' ''v'') reg1);
       reg3 = snd (create_register ''v'' reg2 new_writer)
   in reg_statuses reg2 ''v'' = Some [''a::h1'' \<mapsto> NamespaceActive] \<and> reg_statuses reg3 ''v'' = Some Map.empty"
proof -
  let ?create = "example_admin ''/namespace/virtual/create'' ''v''"
  have c: "create_check example_json ?create empty_registry new_writer = Inr ''v''"
    by (simp add: create_check_def example_admin_def example_json_def Registry_Resolve_def empty_registry_def)
  have "dom (reg_statuses (snd (create_register ''v'' empty_registry new_writer))) = {''v''}"
    using reg_full_create(2)[OF empty_registry_full example_collision_free, of "''v''" new_writer]
    by (simp add: empty_registry_def reg_statuses_def)
  then have op: "admin_op_of example_json (example_admin ''/namespace/physical/add'' ''v'')
      (dom (reg_statuses (snd (create_register ''v'' empty_registry new_writer)))) = AddPhysical ''v'' ''a::h1''"
    by (simp add: admin_op_of_def example_admin_def example_json_def buildPhysicalNamespace_def delim_def)
  show ?thesis unfolding Let_def
    using concurrent_creates_lose_updates[OF empty_registry_full example_collision_free c c prod.collapse op _ refl prod.collapse, of id "[]"]
    by simp
qed

end
