(* ===== verification/System.thy ===== *)
theory System
  imports Proxy Admin
begin

text \<open>
  The running program: \<^verbatim>\<open>main.go\<close> builds the registry, the admin server and the proxy over one
  Redis server, and from then on proxied requests, admin requests and checkpoints are served in
  any order. Each event is one step; the requests' own Redis operations are not interleaved.
\<close>

section \<open>State and events\<close>

record config =
  cfg_ext :: externals
  cfg_defaultHost :: string
  cfg_json :: json
  cfg_metrics :: "writer \<Rightarrow> writer"
  cfg_marshal :: "tables \<Rightarrow> string result"

record 'w system =
  sys_registry :: VirtualNamespaceRegistry
  sys_resolver :: "'w Resolver"

datatype event = Serve http_request choices transport | AdminCall admin_request "string list"
  | Tick "nat \<Rightarrow> string list"

text \<open>
  \<^verbatim>\<open>main\<close>: the registry is loaded, the admin server is started and then the proxy is built over the
  same address. The process ends when the default target is not a URL.
\<close>

definition main ::
    "hash_fun \<Rightarrow> (string \<Rightarrow> schema result) \<Rightarrow> (string \<Rightarrow> string result) \<Rightarrow> (string \<Rightarrow> 'w redis_client \<times> 'w)
     \<Rightarrow> string \<Rightarrow> string \<Rightarrow> string \<Rightarrow> ('w system \<times> string) result" where
  "main sum32 unmarshal url_parse connect redisAddr listenAddr defaultTarget =
     (let (registry, w) = NewVirtualNamespaceRegistry sum32 unmarshal connect redisAddr in
      case NewStickyProxy url_parse (\<lambda>addr. (fst (connect addr), w)) listenAddr redisAddr defaultTarget of
        Inl err \<Rightarrow> Inl (Wrap ''Error creating proxy'' err)
      | Inr proxy \<Rightarrow> Inr (\<lparr>sys_registry = registry, sys_resolver = sp_Resolver proxy\<rparr>, sp_defaultHost proxy))"

text \<open>The checkpoint goes to the server that also holds the routing cache.\<close>

definition tick :: "config \<Rightarrow> (nat \<Rightarrow> string list) \<Rightarrow> 'w system \<Rightarrow> 'w system" where
  "tick cfg keys s =
     (let cache = Cache (sys_resolver s);
          w = checkpoint (cfg_marshal cfg) (client cache) keys (sys_registry s) (server cache)
      in s\<lparr>sys_resolver := (sys_resolver s)\<lparr>Cache := cache\<lparr>server := w\<rparr>\<rparr>\<rparr>)"

definition serve :: "config \<Rightarrow> http_request \<Rightarrow> choices \<Rightarrow> transport \<Rightarrow> 'w system \<Rightarrow> served outcome \<times> 'w system" where
  "serve cfg r ch tr s =
     (let (out, res) = proxy_handler (cfg_ext cfg) tr (cfg_defaultHost cfg) ch (sys_registry s) r (sys_resolver s)
      in (out, s\<lparr>sys_resolver := res\<rparr>))"

fun exec :: "config \<Rightarrow> event \<Rightarrow> 'w system \<Rightarrow> 'w system" where
  "exec cfg (Serve r ch tr) s = snd (serve cfg r ch tr s)"
| "exec cfg (AdminCall r keys) s =
     s\<lparr>sys_registry := snd (admin_handler (ext_sum32 (cfg_ext cfg)) (cfg_json cfg) (cfg_metrics cfg) keys r (sys_registry s))\<rparr>"
| "exec cfg (Tick keys) s = tick cfg keys s"

section \<open>What a poll changes\<close>

definition is_poll :: "rpc \<Rightarrow> bool" where
  "is_poll m \<longleftrightarrow> m = PollWorkflowTaskQueue \<or> m = PollActivityTaskQueue"

text \<open>The workflow of the task that a cluster answers a poll with, if it does.\<close>

definition offered :: "externals \<Rightarrow> transport \<Rightarrow> http_request \<Rightarrow> rpc \<Rightarrow> byte list \<Rightarrow> string \<Rightarrow> WorkflowExecution option option" where
  "offered ext tr r m bs p =
     (case m of
        PollWorkflowTaskQueue \<Rightarrow>
          Option.bind (decode (ext_gunzip ext) (c_pwq ext) bs) (\<lambda>req.
            map_option snd (answer_task (ext_gunzip ext) (Unmarshal (c_pwr ext)) pwr_TaskToken pwr_WorkflowExecution
              (answer (\<lambda>p. pollSingleCluster ext tr r req p (bs ! 0 = 1)) p)))
      | PollActivityTaskQueue \<Rightarrow>
          Option.bind (decode (ext_gunzip ext) (c_paq ext) bs) (\<lambda>req.
            map_option snd (answer_task (ext_gunzip ext) (Unmarshal (c_par ext)) par_TaskToken par_WorkflowExecution
              (answer (\<lambda>p. pollSingleActivityCluster ext tr r req p (bs ! 0 = 1)) p)))
      | _ \<Rightarrow> None)"

text \<open>The resolver is left alone, or has the workflow of one of the answers cached.\<close>

definition cached_from ::
    "gunzip \<Rightarrow> (byte list \<Rightarrow> 'm result) \<Rightarrow> ('m \<Rightarrow> byte list) \<Rightarrow> ('m \<Rightarrow> WorkflowExecution option)
     \<Rightarrow> pollResult set \<Rightarrow> 'w Resolver \<Rightarrow> 'w Resolver \<Rightarrow> bool" where
  "cached_from gz unm tok exe as r r' \<longleftrightarrow> r' = r \<or>
     (\<exists>a resp e. a \<in> as \<and> answer_task gz unm tok exe a = Some (resp, Some e) \<and> WorkflowId e \<noteq> '''' \<and>
        r' = r\<lparr>Cache := Mappings_Put (WorkflowId e) (pr_physNs a) (Cache r)\<rparr>)"

lemma cached_from_mono: "cached_from gz unm tok exe as r r' \<Longrightarrow> as \<subseteq> bs \<Longrightarrow> cached_from gz unm tok exe bs r r'"
  unfolding cached_from_def by blast

lemma receive_loop_state:
  "cached_from gz unm tok exe (set answers) r (snd (receive_loop (receive_one gz unm tok exe) answers acc r))"
proof (induction answers arbitrary: acc)
  case Nil
  then show ?case by (simp add: cached_from_def)
next
  case (Cons a answers)
  show ?case
  proof (cases "answer_task gz unm tok exe a")
    case None
    then obtain acc' where "receive_one gz unm tok exe a acc r = (Inr acc', r)"
      using receive_one_no_task by blast
    with cached_from_mono[OF Cons[of acc'], of "set (a # answers)"] show ?thesis by (simp add: subset_insertI)
  next
    case (Some x)
    obtain resp exec where x: "x = (resp, exec)" by (cases x)
    have "cached_from gz unm tok exe (set (a # answers)) r (cache_task exec (pr_physNs a) r)"
      using Some x unfolding cached_from_def cache_task_def by (cases exec) auto
    then show ?thesis by (simp add: receive_one_task[OF Some[unfolded x]])
  qed
qed

lemma fan_out_state:
  "cached_from gz unm tok exe (range (answer poll)) r (snd (fan_out poll (receive_one gz unm tok exe) slots arrival r))"
proof (cases "find (\<lambda>s. is_panic (poll s)) slots")
  case None
  then have "snd (fan_out poll (receive_one gz unm tok exe) slots arrival r) =
      snd (receive_loop (receive_one gz unm tok exe) (map (answer poll) arrival) no_answers r)"
    by (simp add: fan_out_def case_prod_beta)
  moreover have "cached_from gz unm tok exe (range (answer poll)) r
      (snd (receive_loop (receive_one gz unm tok exe) (map (answer poll) arrival) no_answers r))"
    by (rule cached_from_mono[OF receive_loop_state]) auto
  ultimately show ?thesis by simp
qed (simp add: fan_out_def cached_from_def)

text \<open>A poll caches at most one workflow, and only one that the cluster it is cached for offered.\<close>

definition learns :: "externals \<Rightarrow> transport \<Rightarrow> http_request \<Rightarrow> rpc \<Rightarrow> byte list \<Rightarrow> 'w Resolver \<Rightarrow> 'w Resolver \<Rightarrow> bool" where
  "learns ext tr r m bs res res' \<longleftrightarrow> res' = res \<or>
     (\<exists>p e. offered ext tr r m bs p = Some (Some e) \<and> WorkflowId e \<noteq> '''' \<and>
        res' = res\<lparr>Cache := Mappings_Put (WorkflowId e) p (Cache res)\<rparr>)"

lemma learns_refl: "learns ext tr r m bs res res"
  by (simp add: learns_def)

lemma extractPayload_flag: "extractPayload gz bs = Inr (pb, c) \<Longrightarrow> c = (bs ! 0 = 1)"
  using extractPayload_Inr by blast

lemma ExecutePoll_state:
  "learns ext tr r PollWorkflowTaskQueue bs res (snd (ExecutePoll ext tr keys arrival r bs reg res))"
proof -
  have "learns ext tr r PollWorkflowTaskQueue bs res
      (snd (fan_out (\<lambda>p. pollSingleCluster ext tr r req p c)
         (receive_one (ext_gunzip ext) (Unmarshal (c_pwr ext)) pwr_TaskToken pwr_WorkflowExecution) slots order res))"
    if "extractPayload (ext_gunzip ext) bs = Inr (pb, c)" "Unmarshal (c_pwq ext) pb = Inr req" for pb c req slots order
    using fan_out_state[of "ext_gunzip ext" "Unmarshal (c_pwr ext)" pwr_TaskToken pwr_WorkflowExecution
        "\<lambda>p. pollSingleCluster ext tr r req p c" res slots order] that extractPayload_flag[OF that(1)]
    unfolding cached_from_def learns_def
    by (auto simp: offered_def decode_def answer_def)
  then show ?thesis unfolding ExecutePoll_def
    by (auto simp: learns_def Let_def split: sum.splits option.splits)
qed

lemma ExecutePollActivity_state:
  "learns ext tr r PollActivityTaskQueue bs res (snd (ExecutePollActivity ext tr keys arrival r bs reg res))"
proof -
  have "learns ext tr r PollActivityTaskQueue bs res
      (snd (fan_out (\<lambda>p. pollSingleActivityCluster ext tr r req p c)
         (receive_one (ext_gunzip ext) (Unmarshal (c_par ext)) par_TaskToken par_WorkflowExecution) slots order res))"
    if "extractPayload (ext_gunzip ext) bs = Inr (pb, c)" "Unmarshal (c_paq ext) pb = Inr req" for pb c req slots order
    using fan_out_state[of "ext_gunzip ext" "Unmarshal (c_par ext)" par_TaskToken par_WorkflowExecution
        "\<lambda>p. pollSingleActivityCluster ext tr r req p c" res slots order] that extractPayload_flag[OF that(1)]
    unfolding cached_from_def learns_def
    by (auto simp: offered_def decode_def answer_def)
  then show ?thesis unfolding ExecutePollActivity_def
    by (auto simp: learns_def Let_def split: sum.splits option.splits)
qed

lemma servePoll_state:
  "learns ext tr r PollWorkflowTaskQueue (projr (req_body r)) res
     (snd (servePollWorkflowTaskQueue ext tr ch reg r w res))"
  using ExecutePoll_state[of ext tr r "projr (req_body r)" res "ch_keys ch" "ch_arrival ch" reg]
  by (auto simp: servePollWorkflowTaskQueue_def learns_refl split: sum.splits outcome.splits prod.splits)

lemma servePollActivity_state:
  "learns ext tr r PollActivityTaskQueue (projr (req_body r)) res
     (snd (servePollActivityTaskQueue ext tr ch reg r w res))"
  using ExecutePollActivity_state[of ext tr r "projr (req_body r)" res "ch_keys ch" "ch_arrival ch" reg]
  by (auto simp: servePollActivityTaskQueue_def learns_refl split: sum.splits outcome.splits prod.splits)

section \<open>The life of an assignment\<close>

lemma proxy_rewrites:
  assumes "dispatch (url_path r) = Some m" "\<not> is_poll m"
  shows "proxy_handler ext tr host ch reg r res =
    forward host (rewrite_body (\<lambda>r bs. rpc_handler ext m r bs reg) r res)"
  using assms by (cases m) (simp_all add: proxy_handler_def is_poll_def Let_def)

lemma snd_forward: "snd (forward host x) = snd x"
  by (simp add: forward_def case_prod_beta)

lemma snd_rewrite_body:
  "snd (rewrite_body h r res) = (case req_body r of Inl _ \<Rightarrow> res | Inr bs \<Rightarrow> snd (snd (h r bs res)))"
  by (auto simp: rewrite_body_def split: sum.splits prod.splits outcome.splits)

lemma proxy_poll_state:
  assumes "dispatch (url_path r) = Some m" "is_poll m"
  shows "learns ext tr r m (projr (req_body r)) res (snd (proxy_handler ext tr host ch reg r res))"
  using assms servePoll_state[of ext tr r res ch reg new_writer] servePollActivity_state[of ext tr r res ch reg new_writer]
  by (auto simp: proxy_handler_def is_poll_def case_prod_beta)

text \<open>
  The events that leave workflow \<open>k\<close> at \<open>v\<close>: no request completes it, and no cluster but \<open>v\<close>
  answers a poll with one of its tasks. Admin requests and checkpoints are always among them.
\<close>

fun safe :: "config \<Rightarrow> string \<Rightarrow> string \<Rightarrow> event \<Rightarrow> bool" where
  "safe cfg k v (Serve r ch tr) =
     (case (dispatch (url_path r), req_body r) of
        (Some m, Inr bs) \<Rightarrow>
          (\<forall>p e. offered (cfg_ext cfg) tr r m bs p = Some (Some e) \<longrightarrow> WorkflowId e = k \<longrightarrow> p = v) \<and>
          (\<forall>p. request_payload (cfg_ext cfg) m bs = Some p \<longrightarrow> WorkflowID p = k \<longrightarrow> \<not> completes (cfg_ext cfg) m bs)
      | _ \<Rightarrow> True)"
| "safe cfg k v _ = True"

lemma learns_keeps:
  assumes "learns ext tr r m bs res res'" "resolver_ok res" "assigned res k = Some v"
    "\<forall>p e. offered ext tr r m bs p = Some (Some e) \<longrightarrow> WorkflowId e = k \<longrightarrow> p = v"
  shows "resolver_ok res' \<and> assigned res' k = Some v"
proof (cases "res' = res")
  case False
  then obtain p e where pe: "offered ext tr r m bs p = Some (Some e)"
    "res' = res\<lparr>Cache := Mappings_Put (WorkflowId e) p (Cache res)\<rparr>"
    using assms(1) by (auto simp: learns_def)
  then have "assigned res' = (assigned res)(WorkflowId e \<mapsto> p)" "resolver_ok res'"
    using assms(2) by (auto simp: assigned_def resolver_ok_def cache.put_view cache.ok_put)
  then show ?thesis using assms(3,4) pe(1) by auto
qed (use assms in simp)

lemma serve_home:
  assumes "resolver_ok res" "assigned res k = Some v" "v \<noteq> ''''" "safe cfg k v (Serve r ch tr)"
  shows "resolver_ok (snd (proxy_handler (cfg_ext cfg) tr host ch reg r res)) \<and>
    assigned (snd (proxy_handler (cfg_ext cfg) tr host ch reg r res)) k = Some v"
proof -
  consider "dispatch (url_path r) = None" | m where "dispatch (url_path r) = Some m" "is_poll m"
    | m where "dispatch (url_path r) = Some m" "\<not> is_poll m" by fastforce
  then show ?thesis
  proof cases
    case 1
    then show ?thesis using assms by (simp add: proxy_handler_def)
  next
    case 2
    show ?thesis
    proof (cases "req_body r")
      case (Inl err)
      then show ?thesis using 2 assms
        by (auto simp: proxy_handler_def is_poll_def servePollWorkflowTaskQueue_def servePollActivityTaskQueue_def)
    next
      case (Inr bs)
      then show ?thesis using learns_keeps[OF proxy_poll_state[OF 2] assms(1,2)] assms(4) 2 by simp
    qed
  next
    case 3
    show ?thesis
    proof (cases "req_body r")
      case (Inl err)
      then show ?thesis using assms by (simp add: proxy_rewrites[OF 3] snd_forward snd_rewrite_body)
    next
      case (Inr bs)
      then show ?thesis
        using assms(4) 3 rpc_h.handle_ok[OF assms(1)] rpc_h.handle_keeps[OF assms(1-3), where bs = bs and m = m]
        by (simp add: proxy_rewrites[OF 3] snd_forward snd_rewrite_body)
    qed
  qed
qed

lemma tick_view:
  assumes "resolver_ok (sys_resolver s)"
  shows "resolver_ok (sys_resolver (tick cfg keys s))"
    "k \<noteq> registry_key \<Longrightarrow> assigned (sys_resolver (tick cfg keys s)) k = assigned (sys_resolver s) k"
  using assms redis_okD(2)[of "client (Cache (sys_resolver s))"]
  by (auto simp: tick_def resolver_ok_def cache_ok_def assigned_def cache_view_def checkpoint_def Let_def split: sum.splits)

lemma exec_home:
  assumes "resolver_ok (sys_resolver s)" "assigned (sys_resolver s) k = Some v" "v \<noteq> ''''" "k \<noteq> registry_key"
    "safe cfg k v e"
  shows "resolver_ok (sys_resolver (exec cfg e s)) \<and> assigned (sys_resolver (exec cfg e s)) k = Some v"
proof (cases e)
  case (Serve r ch tr)
  then show ?thesis
    using serve_home[OF assms(1-3), of cfg r ch tr] assms(5) by (simp add: serve_def case_prod_beta Let_def)
next
  case (AdminCall r keys)
  then show ?thesis using assms by simp
next
  case (Tick keys)
  then show ?thesis using assms tick_view[OF assms(1)] by simp
qed

lemma run_home:
  assumes "resolver_ok (sys_resolver s)" "assigned (sys_resolver s) k = Some v" "v \<noteq> ''''" "k \<noteq> registry_key"
    "\<forall>e\<in>set es. safe cfg k v e"
  shows "resolver_ok (sys_resolver (fold (exec cfg) es s)) \<and> assigned (sys_resolver (fold (exec cfg) es s)) k = Some v"
  using assms(1,2,5)
proof (induction es arbitrary: s)
  case (Cons e es)
  then have "resolver_ok (sys_resolver (exec cfg e s)) \<and> assigned (sys_resolver (exec cfg e s)) k = Some v"
    using assms(3,4) by (intro exec_home) auto
  with Cons show ?case by simp
qed simp

lemma payload_not_poll: "request_payload ext m bs = Some p \<Longrightarrow> \<not> is_poll m"
  by (cases m) (auto simp: is_poll_def)

text \<open>A request that resolves to \<open>v\<close> is forwarded to the cluster of \<open>v\<close>.\<close>

lemma serve_resolved:
  assumes "fst (fst (Resolver_Resolve (ext_sum32 (cfg_ext cfg)) p (sys_registry s) (sys_resolver s))) = v"
    "parsePhysicalNamespace v = Ret ns" "ns_address ns \<noteq> ''''"
    "dispatch (url_path r) = Some m" "req_body r = Inr bs" "request_payload (cfg_ext cfg) m bs = Some p"
  shows "\<exists>r'. fst (serve cfg r ch tr s) = Ret (Forwarded r') \<and>
    url_scheme r' = ''http'' \<and> url_host r' = ns_address ns \<and> req_host r' = ns_address ns \<and> url_path r' = url_path r \<and>
    req_body r' = (case renamed (cfg_ext cfg) m bs (ns_name ns) of Inl _ \<Rightarrow> Inr bs | Inr pb \<Rightarrow> Inr (frame pb))"
proof -
  let ?h = "rpc_handler (cfg_ext cfg) m r bs (sys_registry s) (sys_resolver s)"
  from rpc_h.handle_target[OF assms(6,1,2), of r]
  obtain out r' where h: "fst ?h = Ret out" "fst (snd ?h) = r'" "url_host r' = ns_address ns" "req_host r' = ns_address ns"
    "url_path r' = url_path r" "case renamed (cfg_ext cfg) m bs (ns_name ns) of Inl err \<Rightarrow> \<exists>e. out = Inl e
      | Inr pb \<Rightarrow> out = Inr (frame pb) \<and> ContentLength r' = -1 \<and> req_header r' ''Content-Length'' = None"
    by blast
  then have "?h = (Ret out, r', snd (snd ?h))" by (metis prod.collapse)
  then show ?thesis using h assms(3,5)
    by (auto simp: serve_def proxy_rewrites[OF assms(4) payload_not_poll[OF assms(6)]] rewrite_body_def forward_def
        Director_def case_prod_beta split: sum.splits)
qed

lemma serve_state:
  assumes "dispatch (url_path r) = Some m" "req_body r = Inr bs" "request_payload (cfg_ext cfg) m bs = Some p"
  shows "snd (serve cfg r ch tr s) = s\<lparr>sys_resolver := after_resolve (cfg_ext cfg) m bs (WorkflowID p)
    (snd (Resolver_Resolve (ext_sum32 (cfg_ext cfg)) p (sys_registry s) (sys_resolver s)))\<rparr>"
  using rpc_h.handle_state[of "cfg_ext cfg" m r bs "sys_registry s" "sys_resolver s"] assms
  by (simp add: serve_def proxy_rewrites[OF assms(1) payload_not_poll[OF assms(3)]] snd_forward snd_rewrite_body case_prod_beta)

text \<open>A request about a workflow without an assignment goes to an active physical namespace, which is then assigned.\<close>

lemma serve_uncached:
  assumes "resolver_ok (sys_resolver s)" "reg_full (ext_sum32 (cfg_ext cfg)) S (sys_registry s)"
    and "dispatch (url_path r) = Some m" "req_body r = Inr bs" "request_payload (cfg_ext cfg) m bs = Some p"
    and "uncached (sys_resolver s) (WorkflowID p)"
    and "reg_statuses (sys_registry s) (VirtualNamespaceName p) = Some tbl" "\<exists>q. tbl q = Some NamespaceActive"
    and "\<forall>q. tbl q = Some NamespaceActive \<longrightarrow> (\<exists>ns. parsePhysicalNamespace q = Ret ns \<and> ns_address ns \<noteq> '''')"
  shows "\<exists>q ns r'. tbl q = Some NamespaceActive \<and> parsePhysicalNamespace q = Ret ns \<and>
    fst (serve cfg r ch tr s) = Ret (Forwarded r') \<and> url_host r' = ns_address ns \<and>
    req_body r' = (case renamed (cfg_ext cfg) m bs (ns_name ns) of Inl _ \<Rightarrow> Inr bs | Inr pb \<Rightarrow> Inr (frame pb)) \<and>
    assigned (sys_resolver (snd (serve cfg r ch tr s))) = (assigned (sys_resolver s))
      (WorkflowID p := if completes (cfg_ext cfg) m bs then None else Some q)"
proof -
  let ?R = "Resolver_Resolve (ext_sum32 (cfg_ext cfg)) p (sys_registry s) (sys_resolver s)"
  obtain a where a: "reg_namespaces (sys_registry s) (VirtualNamespaceName p) = Some a"
    "tbl = vn_Namespaces (deref a (sys_registry s))" using assms(7) by (auto simp: reg_statuses_def)
  define q where "q = GetSlot (ext_sum32 (cfg_ext cfg)) (WorkflowID p) (vn_Ring (deref a (sys_registry s)))"
  note miss = Resolve_miss[OF assms(1,6) a(1) q_def]
  have "vn_full (ext_sum32 (cfg_ext cfg)) S (deref a (sys_registry s))" using assms(2) a(1) by (simp add: reg_full_def)
  moreover have "vn_active (deref a (sys_registry s)) \<noteq> {}" using assms(8) a(2) by (auto simp: vn_active_def)
  ultimately have act: "tbl q = Some NamespaceActive"
    using vns.route_active[of _ S _ "WorkflowID p"] a(2) by (simp add: vn_active_def q_def)
  then obtain ns where ns: "parsePhysicalNamespace q = Ret ns" "ns_address ns \<noteq> ''''"
    using assms(9) by blast
  have "fst (fst ?R) = q" using miss(1) by simp
  from serve_resolved[OF this ns assms(3-5), of ch tr] obtain r' where "fst (serve cfg r ch tr s) = Ret (Forwarded r')"
    "url_host r' = ns_address ns"
    "req_body r' = (case renamed (cfg_ext cfg) m bs (ns_name ns) of Inl _ \<Rightarrow> Inr bs | Inr pb \<Rightarrow> Inr (frame pb))"
    by blast
  moreover have "assigned (sys_resolver (snd (serve cfg r ch tr s))) = (assigned (sys_resolver s))
      (WorkflowID p := if completes (cfg_ext cfg) m bs then None else Some q)"
    using after_resolve_view[OF assms(5) Resolve_ok[OF assms(1)], of "WorkflowID p"] miss(2)
    by (simp add: serve_state[OF assms(3-5)])
  ultimately show ?thesis using act ns(1) by blast
qed

section \<open>An example\<close>

definition example_config :: config where
  "example_config = \<lparr>cfg_ext = example_ext, cfg_defaultHost = ''default'',
     cfg_json = \<lparr>decode_create = (\<lambda>_. Inl (Errorf ''EOF'')), decode_manage = (\<lambda>_. Inl (Errorf ''EOF'')), encode_get = (\<lambda>_ _. [])\<rparr>,
     cfg_metrics = id, cfg_marshal = (\<lambda>_. Inl (Errorf ''unsupported''))\<rparr>"

definition example_system :: "(string \<times> string) list \<Rightarrow> (string \<times> string) list system" where
  "example_system w = \<lparr>sys_registry = example_registry, sys_resolver = example_resolver w\<rparr>"

definition rpc_request :: "rpc \<Rightarrow> string \<Rightarrow> string \<Rightarrow> http_request" where
  "rpc_request m a b = example_request (service_path (rpc_name m)) (example_body a b)"

lemma example_config_simps [simp]:
  "cfg_ext example_config = example_ext" "cfg_defaultHost example_config = ''default''"
  "sys_registry (example_system w) = example_registry" "sys_resolver (example_system w) = example_resolver w"
  "req_body (rpc_request m a b) = Inr (example_body a b)"
  "ext_sum32 example_ext = first_byte"
  by (simp_all add: example_config_def example_system_def rpc_request_def example_request_def example_ext_def)

lemma example_dispatch [simp]: "dispatch (url_path (rpc_request m a b)) = Some m"
proof -
  have "dispatch (service_path (rpc_name m)) = Some m" by (cases m; simp only:; code_simp)
  then show ?thesis by (simp add: rpc_request_def example_request_def)
qed

definition example_choices :: choices where
  "example_choices = \<lparr>ch_keys = [], ch_arrival = id, ch_trailers = (\<lambda>_. []), ch_trailers' = (\<lambda>_. [])\<rparr>"

lemma decode_pair:
  "length a < 256 \<Longrightarrow> decode gz (pair_codec mk f g) (example_body a b) = Some (mk a b)"
  using Unmarshal_pair[of a mk f g b] by (simp add: decode_def extractPayload_example)

lemma example_decoded:
  "length a < 256 \<Longrightarrow> decode gz (c_start example_ext) (example_body a b) =
     Some \<lparr>start_Namespace = a, start_WorkflowId = b, start_other = []\<rparr>"
  "length a < 256 \<Longrightarrow> decode gz (c_signal example_ext) (example_body a b) =
     Some \<lparr>signal_Namespace = a, signal_WorkflowExecution = Some \<lparr>WorkflowId = b, exec_other = []\<rparr>, signal_other = []\<rparr>"
  "length a < 256 \<Longrightarrow> decode gz (c_rwt example_ext) (example_body a b) =
     Some \<lparr>rwt_Namespace = a, rwt_TaskToken = [], rwt_ResourceId = b,
         rwt_Commands = [COMMAND_TYPE_COMPLETE_WORKFLOW_EXECUTION], rwt_other = []\<rparr>"
  by (simp_all add: example_ext_def decode_pair)

lemma example_payloads:
  "length a < 256 \<Longrightarrow> request_payload example_ext SignalWorkflowExecution (example_body a b) =
     Some \<lparr>WorkflowID = b, VirtualNamespaceName = a\<rparr>"
  "length a < 256 \<Longrightarrow> request_payload example_ext RespondWorkflowTaskCompleted (example_body a b) =
     Some \<lparr>WorkflowID = b, VirtualNamespaceName = a\<rparr>"
proof -
  have "token_id [] b = Ret b" using token_loop_reads[of "[]" "[]" "[]"]
    by (simp add: token_id_def enc_token_def extractWorkflowIDFromTaskToken_def)
  then show "length a < 256 \<Longrightarrow> request_payload example_ext SignalWorkflowExecution (example_body a b) =
     Some \<lparr>WorkflowID = b, VirtualNamespaceName = a\<rparr>"
  "length a < 256 \<Longrightarrow> request_payload example_ext RespondWorkflowTaskCompleted (example_body a b) =
     Some \<lparr>WorkflowID = b, VirtualNamespaceName = a\<rparr>"
    by (simp_all add: example_decoded GetWorkflowId_def returned_def)
qed

lemma example_completes: "length a < 256 \<Longrightarrow> completes example_ext RespondWorkflowTaskCompleted (example_body a b)"
  by (simp add: completes_def example_decoded)

section \<open>Requests that are not understood\<close>

definition not_understood :: "config \<Rightarrow> http_request \<Rightarrow> bool" where
  "not_understood cfg r \<longleftrightarrow>
     (case (dispatch (url_path r), req_body r) of
        (Some m, Inr bs) \<Rightarrow> \<exists>err. extractPayload (ext_gunzip (cfg_ext cfg)) bs = Inl err
      | _ \<Rightarrow> True)"

lemma not_understood_rewriting:
  assumes "dispatch (url_path r) = Some m" "\<not> is_poll m"
  shows "req_body r = Inl (pre, err) \<Longrightarrow>
      serve cfg r ch tr s = (Ret (Forwarded (Director (cfg_defaultHost cfg) (r\<lparr>req_body := Inl ([], err)\<rparr>))), s)"
    and "req_body r = Inr bs \<Longrightarrow> extractPayload (ext_gunzip (cfg_ext cfg)) bs = Inl err' \<Longrightarrow>
      serve cfg r ch tr s = (Ret (Forwarded (Director (cfg_defaultHost cfg) r)), s)"
proof -
  show "serve cfg r ch tr s = (Ret (Forwarded (Director (cfg_defaultHost cfg) (r\<lparr>req_body := Inl ([], err)\<rparr>))), s)"
    if "req_body r = Inl (pre, err)"
    using that by (simp add: serve_def proxy_rewrites[OF assms] rewrite_body_def forward_def)
next
  assume bs: "req_body r = Inr bs" and err: "extractPayload (ext_gunzip (cfg_ext cfg)) bs = Inl err'"
  have "rpc_handler (cfg_ext cfg) m r bs (sys_registry s) (sys_resolver s) = (Ret (Inl err'), r, sys_resolver s)"
    using err assms(2) by (cases m) (simp_all add: handler_defs is_poll_def)
  moreover have "r\<lparr>req_body := Inr bs\<rparr> = r" by (cases r) (use bs in simp)
  then have "Director (cfg_defaultHost cfg) (r\<lparr>req_body := Inr bs\<rparr>) = Director (cfg_defaultHost cfg) r" by (rule arg_cong)
  ultimately show "serve cfg r ch tr s = (Ret (Forwarded (Director (cfg_defaultHost cfg) r)), s)"
    using bs by (simp add: serve_def proxy_rewrites[OF assms] rewrite_body_def forward_def)
qed

lemma not_understood_poll:
  assumes "dispatch (url_path r) = Some m" "is_poll m"
  shows "req_body r = Inl x \<Longrightarrow> serve cfg r ch tr s = (Ret (Replied (http_Error ''Error reading request body'' 500 new_writer)), s)"
    and "req_body r = Inr bs \<Longrightarrow> extractPayload (ext_gunzip (cfg_ext cfg)) bs = Inl err \<Longrightarrow>
      serve cfg r ch tr s = (Ret (Replied (http_Error (''failed to extract payload: '' @ error_text err) 500 new_writer)), s)"
  using assms
  by (cases m; simp add: is_poll_def serve_def proxy_handler_def servePollWorkflowTaskQueue_def servePollActivityTaskQueue_def
      ExecutePoll_def ExecutePollActivity_def)+

section \<open>Properties\<close>

text \<open>
  C1: A workflow stays on its cluster. Let a workflow, whose id is not the key the registry is
  stored under (virtual_namespace_registry), be assigned to a physical namespace of a well-formed
  name, and let any requests, admin calls (which may cordon that namespace) and checkpoints be served, as
  long as none completes the workflow and no other cluster hands out a task of it. Then it
  still has that assignment, and a request about it under any of the eight rewriting RPCs is
  forwarded to the assigned cluster's address, with its body rewritten to the physical
  namespace (or unchanged when the message cannot be marshalled again).
\<close>

theorem workflow_stays_on_its_cluster:
  assumes "resolver_ok (sys_resolver s)" "assigned (sys_resolver s) k = Some v" "v \<noteq> ''''" "k \<noteq> registry_key"
    and "\<forall>e\<in>set es. safe cfg k v e"
    and "parsePhysicalNamespace v = Ret ns" "ns_address ns \<noteq> ''''"
    and "dispatch (url_path r) = Some m" "req_body r = Inr bs"
    and "request_payload (cfg_ext cfg) m bs = Some p" "WorkflowID p = k"
  shows "assigned (sys_resolver (fold (exec cfg) es s)) k = Some v \<and>
    (\<exists>r'. fst (serve cfg r ch tr (fold (exec cfg) es s)) = Ret (Forwarded r') \<and>
      url_host r' = ns_address ns \<and> req_host r' = ns_address ns \<and> url_path r' = url_path r \<and>
      req_body r' = (case renamed (cfg_ext cfg) m bs (ns_name ns) of Inl _ \<Rightarrow> Inr bs | Inr pb \<Rightarrow> Inr (frame pb)))"
proof -
  let ?s = "fold (exec cfg) es s"
  have run: "resolver_ok (sys_resolver ?s)" "assigned (sys_resolver ?s) k = Some v"
    using run_home[OF assms(1-5)] by simp_all
  then have "fst (fst (Resolver_Resolve (ext_sum32 (cfg_ext cfg)) p (sys_registry ?s) (sys_resolver ?s))) = v"
    using Resolve_hit(1)[OF run(1) _ assms(3)] assms(11) by simp
  from serve_resolved[OF this assms(6-10)] run(2) show ?thesis by blast
qed

theorem workflow_stays_on_its_cluster_witness:
  "\<exists>r'. fst (serve example_config (rpc_request SignalWorkflowExecution ''vns'' ''wf'') example_choices example_transport
      (fold (exec example_config)
        [Tick (\<lambda>_. []), AdminCall \<lparr>ar_path = ''/metrics'', ar_Method = ''GET'', ar_body = [], ar_name = ''''\<rparr> [],
         Serve (rpc_request SignalWorkflowExecution ''vns'' ''other'') example_choices example_transport] (example_system [(''wf'', ''a::h1'')]))) =
      Ret (Forwarded r') \<and> url_host r' = ''h1''"
proof -
  have "safe example_config ''wf'' ''a::h1'' (Serve (rpc_request SignalWorkflowExecution ''vns'' ''other'') example_choices example_transport)"
    by (simp add: offered_def completes_def)
  moreover have "''wf'' \<noteq> registry_key" by (simp add: registry_key_def)
  ultimately show ?thesis
    using workflow_stays_on_its_cluster[of "example_system [(''wf'', ''a::h1'')]" "''wf''" "''a::h1''"
      "[Tick (\<lambda>_. []), AdminCall \<lparr>ar_path = ''/metrics'', ar_Method = ''GET'', ar_body = [], ar_name = ''''\<rparr> [],
         Serve (rpc_request SignalWorkflowExecution ''vns'' ''other'') example_choices example_transport]" example_config _
      "rpc_request SignalWorkflowExecution ''vns'' ''wf''" SignalWorkflowExecution "example_body ''vns'' ''wf''"
      "\<lparr>WorkflowID = ''wf'', VirtualNamespaceName = ''vns''\<rparr>" example_choices example_transport,
      OF _ _ _ _ _ parse_examples(1)]
    by (auto simp: ns_address_def example_decoded GetWorkflowId_def simp del: fold_simps)
qed

text \<open>
  C2: Starting a workflow that has no assignment. When its virtual namespace has an active physical
  namespace, the names on its ring do not collide, the active ones have well-formed names and the
  renamed message can be marshalled to a non-empty one, the start request is forwarded to the
  cluster of an active one, carrying the same message with the physical namespace in it, and
  the workflow is from then on assigned there, with no other assignment changed.
\<close>

theorem start_goes_to_an_active_namespace:
  assumes "resolver_ok (sys_resolver s)" "reg_full (ext_sum32 (cfg_ext cfg)) S (sys_registry s)"
    and "dispatch (url_path r) = Some StartWorkflowExecution" "req_body r = Inr bs"
    and "decode (ext_gunzip (cfg_ext cfg)) (c_start (cfg_ext cfg)) bs = Some msg"
    and "uncached (sys_resolver s) (start_WorkflowId msg)"
    and "reg_statuses (sys_registry s) (start_Namespace msg) = Some tbl" "\<exists>q. tbl q = Some NamespaceActive"
    and "\<forall>q. tbl q = Some NamespaceActive \<longrightarrow> (\<exists>ns. parsePhysicalNamespace q = Ret ns \<and> ns_address ns \<noteq> '''' \<and>
      (\<exists>pb. Marshal (c_start (cfg_ext cfg)) (msg\<lparr>start_Namespace := ns_name ns\<rparr>) = Inr pb \<and> pb \<noteq> []))"
    and "codec_ok (c_start (cfg_ext cfg))"
  shows "\<exists>q ns r' bs'. tbl q = Some NamespaceActive \<and> parsePhysicalNamespace q = Ret ns \<and>
    fst (serve cfg r ch tr s) = Ret (Forwarded r') \<and> url_host r' = ns_address ns \<and> req_body r' = Inr bs' \<and>
    decode gz (c_start (cfg_ext cfg)) bs' = Some (msg\<lparr>start_Namespace := ns_name ns\<rparr>) \<and>
    assigned (sys_resolver (snd (serve cfg r ch tr s))) = (assigned (sys_resolver s))(start_WorkflowId msg \<mapsto> q)"
proof -
  let ?p = "\<lparr>WorkflowID = start_WorkflowId msg, VirtualNamespaceName = start_Namespace msg\<rparr>"
  have "request_payload (cfg_ext cfg) StartWorkflowExecution bs = Some ?p" using assms(5) by simp
  from serve_uncached[OF assms(1-4) this, of tbl ch tr] assms(6-9) obtain q ns r' where q: "tbl q = Some NamespaceActive"
    "parsePhysicalNamespace q = Ret ns" "fst (serve cfg r ch tr s) = Ret (Forwarded r')" "url_host r' = ns_address ns"
    "req_body r' = (case renamed (cfg_ext cfg) StartWorkflowExecution bs (ns_name ns) of Inl _ \<Rightarrow> Inr bs | Inr pb \<Rightarrow> Inr (frame pb))"
    "assigned (sys_resolver (snd (serve cfg r ch tr s))) = (assigned (sys_resolver s))(start_WorkflowId msg \<mapsto> q)"
    by (fastforce simp: completes_def)
  obtain pb where pb: "Marshal (c_start (cfg_ext cfg)) (msg\<lparr>start_Namespace := ns_name ns\<rparr>) = Inr pb" "pb \<noteq> []"
    using assms(9) q(1,2) by auto
  then have "decode gz (c_start (cfg_ext cfg)) (frame pb) = Some (msg\<lparr>start_Namespace := ns_name ns\<rparr>)"
    using codec_okD[OF assms(10) pb(1)] by (simp add: decode_def extractPayload_frame)
  then show ?thesis using q pb(1) assms(5) by auto
qed

theorem start_goes_to_an_active_namespace_witness:
  "\<exists>q ns r'. parsePhysicalNamespace q = Ret ns \<and>
    fst (serve example_config (rpc_request StartWorkflowExecution ''vns'' ''wf'') example_choices example_transport (example_system [])) =
      Ret (Forwarded r') \<and> url_host r' = ns_address ns \<and>
    assigned (sys_resolver (snd (serve example_config (rpc_request StartWorkflowExecution ''vns'' ''wf'') example_choices example_transport
      (example_system [])))) = [''wf'' \<mapsto> q]"
proof -
  let ?tbl = "[''b::h2'' \<mapsto> NamespaceActive, ''a::h1'' \<mapsto> NamespaceActive]"
  let ?msg = "\<lparr>start_Namespace = ''vns'', start_WorkflowId = ''wf'', start_other = []\<rparr>"
  have full: "reg_full (ext_sum32 (cfg_ext example_config)) {''a::h1'', ''b::h2''} (sys_registry (example_system []))"
    using example_registry_full by simp
  have ok: "codec_ok (c_start (cfg_ext example_config))" by (simp add: example_ext_def pair_codec_ok)
  have act: "\<exists>q. ?tbl q = Some NamespaceActive" by (rule exI[of _ "''a::h1''"]) simp
  have "\<exists>pb. Marshal (c_start example_ext) (?msg\<lparr>start_Namespace := n\<rparr>) = Inr pb \<and> pb \<noteq> []" if "length n < 256" for n
    using that by (simp add: example_ext_def pair_codec_def)
  then have names: "\<forall>q. ?tbl q = Some NamespaceActive \<longrightarrow> (\<exists>ns. parsePhysicalNamespace q = Ret ns \<and> ns_address ns \<noteq> '''' \<and>
      (\<exists>pb. Marshal (c_start (cfg_ext example_config)) (?msg\<lparr>start_Namespace := ns_name ns\<rparr>) = Inr pb \<and> pb \<noteq> []))"
    by (auto simp: parse_examples ns_address_def split: if_splits)
  have "uncached (example_resolver []) ''wf''" by (simp add: uncached_def)
  then show ?thesis
    using start_goes_to_an_active_namespace[OF _ full, of "rpc_request StartWorkflowExecution ''vns'' ''wf''" _ ?msg ?tbl
        example_choices example_transport Unzipped, OF _ _ _ _ _ _ act names ok]
    by (auto simp: example_decoded example_registry_statuses)
qed

text \<open>
  C3: Completing a workflow. A task completion that carries the complete-workflow command is still
  forwarded to the cluster the workflow was assigned to, and the assignment is gone afterwards
  (all others stay), so the id may be placed anew.
\<close>

theorem completion_releases_the_workflow:
  assumes "resolver_ok (sys_resolver s)" "assigned (sys_resolver s) (WorkflowID p) = Some v" "v \<noteq> ''''"
    and "parsePhysicalNamespace v = Ret ns" "ns_address ns \<noteq> ''''"
    and "dispatch (url_path r) = Some m" "req_body r = Inr bs"
    and "request_payload (cfg_ext cfg) m bs = Some p" "completes (cfg_ext cfg) m bs"
  shows "(\<exists>r'. fst (serve cfg r ch tr s) = Ret (Forwarded r') \<and> url_host r' = ns_address ns) \<and>
    assigned (sys_resolver (snd (serve cfg r ch tr s))) = (assigned (sys_resolver s))(WorkflowID p := None) \<and>
    uncached (sys_resolver (snd (serve cfg r ch tr s))) (WorkflowID p)"
proof -
  note hit = Resolve_hit[OF assms(1-3), of "ext_sum32 (cfg_ext cfg)" "sys_registry s"]
  have "fst (fst (Resolver_Resolve (ext_sum32 (cfg_ext cfg)) p (sys_registry s) (sys_resolver s))) = v"
    using hit(1) by simp
  from serve_resolved[OF this assms(4-8), of ch tr]
  have "\<exists>r'. fst (serve cfg r ch tr s) = Ret (Forwarded r') \<and> url_host r' = ns_address ns" by blast
  moreover have "assigned (sys_resolver (snd (serve cfg r ch tr s))) = (assigned (sys_resolver s))(WorkflowID p := None)"
    using after_resolve_view[OF assms(8) Resolve_ok[OF assms(1)], of "WorkflowID p"] hit(2) assms(9)
    by (simp add: serve_state[OF assms(6-8)])
  ultimately show ?thesis by (simp add: uncached_def)
qed

theorem completion_releases_the_workflow_witness:
  "assigned (sys_resolver (snd (serve example_config (rpc_request RespondWorkflowTaskCompleted ''vns'' ''wf'') example_choices
     example_transport (example_system [(''wf'', ''a::h1''), (''other'', ''b::h2'')])))) = [''other'' \<mapsto> ''b::h2'']"
  using completion_releases_the_workflow[of "example_system [(''wf'', ''a::h1''), (''other'', ''b::h2'')]"
      "\<lparr>WorkflowID = ''wf'', VirtualNamespaceName = ''vns''\<rparr>" "''a::h1''" _
      "rpc_request RespondWorkflowTaskCompleted ''vns'' ''wf''" RespondWorkflowTaskCompleted "example_body ''vns'' ''wf''"
      example_config example_choices example_transport, OF _ _ _ parse_examples(1)]
    example_payloads(2)[of "''vns''" "''wf''"] example_completes[of "''vns''" "''wf''"]
  by (auto simp: ns_address_def fun_eq_iff simp del: request_payload.simps)

text \<open>
  C30: A request for a virtual namespace the registry does not know, about a workflow without an
  assignment, makes the handler panic for every rewriting RPC: nothing is forwarded, and the
  assignments are as before.
\<close>

theorem unknown_virtual_namespace_panics:
  assumes "resolver_ok (sys_resolver s)" "uncached (sys_resolver s) (WorkflowID p)"
    and "reg_namespaces (sys_registry s) (VirtualNamespaceName p) = None"
    and "dispatch (url_path r) = Some m" "req_body r = Inr bs"
    and "request_payload (cfg_ext cfg) m bs = Some p"
  shows "is_panic (fst (serve cfg r ch tr s)) \<and>
    assigned (sys_resolver (snd (serve cfg r ch tr s))) =
      (if completes (cfg_ext cfg) m bs then (assigned (sys_resolver s))(WorkflowID p := None) else assigned (sys_resolver s))"
proof -
  let ?h = "rpc_handler (cfg_ext cfg) m r bs (sys_registry s) (sys_resolver s)"
  note miss = Resolve_miss_unknown[OF assms(1-3), of "ext_sum32 (cfg_ext cfg)"]
  obtain msg where panic: "parsePhysicalNamespace '''' = Panic msg"
    using parse_panics_iff[of "''''"] is_panic_iff by (auto simp: Contains_iff_sublist)
  have "fst ?h = Panic msg" using rpc_h.handle_panics[OF assms(6) _ panic, where res = "sys_resolver s" and reg = "sys_registry s" and r = r] miss(1) by simp
  then obtain r' res' where "?h = (Panic msg, r', res')" by (metis prod.collapse)
  then have "fst (serve cfg r ch tr s) = Panic msg" using assms(5)
    by (simp add: serve_def proxy_rewrites[OF assms(4) payload_not_poll[OF assms(6)]] rewrite_body_def forward_def
        case_prod_beta)
  moreover have "assigned (sys_resolver (snd (serve cfg r ch tr s))) =
      (if completes (cfg_ext cfg) m bs then (assigned (sys_resolver s))(WorkflowID p := None) else assigned (sys_resolver s))"
    using after_resolve_view[OF assms(6) Resolve_ok[OF assms(1)], of "WorkflowID p"] miss(2)
    by (simp add: serve_state[OF assms(4-6)])
  ultimately show ?thesis by simp
qed

theorem unknown_virtual_namespace_panics_witness:
  "is_panic (fst (serve example_config (rpc_request SignalWorkflowExecution ''nowhere'' ''wf'') example_choices example_transport
     (example_system [])))"
proof -
  have "reg_namespaces example_registry ''nowhere'' = None" by (simp add: example_registry_def empty_registry_def alloc_def)
  moreover have "uncached (example_resolver []) ''wf''" by (simp add: uncached_def)
  ultimately show ?thesis
    using unknown_virtual_namespace_panics[of "example_system []" "\<lparr>WorkflowID = ''wf'', VirtualNamespaceName = ''nowhere''\<rparr>"
      "rpc_request SignalWorkflowExecution ''nowhere'' ''wf''" SignalWorkflowExecution "example_body ''nowhere'' ''wf''" example_config
      example_choices example_transport] example_payloads(1)[of "''nowhere''" "''wf''"]
    by (simp del: request_payload.simps)
qed

text \<open>
  C31: What becomes of a request that the proxy does not understand; the cache and the registry never change. When its path names none of
  the ten RPCs it goes out as the director leaves it; updates are among these, although the README says that they are routed to the
  cluster of their workflow. Under a rewriting RPC a body that is no gRPC frame goes out as it came, and of a body that fails
  while it is read nothing but the failure is left to go out. Under the two polls either is answered with status 500 and the error.
\<close>

theorem not_understood_requests:
  assumes "not_understood cfg r"
  shows "serve cfg r ch tr s = (Ret
    (case (dispatch (url_path r), req_body r) of
       (None, _) \<Rightarrow> Forwarded (Director (cfg_defaultHost cfg) r)
     | (Some m, Inl (_, err)) \<Rightarrow>
         if is_poll m then Replied (http_Error ''Error reading request body'' 500 new_writer)
         else Forwarded (Director (cfg_defaultHost cfg) (r\<lparr>req_body := Inl ([], err)\<rparr>))
     | (Some m, Inr bs) \<Rightarrow>
         if is_poll m
         then Replied (http_Error (''failed to extract payload: '' @ error_text (projl (extractPayload (ext_gunzip (cfg_ext cfg)) bs))) 500 new_writer)
         else Forwarded (Director (cfg_defaultHost cfg) r)), s) \<and>
    (url_path r = service_path ''UpdateWorkflowExecution'' \<longrightarrow> dispatch (url_path r) = None)"
proof -
  have "dispatch (service_path ''UpdateWorkflowExecution'') = None"
    by code_simp
  moreover have "serve cfg r ch tr s = (Ret (Forwarded (Director (cfg_defaultHost cfg) r)), s)" if "dispatch (url_path r) = None"
    using that by (simp add: serve_def proxy_handler_def)
  ultimately show ?thesis
    using assms not_understood_rewriting[where r = r and cfg = cfg and ch = ch and tr = tr and s = s]
      not_understood_poll[where r = r and cfg = cfg and ch = ch and tr = tr and s = s]
    by (auto simp: not_understood_def split: option.splits sum.splits if_splits)
qed

theorem not_understood_requests_witness:
  "serve example_config (example_request ''/favicon.ico'' [1, 2]) example_choices example_transport (example_system []) =
     (Ret (Forwarded (Director ''default'' (example_request ''/favicon.ico'' [1, 2]))), example_system []) \<and>
   serve example_config (example_request (service_path ''PollWorkflowTaskQueue'') [1, 2]) example_choices example_transport (example_system []) =
     (Ret (Replied (http_Error ''failed to extract payload: payload too short to be valid gRPC'' 500 new_writer)), example_system [])"
proof -
  let ?icon = "example_request ''/favicon.ico'' [1, 2]" and ?poll = "example_request (service_path ''PollWorkflowTaskQueue'') [1, 2]"
  have paths: "dispatch (url_path ?icon) = None" "dispatch (url_path ?poll) = Some PollWorkflowTaskQueue"
    by (simp only: example_request_def http_request.simps, code_simp)+
  have bodies: "req_body ?poll = Inr [1, 2]"
    by (simp add: example_request_def)
  have "extractPayload (ext_gunzip (cfg_ext example_config)) [1, 2] = Inl (Errorf ''payload too short to be valid gRPC'')"
    by (simp add: extractPayload_def)
  then show ?thesis
    using not_understood_requests[of example_config ?icon example_choices example_transport "example_system []"]
      not_understood_requests[of example_config ?poll example_choices example_transport "example_system []"] paths bodies
    by (simp add: not_understood_def is_poll_def)
qed

end
