(* ===== verification/ResolverRace.thy ===== *)
theory ResolverRace
  imports Resolver Admin
begin

text \<open>
  Concurrent calls of \<^verbatim>\<open>Resolver.Resolve\<close>. The HTTP server runs a goroutine per request, and \<^verbatim>\<open>Resolve\<close> holds no
  lock: Redis serialises its commands, the registry and the ring lock their own methods, the Prometheus counter is
  atomic, and between these calls other goroutines run. A call is a program counter over the atomic calls it makes; a
  step of the system is a step of one call, or an admin request.
\<close>

section \<open>A call in steps\<close>

datatype resolve_pc = At_get | At_registry | At_ring nat | At_count string | At_put string | Returned string bool

fun call_step ::
    "hash_fun \<Rightarrow> VirtualNamespaceRegistry \<Rightarrow> Payload \<Rightarrow> resolve_pc \<Rightarrow> 'w Resolver \<Rightarrow> resolve_pc \<times> 'w Resolver" where
  "call_step sum32 registry payload At_get r =
     (let (physNs, cache) = Mappings_Get (WorkflowID payload) (Cache r)
      in (if physNs \<noteq> '''' then Returned physNs True else At_registry, r\<lparr>Cache := cache\<rparr>))"
| "call_step sum32 registry payload At_registry r =
     (case Registry_Resolve (VirtualNamespaceName payload) registry of
        None \<Rightarrow> (Returned '''' False, r)
      | Some virtualNamespace \<Rightarrow> (At_ring virtualNamespace, r))"
| "call_step sum32 registry payload (At_ring virtualNamespace) r =
     (At_count (GetSlot sum32 (WorkflowID payload) (vn_Ring (deref virtualNamespace registry))), r)"
| "call_step sum32 registry payload (At_count physNs) r =
     (At_put physNs,
      r\<lparr>totalWorkflowAllocated := (totalWorkflowAllocated r)(physNs := totalWorkflowAllocated r physNs + 1)\<rparr>)"
| "call_step sum32 registry payload (At_put physNs) r =
     (Returned physNs False, r\<lparr>Cache := Mappings_Put (WorkflowID payload) physNs (Cache r)\<rparr>)"
| "call_step sum32 registry payload (Returned physNs hit) r = (Returned physNs hit, r)"

fun returned :: "resolve_pc \<Rightarrow> bool" where
  "returned (Returned _ _) = True"
| "returned _ = False"

text \<open>A call that is not interrupted is the sequential resolve.\<close>

definition run_alone ::
    "hash_fun \<Rightarrow> VirtualNamespaceRegistry \<Rightarrow> Payload \<Rightarrow> resolve_pc \<times> 'w Resolver \<Rightarrow> resolve_pc \<times> 'w Resolver" where
  "run_alone sum32 registry payload = (\<lambda>(pc, r). call_step sum32 registry payload pc r)"

lemma run_alone_Returned: "(run_alone sum32 registry p ^^ n) (Returned x b, r) = (Returned x b, r)"
  by (induction n) (simp_all add: run_alone_def)

lemma call_alone:
  "(run_alone sum32 registry p ^^ 5) (At_get, r) =
     (case Resolver_Resolve sum32 p registry r of ((physNs, hit), r') \<Rightarrow> (Returned physNs hit, r'))"
proof -
  obtain v c where g: "Mappings_Get (WorkflowID p) (Cache r) = (v, c)"
    by fastforce
  have steps: "(f ^^ 5) x = f (f (f (f (f x))))" for f :: "'x \<Rightarrow> 'x" and x
    by (simp add: numeral_eq_Suc)
  show ?thesis
    unfolding steps by (cases "v = ''''"; cases "Registry_Resolve (VirtualNamespaceName p) registry")
      (simp_all add: run_alone_def Resolver_Resolve_def g Let_def)
qed

section \<open>Many calls\<close>

record 'w race =
  race_resolver :: "'w Resolver"
  race_registry :: VirtualNamespaceRegistry
  calls :: "(Payload \<times> resolve_pc) list"

definition start_race :: "'w Resolver \<Rightarrow> VirtualNamespaceRegistry \<Rightarrow> Payload list \<Rightarrow> 'w race" where
  "start_race r reg ps = \<lparr>race_resolver = r, race_registry = reg, calls = map (\<lambda>p. (p, At_get)) ps\<rparr>"

inductive calls_step :: "hash_fun \<Rightarrow> 'w race \<Rightarrow> 'w race \<Rightarrow> bool" for sum32 where
  call: "i < length (calls s) \<Longrightarrow> calls s ! i = (p, pc) \<Longrightarrow> \<not> returned pc \<Longrightarrow>
    call_step sum32 (race_registry s) p pc (race_resolver s) = (pc', r') \<Longrightarrow>
    calls_step sum32 s (s\<lparr>race_resolver := r', calls := (calls s)[i := (p, pc')]\<rparr>)"

inductive race_step :: "hash_fun \<Rightarrow> json \<Rightarrow> 'w race \<Rightarrow> 'w race \<Rightarrow> bool" for sum32 js where
  request: "calls_step sum32 s s' \<Longrightarrow> race_step sum32 js s s'"
| admin: "admin_handler sum32 js metrics keys rq (race_registry s) = (out, reg') \<Longrightarrow>
    race_step sum32 js s (s\<lparr>race_registry := reg'\<rparr>)"

inductive_cases calls_stepE: "calls_step sum32 s s'"

section \<open>Calls on a registry that does not change\<close>

text \<open>\<open>home\<close> is what a resolve alone would answer.\<close>

definition home :: "hash_fun \<Rightarrow> 'w Resolver \<Rightarrow> VirtualNamespaceRegistry \<Rightarrow> Payload \<Rightarrow> string" where
  "home sum32 r reg p = fst (fst (Resolver_Resolve sum32 p reg r))"

lemma home_cases:
  assumes "resolver_ok r"
  shows "\<not> uncached r (WorkflowID p) \<Longrightarrow> assigned r (WorkflowID p) = Some (home sum32 r reg p) \<and> home sum32 r reg p \<noteq> ''''"
    and "uncached r (WorkflowID p) \<Longrightarrow> reg_namespaces reg (VirtualNamespaceName p) = None \<Longrightarrow> home sum32 r reg p = ''''"
    and "uncached r (WorkflowID p) \<Longrightarrow> reg_namespaces reg (VirtualNamespaceName p) = Some a \<Longrightarrow>
      home sum32 r reg p = GetSlot sum32 (WorkflowID p) (vn_Ring (deref a reg))"
  using Resolve_hit(1)[OF assms] Resolve_miss_unknown(1)[OF assms] Resolve_miss(1)[OF assms _ _ refl]
  by (auto simp: home_def uncached_def)

lemma payload_eqI: "WorkflowID p = WorkflowID q \<Longrightarrow> VirtualNamespaceName p = VirtualNamespaceName q \<Longrightarrow> p = (q :: Payload)"
  by (cases p; cases q) simp

text \<open>What each call knows, and what the cache may hold.\<close>

fun pc_ok :: "hash_fun \<Rightarrow> 'w Resolver \<Rightarrow> VirtualNamespaceRegistry \<Rightarrow> (string \<rightharpoonup> string) \<Rightarrow> Payload \<times> resolve_pc \<Rightarrow> bool" where
  "pc_ok sum32 r reg now (p, At_get) = True"
| "pc_ok sum32 r reg now (p, At_registry) = uncached r (WorkflowID p)"
| "pc_ok sum32 r reg now (p, At_ring a) =
     (uncached r (WorkflowID p) \<and> reg_namespaces reg (VirtualNamespaceName p) = Some a)"
| "pc_ok sum32 r reg now (p, At_count x) = (x = home sum32 r reg p)"
| "pc_ok sum32 r reg now (p, At_put x) = (x = home sum32 r reg p)"
| "pc_ok sum32 r reg now (p, Returned x b) =
     (x = home sum32 r reg p \<and> (x \<noteq> '''' \<longrightarrow> now (WorkflowID p) = Some x))"

definition race_inv :: "hash_fun \<Rightarrow> 'w Resolver \<Rightarrow> VirtualNamespaceRegistry \<Rightarrow> Payload list \<Rightarrow> 'w race \<Rightarrow> bool" where
  "race_inv sum32 r reg ps s \<longleftrightarrow>
     race_registry s = reg \<and> resolver_ok (race_resolver s) \<and> map fst (calls s) = ps \<and>
     (\<forall>p\<in>set ps. assigned (race_resolver s) (WorkflowID p) \<in> {assigned r (WorkflowID p), Some (home sum32 r reg p)}) \<and>
     (\<forall>c\<in>set (calls s). pc_ok sum32 r reg (assigned (race_resolver s)) c)"

lemma race_inv_start: "resolver_ok r \<Longrightarrow> race_inv sum32 r reg ps (start_race r reg ps)"
  by (auto simp: race_inv_def start_race_def comp_def)

text \<open>The cache after a step: the same, except for a write of the answer of the call.\<close>

lemma call_step_cache:
  assumes "resolver_ok r" "call_step sum32 reg p pc r = (pc', r')"
  shows "resolver_ok r'"
    "assigned r' = (case pc of At_put x \<Rightarrow> (assigned r)(WorkflowID p \<mapsto> x) | _ \<Rightarrow> assigned r)"
proof -
  obtain v c where g: "Mappings_Get (WorkflowID p) (Cache r) = (v, c)"
    by fastforce
  have ok: "cache_ok (Cache r)"
    using assms(1) by (simp add: resolver_ok_def)
  have get: "cache_ok c" "cache_view c = cache_view (Cache r)"
    using cache.ok_get[OF ok, of "WorkflowID p"] cache.get_view[OF ok, of "WorkflowID p"] by (simp_all add: g)
  have put: "cache_ok (Mappings_Put k x (Cache r))" "cache_view (Mappings_Put k x (Cache r)) = (cache_view (Cache r))(k \<mapsto> x)" for k x
    by (simp_all add: cache.ok_put cache.put_view ok)
  show "resolver_ok r'"
    using assms(2) ok get(1) put(1) by (cases pc) (auto simp: resolver_ok_def g split: option.splits)
  show "assigned r' = (case pc of At_put x \<Rightarrow> (assigned r)(WorkflowID p \<mapsto> x) | _ \<Rightarrow> assigned r)"
    using assms(2) get(2) put(2) by (cases pc) (auto simp: assigned_def g split: option.splits)
qed

lemma call_step_pc:
  assumes "resolver_ok r0" "resolver_ok r" "call_step sum32 reg p pc r = (pc', r')"
    and "assigned r (WorkflowID p) \<in> {assigned r0 (WorkflowID p), Some (home sum32 r0 reg p)}"
    and "pc_ok sum32 r0 reg (assigned r) (p, pc)"
  shows "pc_ok sum32 r0 reg (assigned r') (p, pc')"
proof (cases pc)
  case At_get
  have get: "fst (Mappings_Get (WorkflowID p) (Cache r)) = (case assigned r (WorkflowID p) of None \<Rightarrow> '''' | Some v \<Rightarrow> v)"
    using cache.get_value[of "Cache r" "WorkflowID p"] assms(2) by (simp add: resolver_ok_def assigned_def)
  have now: "assigned r' = assigned r"
    using call_step_cache(2)[OF assms(2,3)] At_get by simp
  have seen: "assigned r (WorkflowID p) = Some (home sum32 r0 reg p) \<and> home sum32 r0 reg p \<noteq> ''''"
    if "\<not> uncached r0 (WorkflowID p)"
    using home_cases(1)[OF assms(1) that, of sum32 reg] assms(4) by simp
  obtain v c where g: "Mappings_Get (WorkflowID p) (Cache r) = (v, c)"
    by fastforce
  show ?thesis
  proof (cases "v = ''''")
    case True
    then have "uncached r0 (WorkflowID p)"
      using seen get g by fastforce
    then show ?thesis
      using At_get assms(3) True g by auto
  next
    case False
    then have v: "assigned r (WorkflowID p) = Some v"
      using get g by (simp split: option.splits)
    then have "v = home sum32 r0 reg p"
      using False assms(4) seen by (cases "uncached r0 (WorkflowID p)") (auto simp: uncached_def)
    then show ?thesis
      using At_get assms(3) False g v now by auto
  qed
next
  case (At_put x)
  then show ?thesis
    using assms(3,5) call_step_cache(2)[OF assms(2,3)] by auto
qed (use assms(3,5) home_cases(2,3)[OF assms(1), of p] in \<open>auto simp: Registry_Resolve_def split: option.splits\<close>)

definition ids_consistent :: "Payload list \<Rightarrow> bool" where
  "ids_consistent ps \<longleftrightarrow>
     (\<forall>p\<in>set ps. \<forall>q\<in>set ps. WorkflowID p = WorkflowID q \<longrightarrow> VirtualNamespaceName p = VirtualNamespaceName q)"

lemma ids_consistentD: "ids_consistent ps \<Longrightarrow> p \<in> set ps \<Longrightarrow> q \<in> set ps \<Longrightarrow> WorkflowID p = WorkflowID q \<Longrightarrow> p = q"
  unfolding ids_consistent_def by (blast intro: payload_eqI)

text \<open>A write of the right answer disturbs no other call.\<close>

lemma pc_ok_frame:
  assumes "pc_ok sum32 r reg now (q, pc)" "WorkflowID p = WorkflowID q \<longrightarrow> p = q"
  shows "pc_ok sum32 r reg (now(WorkflowID p \<mapsto> home sum32 r reg p)) (q, pc)"
  using assms by (cases pc) auto

lemma race_inv_step:
  assumes "calls_step sum32 s s'" "race_inv sum32 r reg ps s" "resolver_ok r" "ids_consistent ps"
  shows "race_inv sum32 r reg ps s'"
  using assms(1)
proof cases
  case (call i p pc pc' r')
  let ?now = "assigned (race_resolver s)"
  have reg: "race_registry s = reg" and ok: "resolver_ok (race_resolver s)" and fsts: "map fst (calls s) = ps"
    and views: "\<forall>q\<in>set ps. ?now (WorkflowID q) \<in> {assigned r (WorkflowID q), Some (home sum32 r reg q)}"
    and pcs: "\<forall>c\<in>set (calls s). pc_ok sum32 r reg ?now c"
    using assms(2) by (simp_all add: race_inv_def)
  have mem: "(p, pc) \<in> set (calls s)"
    using call(2,3) nth_mem by metis
  then have p: "p \<in> set ps" and pc: "pc_ok sum32 r reg ?now (p, pc)"
    using fsts by (metis fst_conv image_eqI set_map) (use mem pcs in blast)
  note step = call_step_cache[OF ok call(5)[unfolded reg]]
  have pc': "pc_ok sum32 r reg (assigned r') (p, pc')"
    by (rule call_step_pc[OF assms(3) ok call(5)[unfolded reg] bspec[OF views p] pc])
  have now': "assigned r' = ?now \<or> assigned r' = ?now(WorkflowID p \<mapsto> home sum32 r reg p)"
    using step(2) pc by (cases pc) simp_all
  have same: "WorkflowID p = WorkflowID q \<longrightarrow> p = q" if "q \<in> set ps" for q
    using ids_consistentD[OF assms(4) p that] by blast
  have old: "pc_ok sum32 r reg (assigned r') c" if "c \<in> set (calls s)" for c
  proof -
    obtain q k where c: "c = (q, k)"
      by fastforce
    moreover have "q \<in> set ps"
      using that c fsts by (metis fst_conv image_eqI set_map)
    ultimately show ?thesis
      using now' pcs that same pc_ok_frame by metis
  qed
  have "map fst (calls s') = ps"
    using call(1,2,3) fsts by (simp add: map_update) (metis fst_conv list_update_id nth_map)
  moreover have "assigned r' (WorkflowID q) \<in> {assigned r (WorkflowID q), Some (home sum32 r reg q)}" if "q \<in> set ps" for q
    using now' views that same[OF that] by auto
  moreover have "pc_ok sum32 r reg (assigned r') c" if "c \<in> set (calls s')" for c
    using that old pc' set_update_subset_insert[of "calls s" i "(p, pc')"] unfolding call(1) by fastforce
  ultimately show ?thesis
    using step(1) by (simp add: race_inv_def call(1) reg)
qed

fun pc_rank :: "resolve_pc \<Rightarrow> nat" where
  "pc_rank At_get = 5"
| "pc_rank At_registry = 4"
| "pc_rank (At_ring _) = 3"
| "pc_rank (At_count _) = 2"
| "pc_rank (At_put _) = 1"
| "pc_rank (Returned _ _) = 0"

definition race_rank :: "'w race \<Rightarrow> nat" where
  "race_rank s = (\<Sum>c\<leftarrow>calls s. pc_rank (snd c))"

lemma pc_rank_step: "\<not> returned pc \<Longrightarrow> call_step sum32 reg p pc r = (pc', r') \<Longrightarrow> pc_rank pc' < pc_rank pc"
  by (cases pc) (auto split: prod.splits option.splits if_splits)

lemma sum_list_update_less:
  fixes f :: "'a \<Rightarrow> nat"
  shows "i < length xs \<Longrightarrow> f y < f (xs ! i) \<Longrightarrow> (\<Sum>x\<leftarrow>xs[i := y]. f x) < (\<Sum>x\<leftarrow>xs. f x)"
proof (induction xs arbitrary: i)
  case (Cons x xs)
  then show ?case
    by (cases i) auto
qed simp

lemma race_rank_step: "calls_step sum32 s s' \<Longrightarrow> race_rank s' < race_rank s"
proof (induction rule: calls_step.induct)
  case (call i s p pc pc' r')
  then show ?case
    using pc_rank_step[OF call(3,4)] by (auto simp: race_rank_def intro!: sum_list_update_less)
qed

lemma race_inv_run:
  assumes "(calls_step sum32 ^^ n) (start_race r reg ps) s" "resolver_ok r" "ids_consistent ps"
  shows "race_inv sum32 r reg ps s"
  using assms(1)
proof (induction n arbitrary: s)
  case 0
  then show ?case
    using race_inv_start[OF assms(2), of sum32 reg ps] by simp
next
  case (Suc n)
  then obtain t where "(calls_step sum32 ^^ n) (start_race r reg ps) t" "calls_step sum32 t s"
    by auto
  then show ?case
    using Suc.IH race_inv_step assms(2,3) by blast
qed

text \<open>A call that has not returned can go on.\<close>

lemma call_enabled: "(p, pc) \<in> set (calls s) \<Longrightarrow> \<not> returned pc \<Longrightarrow> \<exists>s'. calls_step sum32 s s'"
  by (metis call in_set_conv_nth surj_pair)

lemma race_rank_start: "race_rank (start_race r reg ps) = 5 * length ps"
  by (simp add: race_rank_def start_race_def comp_def sum_list_triv)

section \<open>Schedules\<close>

text \<open>Call \<open>i\<close> takes its next step; a call that has returned does nothing.\<close>

definition advance :: "hash_fun \<Rightarrow> nat \<Rightarrow> 'w race \<Rightarrow> 'w race" where
  "advance sum32 i s =
     (case calls s ! i of (p, pc) \<Rightarrow>
        (case call_step sum32 (race_registry s) p pc (race_resolver s) of (pc', r') \<Rightarrow>
           s\<lparr>race_resolver := r', calls := (calls s)[i := (p, pc')]\<rparr>))"

lemma length_advance [simp]: "length (calls (advance sum32 i s)) = length (calls s)"
  by (simp add: advance_def split: prod.splits)

text \<open>A schedule in which every step is one of a call that has not returned.\<close>

fun enabled_all :: "hash_fun \<Rightarrow> nat list \<Rightarrow> 'w race \<Rightarrow> bool" where
  "enabled_all sum32 [] s = True"
| "enabled_all sum32 (i # is) s =
     (i < length (calls s) \<and> \<not> returned (snd (calls s ! i)) \<and> enabled_all sum32 is (advance sum32 i s))"

lemma enabled_calls_step:
  assumes "i < length (calls s)" "\<not> returned (snd (calls s ! i))"
  shows "calls_step sum32 s (advance sum32 i s)"
proof -
  obtain p pc pc' r' where c: "calls s ! i = (p, pc)"
    and st: "call_step sum32 (race_registry s) p pc (race_resolver s) = (pc', r')"
    by (metis surj_pair)
  then show ?thesis
    using call[OF assms(1) c _ st] assms(2) by (simp add: advance_def)
qed

lemma enabled_all_run: "enabled_all sum32 is s \<Longrightarrow> (calls_step sum32 ^^ length is) s (fold (advance sum32) is s)"
proof (induction "is" arbitrary: s)
  case (Cons i "is")
  then have "calls_step sum32 s (advance sum32 i s)"
    "(calls_step sum32 ^^ length is) (advance sum32 i s) (fold (advance sum32) is (advance sum32 i s))"
    using enabled_calls_step[of i s sum32] by simp_all
  then have "(calls_step sum32 ^^ Suc (length is)) s (fold (advance sum32) is (advance sum32 i s))"
    by (rule relpowp_Suc_I2)
  then show ?case
    by simp
qed simp

lemma advance_race:
  assumes "i < length (calls s)"
  shows "(race_step sum32 js)\<^sup>*\<^sup>* s (advance sum32 i s)"
proof -
  obtain p pc pc' r' where c: "calls s ! i = (p, pc)"
    and st: "call_step sum32 (race_registry s) p pc (race_resolver s) = (pc', r')"
    by (metis surj_pair)
  show ?thesis
  proof (cases "returned pc")
    case True
    then have "pc' = pc" "r' = race_resolver s"
      using st by (cases pc; simp)+
    then have "advance sum32 i s = s"
      using c st by (simp add: advance_def list_update_same_conv assms)
    then show ?thesis
      by simp
  next
    case False
    then have "calls_step sum32 s (advance sum32 i s)"
      using assms c by (intro enabled_calls_step) simp_all
    then show ?thesis
      by (blast intro: request)
  qed
qed

lemma advances_race: "\<forall>i\<in>set is. i < length (calls s) \<Longrightarrow> (race_step sum32 js)\<^sup>*\<^sup>* s (fold (advance sum32) is s)"
proof (induction "is" arbitrary: s)
  case (Cons i "is")
  then have "(race_step sum32 js)\<^sup>*\<^sup>* (advance sum32 i s) (fold (advance sum32) is (advance sum32 i s))"
    by simp
  with Cons.prems show ?case
    using rtranclp_trans[OF advance_race[of i s sum32 js]] by simp
qed simp

text \<open>After a removal a key of the removed namespace is routed to another active one.\<close>

lemma route_after_removal:
  assumes "reg_full sum32 S reg" "collision_free sum32 50 S"
    and "admin_op_of js rq (dom (reg_statuses reg)) = RemovePhysical v s" "s \<in> S"
    and "reg_statuses reg v = Some tbl" "tbl s = Some NamespaceActive" "tbl t = Some NamespaceActive" "t \<noteq> s"
    and "reg' = snd (admin_handler sum32 js metrics keys rq reg)"
  obtains a where "reg_namespaces reg' v = Some a" "reg_statuses reg' v = Some (tbl(s \<mapsto> NamespaceCordoned))"
    "GetSlot sum32 k (vn_Ring (deref a reg')) \<noteq> s"
    "tbl (GetSlot sum32 k (vn_Ring (deref a reg'))) = Some NamespaceActive"
proof -
  have "admin_ok sum32 S (RemovePhysical v s) reg (admin_handler sum32 js metrics keys rq reg)"
    using assms(3,4) by (intro admin_refines[OF assms(1,2)]) simp_all
  then have full: "reg_full sum32 S reg'" and st: "reg_statuses reg' v = Some (tbl(s \<mapsto> NamespaceCordoned))"
    using assms(5,6,9) by (simp_all add: admin_ok_def)
  then obtain a where a: "reg_namespaces reg' v = Some a" "vn_Namespaces (deref a reg') = tbl(s \<mapsto> NamespaceCordoned)"
    by (auto simp: reg_statuses_def)
  have "vn_full sum32 S (deref a reg')"
    using deref_full[OF full a(1)] by simp
  moreover have "t \<in> vn_active (deref a reg')"
    using a(2) assms(7,8) by (simp add: vn_active_def)
  ultimately have "GetSlot sum32 k (vn_Ring (deref a reg')) \<in> vn_active (deref a reg')"
    by (intro vns.route_active) auto
  then show thesis
    using that[OF a(1) st] a(2) by (auto simp: vn_active_def split: if_splits)
qed

lemma two_misses:
  assumes "resolver_ok r" "uncached r k"
  shows "\<exists>c1 c2. Mappings_Get k (Cache r) = ('''', c1) \<and> Mappings_Get k c1 = ('''', c2) \<and> cache_ok c2"
proof -
  have miss: "fst (Mappings_Get k c) = ''''" if "cache_ok c" "cache_view c = cache_view (Cache r)" for c
    using cache.get_value[OF that(1), of k] assms(2) that(2) by (auto simp: uncached_def assigned_def)
  have ok: "cache_ok (Cache r)"
    using assms(1) by (simp add: resolver_ok_def)
  let ?c1 = "snd (Mappings_Get k (Cache r))"
  have "fst (Mappings_Get k (Cache r)) = ''''" "fst (Mappings_Get k ?c1) = ''''"
    using miss[OF ok] miss[of ?c1] cache.ok_get[OF ok] cache.get_view[OF ok] by simp_all
  then show ?thesis
    using cache.ok_get[OF cache.ok_get[OF ok, of k], of k] by (metis prod.collapse)
qed

section \<open>Properties\<close>

text \<open>
  C9: concurrent resolves. Any number of requests run \<^verbatim>\<open>Resolve\<close> at the same time, without a lock, on a registry that
  does not change, each workflow id under one virtual namespace. However their steps interleave, every call makes at most
  five steps and none is ever stuck; a call that has returned has answered exactly what it would have answered alone on the
  initial state, and a non-empty answer is in the routing cache: all requests of a workflow go to the same cluster.
\<close>

theorem concurrent_resolves_agree:
  assumes "resolver_ok r" "ids_consistent ps" "(calls_step sum32 ^^ n) (start_race r reg ps) s"
  shows "n \<le> 5 * length ps \<and>
    ((\<nexists>s'. calls_step sum32 s s') \<longrightarrow> (\<forall>(p, pc)\<in>set (calls s). returned pc)) \<and>
    (\<forall>p physNs hit. (p, Returned physNs hit) \<in> set (calls s) \<longrightarrow>
       physNs = fst (fst (Resolver_Resolve sum32 p reg r)) \<and>
       (physNs \<noteq> '''' \<longrightarrow> assigned (race_resolver s) (WorkflowID p) = Some physNs))"
proof -
  have "race_inv sum32 r reg ps s"
    by (rule race_inv_run[OF assms(3,1,2)])
  then have pcs: "\<forall>c\<in>set (calls s). pc_ok sum32 r reg (assigned (race_resolver s)) c"
    by (simp add: race_inv_def)
  have "n + race_rank s \<le> race_rank (start_race r reg ps)"
    by (rule relpowp_measure[OF race_rank_step assms(3)])
  then have "n \<le> 5 * length ps"
    by (simp add: race_rank_start)
  moreover have "returned pc" if "\<nexists>s'. calls_step sum32 s s'" "(p, pc) \<in> set (calls s)" for p pc
    using call_enabled[OF that(2)] that(1) by blast
  moreover have "physNs = home sum32 r reg p \<and> (physNs \<noteq> '''' \<longrightarrow> assigned (race_resolver s) (WorkflowID p) = Some physNs)"
    if "(p, Returned physNs hit) \<in> set (calls s)" for p physNs hit
    using bspec[OF pcs that] by simp
  ultimately show ?thesis
    unfolding home_def by blast
qed

definition example_payload :: Payload where
  "example_payload = \<lparr>WorkflowID = ''wf'', VirtualNamespaceName = ''vns''\<rparr>"

text \<open>Two calls in lockstep: both miss, both place the workflow, both write.\<close>

lemma lockstep:
  assumes "resolver_ok r" "uncached r (WorkflowID p)" "reg_namespaces reg (VirtualNamespaceName p) = Some a"
  shows "\<exists>s x. (calls_step sum32 ^^ 10) (start_race r reg [p, p]) s \<and> calls s = [(p, Returned x False), (p, Returned x False)]"
proof -
  obtain c1 c2 where g: "Mappings_Get (WorkflowID p) (Cache r) = ('''', c1)" "Mappings_Get (WorkflowID p) c1 = ('''', c2)"
    using two_misses[OF assms(1,2)] by metis
  let ?is = "[0, 1, 0, 1, 0, 1, 0, 1, 0, 1]"
  have "enabled_all sum32 ?is (start_race r reg [p, p])"
    by (simp add: start_race_def advance_def g assms(3) Registry_Resolve_def)
  moreover have "length ?is = 10"
    by simp
  ultimately have "(calls_step sum32 ^^ 10) (start_race r reg [p, p]) (fold (advance sum32) ?is (start_race r reg [p, p]))"
    using enabled_all_run by metis
  moreover have "calls (fold (advance sum32) ?is (start_race r reg [p, p])) =
      [(p, Returned (GetSlot sum32 (WorkflowID p) (vn_Ring (deref a reg))) False),
       (p, Returned (GetSlot sum32 (WorkflowID p) (vn_Ring (deref a reg))) False)]"
    by (simp add: start_race_def advance_def g assms(3) Registry_Resolve_def)
  ultimately show ?thesis
    by blast
qed

theorem concurrent_resolves_agree_witness:
  "\<exists>s. (calls_step first_byte ^^ 10) (start_race (example_resolver []) example_registry [example_payload, example_payload]) s \<and>
     calls s = replicate 2 (example_payload,
       Returned (fst (fst (Resolver_Resolve first_byte example_payload example_registry (example_resolver [])))) False)"
proof -
  have "uncached (example_resolver []) (WorkflowID example_payload)"
    by (simp add: uncached_def)
  then obtain s x where s: "(calls_step first_byte ^^ 10) (start_race (example_resolver []) example_registry [example_payload, example_payload]) s"
    "calls s = [(example_payload, Returned x False), (example_payload, Returned x False)]"
    using lockstep[of "example_resolver []" example_payload example_registry 0 first_byte] example_registry_entry(1)
    by (auto simp: example_payload_def)
  have "ids_consistent [example_payload, example_payload]"
    by (simp add: ids_consistent_def)
  from concurrent_resolves_agree[OF example_resolver_ok this s(1)]
  have "x = fst (fst (Resolver_Resolve first_byte example_payload example_registry (example_resolver [])))"
    using s(2) by (metis list.set_intros(1))
  then show ?thesis
    using s by (auto simp: numeral_2_eq_2)
qed

text \<open>
  C10: concurrent resolves and a removal. Two requests of one new workflow run \<^verbatim>\<open>Resolve\<close> while an admin request removes
  the physical namespace the workflow is placed on. There is a run in which both requests miss the cache and are answered
  different physical namespaces, the second an active one, and the cache is left with the answer of the first: the
  cordoned one, where all later requests of the workflow go.
\<close>

theorem removal_splits_a_workflow:
  assumes "resolver_ok r" "uncached r (WorkflowID p)" "reg_full sum32 S reg" "collision_free sum32 50 S"
    and "admin_op_of js rq (dom (reg_statuses reg)) = RemovePhysical (VirtualNamespaceName p) s" "s \<in> S"
    and "s = fst (fst (Resolver_Resolve sum32 p reg r))"
    and "reg_statuses reg (VirtualNamespaceName p) = Some tbl" "tbl t = Some NamespaceActive" "t \<noteq> s"
  shows "\<exists>final s'. (race_step sum32 js)\<^sup>*\<^sup>* (start_race r reg [p, p]) final \<and>
    calls final = [(p, Returned s False), (p, Returned s' False)] \<and> s' \<noteq> s \<and> tbl s' = Some NamespaceActive \<and>
    assigned (race_resolver final) (WorkflowID p) = Some s \<and>
    reg_statuses (race_registry final) (VirtualNamespaceName p) = Some (tbl(s \<mapsto> NamespaceCordoned))"
proof -
  let ?k = "WorkflowID p"
  obtain a where a: "reg_namespaces reg (VirtualNamespaceName p) = Some a" "vn_Namespaces (deref a reg) = tbl"
    using assms(8) by (auto simp: reg_statuses_def)
  have s: "GetSlot sum32 ?k (vn_Ring (deref a reg)) = s"
    using Resolve_miss(1)[OF assms(1,2) a(1) refl] assms(7) by simp
  have "t \<in> vn_active (deref a reg)"
    using a(2) assms(9) by (simp add: vn_active_def)
  then have active: "tbl s = Some NamespaceActive"
    using vns.route_active[of sum32 S "deref a reg" ?k] deref_full[OF assms(3) a(1)] a(2) s by (auto simp: vn_active_def)
  obtain out reg' where adm: "admin_handler sum32 js id [] rq reg = (out, reg')"
    by fastforce
  obtain a' where a': "reg_namespaces reg' (VirtualNamespaceName p) = Some a'"
      "reg_statuses reg' (VirtualNamespaceName p) = Some (tbl(s \<mapsto> NamespaceCordoned))"
      "GetSlot sum32 ?k (vn_Ring (deref a' reg')) \<noteq> s"
      "tbl (GetSlot sum32 ?k (vn_Ring (deref a' reg'))) = Some NamespaceActive"
    using route_after_removal[OF assms(3-6,8) active assms(9,10), of reg' id "[]" ?k] adm by auto
  obtain c1 c2 where g: "Mappings_Get ?k (Cache r) = ('''', c1)" "Mappings_Get ?k c1 = ('''', c2)" and ok: "cache_ok c2"
    using two_misses[OF assms(1,2)] by metis
  define mid where "mid = fold (advance sum32) [0, 1, 0, 0] (start_race r reg [p, p])"
  define final where "final = fold (advance sum32) [1, 1, 1, 1, 0, 0] (mid\<lparr>race_registry := reg'\<rparr>)"
  have mid: "calls mid = [(p, At_count s), (p, At_registry)]" "race_resolver mid = r\<lparr>Cache := c2\<rparr>" "race_registry mid = reg"
    by (simp_all add: mid_def start_race_def advance_def g a(1) s Registry_Resolve_def)
  have final: "calls final = [(p, Returned s False), (p, Returned (GetSlot sum32 ?k (vn_Ring (deref a' reg'))) False)]"
    "assigned (race_resolver final) ?k = Some s" "race_registry final = reg'"
    by (simp_all add: final_def advance_def mid a'(1) Registry_Resolve_def assigned_def cache.put_view cache.ok_put ok)
  have "(race_step sum32 js)\<^sup>*\<^sup>* (start_race r reg [p, p]) mid"
    unfolding mid_def by (rule advances_race) (simp add: start_race_def)
  also have "race_step sum32 js mid (mid\<lparr>race_registry := reg'\<rparr>)"
    using adm by (intro admin[where rq = rq and metrics = id and keys = "[]" and out = out]) (simp add: mid(3))
  also have "(race_step sum32 js)\<^sup>*\<^sup>* (mid\<lparr>race_registry := reg'\<rparr>) final"
    unfolding final_def by (rule advances_race) (simp add: mid(1))
  finally show ?thesis
    using final a'(2-4) by metis
qed

text \<open>An admin API whose bodies are plain physical names; the request removes the one that is given.\<close>

definition plain_json :: "string \<Rightarrow> string \<Rightarrow> json" where
  "plain_json name addr = \<lparr>decode_create = (\<lambda>bs. Inr \<lparr>create_Name = string_of_bytes bs\<rparr>),
     decode_manage = (\<lambda>bs. Inr \<lparr>mp_VirtualNamespace = string_of_bytes bs, mp_PhysicalNamespace = name, mp_ClusterAddress = addr\<rparr>),
     encode_get = (\<lambda>_ _. [])\<rparr>"

theorem removal_splits_a_workflow_witness:
  "\<exists>js final s s'. (race_step first_byte js)\<^sup>*\<^sup>* (start_race (example_resolver []) example_registry [example_payload, example_payload]) final \<and>
     calls final = [(example_payload, Returned s False), (example_payload, Returned s' False)] \<and> s' \<noteq> s \<and>
     s \<in> {''a::h1'', ''b::h2''} \<and> s' \<in> {''a::h1'', ''b::h2''}"
proof -
  let ?r = "example_resolver []" and ?tbl = "[''b::h2'' \<mapsto> NamespaceActive, ''a::h1'' \<mapsto> NamespaceActive]"
  define s where "s = fst (fst (Resolver_Resolve first_byte example_payload example_registry ?r))"
  have un: "uncached ?r (WorkflowID example_payload)"
    by (simp add: uncached_def)
  have st: "reg_statuses example_registry (VirtualNamespaceName example_payload) = Some ?tbl"
    by (simp add: example_registry_statuses example_payload_def)
  have act: "\<exists>u. ?tbl u = Some NamespaceActive"
    by (rule exI[of _ "''a::h1''"]) simp
  have s: "s = ''a::h1'' \<or> s = ''b::h2''"
    using resolve_places_on_active[OF example_resolver_ok un example_registry_full] st act
    by (auto simp: s_def Let_def case_prod_beta split: if_splits)
  define js where "js = (if s = ''a::h1'' then plain_json ''a'' ''h1'' else plain_json ''b'' ''h2'')"
  define t where "t = (if s = ''a::h1'' then ''b::h2'' else ''a::h1'')"
  have op: "admin_op_of js (example_admin ''/namespace/physical/remove'' ''vns'') (dom (reg_statuses example_registry)) =
      RemovePhysical (VirtualNamespaceName example_payload) s"
    using s by (auto simp: admin_op_of_def js_def plain_json_def example_admin_def example_registry_statuses example_payload_def
        buildPhysicalNamespace_def delim_def)
  have "collision_free first_byte 50 {''a::h1'', ''b::h2''}"
    by (rule first_byte_collision_free) auto
  from removal_splits_a_workflow[OF example_resolver_ok un example_registry_full this op _ s_def st, of t]
  obtain final s' where "(race_step first_byte js)\<^sup>*\<^sup>* (start_race ?r example_registry [example_payload, example_payload]) final"
    "calls final = [(example_payload, Returned s False), (example_payload, Returned s' False)]" "s' \<noteq> s" "?tbl s' = Some NamespaceActive"
    using s by (auto simp: t_def)
  then show ?thesis
    using s by (intro exI[of _ js] exI[of _ final] exI[of _ s] exI[of _ s']) (auto split: if_splits)
qed

end
