(* ===== verification/Journeys.thy ===== *)
theory Journeys
  imports System ResolverRace
begin

text \<open>
  A workflow on its way through several requests: a poll hands out a task and the answers to it come back through
  the proxy; a workflow completes and is asked about afterwards. Both polls are first brought to one form: what the request
  asks for, the poll of one cluster, and the loop that receives the answers.
\<close>

section \<open>The two polls in one form\<close>

text \<open>
  What \<^verbatim>\<open>ExecutePoll\<close> and \<^verbatim>\<open>ExecutePollActivity\<close> read from the request before they use the registry: the virtual namespace,
  and the poll of one cluster.
\<close>

fun poll_request ::
    "externals \<Rightarrow> rpc \<Rightarrow> transport \<Rightarrow> http_request \<Rightarrow> byte list
     \<Rightarrow> (string \<times> (string \<Rightarrow> http_response result outcome)) result" where
  "poll_request ext PollWorkflowTaskQueue tr r bs =
     (case extractPayload (ext_gunzip ext) bs of
        Inl err \<Rightarrow> Inl (Wrap ''failed to extract payload'' err)
      | Inr (pbPayload, isCompressed) \<Rightarrow>
        (case Unmarshal (c_pwq ext) pbPayload of
           Inl err \<Rightarrow> Inl (Wrap ''failed to unmarshal PollWorkflowTaskQueueRequest'' err)
         | Inr reqStruct \<Rightarrow>
             Inr (pwq_Namespace reqStruct, \<lambda>physNs. pollSingleCluster ext tr r reqStruct physNs isCompressed)))"
| "poll_request ext PollActivityTaskQueue tr r bs =
     (case extractPayload (ext_gunzip ext) bs of
        Inl err \<Rightarrow> Inl (Wrap ''failed to extract payload'' err)
      | Inr (pbPayload, isCompressed) \<Rightarrow>
        (case Unmarshal (c_paq ext) pbPayload of
           Inl err \<Rightarrow> Inl (Wrap ''failed to unmarshal PollActivityTaskQueueRequest'' err)
         | Inr reqStruct \<Rightarrow>
             Inr (paq_Namespace reqStruct, \<lambda>physNs. pollSingleActivityCluster ext tr r reqStruct physNs isCompressed)))"
| "poll_request ext _ tr r bs = Inl (Errorf ''not a poll'')"

text \<open>One iteration of the receive loop, and the task of an answer; both by the type of the response.\<close>

definition poll_receive ::
    "externals \<Rightarrow> rpc \<Rightarrow> pollResult \<Rightarrow> poll_acc \<Rightarrow> 'w Resolver \<Rightarrow> (http_response + poll_acc) \<times> 'w Resolver" where
  "poll_receive ext m =
     (if m = PollWorkflowTaskQueue
      then receive_one (ext_gunzip ext) (Unmarshal (c_pwr ext)) pwr_TaskToken pwr_WorkflowExecution
      else receive_one (ext_gunzip ext) (Unmarshal (c_par ext)) par_TaskToken par_WorkflowExecution)"

definition poll_task :: "externals \<Rightarrow> rpc \<Rightarrow> pollResult \<Rightarrow> (http_response \<times> WorkflowExecution option) option" where
  "poll_task ext m =
     (if m = PollWorkflowTaskQueue
      then answer_task (ext_gunzip ext) (Unmarshal (c_pwr ext)) pwr_TaskToken pwr_WorkflowExecution
      else answer_task (ext_gunzip ext) (Unmarshal (c_par ext)) par_TaskToken par_WorkflowExecution)"

definition poll_reply :: "choices \<Rightarrow> http_response result \<Rightarrow> served" where
  "poll_reply ch x = Replied
     (case x of
        Inl err \<Rightarrow> http_Error (error_text err) 500 new_writer
      | Inr resp \<Rightarrow> writeProxyResponse (ch_trailers ch (resp_Trailer resp)) (ch_trailers' ch (resp_Trailer resp)) resp new_writer)"

definition vns_unknown :: "string \<Rightarrow> go_error" where
  "vns_unknown vns = Errorf (''virtual namespace not found: '' @ vns)"

definition vns_empty :: "string \<Rightarrow> go_error" where
  "vns_empty vns = Errorf (''no physical namespaces found for virtual namespace: '' @ vns)"

lemmas poll_forms = poll_receive_def poll_task_def poll_reply_def vns_unknown_def vns_empty_def

lemma proxy_polls:
  assumes "dispatch (url_path r) = Some m" "is_poll m" "req_body r = Inr bs" "poll_request ext m tr r bs = Inr (vns, poll)"
  shows "proxy_handler ext tr host ch reg r res =
    (case Registry_Resolve vns reg of
       None \<Rightarrow> (Ret (poll_reply ch (Inl (vns_unknown vns))), res)
     | Some a \<Rightarrow>
       (let slots = GetAllNamespaces (ch_keys ch) (deref a reg) in
        if slots = [] then (Ret (poll_reply ch (Inl (vns_empty vns))), res)
        else case fan_out poll (poll_receive ext m) slots (ch_arrival ch slots) res of
               (out, res') \<Rightarrow> (and_then out (\<lambda>x. Ret (poll_reply ch x)), res')))"
  using assms
  by (cases m) (auto simp: is_poll_def proxy_handler_def servePollWorkflowTaskQueue_def servePollActivityTaskQueue_def
      ExecutePoll_def ExecutePollActivity_def poll_forms Let_def
      split: sum.splits prod.splits outcome.splits option.splits)

lemma poll_requestE:
  assumes "poll_request ext m tr r bs = Inr (vns, poll)"
  obtains (workflow) pb c req where "m = PollWorkflowTaskQueue" "extractPayload (ext_gunzip ext) bs = Inr (pb, c)"
      "Unmarshal (c_pwq ext) pb = Inr req" "vns = pwq_Namespace req" "poll = (\<lambda>p. pollSingleCluster ext tr r req p c)"
  | (activity) pb c req where "m = PollActivityTaskQueue" "extractPayload (ext_gunzip ext) bs = Inr (pb, c)"
      "Unmarshal (c_paq ext) pb = Inr req" "vns = paq_Namespace req" "poll = (\<lambda>p. pollSingleActivityCluster ext tr r req p c)"
  using assms by (cases m) (auto split: sum.splits prod.splits)

lemma offered_poll:
  assumes "poll_request ext m tr r bs = Inr (vns, poll)"
  shows "is_poll m \<and> offered ext tr r m bs p = map_option snd (poll_task ext m (answer poll p))"
  using assms
proof (cases rule: poll_requestE)
  case (workflow pb c req)
  then show ?thesis
    using extractPayload_flag[OF workflow(2)] by (simp add: is_poll_def offered_def decode_def poll_task_def)
next
  case (activity pb c req)
  then show ?thesis
    using extractPayload_flag[OF activity(2)] by (simp add: is_poll_def offered_def decode_def poll_task_def)
qed

lemma poll_outcome:
  assumes "poll_request ext m tr r bs = Inr (vns, poll)"
  shows "is_panic (poll p) \<longleftrightarrow> \<not> Contains p delim" "poll p \<noteq> Hang"
proof -
  have "(is_panic (poll p) \<longleftrightarrow> is_panic (parsePhysicalNamespace p)) \<and> poll p \<noteq> Hang"
    if "parsePhysicalNamespace p \<noteq> Hang"
    using assms that
    by (cases rule: poll_requestE; cases "parsePhysicalNamespace p")
      (auto simp: pollSingleCluster_def pollSingleActivityCluster_def Let_def split: sum.splits)
  moreover have "parsePhysicalNamespace p \<noteq> Hang"
    by (simp add: parsePhysicalNamespace_def Let_def split: list.splits)
  ultimately show "is_panic (poll p) \<longleftrightarrow> \<not> Contains p delim" "poll p \<noteq> Hang"
    using parse_panics_iff[of p] by simp_all
qed

section \<open>A task and the answers to it\<close>

lemma poll_receive_task:
  "poll_task ext m a = Some (resp, ex) \<Longrightarrow> poll_receive ext m a acc r = (Inl resp, cache_task ex (pr_physNs a) r)"
  by (auto simp: poll_task_def poll_receive_def receive_one_task split: if_splits)

lemma poll_receive_no_task: "poll_task ext m a = None \<Longrightarrow> \<exists>acc'. poll_receive ext m a acc r = (Inr acc', r)"
  unfolding poll_task_def poll_receive_def by (auto dest: receive_one_no_task split: if_splits)

lemma poll_loop_task:
  assumes "poll_task ext m a = Some (resp, ex)" "\<forall>b\<in>set pre. poll_task ext m b = None"
  shows "receive_loop (poll_receive ext m) (pre @ a # post) acc r = (Inr resp, cache_task ex (pr_physNs a) r)"
  using assms unfolding poll_task_def poll_receive_def by (auto intro: receive_loop_task split: if_splits)

text \<open>The first answer with a task is relayed, and its workflow is assigned to the cluster it came from.\<close>

lemma poll_serves:
  assumes "dispatch (url_path r) = Some m" "req_body r = Inr bs" "poll_request (cfg_ext cfg) m tr r bs = Inr (vns, poll)"
    and "Registry_Resolve vns (sys_registry s) = Some a" "slots = GetAllNamespaces (ch_keys ch) (deref a (sys_registry s))"
    and "\<forall>p\<in>set slots. Contains p delim" "mset (ch_arrival ch slots) = mset slots" "ch_arrival ch slots = pre @ v # post"
    and "\<forall>q\<in>set pre. poll_task (cfg_ext cfg) m (answer poll q) = None"
    and "poll_task (cfg_ext cfg) m (answer poll v) = Some (resp, ex)"
  shows "serve cfg r ch tr s = (Ret (poll_reply ch (Inr resp)), s\<lparr>sys_resolver := cache_task ex v (sys_resolver s)\<rparr>)"
proof -
  have loop: "receive_loop (poll_receive (cfg_ext cfg) m) (map (answer poll) (ch_arrival ch slots)) no_answers res =
      (Inr resp, cache_task ex v res)" for res :: "'a Resolver"
    using poll_loop_task[OF assms(10), of "map (answer poll) pre"] assms(8,9) by (simp add: answer_def)
  have "slots \<noteq> []"
    using assms(7,8) by auto
  moreover have "fan_out poll (poll_receive (cfg_ext cfg) m) slots (ch_arrival ch slots) res = (Ret (Inr resp), cache_task ex v res)"
    for res :: "'a Resolver"
    using assms(6) poll_outcome(1)[OF assms(3)] by (simp add: fan_out_no_panic loop)
  ultimately show ?thesis
    using offered_poll[OF assms(3)] assms(4,5) by (simp add: serve_def proxy_polls[OF assms(1) _ assms(2,3)])
qed

lemma poll_reply_relays:
  assumes "poll_task ext m a = Some (resp, ex)"
  shows "\<exists>w body. poll_reply ch (Inr resp) = Replied w \<and> w_status w = Some (StatusCode resp) \<and>
    resp_Body resp = Inr body \<and> w_body w = body"
  using assms
  by (auto simp: poll_task_def answer_task_def poll_reply_def writeProxyResponse_def WriteHeader_def new_writer_def Let_def
      split: sum.splits if_splits)

section \<open>Properties\<close>

text \<open>
  C7: A task is answered where it came from. When the first cluster that answers a poll with a task is \<open>v\<close>, the poll is replied
  to with that cluster's status and body; and whatever requests, admin calls and checkpoints are served afterwards (as long
  as none completes the workflow and no other cluster hands out a task of it), a request about the workflow of the task
  under any of the eight rewriting RPCs, such as the completion of the task, is forwarded to the cluster \<open>v\<close>, rewritten to its namespace.
\<close>

theorem polled_task_answered_by_its_cluster:
  assumes "dispatch (url_path rp) = Some mp" "req_body rp = Inr bp" "poll_request (cfg_ext cfg) mp tr rp bp = Inr (vns, poll)"
    and "Registry_Resolve vns (sys_registry s) = Some a" "slots = GetAllNamespaces (ch_keys ch) (deref a (sys_registry s))"
    and "\<forall>p\<in>set slots. Contains p delim" "mset (ch_arrival ch slots) = mset slots" "ch_arrival ch slots = pre @ v # post"
    and "\<forall>q\<in>set pre. poll_task (cfg_ext cfg) mp (answer poll q) = None"
    and "poll_task (cfg_ext cfg) mp (answer poll v) = Some (resp, Some e)" "WorkflowId e \<noteq> ''''" "WorkflowId e \<noteq> registry_key"
    and "resolver_ok (sys_resolver s)" "parsePhysicalNamespace v = Ret ns" "ns_address ns \<noteq> ''''"
    and "\<forall>ev\<in>set es. safe cfg (WorkflowId e) v ev"
    and "dispatch (url_path r) = Some m" "req_body r = Inr bs"
    and "request_payload (cfg_ext cfg) m bs = Some p" "WorkflowID p = WorkflowId e"
  shows "(\<exists>w body. fst (serve cfg rp ch tr s) = Ret (Replied w) \<and> w_status w = Some (StatusCode resp) \<and>
      resp_Body resp = Inr body \<and> w_body w = body) \<and>
    (\<exists>r'. fst (serve cfg r ch' tr' (fold (exec cfg) es (snd (serve cfg rp ch tr s)))) = Ret (Forwarded r') \<and>
      url_host r' = ns_address ns \<and> req_host r' = ns_address ns \<and> url_path r' = url_path r \<and>
      req_body r' = (case renamed (cfg_ext cfg) m bs (ns_name ns) of Inl _ \<Rightarrow> Inr bs | Inr pb \<Rightarrow> Inr (frame pb)))"
proof -
  let ?res = "cache_task (Some e) v (sys_resolver s)"
  let ?s = "fold (exec cfg) es (s\<lparr>sys_resolver := ?res\<rparr>)"
  have v: "v \<noteq> ''''"
    using assms(14) parse_panics_iff[of "''''"] by (auto simp: Contains_iff_sublist delim_def)
  have polled: "serve cfg rp ch tr s = (Ret (poll_reply ch (Inr resp)), s\<lparr>sys_resolver := ?res\<rparr>)"
    by (rule poll_serves[OF assms(1-10)])
  have "resolver_ok ?res" "assigned ?res (WorkflowId e) = Some v"
    using assigned_cache_task[OF assms(13)] assms(11) by simp_all
  then have run: "resolver_ok (sys_resolver ?s)" "assigned (sys_resolver ?s) (WorkflowID p) = Some v"
    using run_home[of "s\<lparr>sys_resolver := ?res\<rparr>" "WorkflowId e" v es cfg] v assms(12,16,20) by simp_all
  then have "fst (fst (Resolver_Resolve (ext_sum32 (cfg_ext cfg)) p (sys_registry ?s) (sys_resolver ?s))) = v"
    using Resolve_hit(1)[OF run v] by simp
  from serve_resolved[OF this assms(14,15,17-19)] show ?thesis
    using poll_reply_relays[OF assms(10), of ch] polled by auto
qed

definition poll_choices :: choices where
  "poll_choices = \<lparr>ch_keys = [''a::h1'', ''b::h2''], ch_arrival = id, ch_trailers = (\<lambda>_. []), ch_trailers' = (\<lambda>_. [])\<rparr>"

definition example_polls :: "string \<Rightarrow> http_response result outcome" where
  "example_polls p = pollSingleCluster example_ext example_transport (rpc_request PollWorkflowTaskQueue ''vns'' ''q'') example_pwq p False"

lemma example_poll_request:
  "poll_request example_ext PollWorkflowTaskQueue example_transport (rpc_request PollWorkflowTaskQueue ''vns'' ''q'') (example_body ''vns'' ''q'')
     = Inr (''vns'', example_polls)"
  using example_pwq_decoded
  by (simp add: extractPayload_example example_polls_def[abs_def])

lemma example_poll_tasks:
  "poll_task example_ext PollWorkflowTaskQueue (answer example_polls ''a::h1'') = None"
  "poll_task example_ext PollWorkflowTaskQueue (answer example_polls ''b::h2'') = Some (example_task, Some \<lparr>WorkflowId = ''wf'', exec_other = []\<rparr>)"
  by (simp_all add: poll_task_def answer_def example_polls_def example_poll example_answers)

lemma delim_examples: "\<forall>p\<in>set [''a::h1'', ''b::h2'']. Contains p delim"
  by (simp add: Contains_iff_sublist delim_def sublist_Cons_right)

theorem polled_task_answered_by_its_cluster_witness:
  "\<exists>r'. fst (serve example_config (rpc_request RespondWorkflowTaskCompleted ''vns'' ''wf'') example_choices example_transport
      (fold (exec example_config) [Tick (\<lambda>_. [])]
        (snd (serve example_config (rpc_request PollWorkflowTaskQueue ''vns'' ''q'') poll_choices example_transport (example_system []))))) =
      Ret (Forwarded r') \<and> url_host r' = ''h2''"
proof -
  have slots: "[''a::h1'', ''b::h2''] = GetAllNamespaces (ch_keys poll_choices) (deref 0 (sys_registry (example_system [])))"
    by (simp add: poll_choices_def example_slots)
  show ?thesis
    using polled_task_answered_by_its_cluster[of "rpc_request PollWorkflowTaskQueue ''vns'' ''q''" PollWorkflowTaskQueue
        "example_body ''vns'' ''q''" example_config example_transport "''vns''" example_polls "example_system []" 0
        "[''a::h1'', ''b::h2'']" poll_choices "[''a::h1'']" "''b::h2''" "[]" example_task "\<lparr>WorkflowId = ''wf'', exec_other = []\<rparr>" _
        "[Tick (\<lambda>_. [])]" "rpc_request RespondWorkflowTaskCompleted ''vns'' ''wf''" RespondWorkflowTaskCompleted "example_body ''vns'' ''wf''"
        "\<lparr>WorkflowID = ''wf'', VirtualNamespaceName = ''vns''\<rparr>" example_choices example_transport,
        OF _ _ _ _ slots delim_examples _ _ _ _ _ _ _ parse_examples(2)] example_poll_tasks example_poll_request
      example_payloads(2)[of "''vns''" "''wf''"]
    by (auto simp: Registry_Resolve_def example_registry_entry poll_choices_def registry_key_def ns_address_def
        simp del: request_payload.simps fold_simps poll_request.simps)
qed

text \<open>
  C11: A completed workflow is sought elsewhere. The completion of a workflow removes its routing entry, and nothing remembers
  where it ran. When its physical namespace is removed afterwards, while its virtual namespace has another active one of a
  well-formed name and no virtual nodes collide, the next request about it, for instance for its history, is forwarded to
  another physical namespace, and the workflow is assigned there.
\<close>

theorem completed_workflow_sought_elsewhere:
  assumes "resolver_ok (sys_resolver s)" "assigned (sys_resolver s) k = Some v" "v \<noteq> ''''"
    and "dispatch (url_path rc) = Some mc" "req_body rc = Inr bc" "request_payload (cfg_ext cfg) mc bc = Some pc"
    and "WorkflowID pc = k" "completes (cfg_ext cfg) mc bc"
    and "reg_full (ext_sum32 (cfg_ext cfg)) S (sys_registry s)" "collision_free (ext_sum32 (cfg_ext cfg)) 50 S" "v \<in> S"
    and "admin_op_of (cfg_json cfg) rq (dom (reg_statuses (sys_registry s))) = RemovePhysical (VirtualNamespaceName p) v"
    and "reg_statuses (sys_registry s) (VirtualNamespaceName p) = Some tbl" "\<exists>q. q \<noteq> v \<and> tbl q = Some NamespaceActive"
    and "\<forall>q. tbl q = Some NamespaceActive \<longrightarrow> (\<exists>ns. parsePhysicalNamespace q = Ret ns \<and> ns_address ns \<noteq> '''')"
    and "dispatch (url_path r) = Some m" "req_body r = Inr bs" "request_payload (cfg_ext cfg) m bs = Some p"
    and "WorkflowID p = k" "\<not> completes (cfg_ext cfg) m bs"
    and "s' = fold (exec cfg) [Serve rc ch tr, AdminCall rq keys] s"
  shows "\<exists>q ns r'. q \<noteq> v \<and> tbl q = Some NamespaceActive \<and> parsePhysicalNamespace q = Ret ns \<and>
    fst (serve cfg r ch' tr' s') = Ret (Forwarded r') \<and> url_host r' = ns_address ns \<and>
    req_body r' = (case renamed (cfg_ext cfg) m bs (ns_name ns) of Inl _ \<Rightarrow> Inr bs | Inr pb \<Rightarrow> Inr (frame pb)) \<and>
    assigned (sys_resolver (snd (serve cfg r ch' tr' s'))) k = Some q"
proof -
  let ?s = "snd (serve cfg rc ch tr s)"
  define tbl' where "tbl' = (if tbl v = None then tbl else tbl(v \<mapsto> NamespaceCordoned))"
  have same: "sys_registry ?s = sys_registry s" "sys_resolver s' = sys_resolver ?s"
    using assms(21) by (simp_all add: serve_def case_prod_beta Let_def)
  have ok: "resolver_ok (sys_resolver s')"
    using rpc_h.handle_ok[OF assms(1), of "cfg_ext cfg" mc rc bc "sys_registry s"] assms(5) same(2)
    by (simp add: serve_def proxy_rewrites[OF assms(4) payload_not_poll[OF assms(6)]] snd_forward snd_rewrite_body case_prod_beta)
  have un: "uncached (sys_resolver s') k"
    using rpc_h.handle_ends[OF assms(1,6,8), of rc "sys_registry s"] assms(5,7) same(2)
    by (simp add: serve_def proxy_rewrites[OF assms(4) payload_not_poll[OF assms(6)]] snd_forward snd_rewrite_body case_prod_beta
        uncached_def)
  have "admin_ok (ext_sum32 (cfg_ext cfg)) S (RemovePhysical (VirtualNamespaceName p) v) (sys_registry s)
      (admin_handler (ext_sum32 (cfg_ext cfg)) (cfg_json cfg) (cfg_metrics cfg) keys rq (sys_registry s))"
    using assms(11,12) by (intro admin_refines[OF assms(9,10)]) simp_all
  then have full: "reg_full (ext_sum32 (cfg_ext cfg)) S (sys_registry s')"
    and st: "reg_statuses (sys_registry s') (VirtualNamespaceName p) = Some tbl'"
    using assms(13,21) same(1) by (simp_all add: admin_ok_def tbl'_def)
  have "\<exists>q. tbl' q = Some NamespaceActive"
    "\<forall>q. tbl' q = Some NamespaceActive \<longrightarrow> (\<exists>ns. parsePhysicalNamespace q = Ret ns \<and> ns_address ns \<noteq> '''')"
    using assms(14,15) by (auto simp: tbl'_def NamespaceActive_def NamespaceCordoned_def)
  from serve_uncached[OF ok full assms(16-18) _ st this, of ch' tr'] un assms(19) obtain q ns r' where q: "tbl' q = Some NamespaceActive"
    "parsePhysicalNamespace q = Ret ns" "fst (serve cfg r ch' tr' s') = Ret (Forwarded r')" "url_host r' = ns_address ns"
    "req_body r' = (case renamed (cfg_ext cfg) m bs (ns_name ns) of Inl _ \<Rightarrow> Inr bs | Inr pb \<Rightarrow> Inr (frame pb))"
    "assigned (sys_resolver (snd (serve cfg r ch' tr' s'))) k = Some q"
    using assms(20) by fastforce
  then have "q \<noteq> v" "tbl q = Some NamespaceActive"
    by (auto simp: tbl'_def NamespaceActive_def NamespaceCordoned_def split: if_splits)
  with q(2-) show ?thesis by blast
qed

theorem completed_workflow_sought_elsewhere_witness:
  "\<exists>js q r'. q \<noteq> ''a::h1'' \<and>
    assigned (sys_resolver (snd (serve (example_config\<lparr>cfg_json := js\<rparr>) (rpc_request SignalWorkflowExecution ''vns'' ''wf'') example_choices example_transport
      (fold (exec (example_config\<lparr>cfg_json := js\<rparr>))
        [Serve (rpc_request RespondWorkflowTaskCompleted ''vns'' ''wf'') example_choices example_transport,
         AdminCall (example_admin ''/namespace/physical/remove'' ''vns'') []] (example_system [(''wf'', ''a::h1'')]))))) ''wf'' = Some q"
proof -
  let ?js = "plain_json ''a'' ''h1''" and ?tbl = "[''b::h2'' \<mapsto> NamespaceActive, ''a::h1'' \<mapsto> NamespaceActive]"
  let ?cfg = "example_config\<lparr>cfg_json := ?js\<rparr>" and ?s = "example_system [(''wf'', ''a::h1'')]"
  have cfg: "cfg_ext ?cfg = example_ext" "cfg_json ?cfg = ?js"
    by simp_all
  have full: "reg_full (ext_sum32 (cfg_ext ?cfg)) {''a::h1'', ''b::h2''} (sys_registry ?s)"
    using example_registry_full by simp
  have free: "collision_free (ext_sum32 (cfg_ext ?cfg)) 50 {''a::h1'', ''b::h2''}"
    unfolding cfg by (simp only: example_config_simps) (rule first_byte_collision_free, auto)
  have op: "admin_op_of (cfg_json ?cfg) (example_admin ''/namespace/physical/remove'' ''vns'') (dom (reg_statuses (sys_registry ?s))) =
      RemovePhysical (VirtualNamespaceName \<lparr>WorkflowID = ''wf'', VirtualNamespaceName = ''vns''\<rparr>) ''a::h1''"
    by (simp add: admin_op_of_def plain_json_def example_admin_def example_registry_statuses buildPhysicalNamespace_def delim_def)
  have names: "\<exists>q. q \<noteq> ''a::h1'' \<and> ?tbl q = Some NamespaceActive"
    "\<forall>q. ?tbl q = Some NamespaceActive \<longrightarrow> (\<exists>ns. parsePhysicalNamespace q = Ret ns \<and> ns_address ns \<noteq> '''')"
    by (rule exI[of _ "''b::h2''"], simp) (auto simp: parse_examples ns_address_def split: if_splits)
  have facts: "resolver_ok (sys_resolver ?s)" "assigned (sys_resolver ?s) ''wf'' = Some ''a::h1''"
    "request_payload (cfg_ext ?cfg) RespondWorkflowTaskCompleted (example_body ''vns'' ''wf'') = Some \<lparr>WorkflowID = ''wf'', VirtualNamespaceName = ''vns''\<rparr>"
    "request_payload (cfg_ext ?cfg) SignalWorkflowExecution (example_body ''vns'' ''wf'') = Some \<lparr>WorkflowID = ''wf'', VirtualNamespaceName = ''vns''\<rparr>"
    "completes (cfg_ext ?cfg) RespondWorkflowTaskCompleted (example_body ''vns'' ''wf'')"
    "\<not> completes (cfg_ext ?cfg) SignalWorkflowExecution (example_body ''vns'' ''wf'')"
    "reg_statuses (sys_registry ?s) (VirtualNamespaceName \<lparr>WorkflowID = ''wf'', VirtualNamespaceName = ''vns''\<rparr>) = Some ?tbl"
    unfolding cfg using example_payloads[of "''vns''" "''wf''"] example_completes[of "''vns''" "''wf''"]
    by (simp_all add: example_registry_statuses completes_def del: request_payload.simps)
  have "\<exists>q ns r'. q \<noteq> ''a::h1'' \<and> ?tbl q = Some NamespaceActive \<and> parsePhysicalNamespace q = Ret ns \<and>
      fst (serve ?cfg (rpc_request SignalWorkflowExecution ''vns'' ''wf'') example_choices example_transport
        (fold (exec ?cfg) [Serve (rpc_request RespondWorkflowTaskCompleted ''vns'' ''wf'') example_choices example_transport,
          AdminCall (example_admin ''/namespace/physical/remove'' ''vns'') []] ?s)) = Ret (Forwarded r') \<and> url_host r' = ns_address ns \<and>
      req_body r' = (case renamed (cfg_ext ?cfg) SignalWorkflowExecution (example_body ''vns'' ''wf'') (ns_name ns) of
        Inl _ \<Rightarrow> Inr (example_body ''vns'' ''wf'') | Inr pb \<Rightarrow> Inr (frame pb)) \<and>
      assigned (sys_resolver (snd (serve ?cfg (rpc_request SignalWorkflowExecution ''vns'' ''wf'') example_choices example_transport
        (fold (exec ?cfg) [Serve (rpc_request RespondWorkflowTaskCompleted ''vns'' ''wf'') example_choices example_transport,
          AdminCall (example_admin ''/namespace/physical/remove'' ''vns'') []] ?s)))) ''wf'' = Some q"
    by (rule completed_workflow_sought_elsewhere[OF facts(1,2) _ _ _ facts(3) _ facts(5) full free _ op facts(7) names _ _ facts(4) _ facts(6) refl])
      simp_all
  then show ?thesis
    by blast
qed

end
