(* ===== verification/ProxyRace.thy ===== *)
theory ProxyRace
  imports Journeys
begin

text \<open>
  Requests side by side. \<^verbatim>\<open>net/http\<close> runs a goroutine per request, and the handlers hold no lock over what they do: a
  rewriting handler makes the calls of \<^verbatim>\<open>Resolve\<close> one by one and then deletes the routing entry once per complete-workflow
  command; a poll asks the registry, lists the namespaces, and then its own goroutines, its channel and its receive loop run
  beside everything else. Between these calls other requests run, requests arrive, the admin API changes the registry and
  the registry is checkpointed. What a handler does by itself (decoding, rewriting, writing a response) touches nothing shared
  and is part of the next step.
\<close>

section \<open>A handler in steps\<close>

datatype 'w handler =
    Resolving rpc http_request "byte list" Payload resolve_pc
  | Deleting rpc http_request "byte list" Payload string "CommandType list"
  | Asking rpc choices string "string \<Rightarrow> http_response result outcome"
  | Listing rpc choices string "string \<Rightarrow> http_response result outcome" nat
  | Waiting rpc choices "string \<Rightarrow> http_response result outcome" "'w fan_state"
  | Served "served outcome"

definition request_commands :: "externals \<Rightarrow> rpc \<Rightarrow> byte list \<Rightarrow> CommandType list" where
  "request_commands ext m bs =
     (if m = RespondWorkflowTaskCompleted then rwt_Commands (the (decode (ext_gunzip ext) (c_rwt ext) bs)) else [])"

text \<open>The end of a rewriting handler, from the parsed physical namespace to the director.\<close>

definition respond :: "externals \<Rightarrow> string \<Rightarrow> rpc \<Rightarrow> http_request \<Rightarrow> byte list \<Rightarrow> string \<Rightarrow> served outcome" where
  "respond ext host m r bs physNs =
     and_then (parsePhysicalNamespace physNs) (\<lambda>ns.
       let r = r\<lparr>url_host := ns_address ns, req_host := ns_address ns\<rparr>;
           r = (case renamed ext m bs (ns_name ns) of
                  Inl _ \<Rightarrow> r\<lparr>req_body := Inr bs\<rparr>
                | Inr newPbPayload \<Rightarrow> (let (newBody, r) = encodeGRPCPayload newPbPayload r in r\<lparr>req_body := Inr newBody\<rparr>))
       in Ret (Forwarded (Director host r)))"

text \<open>
  A request arrives. One whose path names no RPC, whose body cannot be read or decoded, or whose task token cannot be
  walked, is dealt with without the registry and the cache.
\<close>

definition arrive :: "config \<Rightarrow> http_request \<Rightarrow> choices \<Rightarrow> transport \<Rightarrow> 'w system \<Rightarrow> 'w handler" where
  "arrive cfg r ch tr s =
     (case (dispatch (url_path r), req_body r) of
        (Some m, Inr bs) \<Rightarrow>
          (if is_poll m
           then (case poll_request (cfg_ext cfg) m tr r bs of
                   Inl _ \<Rightarrow> Served (fst (serve cfg r ch tr s))
                 | Inr (vns, poll) \<Rightarrow> Asking m ch vns poll)
           else (case request_payload (cfg_ext cfg) m bs of
                   None \<Rightarrow> Served (fst (serve cfg r ch tr s))
                 | Some p \<Rightarrow> Resolving m r bs p At_get))
      | _ \<Rightarrow> Served (fst (serve cfg r ch tr s)))"

inductive handler_step :: "config \<Rightarrow> 'w system \<Rightarrow> 'w handler \<Rightarrow> 'w system \<Rightarrow> 'w handler \<Rightarrow> bool" for cfg s where
  resolving: "\<not> ResolverRace.returned pc \<Longrightarrow>
    call_step (ext_sum32 (cfg_ext cfg)) (sys_registry s) p pc (sys_resolver s) = (pc', res) \<Longrightarrow>
    handler_step cfg s (Resolving m r bs p pc) (s\<lparr>sys_resolver := res\<rparr>) (Resolving m r bs p pc')"
| resolved: "handler_step cfg s (Resolving m r bs p (Returned physNs hit))
    s (Deleting m r bs p physNs (request_commands (cfg_ext cfg) m bs))"
| deleting: "handler_step cfg s (Deleting m r bs p physNs (command # commands))
    (s\<lparr>sys_resolver := delete_completed [command] (WorkflowID p) (sys_resolver s)\<rparr>) (Deleting m r bs p physNs commands)"
| responding: "handler_step cfg s (Deleting m r bs p physNs [])
    s (Served (respond (cfg_ext cfg) (cfg_defaultHost cfg) m r bs physNs))"
| unknown: "Registry_Resolve vns (sys_registry s) = None \<Longrightarrow>
    handler_step cfg s (Asking m ch vns poll) s (Served (Ret (poll_reply ch (Inl (vns_unknown vns)))))"
| known: "Registry_Resolve vns (sys_registry s) = Some a \<Longrightarrow>
    handler_step cfg s (Asking m ch vns poll) s (Listing m ch vns poll a)"
| empty: "distinct keys \<Longrightarrow> set keys = dom (vn_Namespaces (deref a (sys_registry s))) \<Longrightarrow>
    GetAllNamespaces keys (deref a (sys_registry s)) = [] \<Longrightarrow>
    handler_step cfg s (Listing m ch vns poll a) s (Served (Ret (poll_reply ch (Inl (vns_empty vns)))))"
| fanning: "distinct keys \<Longrightarrow> set keys = dom (vn_Namespaces (deref a (sys_registry s))) \<Longrightarrow>
    GetAllNamespaces keys (deref a (sys_registry s)) = slots \<Longrightarrow> slots \<noteq> [] \<Longrightarrow>
    handler_step cfg s (Listing m ch vns poll a) s (Waiting m ch poll (fan_init slots (sys_resolver s)))"
| waiting: "fan_step poll (poll_receive (cfg_ext cfg) m) (f\<lparr>fan_resolver := sys_resolver s\<rparr>) f' \<Longrightarrow>
    handler_step cfg s (Waiting m ch poll f) (s\<lparr>sys_resolver := fan_resolver f'\<rparr>) (Waiting m ch poll f')"


text \<open>What the client gets; the goroutines of a poll may still run after it.\<close>

fun answered :: "'w handler \<Rightarrow> served outcome option" where
  "answered (Served out) = Some out"
| "answered (Waiting m ch poll f) = map_option (\<lambda>x. Ret (poll_reply ch x)) (finished f)"
| "answered _ = None"

fun handler_crashed :: "'w handler \<Rightarrow> bool" where
  "handler_crashed (Waiting m ch poll f) = crashed f"
| "handler_crashed _ = False"

section \<open>The process\<close>

text \<open>
  The handlers with the requests they were started for. A panic in a goroutine of a poll is not recovered: the process
  is gone, and nothing runs any more.
\<close>

record 'w process =
  pr_system :: "'w system"
  pr_handlers :: "(http_request \<times> 'w handler) list"
  pr_down :: bool

definition start_process :: "'w system \<Rightarrow> 'w process" where
  "start_process s = \<lparr>pr_system = s, pr_handlers = [], pr_down = False\<rparr>"

inductive handler_runs :: "config \<Rightarrow> 'w process \<Rightarrow> 'w process \<Rightarrow> bool" for cfg where
  runs: "\<not> pr_down P \<Longrightarrow> i < length (pr_handlers P) \<Longrightarrow> pr_handlers P ! i = (r, h) \<Longrightarrow>
    handler_step cfg (pr_system P) h s' h' \<Longrightarrow>
    handler_runs cfg P (P\<lparr>pr_system := s', pr_handlers := (pr_handlers P)[i := (r, h')], pr_down := handler_crashed h'\<rparr>)"


text \<open>What happens to the process from outside: a request, an admin call or a checkpoint.\<close>

fun happens :: "config \<Rightarrow> event \<Rightarrow> 'w process \<Rightarrow> 'w process" where
  "happens cfg (Serve r ch tr) P = P\<lparr>pr_handlers := pr_handlers P @ [(r, arrive cfg r ch tr (pr_system P))]\<rparr>"
| "happens cfg e P = P\<lparr>pr_system := exec cfg e (pr_system P)\<rparr>"

inductive process_run :: "config \<Rightarrow> 'w process \<Rightarrow> event list \<Rightarrow> 'w process \<Rightarrow> bool" for cfg P where
  start: "process_run cfg P [] P"
| inside: "process_run cfg P es Q \<Longrightarrow> handler_runs cfg Q Q' \<Longrightarrow> process_run cfg P es Q'"
| outside: "process_run cfg P es Q \<Longrightarrow> \<not> pr_down Q \<Longrightarrow> process_run cfg P (es @ [e]) (happens cfg e Q)"

section \<open>A handler that is left alone\<close>

lemma request_commands_delete: "after_resolve ext m bs w res = delete_completed (request_commands ext m bs) w res"
  by (simp add: after_resolve_def request_commands_def)

lemma serve_responds:
  assumes "dispatch (url_path r) = Some m" "req_body r = Inr bs" "request_payload (cfg_ext cfg) m bs = Some p"
  shows "fst (serve cfg r ch tr s) = respond (cfg_ext cfg) (cfg_defaultHost cfg) m r bs
    (fst (fst (Resolver_Resolve (ext_sum32 (cfg_ext cfg)) p (sys_registry s) (sys_resolver s))))"
proof -
  obtain what where "rpc_handler (cfg_ext cfg) m r bs (sys_registry s) (sys_resolver s) =
      forward_to (fst (fst (Resolver_Resolve (ext_sum32 (cfg_ext cfg)) p (sys_registry s) (sys_resolver s)))) (renamed (cfg_ext cfg) m bs) what r
        (after_resolve (cfg_ext cfg) m bs (WorkflowID p) (snd (Resolver_Resolve (ext_sum32 (cfg_ext cfg)) p (sys_registry s) (sys_resolver s))))"
    using handler_routed[OF assms(3)] by blast
  then show ?thesis
    using assms(2)
    by (auto simp: serve_def proxy_rewrites[OF assms(1) payload_not_poll[OF assms(3)]] rewrite_body_def forward_def respond_def
        forward_to_def encodeGRPCPayload_def case_prod_beta Let_def split: outcome.splits sum.splits)
qed

definition alone :: "config \<Rightarrow> 'w system \<times> 'w handler \<Rightarrow> 'w system \<times> 'w handler \<Rightarrow> bool" where
  "alone cfg = (\<lambda>(s, h) (s', h'). handler_step cfg s h s' h')"

lemma alone_step: "handler_step cfg s h s' h' \<Longrightarrow> alone cfg (s, h) (s', h')"
  by (simp add: alone_def)

lemma alone_calls:
  "(alone cfg)\<^sup>*\<^sup>* (s, Resolving m r bs p pc)
     (case (run_alone (ext_sum32 (cfg_ext cfg)) (sys_registry s) p ^^ n) (pc, sys_resolver s) of
        (pc', res) \<Rightarrow> (s\<lparr>sys_resolver := res\<rparr>, Resolving m r bs p pc'))"
proof (induction n)
  case (Suc n)
  obtain pc1 res1 where one: "(run_alone (ext_sum32 (cfg_ext cfg)) (sys_registry s) p ^^ n) (pc, sys_resolver s) = (pc1, res1)"
    by fastforce
  obtain pc2 res2 where two: "call_step (ext_sum32 (cfg_ext cfg)) (sys_registry s) p pc1 res1 = (pc2, res2)"
    by fastforce
  show ?case
  proof (cases "ResolverRace.returned pc1")
    case True
    then have "(pc2, res2) = (pc1, res1)"
      using two by (cases pc1) simp_all
    then show ?thesis
      using Suc one two by (simp add: run_alone_def)
  next
    case False
    then have "handler_step cfg (s\<lparr>sys_resolver := res1\<rparr>) (Resolving m r bs p pc1) (s\<lparr>sys_resolver := res1\<rparr>\<lparr>sys_resolver := res2\<rparr>) (Resolving m r bs p pc2)"
      using two by (intro resolving) simp_all
    then show ?thesis
      using Suc one two by (simp add: run_alone_def alone_def rtranclp.rtrancl_into_rtrancl)
  qed
qed simp

lemma alone_deletes:
  "(alone cfg)\<^sup>*\<^sup>* (s, Deleting m r bs p physNs cs)
     (s\<lparr>sys_resolver := delete_completed cs (WorkflowID p) (sys_resolver s)\<rparr>, Deleting m r bs p physNs [])"
proof (induction cs arbitrary: s)
  case (Cons c cs)
  have "alone cfg (s, Deleting m r bs p physNs (c # cs))
      (s\<lparr>sys_resolver := delete_completed [c] (WorkflowID p) (sys_resolver s)\<rparr>, Deleting m r bs p physNs cs)"
    by (rule alone_step[OF deleting])
  from converse_rtranclp_into_rtranclp[OF this Cons] show ?case
    by simp
qed simp

lemma request_alone:
  assumes "dispatch (url_path r) = Some m" "req_body r = Inr bs" "request_payload (cfg_ext cfg) m bs = Some p"
  shows "(alone cfg)\<^sup>*\<^sup>* (s, arrive cfg r ch tr s) (snd (serve cfg r ch tr s), Served (fst (serve cfg r ch tr s)))"
proof -
  obtain physNs hit res where R: "Resolver_Resolve (ext_sum32 (cfg_ext cfg)) p (sys_registry s) (sys_resolver s) = ((physNs, hit), res)"
    by (metis prod.collapse)
  let ?cs = "request_commands (cfg_ext cfg) m bs" and ?s = "s\<lparr>sys_resolver := res\<rparr>"
  have "arrive cfg r ch tr s = Resolving m r bs p At_get"
    using assms payload_not_poll[OF assms(3)] by (simp add: arrive_def)
  then have "(alone cfg)\<^sup>*\<^sup>* (s, arrive cfg r ch tr s) (?s, Resolving m r bs p (Returned physNs hit))"
    using alone_calls[of cfg s m r bs p At_get 5] by (simp add: call_alone R)
  also have "alone cfg (?s, Resolving m r bs p (Returned physNs hit)) (?s, Deleting m r bs p physNs ?cs)"
    by (rule alone_step[OF resolved])
  also note alone_deletes[of cfg ?s m r bs p physNs ?cs]
  also have "alone cfg (?s\<lparr>sys_resolver := delete_completed ?cs (WorkflowID p) (sys_resolver ?s)\<rparr>, Deleting m r bs p physNs [])
      (?s\<lparr>sys_resolver := delete_completed ?cs (WorkflowID p) (sys_resolver ?s)\<rparr>,
       Served (respond (cfg_ext cfg) (cfg_defaultHost cfg) m r bs physNs))"
    by (rule alone_step[OF responding])
  finally show ?thesis
    using serve_state[OF assms, of ch tr s] serve_responds[OF assms, of ch tr s] by (simp add: R request_commands_delete)
qed

lemma alone_fan:
  assumes "fan_reach poll (poll_receive (cfg_ext cfg) m) f f'" "fan_resolver f = sys_resolver s"
  shows "(alone cfg)\<^sup>*\<^sup>* (s, Waiting m ch poll f) (s\<lparr>sys_resolver := fan_resolver f'\<rparr>, Waiting m ch poll f')"
  using assms(1)
proof (induction rule: rtranclp_induct)
  case base
  then show ?case
    by (simp add: assms(2))
next
  case (step f1 f2)
  have "fan_step poll (poll_receive (cfg_ext cfg) m) (f1\<lparr>fan_resolver := sys_resolver (s\<lparr>sys_resolver := fan_resolver f1\<rparr>)\<rparr>) f2"
    using step.hyps(2) by simp
  from alone_step[OF waiting[OF this]] step.IH show ?case
    by (simp add: rtranclp.rtrancl_into_rtrancl)
qed

text \<open>The choices of a run that can happen: the map is ranged over once, and every cluster answers once.\<close>

definition choices_ok :: "choices \<Rightarrow> VirtualNamespace \<Rightarrow> bool" where
  "choices_ok ch v \<longleftrightarrow> distinct (ch_keys ch) \<and> set (ch_keys ch) = dom (vn_Namespaces v) \<and>
     (let slots = GetAllNamespaces (ch_keys ch) v in
      mset (ch_arrival ch slots) = mset slots \<and> (\<forall>p\<in>set slots. Contains p delim))"

lemma listing_alone:
  assumes "choices_ok ch (deref a (sys_registry s))" "\<And>p. is_panic (poll p) \<longleftrightarrow> \<not> Contains p delim" "\<And>p. poll p \<noteq> Hang"
    and slots: "slots = GetAllNamespaces (ch_keys ch) (deref a (sys_registry s))"
    and out: "(out, res) = (if slots = [] then (Ret (poll_reply ch (Inl (vns_empty vns))), sys_resolver s)
      else case fan_out poll (poll_receive (cfg_ext cfg) m) slots (ch_arrival ch slots) (sys_resolver s) of
             (out, res') \<Rightarrow> (and_then out (\<lambda>x. Ret (poll_reply ch x)), res'))"
  shows "\<exists>h. (alone cfg)\<^sup>*\<^sup>* (s, Listing m ch vns poll a) (s\<lparr>sys_resolver := res\<rparr>, h) \<and> answered h = Some out"
proof (cases "slots = []")
  case True
  then have "alone cfg (s, Listing m ch vns poll a) (s, Served out)"
    using assms(1) out slots by (intro alone_step) (auto intro!: empty[where keys = "ch_keys ch"] simp: choices_ok_def)
  then show ?thesis
    using out True by (intro exI[of _ "Served out"]) auto
next
  case False
  have fans: "alone cfg (s, Listing m ch vns poll a) (s, Waiting m ch poll (fan_init slots (sys_resolver s)))"
    using assms(1) False slots by (intro alone_step[OF fanning[where keys = "ch_keys ch"]]) (simp_all add: choices_ok_def)
  have "\<forall>p\<in>set slots. \<not> is_panic (poll p)"
    using assms(1,2) slots by (simp add: choices_ok_def Let_def)
  from fan_out_no_panic[OF this, of "poll_receive (cfg_ext cfg) m" "ch_arrival ch slots" "sys_resolver s"] obtain x where
    x: "fan_out poll (poll_receive (cfg_ext cfg) m) slots (ch_arrival ch slots) (sys_resolver s) = (Ret x, res)"
      "out = Ret (poll_reply ch x)"
    using out False by (auto split: prod.splits)
  moreover have "mset (ch_arrival ch slots) = mset slots"
    using assms(1) slots by (simp add: choices_ok_def Let_def)
  ultimately obtain f where f: "fan_reach poll (poll_receive (cfg_ext cfg) m) (fan_init slots (sys_resolver s)) f"
      "finished f = Some x" "fan_resolver f = res"
    using fan_out_run[OF _ x(1)] assms(3) by blast
  have "(alone cfg)\<^sup>*\<^sup>* (s, Waiting m ch poll (fan_init slots (sys_resolver s))) (s\<lparr>sys_resolver := res\<rparr>, Waiting m ch poll f)"
    using alone_fan[OF f(1), of s ch] f(3) by (simp add: fan_init_def)
  then show ?thesis
    using fans f(2) x(2) by (intro exI[of _ "Waiting m ch poll f"]) (auto intro: converse_rtranclp_into_rtranclp)
qed

lemma poll_alone:
  assumes "dispatch (url_path r) = Some m" "is_poll m" "req_body r = Inr bs" "poll_request (cfg_ext cfg) m tr r bs = Inr (vns, poll)"
    and "\<forall>a. Registry_Resolve vns (sys_registry s) = Some a \<longrightarrow> choices_ok ch (deref a (sys_registry s))"
  shows "\<exists>h. (alone cfg)\<^sup>*\<^sup>* (s, arrive cfg r ch tr s) (snd (serve cfg r ch tr s), h) \<and> answered h = Some (fst (serve cfg r ch tr s))"
proof -
  note served = proxy_polls[OF assms(1-4), of "cfg_defaultHost cfg" ch "sys_registry s" "sys_resolver s"]
  have arr: "arrive cfg r ch tr s = Asking m ch vns poll"
    using assms(1-4) by (simp add: arrive_def)
  show ?thesis
  proof (cases "Registry_Resolve vns (sys_registry s)")
    case None
    then have "serve cfg r ch tr s = (Ret (poll_reply ch (Inl (vns_unknown vns))), s)"
      by (simp add: serve_def served)
    moreover have "alone cfg (s, arrive cfg r ch tr s) (s, Served (Ret (poll_reply ch (Inl (vns_unknown vns)))))"
      unfolding arr by (rule alone_step[OF unknown[OF None]])
    ultimately show ?thesis
      by (intro exI[of _ "Served (Ret (poll_reply ch (Inl (vns_unknown vns))))"]) auto
  next
    case (Some a)
    let ?out = "proxy_handler (cfg_ext cfg) tr (cfg_defaultHost cfg) ch (sys_registry s) r (sys_resolver s)"
    have "(fst ?out, snd ?out) = (let slots = GetAllNamespaces (ch_keys ch) (deref a (sys_registry s)) in
        if slots = [] then (Ret (poll_reply ch (Inl (vns_empty vns))), sys_resolver s)
        else case fan_out poll (poll_receive (cfg_ext cfg) m) slots (ch_arrival ch slots) (sys_resolver s) of
               (out, res') \<Rightarrow> (and_then out (\<lambda>x. Ret (poll_reply ch x)), res'))"
      by (simp add: served Some)
    from listing_alone[OF _ poll_outcome[OF assms(4)] refl this[unfolded Let_def]]
    obtain h where "(alone cfg)\<^sup>*\<^sup>* (s, Listing m ch vns poll a) (s\<lparr>sys_resolver := snd ?out\<rparr>, h)" "answered h = Some (fst ?out)"
      using assms(5) Some by blast
    moreover have "alone cfg (s, arrive cfg r ch tr s) (s, Listing m ch vns poll a)"
      unfolding arr by (rule alone_step[OF known[OF Some]])
    ultimately show ?thesis
      by (auto simp: serve_def case_prod_beta intro: converse_rtranclp_into_rtranclp)
  qed
qed

text \<open>What is dealt with on arrival leaves the system as it is.\<close>

lemma served_on_arrival:
  assumes "arrive cfg r ch tr s = Served out"
  shows "serve cfg r ch tr s = (out, s)"
proof -
  have out: "out = fst (serve cfg r ch tr s)"
    using assms by (auto simp: arrive_def split: option.splits sum.splits if_splits)
  have "snd (proxy_handler (cfg_ext cfg) tr (cfg_defaultHost cfg) ch (sys_registry s) r (sys_resolver s)) = sys_resolver s"
  proof (cases "dispatch (url_path r)")
    case None
    then show ?thesis
      by (simp add: proxy_handler_def)
  next
    case (Some m)
    show ?thesis
    proof (cases "is_poll m")
      case True
      then show ?thesis
        using assms Some
        by (cases m) (auto simp: arrive_def proxy_handler_def is_poll_def servePollWorkflowTaskQueue_def servePollActivityTaskQueue_def
            ExecutePoll_def ExecutePollActivity_def split: sum.splits prod.splits)
    next
      case False
      then show ?thesis
        using assms Some rpc_h.handle_state[of "cfg_ext cfg" m r _ "sys_registry s" "sys_resolver s"]
        by (auto simp: arrive_def proxy_rewrites[OF Some False] snd_forward snd_rewrite_body split: sum.splits option.splits)
    qed
  qed
  then show ?thesis
    using out by (simp add: serve_def case_prod_beta)
qed

section \<open>What a handler knows\<close>

text \<open>A handler belongs to the request it was started for.\<close>

definition about :: "config \<Rightarrow> http_request \<Rightarrow> rpc \<Rightarrow> byte list \<Rightarrow> Payload \<Rightarrow> bool" where
  "about cfg r m bs p \<longleftrightarrow> dispatch (url_path r) = Some m \<and> req_body r = Inr bs \<and> request_payload (cfg_ext cfg) m bs = Some p"

fun handler_wf :: "config \<Rightarrow> http_request \<times> 'w handler \<Rightarrow> bool" where
  "handler_wf cfg (r, Resolving m r' bs p pc) = (r' = r \<and> about cfg r m bs p)"
| "handler_wf cfg (r, Deleting m r' bs p physNs cs) =
     (r' = r \<and> about cfg r m bs p \<and> set cs \<subseteq> set (request_commands (cfg_ext cfg) m bs))"
| "handler_wf cfg (r, Asking m ch vns poll) =
     (dispatch (url_path r) = Some m \<and> (\<exists>tr bs. poll_request (cfg_ext cfg) m tr r bs = Inr (vns, poll)))"
| "handler_wf cfg (r, Listing m ch vns poll a) =
     (dispatch (url_path r) = Some m \<and> (\<exists>tr bs. poll_request (cfg_ext cfg) m tr r bs = Inr (vns, poll)))"
| "handler_wf cfg (r, Waiting m ch poll f) =
     (dispatch (url_path r) = Some m \<and> (\<exists>tr bs vns. poll_request (cfg_ext cfg) m tr r bs = Inr (vns, poll)) \<and>
      set (channel f) \<subseteq> range (answer poll))"
| "handler_wf cfg (r, Served out) = True"

lemma arrive_wf: "handler_wf cfg (r, arrive cfg r ch tr s)"
  by (auto simp: arrive_def about_def split: option.splits sum.splits)

lemma fan_step_channel:
  assumes "fan_step poll recv f f'" "set (channel f) \<subseteq> range (answer poll)"
  shows "set (channel f') \<subseteq> range (answer poll)"
  using assms
proof (cases rule: fan_step.cases)
  case (send xs p ys x)
  then have "\<lparr>pr_resp = x, pr_physNs = p\<rparr> = answer poll p"
    by (simp add: answer_def)
  then show ?thesis
    using send assms(2) by auto
qed (use assms(2) in auto)

lemma handler_step_wf: "handler_step cfg s h s' h' \<Longrightarrow> handler_wf cfg (r, h) \<Longrightarrow> handler_wf cfg (r, h')"
proof (induction rule: handler_step.induct)
  case (waiting poll m f f' ch)
  then show ?case
    using fan_step_channel[OF waiting(1)] by simp
qed (auto simp: fan_init_def)

text \<open>
  What the handlers may do about workflow \<open>k\<close>, which is assigned to \<open>v\<close>: those that are about it have not looked yet or have
  seen \<open>v\<close>, and delete nothing; polls have tasks of it from \<open>v\<close> only.
\<close>

definition tasks_from :: "config \<Rightarrow> string \<Rightarrow> string \<Rightarrow> rpc \<Rightarrow> (string \<Rightarrow> http_response result outcome) \<Rightarrow> bool" where
  "tasks_from cfg k v m poll \<longleftrightarrow>
     (\<forall>q resp e. poll_task (cfg_ext cfg) m (answer poll q) = Some (resp, Some e) \<longrightarrow> WorkflowId e = k \<longrightarrow> q = v)"

fun sticky :: "config \<Rightarrow> string \<Rightarrow> string \<Rightarrow> http_request \<times> 'w handler \<Rightarrow> bool" where
  "sticky cfg k v (r, Resolving m r' bs p pc) =
     (WorkflowID p = k \<longrightarrow> \<not> completes (cfg_ext cfg) m bs \<and> (pc = At_get \<or> pc = Returned v True))"
| "sticky cfg k v (r, Deleting m r' bs p physNs cs) =
     (WorkflowID p = k \<longrightarrow> \<not> completes (cfg_ext cfg) m bs \<and> physNs = v)"
| "sticky cfg k v (r, Asking m ch vns poll) = tasks_from cfg k v m poll"
| "sticky cfg k v (r, Listing m ch vns poll a) = tasks_from cfg k v m poll"
| "sticky cfg k v (r, Waiting m ch poll f) = tasks_from cfg k v m poll"
| "sticky cfg k v (r, Served out) =
     (\<forall>m bs p. about cfg r m bs p \<longrightarrow> WorkflowID p = k \<longrightarrow> out = respond (cfg_ext cfg) (cfg_defaultHost cfg) m r bs v)"

lemma arrive_sticky:
  assumes "safe cfg k v (Serve r ch tr)"
  shows "sticky cfg k v (r, arrive cfg r ch tr s)"
proof (cases "arrive cfg r ch tr s")
  case (Served out)
  then show ?thesis
    using payload_not_poll by (auto simp: arrive_def about_def split: option.splits sum.splits if_splits)
next
  case (Asking m ch' vns poll)
  then obtain bs where m: "dispatch (url_path r) = Some m" "req_body r = Inr bs" "poll_request (cfg_ext cfg) m tr r bs = Inr (vns, poll)"
    by (auto simp: arrive_def split: option.splits sum.splits if_splits)
  then show ?thesis
    using assms offered_poll[OF m(3)] Asking by (auto simp: tasks_from_def)
qed (use assms in \<open>auto simp: arrive_def split: option.splits sum.splits if_splits\<close>)

lemma about_unique: "about cfg r m bs p \<Longrightarrow> about cfg r m' bs' p' \<Longrightarrow> m' = m \<and> bs' = bs \<and> p' = p"
  by (auto simp: about_def)

lemma about_completes: "about cfg r m bs p \<Longrightarrow>
    completes (cfg_ext cfg) m bs \<longleftrightarrow> COMMAND_TYPE_COMPLETE_WORKFLOW_EXECUTION \<in> set (request_commands (cfg_ext cfg) m bs)"
  by (auto simp: about_def completes_def request_commands_def split: option.splits bind_splits)

lemma polls_about_nothing:
  assumes "dispatch (url_path r) = Some m" "poll_request (cfg_ext cfg) m tr r bs = Inr (vns, poll)"
  shows "\<not> about cfg r m' bs' p"
  using assms offered_poll[OF assms(2)] payload_not_poll by (auto simp: about_def)

text \<open>A step of a poll leaves the resolver alone or caches a task for the cluster that handed it out.\<close>

lemma fan_step_resolver:
  assumes "fan_step poll (poll_receive ext m) f f'" "set (channel f) \<subseteq> range (answer poll)"
  shows "fan_resolver f' = fan_resolver f \<or> (\<exists>q resp e. poll_task ext m (answer poll q) = Some (resp, Some e) \<and>
    fan_resolver f' = (fan_resolver f)\<lparr>Cache := Mappings_Put (WorkflowId e) q (Cache (fan_resolver f))\<rparr>)"
proof -
  have recv: "r' = r \<or> (\<exists>q resp e. poll_task ext m (answer poll q) = Some (resp, Some e) \<and>
      r' = r\<lparr>Cache := Mappings_Put (WorkflowId e) q (Cache r)\<rparr>)"
    if "poll_receive ext m (answer poll q) acc r = (out, r')" for q acc out and r r' :: "'a Resolver"
  proof (cases "poll_task ext m (answer poll q)")
    case None
    then show ?thesis
      using poll_receive_no_task[OF None, of acc r] that by auto
  next
    case (Some x)
    obtain resp ex where x: "x = (resp, ex)"
      by fastforce
    then have "r' = cache_task ex q r"
      using poll_receive_task[OF Some[unfolded x], of acc r] that by (simp add: answer_def)
    then show ?thesis
      using Some x by (cases ex) (auto simp: cache_task_def)
  qed
  show ?thesis
    using assms
  proof (cases rule: fan_step.cases)
    case (return_task res rest resp r)
    then obtain q where "res = answer poll q"
      using assms(2) by auto
    then show ?thesis
      using return_task recv by simp
  next
    case (go_on res rest acc r)
    then obtain q where "res = answer poll q"
      using assms(2) by auto
    then show ?thesis
      using go_on recv by simp
  qed simp_all
qed

lemma resolving_sticky:
  assumes "\<not> ResolverRace.returned pc" "call_step sum32 reg p pc res = (pc', res')"
    and "resolver_ok res" "assigned res k = Some v" "v \<noteq> ''''" "WorkflowID p = k \<longrightarrow> pc = At_get"
  shows "resolver_ok res' \<and> assigned res' k = Some v \<and> (WorkflowID p = k \<longrightarrow> pc' = Returned v True)"
proof -
  note cache = call_step_cache[OF assms(3,2)]
  have "fst (Mappings_Get k (Cache res)) = v"
    using cache.get_value[of "Cache res" k] assms(3,4) by (simp add: resolver_ok_def assigned_def)
  then have "WorkflowID p = k \<longrightarrow> pc' = Returned v True"
    using assms(2,5,6) by (auto simp: case_prod_beta)
  moreover have "assigned res' k = Some v"
    using cache(2) assms(4,6) by (auto split: resolve_pc.splits)
  ultimately show ?thesis
    using cache(1) by blast
qed

lemma handler_step_sticky:
  assumes "handler_step cfg s h s' h'" "resolver_ok (sys_resolver s)" "assigned (sys_resolver s) k = Some v" "v \<noteq> ''''"
    and "handler_wf cfg (r, h)" "sticky cfg k v (r, h)"
  shows "resolver_ok (sys_resolver s') \<and> assigned (sys_resolver s') k = Some v \<and> sticky cfg k v (r, h')"
  using assms(1)
proof (cases rule: handler_step.cases)
  case (resolving pc p pc' res m r' bs)
  then show ?thesis
    using resolving_sticky[OF resolving(4,5) assms(2-4)] assms(6) by auto
next
  case (deleting m r' bs p physNs c cs)
  then have "about cfg r m bs p" "c \<in> set (request_commands (cfg_ext cfg) m bs)"
    using assms(5) by auto
  then show ?thesis
    using assms(2,3,6) about_completes deleting assigned_delete_completed[OF assms(2), of "[c]" "WorkflowID p"] by auto
next
  case (responding m r' bs p physNs)
  then have p: "about cfg r m bs p" "r' = r" "WorkflowID p = k \<longrightarrow> physNs = v"
    using assms(5,6) by simp_all
  then have "m' = m \<and> bs' = bs \<and> physNs = v" if "about cfg r m' bs' p'" "WorkflowID p' = k" for m' bs' p'
    using about_unique[OF p(1) that(1)] that(2) by simp
  then have "sticky cfg k v (r, h')"
    using p(2) responding(3) by auto
  then show ?thesis
    using assms(2,3) responding by simp
next
  case (unknown vns m ch poll)
  then have "\<not> about cfg r m' bs' p'" for m' bs' p'
    using assms(5) polls_about_nothing by auto
  then show ?thesis
    using assms(2,3) unknown by simp
next
  case (empty keys a m ch vns poll)
  then have "\<not> about cfg r m' bs' p'" for m' bs' p'
    using assms(5) polls_about_nothing by auto
  then show ?thesis
    using assms(2,3) empty by simp
next
  case (waiting poll m f f' ch)
  have "fan_resolver f' = sys_resolver s \<or> (\<exists>q resp e. poll_task (cfg_ext cfg) m (answer poll q) = Some (resp, Some e) \<and>
      fan_resolver f' = (sys_resolver s)\<lparr>Cache := Mappings_Put (WorkflowId e) q (Cache (sys_resolver s))\<rparr>)"
    using fan_step_resolver[OF waiting(4)] assms(5) waiting(1) by simp
  then have "resolver_ok (fan_resolver f') \<and> assigned (fan_resolver f') k = Some v"
    using assms(2,3,6) waiting(1) by (auto simp: tasks_from_def resolver_ok_def assigned_def cache.ok_put cache.put_view)
  then show ?thesis
    using assms(6) waiting by simp
qed (use assms(2,3,6) in auto)

section \<open>What the process keeps\<close>

definition home_inv :: "config \<Rightarrow> string \<Rightarrow> string \<Rightarrow> 'w process \<Rightarrow> bool" where
  "home_inv cfg k v P \<longleftrightarrow> resolver_ok (sys_resolver (pr_system P)) \<and> assigned (sys_resolver (pr_system P)) k = Some v \<and>
     (\<forall>x\<in>set (pr_handlers P). handler_wf cfg x \<and> sticky cfg k v x)"

lemma home_inv_runs:
  assumes "handler_runs cfg P P'" "home_inv cfg k v P" "v \<noteq> ''''"
  shows "home_inv cfg k v P'"
  using assms(1)
proof (cases rule: handler_runs.cases)
  case (runs i r h s' h')
  then have x: "(r, h) \<in> set (pr_handlers P)"
    by (metis nth_mem)
  have "resolver_ok (sys_resolver s') \<and> assigned (sys_resolver s') k = Some v \<and> handler_wf cfg (r, h') \<and> sticky cfg k v (r, h')"
    using handler_step_sticky[OF runs(5) _ _ assms(3)] handler_step_wf[OF runs(5)] assms(2) x unfolding home_inv_def by blast
  then show ?thesis
    using assms(2) set_update_subset_insert[of "pr_handlers P" i "(r, h')"] unfolding home_inv_def runs(1) by auto
qed

lemma home_inv_happens:
  assumes "home_inv cfg k v P" "v \<noteq> ''''" "k \<noteq> registry_key" "safe cfg k v e"
  shows "home_inv cfg k v (happens cfg e P)"
proof (cases e)
  case (Serve r ch tr)
  then show ?thesis
    using assms arrive_wf[of cfg r ch tr "pr_system P"] arrive_sticky[of cfg k v r ch tr "pr_system P"] by (simp add: home_inv_def)
qed (use assms exec_home[OF _ _ assms(2,3,4), of "pr_system P"] in \<open>simp_all add: home_inv_def\<close>)

lemma home_inv_run:
  assumes "process_run cfg P es Q" "\<forall>e\<in>set es. safe cfg k v e" "home_inv cfg k v P" "v \<noteq> ''''" "k \<noteq> registry_key"
  shows "home_inv cfg k v Q"
  using assms(1,2)
  by (induction rule: process_run.induct) (auto intro: assms(3) home_inv_runs[OF _ _ assms(4)] home_inv_happens[OF _ assms(4,5)])

lemma respond_target:
  assumes "parsePhysicalNamespace v = Ret ns" "ns_address ns \<noteq> ''''"
  shows "\<exists>r'. respond ext host m r bs v = Ret (Forwarded r') \<and> url_host r' = ns_address ns \<and> req_host r' = ns_address ns \<and>
    url_path r' = url_path r \<and>
    req_body r' = (case renamed ext m bs (ns_name ns) of Inl _ \<Rightarrow> Inr bs | Inr pb \<Rightarrow> Inr (frame pb))"
  using assms by (auto simp: respond_def encodeGRPCPayload_def Director_def Let_def split: sum.splits)

lemma sticky_answered:
  assumes "handler_wf cfg (r, h)" "sticky cfg k v (r, h)" "about cfg r m bs p" "WorkflowID p = k" "answered h = Some out"
  shows "out = respond (cfg_ext cfg) (cfg_defaultHost cfg) m r bs v"
proof (cases h)
  case (Waiting m' ch poll f)
  then show ?thesis
    using assms(1,3) polls_about_nothing by auto
qed (use assms in auto)

section \<open>Every handler ends\<close>





























section \<open>Runs\<close>

lemma stepping_not_crashed: "handler_step cfg s h s' h' \<Longrightarrow> \<not> handler_crashed h"
proof (induction rule: handler_step.induct)
  case (waiting poll m f f' ch)
  then show ?case
    using fan_step_not_crashed[OF waiting] by simp
qed simp_all

lemma alone_process:
  assumes "(alone cfg)\<^sup>*\<^sup>* (pr_system P, h) (s', h')" "i < length (pr_handlers P)" "pr_handlers P ! i = (r, h)" "\<not> pr_down P" "\<not> handler_crashed h"
  shows "(handler_runs cfg)\<^sup>*\<^sup>* P (P\<lparr>pr_system := s', pr_handlers := (pr_handlers P)[i := (r, h')], pr_down := handler_crashed h'\<rparr>)"
  using assms(1)
proof (induction rule: rtranclp_induct2)
  case refl
  have "(pr_handlers P)[i := (r, h)] = pr_handlers P"
    using assms(3) list_update_id by metis
  then have "P\<lparr>pr_system := pr_system P, pr_handlers := (pr_handlers P)[i := (r, h)], pr_down := handler_crashed h\<rparr> = P"
    using assms(4,5) by (cases P) simp
  then show ?case
    by simp
next
  case (step s1 h1 s2 h2)
  let ?P = "P\<lparr>pr_system := s1, pr_handlers := (pr_handlers P)[i := (r, h1)], pr_down := handler_crashed h1\<rparr>"
  have st: "handler_step cfg (pr_system ?P) h1 s2 h2"
    using step.hyps(2) by (simp add: alone_def)
  then have "handler_runs cfg ?P (?P\<lparr>pr_system := s2, pr_handlers := (pr_handlers ?P)[i := (r, h2)], pr_down := handler_crashed h2\<rparr>)"
    using assms(2) stepping_not_crashed[OF st] by (intro runs[OF _ _ _ st]) simp_all
  then show ?case
    using step.IH by (simp add: rtranclp.rtrancl_into_rtrancl)
qed

lemma process_run_inside: "(handler_runs cfg)\<^sup>*\<^sup>* Q Q' \<Longrightarrow> process_run cfg P es Q \<Longrightarrow> process_run cfg P es Q'"
  by (induction rule: rtranclp_induct) (auto intro: inside)


lemma happens_down [simp]: "pr_down (happens cfg e P) = pr_down P"
  by (cases e) simp_all

lemma process_arrivals:
  "\<not> pr_down P \<Longrightarrow> process_run cfg P [e] (happens cfg e P)"
  "\<not> pr_down P \<Longrightarrow> process_run cfg P [e, e'] (happens cfg e' (happens cfg e P))"
  using outside[OF start, of P cfg e] outside[OF outside[OF start], of P cfg e e'] by simp_all

lemma about_arrive: "about cfg r m bs p \<Longrightarrow> arrive cfg r ch tr s = Resolving m r bs p At_get"
  using payload_not_poll[of "cfg_ext cfg" m bs p] by (simp add: about_def arrive_def)

text \<open>A request that has arrived and is then left alone.\<close>

lemma request_runs:
  assumes "about cfg r m bs p" "i < length (pr_handlers P)" "pr_handlers P ! i = (r, Resolving m r bs p At_get)" "\<not> pr_down P"
  shows "(handler_runs cfg)\<^sup>*\<^sup>* P (P\<lparr>pr_system := snd (serve cfg r ch tr (pr_system P)),
    pr_handlers := (pr_handlers P)[i := (r, Served (fst (serve cfg r ch tr (pr_system P))))], pr_down := False\<rparr>)"
proof -
  have "(alone cfg)\<^sup>*\<^sup>* (pr_system P, Resolving m r bs p At_get)
      (snd (serve cfg r ch tr (pr_system P)), Served (fst (serve cfg r ch tr (pr_system P))))"
    using assms(1) request_alone[of r m bs cfg p "pr_system P" ch tr] about_arrive[OF assms(1), of ch tr "pr_system P"]
    by (simp add: about_def)
  from alone_process[OF this assms(2-4)] show ?thesis
    by simp
qed

section \<open>An example\<close>

definition signal_request :: "string \<Rightarrow> http_request" where
  "signal_request w = rpc_request SignalWorkflowExecution ''vns'' w"

definition signal_arrives :: "string \<Rightarrow> event" where
  "signal_arrives w = Serve (signal_request w) example_choices example_transport"

lemma signal_about:
  "about example_config (signal_request w) SignalWorkflowExecution (example_body ''vns'' w) \<lparr>WorkflowID = w, VirtualNamespaceName = ''vns''\<rparr>"
  using example_payloads(1)[of "''vns''" w] by (simp add: about_def signal_request_def del: request_payload.simps)

lemmas signal_arrive = about_arrive[OF signal_about]

lemma signal_safe: "safe example_config k v (signal_arrives w)"
  by (simp add: signal_arrives_def signal_request_def offered_def completes_def)


text \<open>Two signals arrive, and the second is answered before the first.\<close>

lemma two_signals:
  assumes "s1 = snd (serve example_config (signal_request w') example_choices example_transport s)"
  shows "\<exists>Q. process_run example_config (start_process s) [signal_arrives w, signal_arrives w'] Q \<and>
    (signal_request w, Served (fst (serve example_config (signal_request w) example_choices example_transport s1))) \<in> set (pr_handlers Q)"
proof -
  let ?P = "happens example_config (signal_arrives w') (happens example_config (signal_arrives w) (start_process s))"
  let ?Q = "?P\<lparr>pr_system := s1, pr_handlers := (pr_handlers ?P)[1 := (signal_request w',
      Served (fst (serve example_config (signal_request w') example_choices example_transport s)))], pr_down := False\<rparr>"
  have sys: "pr_system ?P = s"
    by (simp add: signal_arrives_def start_process_def)
  have "process_run example_config (start_process s) [signal_arrives w, signal_arrives w'] ?P"
    by (rule process_arrivals) (simp add: start_process_def)
  moreover have "(handler_runs example_config)\<^sup>*\<^sup>* ?P ?Q"
    using request_runs[OF signal_about[of w'], of 1 ?P example_choices example_transport] assms sys
    by (simp add: signal_arrives_def start_process_def signal_arrive)
  ultimately have "process_run example_config (start_process s) [signal_arrives w, signal_arrives w'] ?Q"
    by (simp add: process_run_inside)
  moreover have "(handler_runs example_config)\<^sup>*\<^sup>* ?Q (?Q\<lparr>pr_system := snd (serve example_config (signal_request w) example_choices example_transport s1),
      pr_handlers := (pr_handlers ?Q)[0 := (signal_request w, Served (fst (serve example_config (signal_request w) example_choices example_transport s1)))],
      pr_down := False\<rparr>)" (is "(handler_runs _)\<^sup>*\<^sup>* _ ?R")
    using request_runs[OF signal_about[of w], of 0 ?Q example_choices example_transport]
    by (simp add: signal_arrives_def start_process_def signal_arrive)
  ultimately have "process_run example_config (start_process s) [signal_arrives w, signal_arrives w'] ?R"
    by (rule process_run_inside[rotated])
  moreover have "(signal_request w, Served (fst (serve example_config (signal_request w) example_choices example_transport s1))) \<in> set (pr_handlers ?R)"
    by (simp add: signal_arrives_def start_process_def)
  ultimately show ?thesis
    by blast
qed

section \<open>Properties\<close>

text \<open>
  C4: A workflow stays on its cluster while requests run side by side. Requests arrive and run interleaved at every call they make
  to the cache and the registry, with admin calls (which may cordon the namespace) and checkpoints in between. As long
  as no request completes the workflow and no other cluster hands out a task of it, the workflow keeps its assignment in every
  state that is reached, and every request about it that has been answered was forwarded to the assigned cluster, rewritten to its namespace.
\<close>

theorem workflow_stays_under_concurrency:
  assumes "resolver_ok (sys_resolver s)" "assigned (sys_resolver s) k = Some v" "v \<noteq> ''''" "k \<noteq> registry_key"
    and "parsePhysicalNamespace v = Ret ns" "ns_address ns \<noteq> ''''"
    and "\<forall>e\<in>set es. safe cfg k v e" "process_run cfg (start_process s) es Q"
  shows "assigned (sys_resolver (pr_system Q)) k = Some v \<and>
    (\<forall>(r, h)\<in>set (pr_handlers Q). \<forall>m bs p out.
       dispatch (url_path r) = Some m \<and> req_body r = Inr bs \<and> request_payload (cfg_ext cfg) m bs = Some p \<and> WorkflowID p = k \<longrightarrow>
       answered h = Some out \<longrightarrow>
       (\<exists>r'. out = Ret (Forwarded r') \<and> url_host r' = ns_address ns \<and> req_host r' = ns_address ns \<and> url_path r' = url_path r \<and>
         req_body r' = (case renamed (cfg_ext cfg) m bs (ns_name ns) of Inl _ \<Rightarrow> Inr bs | Inr pb \<Rightarrow> Inr (frame pb))))"
proof -
  have "home_inv cfg k v (start_process s)"
    using assms(1,2) by (simp add: home_inv_def start_process_def)
  then have inv: "home_inv cfg k v Q"
    by (rule home_inv_run[OF assms(8,7) _ assms(3,4)])
  have "out = respond (cfg_ext cfg) (cfg_defaultHost cfg) m r bs v"
    if "(r, h) \<in> set (pr_handlers Q)" "about cfg r m bs p" "WorkflowID p = k" "answered h = Some out" for r h m bs p out
    using inv that sticky_answered unfolding home_inv_def by blast
  then show ?thesis
    using inv respond_target[OF assms(5,6)] by (fastforce simp: home_inv_def about_def)
qed

theorem workflow_stays_under_concurrency_witness:
  "\<exists>Q r' h. process_run example_config (start_process (example_system [(''wf'', ''a::h1'')])) [signal_arrives ''wf'', signal_arrives ''other''] Q \<and>
     assigned (sys_resolver (pr_system Q)) ''wf'' = Some ''a::h1'' \<and> (signal_request ''wf'', h) \<in> set (pr_handlers Q) \<and>
     answered h = Some (Ret (Forwarded r')) \<and> url_host r' = ''h1''"
proof -
  let ?s = "example_system [(''wf'', ''a::h1'')]"
  obtain Q out where Q: "process_run example_config (start_process ?s) [signal_arrives ''wf'', signal_arrives ''other''] Q"
    "(signal_request ''wf'', Served out) \<in> set (pr_handlers Q)"
    using two_signals[OF refl, of ?s "''wf''" "''other''"] by blast
  have ev: "\<forall>e\<in>set [signal_arrives ''wf'', signal_arrives ''other'']. safe example_config ''wf'' ''a::h1'' e"
    by (simp add: signal_safe del: safe.simps)
  have s: "resolver_ok (sys_resolver ?s)" "assigned (sys_resolver ?s) ''wf'' = Some ''a::h1''" "''wf'' \<noteq> registry_key"
    by (simp_all add: registry_key_def)
  from workflow_stays_under_concurrency[OF s(1,2) _ s(3) parse_examples(1) _ ev Q(1)] Q(2) signal_about[of "''wf''"]
  have "assigned (sys_resolver (pr_system Q)) ''wf'' = Some ''a::h1''" "\<exists>r'. out = Ret (Forwarded r') \<and> url_host r' = ''h1''"
    by (fastforce simp: ns_address_def about_def)+
  then show ?thesis
    using Q by (metis answered.simps(1))
qed



text \<open>
  C6: A served request is a run of its handler. Serving a request as one operation is what the handler does when nothing comes in between:
  from the request's arrival there is an uninterrupted run of the handler's steps that ends with the same answer to the client and the same cache,
  for requests that are rewritten, polled or passed through, for any order in which a map is ranged over and the clusters answer.
\<close>

theorem serve_is_a_run:
  assumes "\<forall>m bs vns poll a. dispatch (url_path r) = Some m \<and> req_body r = Inr bs \<and> poll_request (cfg_ext cfg) m tr r bs = Inr (vns, poll) \<and>
      Registry_Resolve vns (sys_registry s) = Some a \<longrightarrow> choices_ok ch (deref a (sys_registry s))"
  shows "\<exists>h. (alone cfg)\<^sup>*\<^sup>* (s, arrive cfg r ch tr s) (snd (serve cfg r ch tr s), h) \<and> answered h = Some (fst (serve cfg r ch tr s))"
proof (cases "\<exists>out. arrive cfg r ch tr s = Served out")
  case True
  then show ?thesis
    using served_on_arrival[of cfg r ch tr s] by fastforce
next
  case False
  then consider m bs p where "dispatch (url_path r) = Some m" "req_body r = Inr bs" "request_payload (cfg_ext cfg) m bs = Some p"
    | m bs vns poll where "dispatch (url_path r) = Some m" "is_poll m" "req_body r = Inr bs" "poll_request (cfg_ext cfg) m tr r bs = Inr (vns, poll)"
    by (auto simp: arrive_def split: option.splits sum.splits if_splits)
  then show ?thesis
  proof cases
    case 1
    then show ?thesis
      using request_alone[OF 1, of s ch tr] by (intro exI[of _ "Served (fst (serve cfg r ch tr s))"]) simp
  next
    case 2
    then show ?thesis
      using assms by (intro poll_alone) auto
  qed
qed

theorem serve_is_a_run_witness:
  "\<exists>h. (alone example_config)\<^sup>*\<^sup>*
      (example_system [], arrive example_config (rpc_request PollWorkflowTaskQueue ''vns'' ''q'') poll_choices example_transport (example_system []))
      (snd (serve example_config (rpc_request PollWorkflowTaskQueue ''vns'' ''q'') poll_choices example_transport (example_system [])), h) \<and>
    answered h = Some (fst (serve example_config (rpc_request PollWorkflowTaskQueue ''vns'' ''q'') poll_choices example_transport (example_system [])))"
proof -
  have "choices_ok poll_choices (deref 0 example_registry)"
    using delim_examples by (auto simp: choices_ok_def poll_choices_def example_slots example_registry_entry Let_def)
  then show ?thesis
    using example_poll_request
    by (intro serve_is_a_run) (auto simp: Registry_Resolve_def example_registry_entry simp del: poll_request.simps)
qed

text \<open>A poll up to the point where the answer of one cluster is in its channel.\<close>

lemma poll_waits:
  assumes "Registry_Resolve vns (sys_registry s) = Some a" "distinct keys" "set keys = dom (vn_Namespaces (deref a (sys_registry s)))"
    and "GetAllNamespaces keys (deref a (sys_registry s)) = slots" "slots = xs @ v # ys" "poll v = Ret x"
  shows "(alone cfg)\<^sup>*\<^sup>* (s, Asking m ch vns poll)
    (s, Waiting m ch poll ((fan_init slots (sys_resolver s))\<lparr>polling := xs @ ys, channel := [answer poll v]\<rparr>))"
proof -
  let ?f = "fan_init slots (sys_resolver s)" and ?f' = "(fan_init slots (sys_resolver s))\<lparr>polling := xs @ ys, channel := [answer poll v]\<rparr>"
  have "fan_step poll (poll_receive (cfg_ext cfg) m) ?f
      (?f\<lparr>polling := xs @ ys, channel := channel ?f @ [\<lparr>pr_resp = x, pr_physNs = v\<rparr>]\<rparr>)"
    using assms(5,6) by (intro fan_step.send) (simp_all add: fan_init_def)
  moreover have "?f\<lparr>polling := xs @ ys, channel := channel ?f @ [\<lparr>pr_resp = x, pr_physNs = v\<rparr>]\<rparr> = ?f'"
    using assms(6) by (simp add: fan_init_def answer_def)
  moreover have "?f = ?f\<lparr>fan_resolver := sys_resolver s\<rparr>"
    by (simp add: fan_init_def)
  ultimately have "fan_step poll (poll_receive (cfg_ext cfg) m) (?f\<lparr>fan_resolver := sys_resolver s\<rparr>) ?f'"
    by simp
  from alone_step[OF waiting[OF this, of ch]]
  have "alone cfg (s, Waiting m ch poll ?f) (s, Waiting m ch poll ?f')"
    by (simp add: fan_init_def)
  moreover have "alone cfg (s, Listing m ch vns poll a) (s, Waiting m ch poll ?f)"
    using assms(2-5) by (intro alone_step[OF fanning]) simp_all
  moreover have "alone cfg (s, Asking m ch vns poll) (s, Listing m ch vns poll a)"
    by (rule alone_step[OF known[OF assms(1)]])
  ultimately show ?thesis
    by (meson converse_rtranclp_into_rtranclp r_into_rtranclp)
qed

lemma poll_parks:
  assumes "dispatch (url_path r) = Some m" "req_body r = Inr bs" "poll_request (cfg_ext cfg) m tr r bs = Inr (vns, poll)"
    and "Registry_Resolve vns (sys_registry s) = Some a" "distinct keys" "set keys = dom (vn_Namespaces (deref a (sys_registry s)))"
    and "v \<in> set keys" "Contains v delim"
  shows "\<exists>f. process_run cfg (start_process s) [Serve r ch tr] \<lparr>pr_system = s, pr_handlers = [(r, Waiting m ch poll f)], pr_down = False\<rparr> \<and>
    channel f = [answer poll v] \<and> finished f = None \<and> \<not> crashed f"
proof -
  let ?P = "happens cfg (Serve r ch tr) (start_process s)" and ?slots = "GetAllNamespaces keys (deref a (sys_registry s))"
  obtain x where x: "poll v = Ret x"
    using poll_outcome[OF assms(3), of v] assms(8) by (cases "poll v") auto
  have "v \<in> set ?slots"
    using assms(6,7) by (auto simp: GetAllNamespaces_def collect_keys_eq)
  then obtain xs ys where slots: "?slots = xs @ v # ys"
    by (metis split_list)
  define f where "f = (fan_init ?slots (sys_resolver s))\<lparr>polling := xs @ ys, channel := [answer poll v]\<rparr>"
  have f: "channel f = [answer poll v]" "finished f = None" "\<not> crashed f"
    by (simp_all add: f_def fan_init_def)
  have arr: "arrive cfg r ch tr s = Asking m ch vns poll"
    using assms(1-3) offered_poll[OF assms(3)] by (simp add: arrive_def)
  have "(alone cfg)\<^sup>*\<^sup>* (pr_system ?P, Asking m ch vns poll) (s, Waiting m ch poll f)"
    using poll_waits[OF assms(4-6) refl slots, where poll = poll and x = x and cfg = cfg and m = m and ch = ch] x
    by (simp add: f_def start_process_def)
  from alone_process[OF this, of 0 r]
  have "(handler_runs cfg)\<^sup>*\<^sup>* ?P \<lparr>pr_system = s, pr_handlers = [(r, Waiting m ch poll f)], pr_down = False\<rparr>"
    by (simp add: start_process_def arr f)
  moreover have "process_run cfg (start_process s) [Serve r ch tr] ?P"
    by (rule process_arrivals) (simp add: start_process_def)
  ultimately show ?thesis
    using process_run_inside f by blast
qed

lemma poll_takes:
  assumes "poll_task (cfg_ext cfg) m (answer poll v) = Some (resp, Some e)" "WorkflowId e \<noteq> ''''"
    and "channel f = answer poll v # rest" "finished f = None" "\<not> crashed f"
  shows "\<exists>f'. handler_step cfg s (Waiting m ch poll f)
      (s\<lparr>sys_resolver := (sys_resolver s)\<lparr>Cache := Mappings_Put (WorkflowId e) v (Cache (sys_resolver s))\<rparr>\<rparr>) (Waiting m ch poll f') \<and>
    finished f' = Some (Inr resp) \<and> \<not> crashed f'"
proof -
  let ?f = "f\<lparr>fan_resolver := sys_resolver s\<rparr>"
  let ?res = "(sys_resolver s)\<lparr>Cache := Mappings_Put (WorkflowId e) v (Cache (sys_resolver s))\<rparr>"
  let ?f' = "?f\<lparr>channel := rest, finished := Some (Inr resp), fan_resolver := ?res\<rparr>"
  have "poll_receive (cfg_ext cfg) m (answer poll v) (received ?f) (fan_resolver ?f) = (Inl resp, ?res)"
    using poll_receive_task[OF assms(1)] assms(2) by (simp add: cache_task_def answer_def)
  then have "fan_step poll (poll_receive (cfg_ext cfg) m) ?f ?f'"
    using assms(3-5) by (intro fan_step.return_task[where res = "answer poll v"]) simp_all
  from waiting[OF this, of ch] show ?thesis
    using assms(5) by (intro exI[of _ ?f'] conjI) simp_all
qed

text \<open>
  C12: A task that is late brings a completed workflow back. A cluster has handed out a task of a workflow, and the answer waits in the
  channel of the poll. Meanwhile the completion of the workflow is served and removes the routing entry; then the poll receives the answer and
  writes the entry anew. Both requests are answered, and the workflow that has completed is assigned again.
\<close>

theorem late_task_revives_completed_workflow:
  assumes "resolver_ok (sys_resolver s)" "dispatch (url_path rp) = Some mp" "req_body rp = Inr bp"
    and "poll_request (cfg_ext cfg) mp tr rp bp = Inr (vns, poll)" "Registry_Resolve vns (sys_registry s) = Some a"
    and "distinct keys" "set keys = dom (vn_Namespaces (deref a (sys_registry s)))" "v \<in> set keys" "Contains v delim"
    and "poll_task (cfg_ext cfg) mp (answer poll v) = Some (resp, Some e)" "WorkflowId e \<noteq> ''''"
    and "dispatch (url_path rc) = Some mc" "req_body rc = Inr bc" "request_payload (cfg_ext cfg) mc bc = Some p"
    and "WorkflowID p = WorkflowId e" "completes (cfg_ext cfg) mc bc"
  shows "\<exists>P f Q h. process_run cfg (start_process s) [Serve rp ch tr] P \<and>
    pr_handlers P = [(rp, Waiting mp ch poll f)] \<and> answer poll v \<in> set (channel f) \<and> finished f = None \<and>
    process_run cfg P [Serve rc ch' tr'] Q \<and> \<not> pr_down Q \<and>
    pr_handlers Q = [(rp, h), (rc, Served (fst (serve cfg rc ch' tr' s)))] \<and>
    answered h = Some (Ret (poll_reply ch (Inr resp))) \<and>
    assigned (sys_resolver (snd (serve cfg rc ch' tr' s))) (WorkflowId e) = None \<and>
    assigned (sys_resolver (pr_system Q)) (WorkflowId e) = Some v"
proof -
  let ?s = "snd (serve cfg rc ch' tr' s)" and ?served = "Served (fst (serve cfg rc ch' tr' s))"
  let ?s' = "?s\<lparr>sys_resolver := (sys_resolver ?s)\<lparr>Cache := Mappings_Put (WorkflowId e) v (Cache (sys_resolver ?s))\<rparr>\<rparr>"
  obtain f where f: "process_run cfg (start_process s) [Serve rp ch tr] \<lparr>pr_system = s, pr_handlers = [(rp, Waiting mp ch poll f)], pr_down = False\<rparr>"
    "channel f = [answer poll v]" "finished f = None" "\<not> crashed f"
    using poll_parks[OF assms(2-9), of ch] by blast
  let ?P = "\<lparr>pr_system = s, pr_handlers = [(rp, Waiting mp ch poll f)], pr_down = False\<rparr>"
  let ?Q = "\<lparr>pr_system = ?s, pr_handlers = [(rp, Waiting mp ch poll f), (rc, ?served)], pr_down = False\<rparr>"
  have ab: "about cfg rc mc bc p"
    using assms(12-14) by (simp add: about_def)
  have "(handler_runs cfg)\<^sup>*\<^sup>* (happens cfg (Serve rc ch' tr') ?P) ?Q"
    using request_runs[OF ab, of 1 "happens cfg (Serve rc ch' tr') ?P" ch' tr'] by (simp add: about_arrive[OF ab])
  then have Q: "process_run cfg ?P [Serve rc ch' tr'] ?Q"
    by (rule process_run_inside) (simp add: process_arrivals del: happens.simps)
  obtain f' where f': "handler_step cfg ?s (Waiting mp ch poll f) ?s' (Waiting mp ch poll f')" "finished f' = Some (Inr resp)" "\<not> crashed f'"
    using poll_takes[OF assms(10,11) f(2-4), of ?s ch] by blast
  have "handler_runs cfg ?Q (?Q\<lparr>pr_system := ?s', pr_handlers := (pr_handlers ?Q)[0 := (rp, Waiting mp ch poll f')], pr_down := crashed f'\<rparr>)"
    using runs[of ?Q 0 rp "Waiting mp ch poll f" cfg ?s' "Waiting mp ch poll f'"] f'(1) by simp
  from inside[OF Q this]
  have "process_run cfg ?P [Serve rc ch' tr'] \<lparr>pr_system = ?s', pr_handlers = [(rp, Waiting mp ch poll f'), (rc, ?served)], pr_down = False\<rparr>"
    using f'(3) by simp
  moreover have "resolver_ok (sys_resolver ?s)" "assigned (sys_resolver ?s) (WorkflowId e) = None"
    using rpc_h.handle_ok[OF assms(1)] rpc_h.handle_ends[OF assms(1,14,16)] assms(13,15)
    by (simp_all add: serve_def proxy_rewrites[OF assms(12) payload_not_poll[OF assms(14)]] snd_forward snd_rewrite_body case_prod_beta)
  then have "assigned (sys_resolver ?s') (WorkflowId e) = Some v"
    by (simp add: assigned_def resolver_ok_def cache.put_view)
  ultimately show ?thesis
    using f f'(2) \<open>assigned (sys_resolver ?s) (WorkflowId e) = None\<close>
    by (intro exI[of _ ?P] exI[of _ f] exI[of _ "\<lparr>pr_system = ?s', pr_handlers = [(rp, Waiting mp ch poll f'), (rc, ?served)], pr_down = False\<rparr>"]
        exI[of _ "Waiting mp ch poll f'"]) simp
qed

theorem late_task_revives_completed_workflow_witness:
  "\<exists>P Q. process_run example_config (start_process (example_system [(''wf'', ''b::h2'')]))
       [Serve (rpc_request PollWorkflowTaskQueue ''vns'' ''q'') poll_choices example_transport] P \<and>
     process_run example_config P [Serve (rpc_request RespondWorkflowTaskCompleted ''vns'' ''wf'') example_choices example_transport] Q \<and>
     assigned (sys_resolver (pr_system Q)) ''wf'' = Some ''b::h2''"
proof -
  let ?s = "example_system [(''wf'', ''b::h2'')]"
  have facts: "resolver_ok (sys_resolver ?s)" "Registry_Resolve ''vns'' (sys_registry ?s) = Some 0"
    "set [''a::h1'', ''b::h2''] = dom (vn_Namespaces (deref 0 (sys_registry ?s)))" "Contains ''b::h2'' delim"
    "request_payload (cfg_ext example_config) RespondWorkflowTaskCompleted (example_body ''vns'' ''wf'') =
      Some \<lparr>WorkflowID = ''wf'', VirtualNamespaceName = ''vns''\<rparr>"
    "completes (cfg_ext example_config) RespondWorkflowTaskCompleted (example_body ''vns'' ''wf'')"
    using delim_examples example_payloads(2)[of "''vns''" "''wf''"] example_completes[of "''vns''" "''wf''"]
    by (auto simp: Registry_Resolve_def example_registry_entry simp del: request_payload.simps)
  show ?thesis
    using late_task_revives_completed_workflow[OF facts(1) _ _ _ facts(2) _ facts(3) _ facts(4) _ _ _ _ facts(5) _ facts(6),
        of "rpc_request PollWorkflowTaskQueue ''vns'' ''q''" PollWorkflowTaskQueue "example_body ''vns'' ''q''" example_transport example_polls
        example_task "\<lparr>WorkflowId = ''wf'', exec_other = []\<rparr>" "rpc_request RespondWorkflowTaskCompleted ''vns'' ''wf''" poll_choices
        example_choices example_transport] example_poll_request example_poll_tasks(2)
    by (simp del: poll_request.simps) blast
qed

end
