(* ===== verification/DynConfig.thy ===== *)
theory DynConfig
  imports GoStdlib
begin

text \<open>
  The dynamic configuration of a test cluster: the global defaults of
  \<^verbatim>\<open>dynamic_config_overrides.go\<close> and the two ways \<^verbatim>\<open>onebox.go\<close> overrides a setting, for the life of the
  cluster or for the life of a test. The store itself, \<^verbatim>\<open>dynamicconfig.MemoryClient\<close>, is a parameter
  with its documented behaviour: overrides are stacked, the newest one of a key is in force, and
  the cleanup function of an override takes that override, and nothing else, away.
\<close>

section \<open>The defaults\<close>

text \<open>
  Durations are in milliseconds. A list of constrained values has, for each value, the namespace it is for (empty: any)
  and its other constraints, which the tests only hand on.
\<close>

datatype dyn_value = VInt int | VBool bool | VDuration int | VString string | VConstrained "(string \<times> nat \<times> dyn_value) list"

definition ClientSuiteLimit :: int where
  "ClientSuiteLimit = 10"

definition NamespaceCacheRefreshInterval :: int where
  "NamespaceCacheRefreshInterval = 1000"

text \<open>A setting is named by its constant; \<open>off\<close> is \<^verbatim>\<open>visibility.SecondaryVisibilityWritingModeOff\<close>.\<close>

definition defaultDynamicConfigOverrides :: "string \<Rightarrow> (string \<times> dyn_value) list" where
  "defaultDynamicConfigOverrides off =
    [(''FrontendRPS'', VInt 3000),
     (''FrontendNamespaceReplicationInducingAPIsRPS'', VInt 1000),
     (''FrontendMaxNamespaceVisibilityRPSPerInstance'', VInt 50),
     (''FrontendMaxNamespaceVisibilityBurstRatioPerInstance'', VInt 1),
     (''ReplicationTaskProcessorErrorRetryMaxAttempts'', VInt 1),
     (''SecondaryVisibilityWritingMode'', VString off),
     (''WorkflowTaskHeartbeatTimeout'', VDuration 5000),
     (''ReplicationTaskFetcherAggregationInterval'', VDuration 200),
     (''ReplicationTaskFetcherErrorRetryWait'', VDuration 50),
     (''ReplicationTaskProcessorErrorRetryWait'', VDuration 1),
     (''ClusterMetadataRefreshInterval'', VDuration 100),
     (''NamespaceCacheRefreshInterval'', VDuration NamespaceCacheRefreshInterval),
     (''ReplicationEnableUpdateWithNewTaskMerge'', VBool True),
     (''FrontendMaskInternalErrorDetails'', VBool False),
     (''HistoryScannerEnabled'', VBool False),
     (''TaskQueueScannerEnabled'', VBool False),
     (''ExecutionsScannerEnabled'', VBool False),
     (''BuildIdScavengerEnabled'', VBool False),
     (''ForceSearchAttributesCacheRefreshOnRead'', VBool True),
     (''SendRawHistoryBetweenInternalServices'', VBool True),
     (''RetentionTimerJitterDuration'', VDuration 1000),
     (''EnableTransitionHistory'', VBool True),
     (''NumPendingChildExecutionsLimitError'', VInt ClientSuiteLimit),
     (''NumPendingActivitiesLimitError'', VInt ClientSuiteLimit),
     (''NumPendingCancelRequestsLimitError'', VInt ClientSuiteLimit),
     (''NumPendingSignalsLimitError'', VInt ClientSuiteLimit),
     (''FrontendMaxConcurrentBatchOperationPerNamespace'', VInt ClientSuiteLimit),
     (''FrontendEnableWorkerVersioningDataAPIs'', VBool True),
     (''FrontendEnableWorkerVersioningWorkflowAPIs'', VBool True),
     (''ForceNexusEndpointRefreshOnRead'', VBool True),
     (''RefreshNexusEndpointsMinWait'', VDuration 1),
     (''nexusoperations.RecordCancelRequestCompletionEvents'', VBool True),
     (''nexusoperations.UseSystemCallbackURL'', VBool True)]"

section \<open>The store\<close>

text \<open>
  \<open>cs_override\<close> is \<^verbatim>\<open>PartialOverrideValue\<close>: it returns its cleanup function, here a number, and
  \<open>cs_cleanup\<close> calls it. \<open>cs_stack\<close> and \<open>cs_issued\<close> are what the documentation speaks about: the live
  overrides, newest first, and how many cleanup functions there have been.
\<close>

record 'c config_store =
  cs_override :: "string \<Rightarrow> dyn_value \<Rightarrow> 'c \<Rightarrow> nat \<times> 'c"
  cs_cleanup :: "nat \<Rightarrow> 'c \<Rightarrow> 'c"
  cs_get :: "string \<Rightarrow> 'c \<Rightarrow> dyn_value option"
  cs_stack :: "'c \<Rightarrow> (nat \<times> string \<times> dyn_value) list"
  cs_issued :: "'c \<Rightarrow> nat"

definition store_ok :: "'c config_store \<Rightarrow> bool" where
  "store_ok st \<longleftrightarrow>
     (\<forall>k v c. fst (cs_override st k v c) = cs_issued st c
        \<and> cs_issued st (snd (cs_override st k v c)) = Suc (cs_issued st c)
        \<and> cs_stack st (snd (cs_override st k v c)) = (cs_issued st c, k, v) # cs_stack st c) \<and>
     (\<forall>i c. cs_issued st (cs_cleanup st i c) = cs_issued st c
        \<and> cs_stack st (cs_cleanup st i c) = filter (\<lambda>e. fst e \<noteq> i) (cs_stack st c)) \<and>
     (\<forall>k c. cs_get st k c = map_of (map snd (cs_stack st c)) k)"

section \<open>Overriding\<close>

definition overrideDynamicConfigForClusterLifetime :: "'c config_store \<Rightarrow> string \<Rightarrow> dyn_value \<Rightarrow> 'c \<Rightarrow> 'c" where
  "overrideDynamicConfigForClusterLifetime st name v c = snd (cs_override st name v c)"

text \<open>The cleanup functions a test has registered with \<^verbatim>\<open>t.Cleanup\<close>, the last one first.\<close>

type_synonym cleanups = "nat list"

definition overrideDynamicConfigForTest ::
    "'c config_store \<Rightarrow> string \<Rightarrow> dyn_value \<Rightarrow> cleanups \<Rightarrow> 'c \<Rightarrow> nat \<times> cleanups \<times> 'c" where
  "overrideDynamicConfigForTest st name v t c =
     (let (cleanup, c) = cs_override st name v c in (cleanup, cleanup # t, c))"

text \<open>The end of a test: its cleanup functions run, the last one first.\<close>

fun run_cleanups :: "'c config_store \<Rightarrow> cleanups \<Rightarrow> 'c \<Rightarrow> 'c" where
  "run_cleanups st [] c = c"
| "run_cleanups st (i # is) c = run_cleanups st is (cs_cleanup st i c)"

fun override_all :: "'c config_store \<Rightarrow> (string \<times> dyn_value) list \<Rightarrow> 'c \<Rightarrow> 'c" where
  "override_all st [] c = c"
| "override_all st ((k, v) # rest) c = override_all st rest (overrideDynamicConfigForClusterLifetime st k v c)"

fun override_for_test :: "'c config_store \<Rightarrow> (string \<times> dyn_value) list \<Rightarrow> cleanups \<Rightarrow> 'c \<Rightarrow> cleanups \<times> 'c" where
  "override_for_test st [] t c = (t, c)"
| "override_for_test st ((k, v) # rest) t c =
     (let (_, t, c) = overrideDynamicConfigForTest st k v t c in override_for_test st rest t c)"

section \<open>Tests that share a cluster\<close>

text \<open>
  Several tests run on one cluster: each overrides settings, may call a cleanup function it was
  given before its end (as often as it likes), and ends.
\<close>

datatype test_op = Override_op nat string dyn_value | Early_cleanup nat nat | End_test nat

type_synonym 'c shared_cluster = "(nat \<Rightarrow> cleanups) \<times> 'c"

fun test_step :: "'c config_store \<Rightarrow> test_op \<Rightarrow> 'c shared_cluster \<Rightarrow> 'c shared_cluster" where
  "test_step st (Override_op t k v) (pend, c) =
     (let (_, cl, c) = overrideDynamicConfigForTest st k v (pend t) c in (pend(t := cl), c))"
| "test_step st (Early_cleanup t n) (pend, c) =
     (pend, if n < length (pend t) then cs_cleanup st (pend t ! n) c else c)"
| "test_step st (End_test t) (pend, c) = (pend(t := []), run_cleanups st (pend t) c)"

lemma store_override [frame_simps]:
  assumes "store_ok st"
  shows "fst (cs_override st k v c) = cs_issued st c"
    "cs_issued st (snd (cs_override st k v c)) = Suc (cs_issued st c)"
    "cs_stack st (snd (cs_override st k v c)) = (cs_issued st c, k, v) # cs_stack st c"
    "cs_issued st (cs_cleanup st i c) = cs_issued st c"
    "cs_stack st (cs_cleanup st i c) = filter (\<lambda>e. fst e \<noteq> i) (cs_stack st c)"
    "cs_get st k c = map_of (map snd (cs_stack st c)) k"
  using assms by (auto simp: store_ok_def)

lemma run_cleanups_stack:
  "store_ok st \<Longrightarrow> cs_issued st (run_cleanups st is c) = cs_issued st c
     \<and> cs_stack st (run_cleanups st is c) = filter (\<lambda>e. fst e \<notin> set is) (cs_stack st c)"
proof (induction "is" arbitrary: c)
  case (Cons i "is")
  have "(\<lambda>e. fst e \<notin> set is \<and> fst e \<noteq> i) = (\<lambda>e. fst e \<notin> set (i # is))"
    by auto
  with Cons show ?case by (simp add: store_override)
qed simp

text \<open>
  Against the stack \<open>base\<close> of a cluster that had issued \<open>n\<close> cleanup functions: what lies below is
  untouched, and every newer override belongs to a test that will still clean it up.
\<close>

definition pending_inv :: "'c config_store \<Rightarrow> nat \<Rightarrow> (nat \<times> string \<times> dyn_value) list \<Rightarrow> 'c shared_cluster \<Rightarrow> bool" where
  "pending_inv st n base s \<longleftrightarrow>
     (\<exists>new. cs_stack st (snd s) = new @ base \<and> (\<forall>e\<in>set new. n \<le> fst e \<and> (\<exists>t. fst e \<in> set (fst s t)))) \<and>
     n \<le> cs_issued st (snd s) \<and> (\<forall>e\<in>set base. fst e < n) \<and> (\<forall>t. \<forall>i\<in>set (fst s t). n \<le> i)"

lemma pending_inv_cleanups:
  assumes "store_ok st" "pending_inv st n base (pend, c)" "set is \<subseteq> set (pend t)"
    and "\<And>t' i. i \<in> set (pend t') \<Longrightarrow> i \<notin> set is \<Longrightarrow> \<exists>t''. i \<in> set (pend' t'')"
    and "\<And>t'. set (pend' t') \<subseteq> set (pend t')"
  shows "pending_inv st n base (pend', run_cleanups st is c)"
proof -
  obtain new where new: "cs_stack st c = new @ base"
    "\<And>e. e \<in> set new \<Longrightarrow> n \<le> fst e \<and> (\<exists>t. fst e \<in> set (pend t))"
    using assms(2) unfolding pending_inv_def by auto
  have low: "\<And>e. e \<in> set base \<Longrightarrow> fst e < n" and hi: "\<And>t i. i \<in> set (pend t) \<Longrightarrow> n \<le> i"
    and iss: "n \<le> cs_issued st c"
    using assms(2) unfolding pending_inv_def by auto
  have "\<And>e. e \<in> set base \<Longrightarrow> fst e \<notin> set is"
    using low hi assms(3) by (meson in_mono not_less)
  then have "filter (\<lambda>e. fst e \<notin> set is) base = base"
    by (simp add: filter_id_conv)
  then have stack: "cs_stack st (run_cleanups st is c) = filter (\<lambda>e. fst e \<notin> set is) new @ base"
    by (simp add: run_cleanups_stack[OF assms(1)] new(1))
  show ?thesis
    unfolding pending_inv_def
  proof (intro conjI exI[of _ "filter (\<lambda>e. fst e \<notin> set is) new"] ballI allI)
    show "cs_stack st (snd (pend', run_cleanups st is c)) = filter (\<lambda>e. fst e \<notin> set is) new @ base"
      using stack by simp
    show "n \<le> cs_issued st (snd (pend', run_cleanups st is c))"
      using iss by (simp add: run_cleanups_stack[OF assms(1)])
  next
    fix e assume "e \<in> set (filter (\<lambda>e. fst e \<notin> set is) new)"
    then show "n \<le> fst e" "\<exists>t. fst e \<in> set (fst (pend', run_cleanups st is c) t)"
      using new(2)[of e] assms(4) by auto
  next
    fix e assume "e \<in> set base" then show "fst e < n" by (rule low)
  next
    fix t i assume "i \<in> set (fst (pend', run_cleanups st is c) t)"
    then show "n \<le> i" using hi assms(5) by auto
  qed
qed

lemma cleanup_as_run: "cs_cleanup st i c = run_cleanups st [i] c"
  by simp

text \<open>A cleanup function that has run already finds nothing to remove, so its test may keep it.\<close>

lemma pending_inv_early:
  assumes "store_ok st" "pending_inv st n base (pend, c)" "i \<in> set (pend t)"
  shows "pending_inv st n base (pend, cs_cleanup st i c)"
proof -
  have "pending_inv st n base (pend, run_cleanups st [i] c)"
    using assms by (intro pending_inv_cleanups[where pend = pend and t = t]) auto
  then show ?thesis by simp
qed

lemma pending_inv_override:
  assumes "store_ok st" "pending_inv st n base (pend, c)"
  shows "pending_inv st n base (test_step st (Override_op t k v) (pend, c))"
proof -
  obtain new where new: "cs_stack st c = new @ base"
    "\<And>e. e \<in> set new \<Longrightarrow> n \<le> fst e \<and> (\<exists>t. fst e \<in> set (pend t))"
    and rest: "n \<le> cs_issued st c" "\<forall>e\<in>set base. fst e < n" "\<forall>t. \<forall>i\<in>set (pend t). n \<le> i"
    using assms(2) unfolding pending_inv_def by auto
  have "\<exists>t'. fst e \<in> set ((pend(t := cs_issued st c # pend t)) t')" if "e \<in> set new" for e
    using new(2)[OF that] by (metis fun_upd_apply list.set_intros(2))
  then show ?thesis
    using new rest
    by (auto simp: pending_inv_def overrideDynamicConfigForTest_def case_prod_unfold store_override[OF assms(1)]
        intro!: exI[of _ "(cs_issued st c, k, v) # new"])
qed

lemma pending_inv_step:
  assumes "store_ok st" "pending_inv st n base s"
  shows "pending_inv st n base (test_step st p s)"
proof (cases s)
  case (Pair pend c)
  show ?thesis
  proof (cases p)
    case (Override_op t k v)
    then show ?thesis using pending_inv_override[of st n base pend c t k v] assms Pair by simp
  next
    case (Early_cleanup t m)
    then show ?thesis using pending_inv_early[OF assms(1), of n base pend c "pend t ! m" t] assms Pair by simp
  next
    case (End_test t)
    have "pending_inv st n base (pend(t := []), run_cleanups st (pend t) c)"
      using assms Pair by (intro pending_inv_cleanups[where pend = pend and t = t]) auto
    then show ?thesis using End_test Pair by simp
  qed
qed

lemma pending_inv_run:
  "store_ok st \<Longrightarrow> pending_inv st n base s \<Longrightarrow> pending_inv st n base (fold (test_step st) ops s)"
  by (induction ops arbitrary: s) (simp_all add: pending_inv_step)

lemma override_all_stack:
  "store_ok st \<Longrightarrow> map snd (cs_stack st (override_all st xs c)) = rev xs @ map snd (cs_stack st c)"
  by (induction st xs c rule: override_all.induct)
    (simp_all add: overrideDynamicConfigForClusterLifetime_def store_override)

lemma override_all_issued:
  "store_ok st \<Longrightarrow> (\<forall>e\<in>set (cs_stack st c). fst e < cs_issued st c) \<Longrightarrow>
   (\<forall>e\<in>set (cs_stack st (override_all st xs c)). fst e < cs_issued st (override_all st xs c))"
proof (induction st xs c rule: override_all.induct)
  case (2 st k v rest c)
  have "\<forall>e\<in>set (cs_stack st (snd (cs_override st k v c))). fst e < cs_issued st (snd (cs_override st k v c))"
    using 2(2,3) by (auto simp: store_override less_Suc_eq)
  then show ?case
    using 2(1,2) by (simp add: overrideDynamicConfigForClusterLifetime_def)
qed simp

section \<open>A store in memory\<close>

text \<open>The stack of live overrides and the number of cleanup functions issued.\<close>

type_synonym mem_config = "nat \<times> (nat \<times> string \<times> dyn_value) list"

definition mem_store :: "mem_config config_store" where
  "mem_store = \<lparr>cs_override = (\<lambda>k v (n, xs). (n, Suc n, (n, k, v) # xs)),
     cs_cleanup = (\<lambda>i (n, xs). (n, filter (\<lambda>e. fst e \<noteq> i) xs)),
     cs_get = (\<lambda>k (n, xs). map_of (map snd xs) k), cs_stack = snd, cs_issued = fst\<rparr>"

lemma mem_store_ok: "store_ok mem_store"
  by (auto simp: store_ok_def mem_store_def)

section \<open>Tests leave no trace\<close>

text \<open>
  Overrides end with their tests. However many tests share a cluster, whatever settings they
  override in whatever order, and whether or not they call some cleanup functions early, once all of them have
  ended every setting has the value the cluster was created with (its last lifetime override, or none);
  and an override is in force as soon as it is made.
\<close>

theorem overrides_end_with_their_tests:
  assumes "store_ok st" "cs_stack st c0 = []"
    and "fold (test_step st) ops (\<lambda>_. [], override_all st lifetime c0) = (pend, c)"
    and "\<forall>t. pend t = []"
  shows "cs_get st k c = map_of (rev lifetime) k
    \<and> cs_get st k (snd (snd (overrideDynamicConfigForTest st k v t c'))) = Some v"
proof -
  let ?b = "override_all st lifetime c0"
  have "pending_inv st (cs_issued st ?b) (cs_stack st ?b) (\<lambda>_. [], ?b)"
    using override_all_issued[OF assms(1), of c0 lifetime] assms(2) by (simp add: pending_inv_def)
  from pending_inv_run[OF assms(1) this, of ops]
  have "pending_inv st (cs_issued st ?b) (cs_stack st ?b) (pend, c)"
    by (simp add: assms(3))
  then obtain new where "cs_stack st c = new @ cs_stack st ?b"
    and "\<forall>e\<in>set new. \<exists>t. fst e \<in> set (pend t)"
    by (auto simp: pending_inv_def)
  moreover from this(2) have "new = []"
    using assms(4) by (cases new) auto
  ultimately have "cs_stack st c = cs_stack st ?b" by simp
  then have "map snd (cs_stack st c) = rev lifetime"
    using override_all_stack[OF assms(1), of lifetime c0] assms(2) by simp
  then show ?thesis
    by (simp add: store_override[OF assms(1)] overrideDynamicConfigForTest_def case_prod_unfold)
qed

definition example_ops :: "test_op list" where
  "example_ops = [Override_op 1 ''FrontendRPS'' (VInt 5), Override_op 2 ''FrontendRPS'' (VInt 7),
     Early_cleanup 2 0, Override_op 2 ''HistoryScannerEnabled'' (VBool True), End_test 1,
     Early_cleanup 2 1, End_test 2]"

definition example_run :: "mem_config shared_cluster" where
  "example_run = fold (test_step mem_store) example_ops
     (\<lambda>_. [], override_all mem_store [(''FrontendRPS'', VInt 3000)] (0, []))"

theorem overrides_end_with_their_tests_witness:
  "cs_get mem_store ''FrontendRPS'' (snd example_run) = Some (VInt 3000)"
proof -
  have "\<forall>t. fst example_run t = []"
    by (simp add: example_run_def example_ops_def mem_store_def overrideDynamicConfigForTest_def
        overrideDynamicConfigForClusterLifetime_def)
  moreover have "cs_stack mem_store (0, []) = []"
    by (simp add: mem_store_def)
  moreover have "fold (test_step mem_store) example_ops
     (\<lambda>_. [], override_all mem_store [(''FrontendRPS'', VInt 3000)] (0, [])) = (fst example_run, snd example_run)"
    by (simp only: example_run_def prod.collapse)
  ultimately have "cs_get mem_store ''FrontendRPS'' (snd example_run) = map_of (rev [(''FrontendRPS'', VInt 3000)]) ''FrontendRPS''"
    using overrides_end_with_their_tests[OF mem_store_ok] by blast
  then show ?thesis by simp
qed

end
