(* ===== verification/Wrapper.thy ===== *)
theory Wrapper
  imports Prelude
begin

text \<open>
  The contract of the recorders of the conformance tests: an object that wraps another one and
  keeps a log of the calls it passes on. Callers cannot tell it from the wrapped object, and its
  log is the concatenation of what each call adds. Runs are lists of calls.
\<close>

fun run_calls :: "('c \<Rightarrow> 's \<Rightarrow> 'r \<times> 's) \<Rightarrow> 'c list \<Rightarrow> 's \<Rightarrow> 'r list \<times> 's" where
  "run_calls call [] s = ([], s)"
| "run_calls call (c # cs) s =
     (let (r, s') = call c s; (rs, s'') = run_calls call cs s' in (r # rs, s''))"

locale recording_wrapper =
  fixes call :: "'c \<Rightarrow> 's \<Rightarrow> 'r \<times> 's"
    and base :: "'c \<Rightarrow> 'd \<Rightarrow> 'r \<times> 'd"
    and inner :: "'s \<Rightarrow> 'd"
    and log :: "'s \<Rightarrow> 'l list"
    and entry :: "'c \<Rightarrow> 'r \<Rightarrow> 'l list"
  assumes transparent: "base c (inner s) = (fst (call c s), inner (snd (call c s)))"
    and logged: "log (snd (call c s)) = log s @ entry c (fst (call c s))"
begin

lemma run_transparent:
  "run_calls base cs (inner s) = (fst (run_calls call cs s), inner (snd (run_calls call cs s)))"
  by (induction cs arbitrary: s) (simp_all add: transparent case_prod_beta Let_def)

lemma run_logged:
  "log (snd (run_calls call cs s)) = log s @ concat (map (\<lambda>(c, r). entry c r) (zip cs (fst (run_calls call cs s))))"
  by (induction cs arbitrary: s) (simp_all add: logged case_prod_beta Let_def)

end

end
