(* ===== verification/TaskRecorder.thy ===== *)
theory TaskRecorder
  imports Wrapper
begin

text \<open>
  The task queue recorder of the conformance tests (\<^verbatim>\<open>task_queue_recorder.go\<close>): a wrapper around an
  \<^verbatim>\<open>ExecutionManager\<close> that keeps every task of a successful write, by category and in order. The
  wrapped manager is a parameter with a state of its own. The wrapper is shown to be transparent,
  and its tables to be exactly the tasks of the recorded writes.
\<close>

section \<open>State\<close>

type_synonym category = string

record task =
  GetRunID :: string
  GetType :: string
  task_other :: "byte list"

record RecordedTask =
  Timestamp :: int
  TaskType :: string
  ShardID :: int
  RangeID :: int
  NamespaceID :: string
  rec_WorkflowID :: string
  RunID :: string
  Task :: task

record 'd TaskQueueRecorder =
  tasks :: "category \<rightharpoonup> RecordedTask list"
  delegate :: 'd

definition NewTaskQueueRecorder :: "'d \<Rightarrow> 'd TaskQueueRecorder" where
  "NewTaskQueueRecorder d = \<lparr>tasks = Map.empty, delegate = d\<rparr>"

section \<open>Recording\<close>

text \<open>
  A task map comes as the list of its entries in the order in which Go ranges over it; \<open>now\<close> is
  the time read under the lock.
\<close>

type_synonym tasks_map = "(category \<times> task list) list"

definition recorded :: "int \<Rightarrow> int \<Rightarrow> int \<Rightarrow> string \<Rightarrow> string \<Rightarrow> task \<Rightarrow> RecordedTask" where
  "recorded now shardID rangeID namespaceID workflowID t =
     \<lparr>Timestamp = now, TaskType = GetType t, ShardID = shardID, RangeID = rangeID, NamespaceID = namespaceID,
      rec_WorkflowID = workflowID, RunID = GetRunID t, Task = t\<rparr>"

definition append_task :: "category \<Rightarrow> RecordedTask \<Rightarrow> (category \<rightharpoonup> RecordedTask list) \<Rightarrow> (category \<rightharpoonup> RecordedTask list)" where
  "append_task c x m = m(c \<mapsto> (case m c of None \<Rightarrow> [] | Some xs \<Rightarrow> xs) @ [x])"

fun record_list :: "(task \<Rightarrow> RecordedTask) \<Rightarrow> category \<Rightarrow> task list \<Rightarrow> (category \<rightharpoonup> RecordedTask list)
    \<Rightarrow> (category \<rightharpoonup> RecordedTask list)" where
  "record_list mk c [] m = m"
| "record_list mk c (t # ts) m = record_list mk c ts (append_task c (mk t) m)"

fun record_map :: "(task \<Rightarrow> RecordedTask) \<Rightarrow> tasks_map \<Rightarrow> (category \<rightharpoonup> RecordedTask list)
    \<Rightarrow> (category \<rightharpoonup> RecordedTask list)" where
  "record_map mk [] m = m"
| "record_map mk ((c, ts) # rest) m = record_map mk rest (record_list mk c ts m)"

definition recordTasks ::
    "int \<Rightarrow> int \<Rightarrow> int \<Rightarrow> string \<Rightarrow> string \<Rightarrow> tasks_map \<Rightarrow> 'd TaskQueueRecorder \<Rightarrow> 'd TaskQueueRecorder" where
  "recordTasks now shardID rangeID namespaceID workflowID tasksMap r =
     (if length tasksMap = 0 then r
      else r\<lparr>tasks := record_map (recorded now shardID rangeID namespaceID workflowID) tasksMap (tasks r)\<rparr>)"

section \<open>The recorded writes\<close>

record AddHistoryTasksRequest =
  add_ShardID :: int
  add_NamespaceID :: string
  add_WorkflowID :: string
  add_Tasks :: tasks_map

record workflow_part =
  part_NamespaceId :: string
  part_WorkflowId :: string
  part_Tasks :: tasks_map

record UpdateWorkflowExecutionRequest =
  upd_ShardID :: int
  upd_RangeID :: int
  UpdateWorkflowMutation :: workflow_part
  upd_NewWorkflowSnapshot :: "workflow_part option"

record CreateWorkflowExecutionRequest =
  cre_ShardID :: int
  cre_RangeID :: int
  cre_NewWorkflowSnapshot :: workflow_part

text \<open>The methods that only call the wrapped manager.\<close>

datatype pass_method = GetName | Close | GetWorkflowExecution | ConflictResolveWorkflowExecution
  | DeleteWorkflowExecution | DeleteCurrentWorkflowExecution | GetCurrentExecution | SetWorkflowExecution
  | ListConcreteExecutions | GetHistoryTasks | CompleteHistoryTask | RangeCompleteHistoryTasks
  | PutReplicationTaskToDLQ | GetReplicationTasksFromDLQ | DeleteReplicationTaskFromDLQ
  | RangeDeleteReplicationTaskFromDLQ | IsReplicationDLQEmpty | GetHistoryBranchUtil | AppendHistoryNodes
  | AppendRawHistoryNodes | ReadHistoryBranch | ReadHistoryBranchByBatch | ReadHistoryBranchReverse
  | ReadRawHistoryBranch | ForkHistoryBranch | DeleteHistoryBranch | TrimHistoryBranch | GetAllHistoryTreeBranches

text \<open>
  The wrapped manager: the methods that the recorder looks into, and the others on opaque
  requests \<open>'q\<close> and responses \<open>'a\<close>.
\<close>

record ('d, 'q, 'a) ExecutionManager =
  em_Add :: "AddHistoryTasksRequest \<Rightarrow> 'd \<Rightarrow> go_error option \<times> 'd"
  em_Update :: "UpdateWorkflowExecutionRequest \<Rightarrow> 'd \<Rightarrow> 'a result \<times> 'd"
  em_Create :: "CreateWorkflowExecutionRequest \<Rightarrow> 'd \<Rightarrow> 'a result \<times> 'd"
  em_pass :: "pass_method \<Rightarrow> 'q \<Rightarrow> 'd \<Rightarrow> 'a result \<times> 'd"

definition AddHistoryTasks ::
    "('d, 'q, 'a) ExecutionManager \<Rightarrow> int \<Rightarrow> AddHistoryTasksRequest \<Rightarrow> 'd TaskQueueRecorder
     \<Rightarrow> go_error option \<times> 'd TaskQueueRecorder" where
  "AddHistoryTasks em now request r =
     (let (err, d) = em_Add em request (delegate r);
          r = r\<lparr>delegate := d\<rparr>
      in (err,
          if err = None
          then recordTasks now (add_ShardID request) 0 (add_NamespaceID request) (add_WorkflowID request) (add_Tasks request) r
          else r))"

definition record_part :: "int \<Rightarrow> int \<Rightarrow> int \<Rightarrow> workflow_part \<Rightarrow> 'd TaskQueueRecorder \<Rightarrow> 'd TaskQueueRecorder" where
  "record_part now shardID rangeID p r =
     recordTasks now shardID rangeID (part_NamespaceId p) (part_WorkflowId p) (part_Tasks p) r"

text \<open>The two calls of \<open>recordTasks\<close> in an update each read the clock.\<close>

definition UpdateWorkflowExecution ::
    "('d, 'q, 'a) ExecutionManager \<Rightarrow> int \<Rightarrow> int \<Rightarrow> UpdateWorkflowExecutionRequest \<Rightarrow> 'd TaskQueueRecorder
     \<Rightarrow> 'a result \<times> 'd TaskQueueRecorder" where
  "UpdateWorkflowExecution em now now' request r =
     (let (resp, d) = em_Update em request (delegate r);
          r = r\<lparr>delegate := d\<rparr>
      in (resp,
          case resp of
            Inl _ \<Rightarrow> r
          | Inr _ \<Rightarrow>
              let r = record_part now (upd_ShardID request) (upd_RangeID request) (UpdateWorkflowMutation request) r in
              case upd_NewWorkflowSnapshot request of
                None \<Rightarrow> r
              | Some snap \<Rightarrow> record_part now' (upd_ShardID request) (upd_RangeID request) snap r))"

definition CreateWorkflowExecution ::
    "('d, 'q, 'a) ExecutionManager \<Rightarrow> int \<Rightarrow> CreateWorkflowExecutionRequest \<Rightarrow> 'd TaskQueueRecorder
     \<Rightarrow> 'a result \<times> 'd TaskQueueRecorder" where
  "CreateWorkflowExecution em now request r =
     (let (resp, d) = em_Create em request (delegate r);
          r = r\<lparr>delegate := d\<rparr>
      in (resp,
          case resp of
            Inl _ \<Rightarrow> r
          | Inr _ \<Rightarrow> record_part now (cre_ShardID request) (cre_RangeID request) (cre_NewWorkflowSnapshot request) r))"

definition pass_through ::
    "('d, 'q, 'a) ExecutionManager \<Rightarrow> pass_method \<Rightarrow> 'q \<Rightarrow> 'd TaskQueueRecorder \<Rightarrow> 'a result \<times> 'd TaskQueueRecorder" where
  "pass_through em m request r =
     (let (resp, d) = em_pass em m request (delegate r) in (resp, r\<lparr>delegate := d\<rparr>))"

section \<open>Reading\<close>

definition GetAllTasks :: "'d TaskQueueRecorder \<Rightarrow> (category \<rightharpoonup> task list)" where
  "GetAllTasks r = (\<lambda>c. map_option (map Task) (tasks r c))"

definition GetAllRecordedTasks :: "'d TaskQueueRecorder \<Rightarrow> (category \<rightharpoonup> RecordedTask list)" where
  "GetAllRecordedTasks r = tasks r"

type_synonym TaskMatcher = "RecordedTask \<Rightarrow> bool"

text \<open>The read loops: walk the list of the category and keep what is not skipped.\<close>

fun keep_loop :: "(RecordedTask \<Rightarrow> bool) \<Rightarrow> RecordedTask list \<Rightarrow> RecordedTask list \<Rightarrow> RecordedTask list" where
  "keep_loop keep [] matched = matched"
| "keep_loop keep (x # xs) matched = keep_loop keep xs (if keep x then matched @ [x] else matched)"

definition MatchTasks :: "category \<Rightarrow> TaskMatcher \<Rightarrow> 'd TaskQueueRecorder \<Rightarrow> RecordedTask list" where
  "MatchTasks category matcher r =
     (case tasks r category of None \<Rightarrow> [] | Some recordedList \<Rightarrow> keep_loop matcher recordedList [])"

definition CountMatchingTasks :: "category \<Rightarrow> TaskMatcher \<Rightarrow> 'd TaskQueueRecorder \<Rightarrow> nat" where
  "CountMatchingTasks category matcher r = length (MatchTasks category matcher r)"

record TaskFilter =
  tf_NamespaceID :: string
  tf_WorkflowID :: string
  tf_RunID :: string

text \<open>
  \<open>dpanic\<close> says whether the logger's \<^verbatim>\<open>DPanic\<close> panics (it does in a development build, and only logs
  otherwise).
\<close>

definition GetRecordedTasksByCategoryFiltered ::
    "bool \<Rightarrow> category \<Rightarrow> TaskFilter \<Rightarrow> 'd TaskQueueRecorder \<Rightarrow> RecordedTask list outcome" where
  "GetRecordedTasksByCategoryFiltered dpanic category flt r =
     (if tf_NamespaceID flt = '''' \<and> dpanic then Panic ''TaskFilter.NamespaceID is required''
      else Ret (case tasks r category of
          None \<Rightarrow> []
        | Some recordedList \<Rightarrow>
            keep_loop (\<lambda>recorded.
              if NamespaceID recorded \<noteq> tf_NamespaceID flt then False
              else if tf_WorkflowID flt \<noteq> '''' \<and> rec_WorkflowID recorded \<noteq> tf_WorkflowID flt then False
              else if tf_RunID flt \<noteq> '''' \<and> RunID recorded \<noteq> tf_RunID flt then False
              else True) recordedList []))"

definition MatchTasksForWorkflow ::
    "category \<Rightarrow> string \<Rightarrow> string \<Rightarrow> string \<Rightarrow> TaskMatcher option \<Rightarrow> 'd TaskQueueRecorder \<Rightarrow> RecordedTask list" where
  "MatchTasksForWorkflow category namespaceID workflowID runID matcher r =
     (case tasks r category of
        None \<Rightarrow> []
      | Some recordedList \<Rightarrow>
          keep_loop (\<lambda>recorded.
            if namespaceID \<noteq> '''' \<and> NamespaceID recorded \<noteq> namespaceID then False
            else if rec_WorkflowID recorded \<noteq> workflowID then False
            else if runID \<noteq> '''' \<and> RunID recorded \<noteq> runID then False
            else case matcher of None \<Rightarrow> True | Some f \<Rightarrow> f recorded) recordedList [])"

definition CountTasksForWorkflow ::
    "category \<Rightarrow> string \<Rightarrow> string \<Rightarrow> string \<Rightarrow> TaskMatcher option \<Rightarrow> 'd TaskQueueRecorder \<Rightarrow> nat" where
  "CountTasksForWorkflow category namespaceID workflowID runID matcher r =
     length (MatchTasksForWorkflow category namespaceID workflowID runID matcher r)"

definition MatchTasksForNamespace ::
    "category \<Rightarrow> string \<Rightarrow> TaskMatcher option \<Rightarrow> 'd TaskQueueRecorder \<Rightarrow> RecordedTask list" where
  "MatchTasksForNamespace category namespaceID matcher r =
     (case tasks r category of
        None \<Rightarrow> []
      | Some recordedList \<Rightarrow>
          keep_loop (\<lambda>recorded.
            if NamespaceID recorded \<noteq> namespaceID then False
            else case matcher of None \<Rightarrow> True | Some f \<Rightarrow> f recorded) recordedList [])"

definition CountTasksForNamespace ::
    "category \<Rightarrow> string \<Rightarrow> TaskMatcher option \<Rightarrow> 'd TaskQueueRecorder \<Rightarrow> nat" where
  "CountTasksForNamespace category namespaceID matcher r = length (MatchTasksForNamespace category namespaceID matcher r)"

text \<open>\<open>marshal\<close> is \<^verbatim>\<open>json.MarshalIndent\<close>; \<open>create\<close> and \<open>write\<close> are the file operations.\<close>

definition writeFile :: "(string \<Rightarrow> go_error option) \<Rightarrow> (string \<Rightarrow> byte list \<Rightarrow> go_error option) \<Rightarrow> string \<Rightarrow> byte list
    \<Rightarrow> go_error option" where
  "writeFile create write filePath data =
     (case create filePath of Some err \<Rightarrow> Some err | None \<Rightarrow> write filePath data)"

definition WriteToLog ::
    "((category \<rightharpoonup> RecordedTask list) \<Rightarrow> byte list result) \<Rightarrow> (string \<Rightarrow> go_error option)
     \<Rightarrow> (string \<Rightarrow> byte list \<Rightarrow> go_error option) \<Rightarrow> string \<Rightarrow> 'd TaskQueueRecorder \<Rightarrow> go_error option" where
  "WriteToLog marshal create write filePath r =
     (case marshal (tasks r) of
        Inl err \<Rightarrow> Some (Wrap ''failed to marshal captured tasks'' err)
      | Inr jsonBytes \<Rightarrow>
          (case writeFile create write filePath jsonBytes of
             Some err \<Rightarrow> Some (Wrap (''failed to write to file '' @ filePath) err)
           | None \<Rightarrow> None))"

section \<open>What is recorded\<close>

text \<open>The calls of the manager's interface, answered by the wrapped manager or by the recorder.\<close>

datatype 'q manager_call = CAdd int AddHistoryTasksRequest | CUpdate int int UpdateWorkflowExecutionRequest
  | CCreate int CreateWorkflowExecutionRequest | CPass pass_method 'q

datatype 'a manager_reply = Done "go_error option" | Replied "'a result"

fun base_call :: "('d, 'q, 'a) ExecutionManager \<Rightarrow> 'q manager_call \<Rightarrow> 'd \<Rightarrow> 'a manager_reply \<times> 'd" where
  "base_call em (CAdd now q) d = (let (e, d) = em_Add em q d in (Done e, d))"
| "base_call em (CUpdate now now' q) d = (let (a, d) = em_Update em q d in (Replied a, d))"
| "base_call em (CCreate now q) d = (let (a, d) = em_Create em q d in (Replied a, d))"
| "base_call em (CPass m q) d = (let (a, d) = em_pass em m q d in (Replied a, d))"

fun recorder_call :: "('d, 'q, 'a) ExecutionManager \<Rightarrow> 'q manager_call \<Rightarrow> 'd TaskQueueRecorder
    \<Rightarrow> 'a manager_reply \<times> 'd TaskQueueRecorder" where
  "recorder_call em (CAdd now q) r = (let (e, r) = AddHistoryTasks em now q r in (Done e, r))"
| "recorder_call em (CUpdate now now' q) r = (let (a, r) = UpdateWorkflowExecution em now now' q r in (Replied a, r))"
| "recorder_call em (CCreate now q) r = (let (a, r) = CreateWorkflowExecution em now q r in (Replied a, r))"
| "recorder_call em (CPass m q) r = (let (a, r) = pass_through em m q r in (Replied a, r))"

definition listed :: "(category \<rightharpoonup> 'x list) \<Rightarrow> category \<Rightarrow> 'x list" where
  "listed m c = (case m c of None \<Rightarrow> [] | Some xs \<Rightarrow> xs)"

definition tasks_in :: "category \<Rightarrow> tasks_map \<Rightarrow> task list" where
  "tasks_in c tm = concat (map snd (filter (\<lambda>(c', _). c' = c) tm))"

fun succeeded :: "'a manager_reply \<Rightarrow> bool" where
  "succeeded (Done e) = (e = None)"
| "succeeded (Replied a) = (\<exists>x. a = Inr x)"

definition part_entries :: "int \<Rightarrow> int \<Rightarrow> int \<Rightarrow> category \<Rightarrow> workflow_part \<Rightarrow> RecordedTask list" where
  "part_entries now sh rg c p =
     map (recorded now sh rg (part_NamespaceId p) (part_WorkflowId p)) (tasks_in c (part_Tasks p))"

text \<open>The tasks of category \<open>c\<close> that a call writes, with the metadata they are to be kept with.\<close>

fun written :: "category \<Rightarrow> 'q manager_call \<Rightarrow> RecordedTask list" where
  "written c (CAdd now q) = map (recorded now (add_ShardID q) 0 (add_NamespaceID q) (add_WorkflowID q)) (tasks_in c (add_Tasks q))"
| "written c (CUpdate now now' q) =
     part_entries now (upd_ShardID q) (upd_RangeID q) c (UpdateWorkflowMutation q) @
     (case upd_NewWorkflowSnapshot q of None \<Rightarrow> []
      | Some p \<Rightarrow> part_entries now' (upd_ShardID q) (upd_RangeID q) c p)"
| "written c (CCreate now q) = part_entries now (cre_ShardID q) (cre_RangeID q) c (cre_NewWorkflowSnapshot q)"
| "written c (CPass m q) = []"

lemma keep_loop_eq: "keep_loop keep xs matched = matched @ filter keep xs"
  by (induction keep xs matched rule: keep_loop.induct) auto

lemma listed_append_task: "listed (append_task c x m) c' = listed m c' @ (if c' = c then [x] else [])"
  by (simp add: listed_def append_task_def)

lemma listed_record_list: "listed (record_list mk c ts m) c' = listed m c' @ (if c' = c then map mk ts else [])"
  by (induction mk c ts m rule: record_list.induct) (auto simp: listed_append_task)

lemma listed_record_map: "listed (record_map mk tm m) c = listed m c @ map mk (tasks_in c tm)"
  by (induction mk tm m rule: record_map.induct) (auto simp: listed_record_list tasks_in_def)

lemma listed_recordTasks:
  "listed (tasks (recordTasks now sh rg ns wid tm r)) c = listed (tasks r) c @ map (recorded now sh rg ns wid) (tasks_in c tm)"
  "delegate (recordTasks now sh rg ns wid tm r) = delegate r"
  by (auto simp: recordTasks_def listed_record_map tasks_in_def)

lemma record_part_simps:
  "listed (tasks (record_part now sh rg p r)) c = listed (tasks r) c @ part_entries now sh rg c p"
  "delegate (record_part now sh rg p r) = delegate r"
  by (simp_all add: record_part_def part_entries_def listed_recordTasks)

lemma listed_delegate [simp]: "tasks (r\<lparr>delegate := d\<rparr>) = tasks r" by simp

interpretation recorder: recording_wrapper "recorder_call em" "base_call em" delegate
    "\<lambda>r. listed (tasks r) c" "\<lambda>q a. if succeeded a then written c q else []"
  for em c
proof
  fix q r
  show "base_call em q (delegate r) = (fst (recorder_call em q r), delegate (snd (recorder_call em q r)))"
    by (cases q) (auto simp: AddHistoryTasks_def UpdateWorkflowExecution_def CreateWorkflowExecution_def pass_through_def
        listed_recordTasks record_part_simps Let_def split: prod.splits sum.splits option.splits)
  show "listed (tasks (snd (recorder_call em q r))) c =
      listed (tasks r) c @ (if succeeded (fst (recorder_call em q r)) then written c q else [])"
    by (cases q) (auto simp: AddHistoryTasks_def UpdateWorkflowExecution_def CreateWorkflowExecution_def pass_through_def
        listed_recordTasks record_part_simps Let_def split: prod.splits sum.splits option.splits)
qed

lemma passed_unrecorded:
  assumes "\<forall>q\<in>set cs. \<exists>m x. q = CPass m x"
  shows "concat (map (\<lambda>x. if succeeded (snd x) then written c (fst x) else []) (zip cs replies)) = []"
proof -
  have "written c q = []" if "(q, a) \<in> set (zip cs replies)" for q a
    using assms set_zip_leftD[OF that] by auto
  then show ?thesis
    by (auto simp: concat_eq_Nil_conv)
qed

section \<open>What the readers return\<close>

lemma read_eq:
  "(case tasks r c of None \<Rightarrow> [] | Some xs \<Rightarrow> keep_loop keep xs []) = filter keep (listed (tasks r) c)"
  by (simp add: listed_def keep_loop_eq split: option.splits)

lemma MatchTasks_eq: "MatchTasks c f r = filter f (listed (tasks r) c)"
  by (simp add: MatchTasks_def read_eq)

definition satisfies :: "TaskMatcher option \<Rightarrow> RecordedTask \<Rightarrow> bool" where
  "satisfies f x \<longleftrightarrow> (case f of None \<Rightarrow> True | Some g \<Rightarrow> g x)"

lemma MatchTasksForNamespace_eq:
  "MatchTasksForNamespace c ns f r = filter (\<lambda>x. NamespaceID x = ns \<and> satisfies f x) (listed (tasks r) c)"
  unfolding MatchTasksForNamespace_def read_eq by (rule filter_cong[OF refl]) (simp add: satisfies_def)

lemma MatchTasksForWorkflow_eq:
  "MatchTasksForWorkflow c ns wid run f r =
     filter (\<lambda>x. (ns = '''' \<or> NamespaceID x = ns) \<and> rec_WorkflowID x = wid \<and> (run = '''' \<or> RunID x = run) \<and> satisfies f x)
       (listed (tasks r) c)"
  unfolding MatchTasksForWorkflow_def read_eq by (rule filter_cong[OF refl]) (auto simp: satisfies_def)

definition selects :: "TaskFilter \<Rightarrow> RecordedTask \<Rightarrow> bool" where
  "selects flt x \<longleftrightarrow> NamespaceID x = tf_NamespaceID flt \<and>
     (tf_WorkflowID flt \<noteq> '''' \<longrightarrow> rec_WorkflowID x = tf_WorkflowID flt) \<and>
     (tf_RunID flt \<noteq> '''' \<longrightarrow> RunID x = tf_RunID flt)"

lemma filtered_eq:
  "GetRecordedTasksByCategoryFiltered dpanic c flt r =
     (if tf_NamespaceID flt = '''' \<and> dpanic then Panic ''TaskFilter.NamespaceID is required''
      else Ret (filter (selects flt) (listed (tasks r) c)))"
proof -
  have "filter (\<lambda>x. if NamespaceID x \<noteq> tf_NamespaceID flt then False
      else if tf_WorkflowID flt \<noteq> '''' \<and> rec_WorkflowID x \<noteq> tf_WorkflowID flt then False
      else if tf_RunID flt \<noteq> '''' \<and> RunID x \<noteq> tf_RunID flt then False else True) xs = filter (selects flt) xs" for xs
    by (rule filter_cong[OF refl]) (auto simp: selects_def)
  then show ?thesis unfolding GetRecordedTasksByCategoryFiltered_def read_eq by simp
qed

lemma GetAllTasks_eq: "listed (GetAllTasks r) c = map Task (listed (GetAllRecordedTasks r) c)"
  by (auto simp: GetAllTasks_def GetAllRecordedTasks_def listed_def split: option.splits)

section \<open>Properties\<close>

text \<open>
  C34: The recorder is transparent, and records less than its documentation promises. Whatever calls are made and however the wrapped manager
  answers, the callers get the wrapped manager's answers and leave it in the same state as without the recorder. For every category the
  recorder holds, in order and with their metadata, exactly the tasks of the add, update and create calls that succeeded; of the calls that
  are only passed on, which include the conflict resolution and the setting of a workflow with the tasks in their requests, it holds nothing,
  although its documentation says that it records all task writes.
\<close>

theorem recorder_transparent_not_complete:
  "let (replies, r) = run_calls (recorder_call em) cs (NewTaskQueueRecorder d) in
     run_calls (base_call em) cs d = (replies, delegate r) \<and>
     listed (tasks r) c = concat (map (\<lambda>(q, a). if succeeded a then written c q else []) (zip cs replies)) \<and>
     ((\<forall>q\<in>set cs. \<exists>m x. q = CPass m x) \<longrightarrow> listed (tasks r) c = [])"
proof -
  have new: "delegate (NewTaskQueueRecorder d) = d" "listed (tasks (NewTaskQueueRecorder d)) c = []"
    by (simp_all add: NewTaskQueueRecorder_def listed_def)
  show ?thesis
    using recorder.run_transparent[of em cs "NewTaskQueueRecorder d"]
      recorder.run_logged[where em = em and c = c and cs = cs and s = "NewTaskQueueRecorder d"] new
      passed_unrecorded[of cs c "fst (run_calls (recorder_call em) cs (NewTaskQueueRecorder d))"]
    by (simp add: case_prod_beta)
qed

text \<open>A manager that lets everything succeed, for an example.\<close>

definition yes_manager :: "(nat, unit, unit) ExecutionManager" where
  "yes_manager = \<lparr>em_Add = (\<lambda>_ d. (None, d + 1)), em_Update = (\<lambda>_ d. (Inr (), d + 1)), em_Create = (\<lambda>_ d. (Inr (), d + 1)),
     em_pass = (\<lambda>_ _ d. (Inr (), d + 1))\<rparr>"

theorem recorder_transparent_not_complete_witness:
  "listed (tasks (snd (run_calls (recorder_call yes_manager) [CPass ConflictResolveWorkflowExecution ()] (NewTaskQueueRecorder 0)))) ''transfer'' = []"
  using recorder_transparent_not_complete[of yes_manager "[CPass ConflictResolveWorkflowExecution ()]" 0 "''transfer''"]
  by (simp add: case_prod_beta)

text \<open>
  The readers select and never reorder: the filtered listing and the workflow and namespace
  matches are the sublists of the recorded tasks of the category that meet the given criteria,
  empty criteria matching everything, and the counters count them. A filter without a
  namespace panics in development builds and otherwise selects only tasks without a namespace.
\<close>

theorem recorder_readers_select:
  "MatchTasksForWorkflow c ns wid run f r =
     filter (\<lambda>x. (ns = '''' \<or> NamespaceID x = ns) \<and> rec_WorkflowID x = wid \<and> (run = '''' \<or> RunID x = run) \<and> satisfies f x)
       (listed (tasks r) c) \<and>
   MatchTasksForNamespace c ns f r = filter (\<lambda>x. NamespaceID x = ns \<and> satisfies f x) (listed (tasks r) c) \<and>
   CountTasksForNamespace c ns f r = length (MatchTasksForNamespace c ns f r) \<and>
   CountMatchingTasks c g r = length (filter g (listed (tasks r) c)) \<and>
   GetRecordedTasksByCategoryFiltered dpanic c flt r =
     (if tf_NamespaceID flt = '''' \<and> dpanic then Panic ''TaskFilter.NamespaceID is required''
      else Ret (filter (selects flt) (listed (tasks r) c)))"
  by (simp add: MatchTasksForWorkflow_eq MatchTasksForNamespace_eq CountTasksForNamespace_def
      CountMatchingTasks_def MatchTasks_eq filtered_eq)

end
