(* ===== verification/StreamRecorder.thy ===== *)
theory StreamRecorder
  imports Wrapper
begin

text \<open>
  The replication stream recorder of the conformance tests (\<^verbatim>\<open>replication_stream_recorder.go\<close>): gRPC
  interceptors that log the replication messages passing through them. The connection, the file
  system and the JSON encoders are parameters. The interceptors are interpreted as recording
  wrappers: the calls behave as without them and the log is the exact list of messages.
\<close>

section \<open>State\<close>

definition DirectionSend :: string where
  "DirectionSend = ''send''"

definition DirectionRecv :: string where
  "DirectionRecv = ''recv''"

definition DirectionServerSend :: string where
  "DirectionServerSend = ''server_send''"

definition DirectionServerRecv :: string where
  "DirectionServerRecv = ''server_recv''"

record proto_message =
  FullName :: string
  proto_data :: "byte list"

text \<open>A value of type \<^verbatim>\<open>any\<close>: a protobuf message, or something else.\<close>

datatype any = Proto proto_message | Other

record CapturedReplicationMessage =
  cm_Timestamp :: int
  Method :: string
  Direction :: string
  ClusterName :: string
  TargetAddress :: string
  MessageType :: string
  IsStreamCall :: bool
  Request :: "proto_message option"
  Response :: "proto_message option"
  Message :: "string option"

record ReplicationStreamRecorder =
  capturedMessages :: "CapturedReplicationMessage list"
  outputFilePath :: string

definition NewReplicationStreamRecorder :: ReplicationStreamRecorder where
  "NewReplicationStreamRecorder = \<lparr>capturedMessages = [], outputFilePath = ''''\<rparr>"

definition SetOutputFile :: "string \<Rightarrow> ReplicationStreamRecorder \<Rightarrow> ReplicationStreamRecorder" where
  "SetOutputFile filePath r = r\<lparr>outputFilePath := filePath\<rparr>"

definition Clear :: "ReplicationStreamRecorder \<Rightarrow> ReplicationStreamRecorder" where
  "Clear r = r\<lparr>capturedMessages := []\<rparr>"

definition GetMessages :: "ReplicationStreamRecorder \<Rightarrow> CapturedReplicationMessage list" where
  "GetMessages r = capturedMessages r"

section \<open>Recording and formatting\<close>

definition is_send :: "string \<Rightarrow> bool" where
  "is_send direction \<longleftrightarrow> direction = DirectionSend \<or> direction = DirectionServerSend"

definition captured :: "int \<Rightarrow> string \<Rightarrow> proto_message \<Rightarrow> string \<Rightarrow> string \<Rightarrow> string \<Rightarrow> bool \<Rightarrow> CapturedReplicationMessage" where
  "captured now method msg direction clusterName targetAddr isStreamCall =
     \<lparr>cm_Timestamp = now, Method = method, Direction = direction, ClusterName = clusterName,
      TargetAddress = targetAddr, MessageType = FullName msg, IsStreamCall = isStreamCall,
      Request = (if is_send direction then Some msg else None),
      Response = (if is_send direction then None else Some msg), Message = None\<rparr>"

definition recordMessage ::
    "int \<Rightarrow> string \<Rightarrow> proto_message \<Rightarrow> string \<Rightarrow> string \<Rightarrow> string \<Rightarrow> bool \<Rightarrow> ReplicationStreamRecorder
     \<Rightarrow> ReplicationStreamRecorder" where
  "recordMessage now method msg direction clusterName targetAddr isStreamCall r =
     r\<lparr>capturedMessages := capturedMessages r @
        [captured now method msg direction clusterName targetAddr isStreamCall]\<rparr>"

text \<open>\<open>protojson\<close> and \<open>indent\<close> are the two JSON encoders.\<close>

definition formatCapturedMessage ::
    "(proto_message \<Rightarrow> string result) \<Rightarrow> (CapturedReplicationMessage \<Rightarrow> string result) \<Rightarrow> CapturedReplicationMessage \<Rightarrow> string" where
  "formatCapturedMessage protojson indent cm =
     (let msg = (if is_send (Direction cm) then Request cm else Response cm);
          cm = (case msg of
                  None \<Rightarrow> cm
                | Some m \<Rightarrow> (case protojson m of Inl _ \<Rightarrow> cm | Inr jsonBytes \<Rightarrow> cm\<lparr>Message := Some jsonBytes\<rparr>))
      in case indent cm of
           Inl err \<Rightarrow> ''{\"error\": \"failed to marshal output: '' @ error_text err @ ''\"}''
         | Inr jsonOutput \<Rightarrow> jsonOutput)"

record 'f file_system =
  fs_Create :: "string \<Rightarrow> 'f \<Rightarrow> go_error option \<times> 'f"
  fs_WriteString :: "string \<Rightarrow> string \<Rightarrow> 'f \<Rightarrow> go_error option \<times> 'f"
  fs_Sync :: "string \<Rightarrow> 'f \<Rightarrow> go_error option \<times> 'f"

fun write_messages :: "'f file_system \<Rightarrow> string \<Rightarrow> string list \<Rightarrow> 'f \<Rightarrow> go_error option \<times> 'f" where
  "write_messages fs path [] w = fs_Sync fs path w"
| "write_messages fs path (formattedMsg # rest) w =
     (case fs_WriteString fs path (formattedMsg @ [CHR 0x0A]) w of
        (Some err, w) \<Rightarrow> (Some (Wrap ''failed to write message'' err), w)
      | (None, w) \<Rightarrow> write_messages fs path rest w)"

definition WriteToLog ::
    "'f file_system \<Rightarrow> (proto_message \<Rightarrow> string result) \<Rightarrow> (CapturedReplicationMessage \<Rightarrow> string result)
     \<Rightarrow> ReplicationStreamRecorder \<Rightarrow> 'f \<Rightarrow> go_error option \<times> 'f" where
  "WriteToLog fs protojson indent r w =
     (if outputFilePath r = '''' then (Some (Errorf ''output file path not set''), w)
      else case fs_Create fs (outputFilePath r) w of
        (Some err, w) \<Rightarrow> (Some (Wrap (''failed to create output file '' @ outputFilePath r) err), w)
      | (None, w) \<Rightarrow>
          write_messages fs (outputFilePath r) (map (formatCapturedMessage protojson indent) (capturedMessages r)) w)"

section \<open>Interceptors\<close>

definition isReplicationMethod :: "string \<Rightarrow> bool" where
  "isReplicationMethod method \<longleftrightarrow>
     method = ''/temporal.server.api.historyservice.v1.HistoryService/StreamWorkflowReplicationMessages'' \<or>
     method = ''/temporal.server.api.adminservice.v1.AdminService/StreamWorkflowReplicationMessages''"

definition record_any ::
    "int \<Rightarrow> string \<Rightarrow> any \<Rightarrow> string \<Rightarrow> string \<Rightarrow> string \<Rightarrow> bool \<Rightarrow> ReplicationStreamRecorder \<Rightarrow> ReplicationStreamRecorder" where
  "record_any now method m direction clusterName target isStream r =
     (case m of Proto msg \<Rightarrow> recordMessage now method msg direction clusterName target isStream r | Other \<Rightarrow> r)"

text \<open>
  The unary client interceptor: \<open>invoker\<close> is the call itself, on the state \<open>'d\<close> of the connection;
  it returns an error and fills the reply. \<open>now\<close> and \<open>now'\<close> are the times of the two records.
\<close>

definition UnaryInterceptor ::
    "string \<Rightarrow> string \<Rightarrow> (string \<Rightarrow> any \<Rightarrow> 'd \<Rightarrow> (go_error option \<times> any) \<times> 'd) \<Rightarrow> int \<times> int \<times> string \<times> any
     \<Rightarrow> ReplicationStreamRecorder \<times> 'd \<Rightarrow> (go_error option \<times> any) \<times> (ReplicationStreamRecorder \<times> 'd)" where
  "UnaryInterceptor clusterName target invoker call s =
     (let (now, now', method, req) = call;
          (r, d) = s;
          r = (if isReplicationMethod method then record_any now method req DirectionSend clusterName target False r else r);
          ((err, reply), d) = invoker method req d;
          r = (if err = None \<and> isReplicationMethod method
               then record_any now' method reply DirectionRecv clusterName target False r else r)
      in ((err, reply), (r, d)))"

definition UnaryServerInterceptor ::
    "string \<Rightarrow> (string \<Rightarrow> any \<Rightarrow> 'd \<Rightarrow> (go_error option \<times> any) \<times> 'd) \<Rightarrow> int \<times> int \<times> string \<times> any
     \<Rightarrow> ReplicationStreamRecorder \<times> 'd \<Rightarrow> (go_error option \<times> any) \<times> (ReplicationStreamRecorder \<times> 'd)" where
  "UnaryServerInterceptor clusterName handler call s =
     (let (now, now', method, req) = call;
          (r, d) = s;
          r = (if isReplicationMethod method then record_any now method req DirectionServerRecv clusterName ''server'' False r else r);
          ((err, resp), d) = handler method req d;
          r = (if err = None \<and> isReplicationMethod method
               then record_any now' method resp DirectionServerSend clusterName ''server'' False r else r)
      in ((err, resp), (r, d)))"

text \<open>The streams: a call sends a message or receives one, at a time \<open>now\<close>.\<close>

datatype stream_call = SendMsg int any | RecvMsg int

record 'd stream_ops =
  st_Send :: "any \<Rightarrow> 'd \<Rightarrow> go_error option \<times> 'd"
  st_Recv :: "'d \<Rightarrow> (go_error option \<times> any) \<times> 'd"

record recordingClientStream =
  cs_method :: string
  cs_clusterName :: string
  cs_targetAddress :: string

record recordingServerStream =
  ss_method :: string
  ss_clusterName :: string

fun stream_base :: "'d stream_ops \<Rightarrow> stream_call \<Rightarrow> 'd \<Rightarrow> (go_error option \<times> any) \<times> 'd" where
  "stream_base ops (SendMsg now m) d = (let (err, d) = st_Send ops m d in ((err, m), d))"
| "stream_base ops (RecvMsg now) d = st_Recv ops d"

definition client_SendMsg ::
    "'d stream_ops \<Rightarrow> recordingClientStream \<Rightarrow> int \<Rightarrow> any \<Rightarrow> ReplicationStreamRecorder \<times> 'd
     \<Rightarrow> go_error option \<times> (ReplicationStreamRecorder \<times> 'd)" where
  "client_SendMsg ops s now m st =
     (let (r, d) = st;
          r = record_any now (cs_method s) m DirectionSend (cs_clusterName s) (cs_targetAddress s) True r;
          (err, d) = st_Send ops m d
      in (err, (r, d)))"

definition client_RecvMsg ::
    "'d stream_ops \<Rightarrow> recordingClientStream \<Rightarrow> int \<Rightarrow> ReplicationStreamRecorder \<times> 'd
     \<Rightarrow> (go_error option \<times> any) \<times> (ReplicationStreamRecorder \<times> 'd)" where
  "client_RecvMsg ops s now st =
     (let (r, d) = st;
          ((err, m), d) = st_Recv ops d;
          r = (if err = None
               then record_any now (cs_method s) m DirectionRecv (cs_clusterName s) (cs_targetAddress s) True r else r)
      in ((err, m), (r, d)))"

definition server_SendMsg ::
    "'d stream_ops \<Rightarrow> recordingServerStream \<Rightarrow> int \<Rightarrow> any \<Rightarrow> ReplicationStreamRecorder \<times> 'd
     \<Rightarrow> go_error option \<times> (ReplicationStreamRecorder \<times> 'd)" where
  "server_SendMsg ops s now m st =
     (let (r, d) = st;
          r = record_any now (ss_method s) m DirectionServerSend (ss_clusterName s) ''server'' True r;
          (err, d) = st_Send ops m d
      in (err, (r, d)))"

definition server_RecvMsg ::
    "'d stream_ops \<Rightarrow> recordingServerStream \<Rightarrow> int \<Rightarrow> ReplicationStreamRecorder \<times> 'd
     \<Rightarrow> (go_error option \<times> any) \<times> (ReplicationStreamRecorder \<times> 'd)" where
  "server_RecvMsg ops s now st =
     (let (r, d) = st;
          ((err, m), d) = st_Recv ops d;
          r = (if err = None
               then record_any now (ss_method s) m DirectionServerRecv (ss_clusterName s) ''server'' True r else r)
      in ((err, m), (r, d)))"

text \<open>
  Opening a stream: a replication method gets the recording stream, any other method the plain one
  (\<open>None\<close>). \<open>streamer\<close> opens the connection.
\<close>

definition StreamInterceptor ::
    "string \<Rightarrow> string \<Rightarrow> ('d \<Rightarrow> go_error option \<times> 'd) \<Rightarrow> string \<Rightarrow> 'd \<Rightarrow> recordingClientStream option result \<times> 'd" where
  "StreamInterceptor clusterName target streamer method d =
     (case streamer d of
        (Some err, d) \<Rightarrow> (Inl err, d)
      | (None, d) \<Rightarrow>
          (Inr (if isReplicationMethod method
                then Some \<lparr>cs_method = method, cs_clusterName = clusterName, cs_targetAddress = target\<rparr> else None), d))"

definition StreamServerInterceptor ::
    "string \<Rightarrow> (recordingServerStream option \<Rightarrow> 'd \<Rightarrow> go_error option \<times> 'd) \<Rightarrow> string \<Rightarrow> 'd \<Rightarrow> go_error option \<times> 'd" where
  "StreamServerInterceptor clusterName handler method d =
     (if isReplicationMethod method
      then handler (Some \<lparr>ss_method = method, ss_clusterName = clusterName\<rparr>) d
      else handler None d)"

section \<open>Transparency and the log\<close>

fun client_stream_call :: "'d stream_ops \<Rightarrow> recordingClientStream \<Rightarrow> stream_call \<Rightarrow> ReplicationStreamRecorder \<times> 'd
    \<Rightarrow> (go_error option \<times> any) \<times> (ReplicationStreamRecorder \<times> 'd)" where
  "client_stream_call ops s (SendMsg now m) st = (let (err, st) = client_SendMsg ops s now m st in ((err, m), st))"
| "client_stream_call ops s (RecvMsg now) st = client_RecvMsg ops s now st"

fun server_stream_call :: "'d stream_ops \<Rightarrow> recordingServerStream \<Rightarrow> stream_call \<Rightarrow> ReplicationStreamRecorder \<times> 'd
    \<Rightarrow> (go_error option \<times> any) \<times> (ReplicationStreamRecorder \<times> 'd)" where
  "server_stream_call ops s (SendMsg now m) st = (let (err, st) = server_SendMsg ops s now m st in ((err, m), st))"
| "server_stream_call ops s (RecvMsg now) st = server_RecvMsg ops s now st"

definition entry_of :: "int \<Rightarrow> string \<Rightarrow> any \<Rightarrow> string \<Rightarrow> string \<Rightarrow> string \<Rightarrow> bool \<Rightarrow> CapturedReplicationMessage list" where
  "entry_of now method m dir cl target isStream =
     (case m of Proto msg \<Rightarrow> [captured now method msg dir cl target isStream] | Other \<Rightarrow> [])"

text \<open>A message that is sent is logged even if sending fails; one that is received only if it arrives.\<close>

fun stream_entry :: "string \<Rightarrow> string \<Rightarrow> string \<Rightarrow> string \<Rightarrow> string \<Rightarrow> stream_call \<Rightarrow> go_error option \<times> any
    \<Rightarrow> CapturedReplicationMessage list" where
  "stream_entry sd rd method cl target (SendMsg now m) (err, _) = entry_of now method m sd cl target True"
| "stream_entry sd rd method cl target (RecvMsg now) (err, m) =
     (if err = None then entry_of now method m rd cl target True else [])"

fun unary_entry :: "string \<Rightarrow> string \<Rightarrow> string \<Rightarrow> string \<Rightarrow> int \<times> int \<times> string \<times> any \<Rightarrow> go_error option \<times> any
    \<Rightarrow> CapturedReplicationMessage list" where
  "unary_entry d1 d2 cl target (now, now', method, req) (err, reply) =
     (if isReplicationMethod method
      then entry_of now method req d1 cl target False @
        (if err = None then entry_of now' method reply d2 cl target False else [])
      else [])"

definition unary_base :: "(string \<Rightarrow> any \<Rightarrow> 'd \<Rightarrow> (go_error option \<times> any) \<times> 'd) \<Rightarrow> int \<times> int \<times> string \<times> any \<Rightarrow> 'd
    \<Rightarrow> (go_error option \<times> any) \<times> 'd" where
  "unary_base invoker call d = (case call of (_, _, method, req) \<Rightarrow> invoker method req d)"

lemma capturedMessages_record_any [simp]:
  "capturedMessages (record_any now method m dir cl target st r) = capturedMessages r @ entry_of now method m dir cl target st"
  by (cases m) (simp_all add: record_any_def recordMessage_def entry_of_def)

interpretation unary_client: recording_wrapper "UnaryInterceptor cl target invoker" "unary_base invoker" snd
    "\<lambda>s. capturedMessages (fst s)" "unary_entry DirectionSend DirectionRecv cl target"
  for cl target invoker
  by unfold_locales (auto simp: UnaryInterceptor_def unary_base_def Let_def split: prod.splits)

interpretation unary_server: recording_wrapper "UnaryServerInterceptor cl handler" "unary_base handler" snd
    "\<lambda>s. capturedMessages (fst s)" "unary_entry DirectionServerRecv DirectionServerSend cl ''server''"
  for cl handler
  by unfold_locales (auto simp: UnaryServerInterceptor_def unary_base_def Let_def split: prod.splits)

interpretation client_stream: recording_wrapper "client_stream_call ops s" "stream_base ops" snd
    "\<lambda>st. capturedMessages (fst st)"
    "stream_entry DirectionSend DirectionRecv (cs_method s) (cs_clusterName s) (cs_targetAddress s)"
  for ops s
proof
  fix c st
  show "stream_base ops c (snd st) = (fst (client_stream_call ops s c st), snd (snd (client_stream_call ops s c st)))"
    by (cases c) (auto simp: client_SendMsg_def client_RecvMsg_def Let_def split: prod.splits)
  show "capturedMessages (fst (snd (client_stream_call ops s c st))) = capturedMessages (fst st) @
      stream_entry DirectionSend DirectionRecv (cs_method s) (cs_clusterName s) (cs_targetAddress s) c
        (fst (client_stream_call ops s c st))"
    by (cases c) (auto simp: client_SendMsg_def client_RecvMsg_def Let_def split: prod.splits)
qed

interpretation server_stream: recording_wrapper "server_stream_call ops s" "stream_base ops" snd
    "\<lambda>st. capturedMessages (fst st)"
    "stream_entry DirectionServerSend DirectionServerRecv (ss_method s) (ss_clusterName s) ''server''"
  for ops s
proof
  fix c st
  show "stream_base ops c (snd st) = (fst (server_stream_call ops s c st), snd (snd (server_stream_call ops s c st)))"
    by (cases c) (auto simp: server_SendMsg_def server_RecvMsg_def Let_def split: prod.splits)
  show "capturedMessages (fst (snd (server_stream_call ops s c st))) = capturedMessages (fst st) @
      stream_entry DirectionServerSend DirectionServerRecv (ss_method s) (ss_clusterName s) ''server'' c
        (fst (server_stream_call ops s c st))"
    by (cases c) (auto simp: server_SendMsg_def server_RecvMsg_def Let_def split: prod.splits)
qed

text \<open>Every logged message carries its payload on the side its direction says.\<close>

definition well_captured :: "CapturedReplicationMessage \<Rightarrow> bool" where
  "well_captured c \<longleftrightarrow> (Request c = None) \<noteq> (Response c = None) \<and> (is_send (Direction c) \<longleftrightarrow> Request c \<noteq> None) \<and>
     (\<forall>m. Request c = Some m \<or> Response c = Some m \<longrightarrow> MessageType c = FullName m)"

lemma well_captured_captured: "well_captured (captured now method m dir cl target st)"
  by (auto simp: well_captured_def captured_def)

section \<open>Properties\<close>

text \<open>
  The recording streams are transparent, and their log is the traffic: on a client stream and on a
  server stream, every sequence of sends and receives gives the results of the plain stream,
  and the recorder's log grows by the messages that were sent and those that were received
  without error, in order, each with its direction and its payload on the side of its
  direction.
\<close>

theorem stream_recorder_logs_traffic:
  "(let (replies, r, d') = run_calls (client_stream_call ops cs) calls (r0, d) in
      run_calls (stream_base ops) calls d = (replies, d') \<and>
      GetMessages r = GetMessages r0 @
        concat (map (\<lambda>(c, a). stream_entry DirectionSend DirectionRecv (cs_method cs) (cs_clusterName cs) (cs_targetAddress cs) c a)
          (zip calls replies))) \<and>
   (let (replies, r, d') = run_calls (server_stream_call ops ss) calls (r0, d) in
      run_calls (stream_base ops) calls d = (replies, d') \<and>
      GetMessages r = GetMessages r0 @
        concat (map (\<lambda>(c, a). stream_entry DirectionServerSend DirectionServerRecv (ss_method ss) (ss_clusterName ss) ''server'' c a)
          (zip calls replies)))"
  using client_stream.run_transparent[of ops calls "(r0, d)" cs] client_stream.run_logged[of ops cs calls "(r0, d)"]
    server_stream.run_transparent[of ops calls "(r0, d)" ss] server_stream.run_logged[of ops ss calls "(r0, d)"]
  by (simp add: case_prod_beta GetMessages_def)

text \<open>
  The unary interceptors log replication calls only, the request before the call and the reply
  after a successful one, without changing what the caller or the handler sees; and every
  message any interceptor logs names its type and has its payload as request exactly when it
  was sent.
\<close>

lemma unary_recorder_logs_replication_calls:
  "(let (replies, r, d') = run_calls (UnaryInterceptor cl target invoker) calls (r0, d) in
      run_calls (unary_base invoker) calls d = (replies, d') \<and>
      GetMessages r = GetMessages r0 @
        concat (map (\<lambda>(c, a). unary_entry DirectionSend DirectionRecv cl target c a) (zip calls replies))) \<and>
   (let (replies, r, d') = run_calls (UnaryServerInterceptor cl invoker) calls (r0, d) in
      run_calls (unary_base invoker) calls d = (replies, d') \<and>
      GetMessages r = GetMessages r0 @
        concat (map (\<lambda>(c, a). unary_entry DirectionServerRecv DirectionServerSend cl ''server'' c a) (zip calls replies))) \<and>
   well_captured (captured now method m dir cl target st)"
  using unary_client.run_transparent[of invoker calls "(r0, d)" cl target] unary_client.run_logged[of cl target invoker calls "(r0, d)"]
    unary_server.run_transparent[of invoker calls "(r0, d)" cl] unary_server.run_logged[of cl invoker calls "(r0, d)"]
  by (simp add: case_prod_beta GetMessages_def well_captured_captured)

end
