(* ===== verification/OneBox.thy ===== *)
theory OneBox
  imports DynConfig TaskRecorder StreamRecorder
begin

text \<open>
  The in-process Temporal server of the conformance tests (\<^verbatim>\<open>onebox.go\<close>): the parameters it is
  built from, the applications it starts for every host of every service and stops again, the
  addresses it hands out, the copies of the persistence configuration, the authorisation
  callbacks and the overrides of the dynamic configuration. The dependency-injection container,
  the configuration store and every object that is only passed along belong to other packages:
  the first two are parameters, an object is its identity.
\<close>

section \<open>Configuration\<close>

type_synonym handle = nat

datatype service = FrontendService | HistoryService | MatchingService | WorkerService

datatype protocol = httpProtocol | grpcProtocol

record Hosts =
  hosts_Self :: string
  hosts_All :: "string list"

type_synonym host_table = "protocol \<rightharpoonup> (service \<rightharpoonup> Hosts)"

text \<open>A missing entry of either map reads as the zero value.\<close>

definition hosts_of :: "host_table \<Rightarrow> protocol \<Rightarrow> service \<Rightarrow> Hosts" where
  "hosts_of t p s =
     (case t p of
        None \<Rightarrow> \<lparr>hosts_Self = '''', hosts_All = []\<rparr>
      | Some m \<Rightarrow> (case m s of None \<Rightarrow> \<lparr>hosts_Self = '''', hosts_All = []\<rparr> | Some h \<Rightarrow> h))"

record cluster_information =
  ci_Enabled :: bool
  ci_ReplicationEnabled :: bool
  ci_InitialFailoverVersion :: int
  ci_RPCAddress :: string
  ci_HTTPAddress :: string
  ci_ClusterID :: string
  ci_ShardCount :: int

record cluster_config =
  EnableGlobalNamespace :: bool
  FailoverVersionIncrement :: int
  MasterClusterName :: string
  CurrentClusterName :: string
  ClusterInformation :: "string \<rightharpoonup> cluster_information"

text \<open>Of a data store the code reads the fault injection and the Elasticsearch settings.\<close>

record fault_injection =
  fi_targets :: handle
  Injector :: "handle option"

record data_store =
  ds_settings :: handle
  FaultInjection :: "fault_injection option"
  Elasticsearch :: "handle option"

record persistence =
  pc_settings :: handle
  VisibilityStore :: string
  pc_NumHistoryShards :: int
  pc_DataStores :: "string \<rightharpoonup> data_store"

record FrontendConfig =
  NumFrontendHosts :: int

record HistoryConfig =
  NumHistoryShards :: int
  NumHistoryHosts :: int

record MatchingConfig =
  NumMatchingHosts :: int

record WorkerConfig =
  NumWorkers :: int
  DisableWorker :: bool

record TemporalParams =
  p_ClusterMetadataConfig :: cluster_config
  p_PersistenceConfig :: persistence
  p_MetadataMgr :: handle
  p_ClusterMetadataManager :: handle
  p_ShardMgr :: handle
  p_ExecutionManager :: handle
  p_TaskMgr :: handle
  p_NamespaceReplicationQueue :: handle
  p_AbstractDataStoreFactory :: handle
  p_VisibilityStoreFactory :: handle
  p_Logger :: handle
  p_ArchiverMetadata :: handle
  p_ArchiverProvider :: handle
  p_FrontendConfig :: FrontendConfig
  p_HistoryConfig :: HistoryConfig
  p_MatchingConfig :: MatchingConfig
  p_WorkerConfig :: WorkerConfig
  p_ESConfig :: "handle option"
  p_ESClient :: "handle option"
  p_MockAdminClient :: "string \<rightharpoonup> handle"
  p_NamespaceReplicationTaskExecutor :: handle
  p_DCRedirectionPolicy :: handle
  p_DynamicConfigOverrides :: "(string \<times> dyn_value) list"
  p_TLSConfigProvider :: "handle option"
  p_CaptureMetricsHandler :: "handle option"
  p_ServiceFxOptions :: "service \<Rightarrow> handle list"
  p_TaskCategoryRegistry :: handle
  p_HostsByProtocolByService :: host_table
  p_SpanExporters :: handle
  p_TokenProvider :: "handle option"

text \<open>What an application of a service is built from.\<close>

record rpc_settings =
  rpc_HTTPPort :: int
  HTTPAdditionalForwardedHeaders :: "string list"

record service_config =
  sc_Services :: "service \<rightharpoonup> rpc_settings"
  sc_DCRedirectionPolicy :: handle
  sc_CustomExporters :: handle

record service_app =
  app_service :: service
  app_host :: string
  app_persistence :: persistence
  app_mockAdminClient :: "string \<rightharpoonup> handle"
  app_config :: service_config
  app_httpPort :: int
  app_hostMap :: "service \<rightharpoonup> Hosts"
  app_clusterConfig :: cluster_config
  app_recordsTasks :: bool
  app_options :: "handle list"

text \<open>What \<^verbatim>\<open>fx.Populate\<close> fills in.\<close>

record populated =
  pop_namespaceRegistry :: handle
  pop_rpcFactory :: handle
  pop_historyRawClient :: handle
  pop_matchingRawClient :: handle
  pop_schedulerClient :: handle
  pop_grpcResolver :: handle
  pop_executionManager :: handle
  pop_chasmEngine :: handle
  pop_chasmVisibilityMgr :: handle
  pop_chasmRegistry :: handle

type_synonym claims_fun = "handle \<Rightarrow> handle result"
type_synonym authorize_fun = "handle \<Rightarrow> handle \<Rightarrow> handle result"

record 'c TemporalImpl =
  fxApps :: "service_app list"
  namespaceRegistries :: "handle list"
  frontendMembershipAddress :: string
  chasmEngine :: "handle option"
  chasmVisibilityMgr :: "handle option"
  chasmRegistry :: "handle option"
  adminClient :: "handle option"
  frontendClient :: "handle option"
  operatorClient :: "handle option"
  historyClient :: "handle option"
  matchingClient :: "handle option"
  schedulerClient :: "handle option"
  dcClient :: 'c
  logger :: handle
  clusterMetadataConfig :: cluster_config
  persistenceConfig :: persistence
  metadataMgr :: handle
  clusterMetadataMgr :: handle
  shardMgr :: handle
  taskMgr :: handle
  executionManager :: handle
  namespaceReplicationQueue :: handle
  abstractDataStoreFactory :: handle
  visibilityStoreFactory :: handle
  archiverMetadata :: handle
  archiverProvider :: handle
  frontendConfig :: FrontendConfig
  historyConfig :: HistoryConfig
  matchingConfig :: MatchingConfig
  workerConfig :: WorkerConfig
  esConfig :: "handle option"
  esClient :: "handle option"
  mockAdminClient :: "string \<rightharpoonup> handle"
  namespaceReplicationTaskExecutor :: handle
  dcRedirectionPolicy :: handle
  tlsConfigProvider :: "handle option"
  captureMetricsHandler :: "handle option"
  hostsByProtocolByService :: host_table
  onGetClaims :: "claims_fun option"
  onAuthorize :: "authorize_fun option"
  serviceFxOptions :: "service \<Rightarrow> handle list"
  taskCategoryRegistry :: handle
  replicationStreamRecorder :: ReplicationStreamRecorder
  taskQueueRecorder :: "handle TaskQueueRecorder option"
  spanExporters :: handle
  tokenProvider :: "handle option"

section \<open>Addresses\<close>

definition makeHostMap :: "service \<Rightarrow> string \<Rightarrow> 'c TemporalImpl \<Rightarrow> (service \<rightharpoonup> Hosts)" where
  "makeHostMap serviceName self c =
     (let hostMap = (case hostsByProtocolByService c grpcProtocol of None \<Rightarrow> Map.empty | Some m \<Rightarrow> m);
          hosts = (case hostMap serviceName of None \<Rightarrow> \<lparr>hosts_Self = '''', hosts_All = []\<rparr> | Some h \<Rightarrow> h)
      in hostMap(serviceName \<mapsto> hosts\<lparr>hosts_Self := self\<rparr>))"

definition first_address :: "protocol \<Rightarrow> service \<Rightarrow> 'c TemporalImpl \<Rightarrow> string outcome" where
  "first_address p s c =
     (case hosts_All (hosts_of (hostsByProtocolByService c) p s) of
        [] \<Rightarrow> Panic ''index out of range''
      | a # _ \<Rightarrow> Ret a)"

definition RemoteFrontendGRPCAddress :: "'c TemporalImpl \<Rightarrow> string outcome" where
  "RemoteFrontendGRPCAddress c = first_address grpcProtocol FrontendService c"

definition FrontendGRPCAddress :: "'c TemporalImpl \<Rightarrow> string outcome" where
  "FrontendGRPCAddress c = first_address grpcProtocol FrontendService c"

definition WorkerGRPCAddress :: "'c TemporalImpl \<Rightarrow> string outcome" where
  "WorkerGRPCAddress c = first_address grpcProtocol WorkerService c"

text \<open>\<open>pick\<close> is the number drawn by \<^verbatim>\<open>rand.Intn\<close>, taken into its range; \<^verbatim>\<open>rand.Intn(0)\<close> panics.\<close>

definition FrontendHTTPAddress :: "nat \<Rightarrow> 'c TemporalImpl \<Rightarrow> string outcome" where
  "FrontendHTTPAddress pick c =
     (let addrs = hosts_All (hosts_of (hostsByProtocolByService c) httpProtocol FrontendService) in
      if length addrs = 0 then Panic ''invalid argument to Intn''
      else Ret (addrs ! (pick mod length addrs)))"

definition ChasmEngine :: "'c TemporalImpl \<Rightarrow> handle option result" where
  "ChasmEngine c =
     (let numHistoryHosts = length (hosts_All (hosts_of (hostsByProtocolByService c) grpcProtocol HistoryService)) in
      if numHistoryHosts \<noteq> 1
      then Inl (Errorf (''expected exactly one host for chasm engine, got '' @ Itoa (int numHistoryHosts)))
      else Inr (chasmEngine c))"

text \<open>\<open>split\<close> is \<^verbatim>\<open>net.SplitHostPort\<close> (the port) and \<open>atoi\<close> is \<^verbatim>\<open>strconv.Atoi\<close>.\<close>

record net_ops =
  SplitHostPort :: "string \<Rightarrow> (string \<times> string) result"
  Atoi :: "string \<Rightarrow> int result"

definition mustPortFromAddress :: "net_ops \<Rightarrow> string \<Rightarrow> int outcome" where
  "mustPortFromAddress net addr =
     (case SplitHostPort net addr of
        Inl err \<Rightarrow> Panic (''Invalid address: '' @ error_text err)
      | Inr (_, port) \<Rightarrow>
          (case Atoi net port of
             Inl err \<Rightarrow> Panic (''Cannot parse port: '' @ error_text err)
           | Inr portInt \<Rightarrow> Ret portInt))"

section \<open>Copies of the persistence configuration\<close>

text \<open>\<open>js\<close> encodes to and decodes from JSON; \<open>keys\<close> is the order of the range over the data stores.\<close>

record json_copy =
  js_Marshal :: "persistence \<Rightarrow> byte list result"
  js_Unmarshal :: "byte list \<Rightarrow> persistence result"

fun restore_injectors :: "persistence \<Rightarrow> string list \<Rightarrow> persistence \<Rightarrow> persistence" where
  "restore_injectors cfg [] newCfg = newCfg"
| "restore_injectors cfg (name # rest) newCfg =
     restore_injectors cfg rest
       (case pc_DataStores cfg name of
          None \<Rightarrow> newCfg
        | Some dataStore \<Rightarrow>
            (case FaultInjection dataStore of
               None \<Rightarrow> newCfg
             | Some fi \<Rightarrow>
                 let newDataStore = (case pc_DataStores newCfg name of
                        None \<Rightarrow> \<lparr>ds_settings = 0, FaultInjection = None, Elasticsearch = None\<rparr> | Some d \<Rightarrow> d);
                     newFault = (case FaultInjection newDataStore of
                        None \<Rightarrow> \<lparr>fi_targets = 0, Injector = None\<rparr> | Some f \<Rightarrow> f);
                     newDataStore = newDataStore\<lparr>FaultInjection := Some (newFault\<lparr>Injector := Injector fi\<rparr>)\<rparr>
                 in newCfg\<lparr>pc_DataStores := (pc_DataStores newCfg)(name \<mapsto> newDataStore)\<rparr>))"

definition copyPersistenceConfig :: "json_copy \<Rightarrow> string list \<Rightarrow> persistence \<Rightarrow> persistence outcome" where
  "copyPersistenceConfig js keys cfg =
     (case js_Marshal js cfg of
        Inl err \<Rightarrow> Panic (''copy persistence config: '' @ error_text err)
      | Inr b \<Rightarrow>
          (case js_Unmarshal js b of
             Inl err \<Rightarrow> Panic (''copy persistence config: '' @ error_text err)
           | Inr newCfg \<Rightarrow> Ret (restore_injectors cfg keys newCfg)))"

definition impl_copyPersistenceConfig :: "json_copy \<Rightarrow> string list \<Rightarrow> 'c TemporalImpl \<Rightarrow> persistence outcome" where
  "impl_copyPersistenceConfig js keys c =
     and_then (copyPersistenceConfig js keys (persistenceConfig c)) (\<lambda>pc.
       Ret (case esConfig c of
              None \<Rightarrow> pc
            | Some es \<Rightarrow>
                pc\<lparr>VisibilityStore := ''es-visibility'',
                   pc_DataStores := (pc_DataStores pc)(''es-visibility'' \<mapsto>
                     \<lparr>ds_settings = 0, FaultInjection = None, Elasticsearch = Some es\<rparr>)\<rparr>))"

section \<open>Construction\<close>

text \<open>
  \<open>pick\<close> is the draw for the HTTP address in the Nexus callback URL. The overrides given with the
  parameters last as long as the creating test, whose cleanup functions are the second result.
\<close>

definition setNexusCallbackURL :: "'c config_store \<Rightarrow> nat \<Rightarrow> 'c TemporalImpl \<Rightarrow> 'c TemporalImpl outcome" where
  "setNexusCallbackURL st pick c =
     and_then (FrontendHTTPAddress pick c) (\<lambda>addr.
       let nexusCallbackTemplate = VString (''http://'' @ addr @ ''/namespaces/{{.NamespaceName}}/nexus/callback'');
           dc = overrideDynamicConfigForClusterLifetime st ''nexusoperations.CallbackURLTemplate'' nexusCallbackTemplate (dcClient c);
           dc = overrideDynamicConfigForClusterLifetime st ''chasmnexus.CallbackURLTemplate'' nexusCallbackTemplate dc
       in Ret (c\<lparr>dcClient := dc\<rparr>))"

definition new_impl :: "'c \<Rightarrow> TemporalParams \<Rightarrow> 'c TemporalImpl" where
  "new_impl dc params =
     \<lparr>fxApps = [], namespaceRegistries = [], frontendMembershipAddress = '''', chasmEngine = None,
      chasmVisibilityMgr = None, chasmRegistry = None, adminClient = None, frontendClient = None,
      operatorClient = None, historyClient = None, matchingClient = None, schedulerClient = None,
      dcClient = dc, logger = p_Logger params, clusterMetadataConfig = p_ClusterMetadataConfig params,
      persistenceConfig = p_PersistenceConfig params, metadataMgr = p_MetadataMgr params,
      clusterMetadataMgr = p_ClusterMetadataManager params, shardMgr = p_ShardMgr params,
      taskMgr = p_TaskMgr params, executionManager = p_ExecutionManager params,
      namespaceReplicationQueue = p_NamespaceReplicationQueue params,
      abstractDataStoreFactory = p_AbstractDataStoreFactory params,
      visibilityStoreFactory = p_VisibilityStoreFactory params,
      archiverMetadata = p_ArchiverMetadata params, archiverProvider = p_ArchiverProvider params,
      frontendConfig = p_FrontendConfig params, historyConfig = p_HistoryConfig params,
      matchingConfig = p_MatchingConfig params, workerConfig = p_WorkerConfig params,
      esConfig = p_ESConfig params, esClient = p_ESClient params, mockAdminClient = p_MockAdminClient params,
      namespaceReplicationTaskExecutor = p_NamespaceReplicationTaskExecutor params,
      dcRedirectionPolicy = p_DCRedirectionPolicy params, tlsConfigProvider = p_TLSConfigProvider params,
      captureMetricsHandler = p_CaptureMetricsHandler params,
      hostsByProtocolByService = p_HostsByProtocolByService params, onGetClaims = None, onAuthorize = None,
      serviceFxOptions = p_ServiceFxOptions params, taskCategoryRegistry = p_TaskCategoryRegistry params,
      replicationStreamRecorder = NewReplicationStreamRecorder, taskQueueRecorder = None,
      spanExporters = p_SpanExporters params, tokenProvider = p_TokenProvider params\<rparr>"

definition newTemporal ::
    "'c config_store \<Rightarrow> 'c \<Rightarrow> (string \<times> dyn_value) list \<Rightarrow> nat \<Rightarrow> TemporalParams \<Rightarrow> cleanups
     \<Rightarrow> (cleanups \<times> 'c TemporalImpl) outcome" where
  "newTemporal st dc defaults pick params t =
     (let c = new_impl dc params;
          outputFile = ''/tmp/replication_stream_messages_'' @ CurrentClusterName (p_ClusterMetadataConfig params) @ ''.txt'';
          c = c\<lparr>replicationStreamRecorder := SetOutputFile outputFile (replicationStreamRecorder c)\<rparr>;
          c = c\<lparr>dcClient := override_all st defaults (dcClient c)\<rparr>
      in and_then (setNexusCallbackURL st pick c) (\<lambda>c.
           let (t, dc) = override_for_test st (p_DynamicConfigOverrides params) t (dcClient c)
           in Ret (t, c\<lparr>dcClient := dc\<rparr>)))"

lemma newTemporal_fields:
  assumes "newTemporal st dc defaults pick params t = Ret (t', c)"
  shows "fxApps c = []" "esConfig c = p_ESConfig params" "hostsByProtocolByService c = p_HostsByProtocolByService params"
  using assms
  by (auto simp: newTemporal_def setNexusCallbackURL_def new_impl_def and_then_Ret_iff Let_def case_prod_unfold)

section \<open>The configuration of an application\<close>

definition frontendConfigProvider :: "net_ops \<Rightarrow> nat \<Rightarrow> 'c TemporalImpl \<Rightarrow> service_config outcome" where
  "frontendConfigProvider net pick c =
     and_then (FrontendHTTPAddress pick c) (\<lambda>addr.
     and_then (mustPortFromAddress net addr) (\<lambda>port.
       Ret \<lparr>sc_Services = [FrontendService \<mapsto> \<lparr>rpc_HTTPPort = port,
              HTTPAdditionalForwardedHeaders = [''this-header-forwarded'', ''this-header-prefix-forwarded-*'']\<rparr>],
            sc_DCRedirectionPolicy = dcRedirectionPolicy c, sc_CustomExporters = spanExporters c\<rparr>))"

definition configProvider :: "service \<Rightarrow> 'c TemporalImpl \<Rightarrow> service_config" where
  "configProvider serviceName c =
     \<lparr>sc_Services = [serviceName \<mapsto> \<lparr>rpc_HTTPPort = 0, HTTPAdditionalForwardedHeaders = []\<rparr>],
      sc_DCRedirectionPolicy = dcRedirectionPolicy c, sc_CustomExporters = spanExporters c\<rparr>"

text \<open>The arguments of \<^verbatim>\<open>rpc.NewFactory\<close> that are computed here; \<open>tls_get\<close> is \<^verbatim>\<open>GetFrontendClientConfig\<close>.\<close>

datatype dial_option = StatsHandler handle | RecordUnary string | RecordStream string

record rpc_factory =
  rf_service :: service
  rf_BindOnIP :: string
  rf_GRPCPort :: int
  rf_HTTPPort :: int
  rf_tls :: "handle option"
  rf_options :: "dial_option list"
  rf_tokenProvider :: "handle option"

definition newRPCFactory ::
    "net_ops \<Rightarrow> (handle \<Rightarrow> handle result) \<Rightarrow> service \<Rightarrow> string \<Rightarrow> handle option \<Rightarrow> handle option \<Rightarrow> int
     \<Rightarrow> 'c TemporalImpl \<Rightarrow> rpc_factory result" where
  "newRPCFactory net tls_get sn grpcHostPort tlsProvider tracingStatsHandler httpPort c =
     (case SplitHostPort net grpcHostPort of
        Inl err \<Rightarrow> Inl (Wrap ''failed parsing host:port'' err)
      | Inr (host, portStr) \<Rightarrow>
        (case Atoi net portStr of
           Inl err \<Rightarrow> Inl (Wrap ''invalid port'' err)
         | Inr port \<Rightarrow>
           (let build = (\<lambda>frontendTLSConfig.
                  Inr \<lparr>rf_service = sn, rf_BindOnIP = host, rf_GRPCPort = port, rf_HTTPPort = httpPort,
                       rf_tls = frontendTLSConfig,
                       rf_options = (case tracingStatsHandler of None \<Rightarrow> [] | Some h \<Rightarrow> [StatsHandler h]) @
                         [RecordUnary (CurrentClusterName (clusterMetadataConfig c)),
                          RecordStream (CurrentClusterName (clusterMetadataConfig c))],
                       rf_tokenProvider = tokenProvider c\<rparr>)
            in case tlsProvider of
                 None \<Rightarrow> build None
               | Some p \<Rightarrow> (case tls_get p of
                     Inl err \<Rightarrow> Inl (Wrap ''failed getting client TLS config'' err)
                   | Inr cfg \<Rightarrow> build (Some cfg)))))"

definition GetTLSConfigProvider :: "'c TemporalImpl \<Rightarrow> handle option" where
  "GetTLSConfigProvider c = tlsConfigProvider c"

text \<open>\<open>noop\<close> is \<^verbatim>\<open>metrics.NoopMetricsHandler\<close>.\<close>

definition GetMetricsHandler :: "handle \<Rightarrow> 'c TemporalImpl \<Rightarrow> handle" where
  "GetMetricsHandler noop c = (case captureMetricsHandler c of Some h \<Rightarrow> h | None \<Rightarrow> noop)"

text \<open>Either the recorder or the plain manager.\<close>

definition GetExecutionManager :: "'c TemporalImpl \<Rightarrow> handle TaskQueueRecorder + handle" where
  "GetExecutionManager c = (case taskQueueRecorder c of Some r \<Rightarrow> Inl r | None \<Rightarrow> Inr (executionManager c))"

definition SetTaskQueueRecorder :: "handle TaskQueueRecorder option \<Rightarrow> 'c TemporalImpl \<Rightarrow> 'c TemporalImpl" where
  "SetTaskQueueRecorder r c = c\<lparr>taskQueueRecorder := r\<rparr>"

section \<open>Starting and stopping\<close>

text \<open>
  The container of a service on the state \<open>'d\<close> of the machine: \<^verbatim>\<open>fx.New\<close> with \<^verbatim>\<open>Err\<close> and \<^verbatim>\<open>Populate\<close>,
  \<^verbatim>\<open>Start\<close> and \<^verbatim>\<open>Stop\<close>; the creation of the system namespace; the connection of an RPC factory and the
  address of a resolver.
\<close>

record 'd fx_ops =
  fx_New :: "service_app \<Rightarrow> 'd \<Rightarrow> populated result \<times> 'd"
  fx_Start :: "service_app \<Rightarrow> 'd \<Rightarrow> go_error option \<times> 'd"
  fx_Stop :: "service_app \<Rightarrow> 'd \<Rightarrow> go_error option \<times> 'd"
  InitializeSystemNamespaces :: "string \<Rightarrow> 'd \<Rightarrow> go_error option \<times> 'd"
  LocalFrontendConnection :: "handle \<Rightarrow> handle"
  MakeURL :: "handle \<Rightarrow> service \<Rightarrow> string"

text \<open>The draws of the HTTP address, for the port and for the configuration of a host's application.\<close>

record server_env =
  env_net :: net_ops
  env_js :: json_copy
  env_keys :: "string list"
  env_pick :: "service \<Rightarrow> string \<Rightarrow> nat"
  env_pick_config :: "string \<Rightarrow> nat"

definition clusterConfigCopy :: "cluster_config \<Rightarrow> cluster_config" where
  "clusterConfigCopy cfg =
     \<lparr>EnableGlobalNamespace = EnableGlobalNamespace cfg, FailoverVersionIncrement = FailoverVersionIncrement cfg,
      MasterClusterName = MasterClusterName cfg, CurrentClusterName = CurrentClusterName cfg,
      ClusterInformation = ClusterInformation cfg\<rparr>"

definition build_app :: "server_env \<Rightarrow> service \<Rightarrow> string \<Rightarrow> 'c TemporalImpl \<Rightarrow> service_app outcome" where
  "build_app env s host c =
     and_then (impl_copyPersistenceConfig (env_js env) (env_keys env) c) (\<lambda>pc.
     and_then (FrontendHTTPAddress (env_pick env s host) c) (\<lambda>addr.
     and_then (mustPortFromAddress (env_net env) addr) (\<lambda>port.
     and_then (if s = FrontendService then frontendConfigProvider (env_net env) (env_pick_config env host) c
               else Ret (configProvider s c)) (\<lambda>cfg.
       Ret \<lparr>app_service = s, app_host = host, app_persistence = pc, app_mockAdminClient = mockAdminClient c,
            app_config = cfg, app_httpPort = port, app_hostMap = makeHostMap s host c,
            app_clusterConfig = (if s = WorkerService then clusterConfigCopy (clusterMetadataConfig c)
                                 else clusterMetadataConfig c),
            app_recordsTasks = (s = HistoryService), app_options = serviceFxOptions c s\<rparr>))))"

text \<open>A history application replaces the recorder and the CHASM objects when it is built.\<close>

definition decorated :: "service \<Rightarrow> populated \<Rightarrow> 'c TemporalImpl \<Rightarrow> 'c TemporalImpl" where
  "decorated s pop c =
     (if s = HistoryService
      then c\<lparr>taskQueueRecorder := Some (NewTaskQueueRecorder (pop_executionManager pop)),
             chasmEngine := Some (pop_chasmEngine pop), chasmVisibilityMgr := Some (pop_chasmVisibilityMgr pop),
             chasmRegistry := Some (pop_chasmRegistry pop)\<rparr>
      else c)"

text \<open>
  The loop over the hosts of a service. \<open>unbuilt\<close> and \<open>unstarted\<close> are the messages of the two calls of
  \<^verbatim>\<open>logger.Fatal\<close>, which ends the process; \<open>prev\<close> is what the application before has filled in.
\<close>

fun start_hosts ::
    "'d fx_ops \<Rightarrow> server_env \<Rightarrow> service \<Rightarrow> string \<Rightarrow> string \<Rightarrow> string list \<Rightarrow> populated option \<Rightarrow> 'c TemporalImpl \<Rightarrow> 'd
     \<Rightarrow> populated option outcome \<times> 'c TemporalImpl \<times> 'd" where
  "start_hosts fx env s unbuilt unstarted [] prev c d = (Ret prev, c, d)"
| "start_hosts fx env s unbuilt unstarted (host # hosts) prev c d =
     (case build_app env s host c of
        Panic msg \<Rightarrow> (Panic msg, c, d)
      | Hang \<Rightarrow> (Hang, c, d)
      | Ret app \<Rightarrow>
          (case fx_New fx app d of
             (Inl err, d) \<Rightarrow> (Panic unbuilt, c, d)
           | (Inr pop, d) \<Rightarrow>
               (let c = decorated s pop c;
                    c = c\<lparr>fxApps := fxApps c @ [app],
                          namespaceRegistries := namespaceRegistries c @ [pop_namespaceRegistry pop]\<rparr>
                in case fx_Start fx app d of
                     (Some err, d) \<Rightarrow> (Panic unstarted, c, d)
                   | (None, d) \<Rightarrow> start_hosts fx env s unbuilt unstarted hosts (Some pop) c d)))"

definition service_hosts :: "service \<Rightarrow> 'c TemporalImpl \<Rightarrow> string list" where
  "service_hosts s c = hosts_All (hosts_of (hostsByProtocolByService c) grpcProtocol s)"

definition startMatching :: "'d fx_ops \<Rightarrow> server_env \<Rightarrow> 'c TemporalImpl \<Rightarrow> 'd \<Rightarrow> unit outcome \<times> 'c TemporalImpl \<times> 'd" where
  "startMatching fx env c d =
     (let (r, c, d) = start_hosts fx env MatchingService ''unable to start matching service''
            ''unable to start matching service'' (service_hosts MatchingService c) None c d
      in (and_then r (\<lambda>_. Ret ()), c, d))"

definition startHistory :: "'d fx_ops \<Rightarrow> server_env \<Rightarrow> 'c TemporalImpl \<Rightarrow> 'd \<Rightarrow> unit outcome \<times> 'c TemporalImpl \<times> 'd" where
  "startHistory fx env c d =
     (let (r, c, d) = start_hosts fx env HistoryService ''unable to construct history service''
            ''unable to start history service'' (service_hosts HistoryService c) None c d
      in (and_then r (\<lambda>_. Ret ()), c, d))"

text \<open>Without a frontend host the RPC factory is nil.\<close>

definition startFrontend :: "'d fx_ops \<Rightarrow> server_env \<Rightarrow> 'c TemporalImpl \<Rightarrow> 'd \<Rightarrow> unit outcome \<times> 'c TemporalImpl \<times> 'd" where
  "startFrontend fx env c d =
     (let (r, c, d) = start_hosts fx env FrontendService ''unable to construct frontend service''
            ''unable to start frontend service'' (service_hosts FrontendService c) None c d
      in case r of
           Panic msg \<Rightarrow> (Panic msg, c, d)
         | Hang \<Rightarrow> (Hang, c, d)
         | Ret None \<Rightarrow> (Panic ''nil pointer dereference'', c, d)
         | Ret (Some pop) \<Rightarrow>
             (let connection = LocalFrontendConnection fx (pop_rpcFactory pop) in
              (Ret (), c\<lparr>frontendClient := Some connection, adminClient := Some connection,
                 operatorClient := Some connection, historyClient := Some (pop_historyRawClient pop),
                 matchingClient := Some (pop_matchingRawClient pop), schedulerClient := Some (pop_schedulerClient pop),
                 frontendMembershipAddress := MakeURL fx (pop_grpcResolver pop) FrontendService\<rparr>, d)))"

definition startWorker :: "'d fx_ops \<Rightarrow> server_env \<Rightarrow> 'c TemporalImpl \<Rightarrow> 'd \<Rightarrow> unit outcome \<times> 'c TemporalImpl \<times> 'd" where
  "startWorker fx env c d =
     (let (r, c, d) = start_hosts fx env WorkerService ''unable to start worker service''
            ''unable to start worker service'' (service_hosts WorkerService c) None c d
      in (and_then r (\<lambda>_. Ret ()), c, d))"

definition createSystemNamespace :: "'d fx_ops \<Rightarrow> 'c TemporalImpl \<Rightarrow> 'd \<Rightarrow> go_error option \<times> 'd" where
  "createSystemNamespace fx c d =
     (let (err, d) = InitializeSystemNamespaces fx (CurrentClusterName (clusterMetadataConfig c)) d
      in (map_option (\<lambda>e. Errorf (''failed to create temporal-system namespace: '' @ error_text e)) err, d))"

definition and_start ::
    "unit outcome \<times> 'c TemporalImpl \<times> 'd \<Rightarrow> ('c TemporalImpl \<Rightarrow> 'd \<Rightarrow> unit outcome \<times> 'c TemporalImpl \<times> 'd)
     \<Rightarrow> unit outcome \<times> 'c TemporalImpl \<times> 'd" where
  "and_start x f = (case x of (Ret _, c, d) \<Rightarrow> f c d | (Panic msg, c, d) \<Rightarrow> (Panic msg, c, d) | (Hang, c, d) \<Rightarrow> (Hang, c, d))"

definition Start :: "'d fx_ops \<Rightarrow> server_env \<Rightarrow> 'c TemporalImpl \<Rightarrow> 'd \<Rightarrow> go_error option outcome \<times> 'c TemporalImpl \<times> 'd" where
  "Start fx env c d =
     (case createSystemNamespace fx c d of
        (Some err, d) \<Rightarrow> (Ret (Some err), c, d)
      | (None, d) \<Rightarrow>
          (let (r, c, d) = and_start (and_start (and_start (startMatching fx env c d)
                 (startHistory fx env)) (startFrontend fx env)) (startWorker fx env)
           in (and_then r (\<lambda>_. Ret None), c, d)))"

fun stop_apps :: "'d fx_ops \<Rightarrow> service_app list \<Rightarrow> go_error option list \<Rightarrow> 'd \<Rightarrow> go_error option list \<times> 'd" where
  "stop_apps fx [] errs d = (errs, d)"
| "stop_apps fx (app # apps) errs d =
     (let (err, d) = fx_Stop fx app d in stop_apps fx apps (errs @ [err]) d)"

text \<open>\<^verbatim>\<open>multierr.Combine\<close> keeps the errors that are not nil; an empty list is nil.\<close>

definition multierr_Combine :: "go_error option list \<Rightarrow> go_error list" where
  "multierr_Combine errs = map the (filter (\<lambda>e. e \<noteq> None) errs)"

text \<open>The slice is reversed in place.\<close>

definition Stop :: "'d fx_ops \<Rightarrow> 'c TemporalImpl \<Rightarrow> 'd \<Rightarrow> go_error list \<times> 'c TemporalImpl \<times> 'd" where
  "Stop fx c d =
     (let c = c\<lparr>fxApps := rev (fxApps c)\<rparr>;
          (errs, d) = stop_apps fx (fxApps c) [] d
      in (multierr_Combine errs, c, d))"

section \<open>Callbacks and remote clients\<close>

definition SetOnGetClaims :: "claims_fun option \<Rightarrow> 'c TemporalImpl \<Rightarrow> 'c TemporalImpl" where
  "SetOnGetClaims fn c = c\<lparr>onGetClaims := fn\<rparr>"

text \<open>\<open>system_admin\<close> are the claims of a system administrator, \<open>allow\<close> the decision to allow a call.\<close>

definition GetClaims :: "handle \<Rightarrow> handle \<Rightarrow> 'c TemporalImpl \<Rightarrow> handle result" where
  "GetClaims system_admin authInfo c = (case onGetClaims c of Some f \<Rightarrow> f authInfo | None \<Rightarrow> Inr system_admin)"

definition SetOnAuthorize :: "authorize_fun option \<Rightarrow> 'c TemporalImpl \<Rightarrow> 'c TemporalImpl" where
  "SetOnAuthorize fn c = c\<lparr>onAuthorize := fn\<rparr>"

definition Authorize :: "handle \<Rightarrow> handle \<Rightarrow> handle \<Rightarrow> 'c TemporalImpl \<Rightarrow> handle result" where
  "Authorize allow caller target c = (case onAuthorize c of Some f \<Rightarrow> f caller target | None \<Rightarrow> Inr allow)"

text \<open>\<open>keys\<close> is the order of the range over the cluster information: the last match wins.\<close>

fun cluster_at :: "(string \<rightharpoonup> cluster_information) \<Rightarrow> string \<Rightarrow> string list \<Rightarrow> string \<Rightarrow> string" where
  "cluster_at infos addr [] clusterName = clusterName"
| "cluster_at infos addr (name # names) clusterName =
     cluster_at infos addr names
       (case infos name of
          None \<Rightarrow> clusterName
        | Some info \<Rightarrow> if addr = ci_RPCAddress info then name else clusterName)"

definition NewRemoteAdminClientWithTimeout ::
    "cluster_config \<Rightarrow> (string \<rightharpoonup> handle) \<Rightarrow> (string \<Rightarrow> int \<Rightarrow> int \<Rightarrow> handle) \<Rightarrow> string list \<Rightarrow> string \<Rightarrow> int \<Rightarrow> int \<Rightarrow> handle" where
  "NewRemoteAdminClientWithTimeout cfg mocks new_client keys rpcAddress timeout largeTimeout =
     (case mocks (cluster_at (ClusterInformation cfg) rpcAddress keys '''') of
        Some mock \<Rightarrow> mock
      | None \<Rightarrow> new_client rpcAddress timeout largeTimeout)"

section \<open>What a run starts and stops\<close>

text \<open>The same operations with a record of what was built, started and stopped, beside other events.\<close>

datatype 'x fx_event = System_namespace string | Built service_app | Started service_app | Stopped service_app "go_error option"
  | Beside 'x

definition traced :: "'d fx_ops \<Rightarrow> ('d \<times> 'x fx_event list) fx_ops" where
  "traced fx =
     \<lparr>fx_New = (\<lambda>app (d, log). let (x, d) = fx_New fx app d in (x, d, log @ [Built app])),
      fx_Start = (\<lambda>app (d, log). let (x, d) = fx_Start fx app d in (x, d, log @ [Started app])),
      fx_Stop = (\<lambda>app (d, log). let (x, d) = fx_Stop fx app d in (x, d, log @ [Stopped app x])),
      InitializeSystemNamespaces = (\<lambda>n (d, log).
        let (x, d) = InitializeSystemNamespaces fx n d in (x, d, log @ [System_namespace n])),
      LocalFrontendConnection = LocalFrontendConnection fx, MakeURL = MakeURL fx\<rparr>"

lemma traced_ops [simp]:
  "fx_New (traced fx) app (d, log) = (fst (fx_New fx app d), snd (fx_New fx app d), log @ [Built app])"
  "fx_Start (traced fx) app (d, log) = (fst (fx_Start fx app d), snd (fx_Start fx app d), log @ [Started app])"
  "fx_Stop (traced fx) app (d, log) = (fst (fx_Stop fx app d), snd (fx_Stop fx app d), log @ [Stopped app (fst (fx_Stop fx app d))])"
  "InitializeSystemNamespaces (traced fx) n (d, log) =
     (fst (InitializeSystemNamespaces fx n d), snd (InitializeSystemNamespaces fx n d), log @ [System_namespace n])"
  by (simp_all add: traced_def case_prod_unfold Let_def)

definition place :: "service_app \<Rightarrow> service \<times> string" where
  "place app = (app_service app, app_host app)"

definition started_events :: "service_app list \<Rightarrow> 'x fx_event list" where
  "started_events apps = concat (map (\<lambda>a. [Built a, Started a]) apps)"

fun is_start :: "'x fx_event \<Rightarrow> bool" where
  "is_start (Stopped _ _) = False"
| "is_start (Beside _) = False"
| "is_start _ = True"

text \<open>
  From \<open>c\<close> to \<open>c'\<close> applications for a prefix of \<open>ps\<close> were added, for all of it when the outcome is a
  return, and whatever was started is among them.
\<close>

definition start_grows ::
    "(service \<times> string) list \<Rightarrow> 'c TemporalImpl \<Rightarrow> 'x fx_event list \<Rightarrow> bool \<Rightarrow> 'c TemporalImpl \<Rightarrow> 'x fx_event list \<Rightarrow> bool" where
  "start_grows ps c log returned c' log' \<longleftrightarrow>
     hostsByProtocolByService c' = hostsByProtocolByService c \<and> esConfig c' = esConfig c \<and>
     (\<exists>apps ev. fxApps c' = fxApps c @ apps \<and> log' = log @ ev \<and> prefix (map place apps) ps
        \<and> {a. Started a \<in> set ev} \<subseteq> set apps \<and> list_all is_start ev
        \<and> (returned \<longrightarrow> map place apps = ps \<and> ev = started_events apps))"

definition is_ret :: "'a outcome \<Rightarrow> bool" where
  "is_ret r \<longleftrightarrow> (case r of Ret _ \<Rightarrow> True | _ \<Rightarrow> False)"

lemma is_ret_simps [simp]: "is_ret (Ret x)" "\<not> is_ret (Panic msg)" "\<not> is_ret Hang"
  by (simp_all add: is_ret_def)

lemma is_ret_and_then [simp]: "is_ret (and_then r (\<lambda>_. Ret x)) = is_ret r"
  by (cases r) simp_all

lemma started_events_simps [simp]:
  "started_events [] = []" "started_events (a # as) = Built a # Started a # started_events as"
  "started_events (as @ bs) = started_events as @ started_events bs"
  "Started a \<in> set (started_events as) \<longleftrightarrow> a \<in> set as"
  "list_all is_start (started_events as)"
  by (auto simp: started_events_def list_all_iff)

lemma start_grows_Nil: "start_grows ps c log False c log"
  by (auto simp: start_grows_def intro!: exI[of _ "[]"])

lemma start_grows_weaken: "start_grows ps c log b c' log' \<Longrightarrow> start_grows (ps @ qs) c log False c' log'"
  by (auto simp: start_grows_def)

lemma start_grows_trans:
  assumes "start_grows ps c log True c1 log1" "start_grows qs c1 log1 b c2 log2"
  shows "start_grows (ps @ qs) c log b c2 log2"
proof -
  obtain apps where a: "fxApps c1 = fxApps c @ apps" "log1 = log @ started_events apps" "map place apps = ps"
    using assms(1) by (auto simp: start_grows_def)
  obtain apps' ev' where b: "fxApps c2 = fxApps c1 @ apps'" "log2 = log1 @ ev'" "prefix (map place apps') qs"
    "{a. Started a \<in> set ev'} \<subseteq> set apps'" "list_all is_start ev'" "b \<longrightarrow> map place apps' = qs \<and> ev' = started_events apps'"
    using assms(2) by (auto simp: start_grows_def)
  show ?thesis
    using assms a b
    by (auto simp: start_grows_def intro!: exI[of _ "apps @ apps'"] exI[of _ "started_events apps @ ev'"])
qed

lemma build_app_place: "build_app env s host c = Ret app \<Longrightarrow> place app = (s, host)"
  by (auto simp: build_app_def place_def and_then_Ret_iff split: if_splits)

lemma decorated_frame [frame_simps]:
  "hostsByProtocolByService (decorated s pop c) = hostsByProtocolByService c"
  "fxApps (decorated s pop c) = fxApps c" "esConfig (decorated s pop c) = esConfig c"
  by (simp_all add: decorated_def)

lemma start_hosts_grows:
  "start_hosts (traced fx) env s u u' hosts prev c (d, log) = (r, c', d', log') \<Longrightarrow>
   start_grows (map (Pair s) hosts) c log (is_ret r) c' log'"
proof (induction hosts arbitrary: prev c d log)
  case Nil
  then show ?case by (auto simp: start_grows_def intro!: exI[of _ "[]"])
next
  case (Cons host hosts)
  show ?case
  proof (cases "build_app env s host c")
    case (Ret app)
    let ?ps = "map (Pair s) (host # hosts)"
    obtain x d1 where new: "fx_New fx app d = (x, d1)" by (rule prod.exhaust)
    show ?thesis
    proof (cases x)
      case (Inl err)
      then have "c' = c" "log' = log @ [Built app]" "\<not> is_ret r"
        using Cons.prems Ret new by auto
      then show ?thesis
        by (auto simp: start_grows_def intro!: exI[of _ "[]"])
    next
      case (Inr pop)
      define c1 where "c1 = (decorated s pop c)\<lparr>fxApps := fxApps c @ [app],
        namespaceRegistries := namespaceRegistries (decorated s pop c) @ [pop_namespaceRegistry pop]\<rparr>"
      have c1: "fxApps c1 = fxApps c @ [app]" "hostsByProtocolByService c1 = hostsByProtocolByService c" "esConfig c1 = esConfig c"
        by (simp_all add: c1_def frame_simps)
      obtain y d2 where start: "fx_Start fx app d1 = (y, d2)" by (rule prod.exhaust)
      let ?log = "log @ [Built app, Started app]"
      have one: "start_grows [(s, host)] c log True c1 ?log"
        using c1 build_app_place[OF Ret] by (auto simp: start_grows_def intro!: exI[of _ "[app]"])
      show ?thesis
      proof (cases y)
        case None
        then have "start_hosts (traced fx) env s u u' hosts (Some pop) c1 (d2, ?log) = (r, c', d', log')"
          using Cons.prems Ret new Inr start by (simp add: Let_def c1_def frame_simps)
        from start_grows_trans[OF one Cons.IH[OF this]] show ?thesis by simp
      next
        case (Some err)
        then have "c' = c1" "log' = ?log" "\<not> is_ret r"
          using Cons.prems Ret new Inr start by (auto simp: Let_def c1_def frame_simps)
        then show ?thesis
          using start_grows_weaken[OF one, of "map (Pair s) hosts"] by simp
      qed
    qed
  qed (use Cons.prems in \<open>auto intro: start_grows_Nil\<close>)
qed

text \<open>Every service in turn; what a later service does keeps the applications of the earlier ones.\<close>

lemma services_grow:
  "startMatching (traced fx) env c (d, log) = (r, c', d', log') \<Longrightarrow>
     start_grows (map (Pair MatchingService) (service_hosts MatchingService c)) c log (is_ret r) c' log'"
  "startHistory (traced fx) env c (d, log) = (r, c', d', log') \<Longrightarrow>
     start_grows (map (Pair HistoryService) (service_hosts HistoryService c)) c log (is_ret r) c' log'"
  "startWorker (traced fx) env c (d, log) = (r, c', d', log') \<Longrightarrow>
     start_grows (map (Pair WorkerService) (service_hosts WorkerService c)) c log (is_ret r) c' log'"
  by (auto simp: startMatching_def startHistory_def startWorker_def split: prod.splits dest: start_hosts_grows)

lemma frontend_grows:
  assumes "startFrontend (traced fx) env c (d, log) = (r, c', d', log')"
  shows "start_grows (map (Pair FrontendService) (service_hosts FrontendService c)) c log (is_ret r) c' log'"
proof -
  obtain r1 c1 d1 log1 where
    run: "start_hosts (traced fx) env FrontendService ''unable to construct frontend service''
      ''unable to start frontend service'' (service_hosts FrontendService c) None c (d, log) = (r1, c1, d1, log1)"
    by (metis prod_cases4)
  have grows: "start_grows (map (Pair FrontendService) (service_hosts FrontendService c)) c log (is_ret r1) c1 log1"
    by (rule start_hosts_grows[OF run])
  show ?thesis
  proof (cases r1)
    case (Ret x)
    with grows assms show ?thesis
      by (cases x) (auto simp: startFrontend_def run start_grows_def Let_def)
  next
    case (Panic msg)
    with grows assms show ?thesis by (auto simp: startFrontend_def run)
  next
    case Hang
    with grows assms show ?thesis by (auto simp: startFrontend_def run)
  qed
qed

lemma and_start_grows:
  assumes "x = (r, c1, d1, log1)" "start_grows ps c log (is_ret r) c1 log1"
    and "\<And>r' c2 d2 log2. f c1 (d1, log1) = (r', c2, d2, log2) \<Longrightarrow> start_grows qs c1 log1 (is_ret r') c2 log2"
    and "and_start x f = (r', c2, d2, log2)"
  shows "start_grows (ps @ qs) c log (is_ret r') c2 log2"
proof (cases r)
  case (Ret u)
  then have "f c1 (d1, log1) = (r', c2, d2, log2)"
    using assms(1,4) by (simp add: and_start_def)
  with assms(2,3) Ret show ?thesis by (auto intro: start_grows_trans)
qed (use assms start_grows_weaken in \<open>auto simp: and_start_def\<close>)

lemma start_grows_hosts: "start_grows ps c log b c' log' \<Longrightarrow> service_hosts s c' = service_hosts s c"
  by (simp add: start_grows_def service_hosts_def)

definition all_places :: "'c TemporalImpl \<Rightarrow> (service \<times> string) list" where
  "all_places c = concat (map (\<lambda>s. map (Pair s) (service_hosts s c))
     [MatchingService, HistoryService, FrontendService, WorkerService])"

lemma start_services_grow:
  assumes "and_start (and_start (and_start (startMatching (traced fx) env c (d, log))
      (startHistory (traced fx) env)) (startFrontend (traced fx) env)) (startWorker (traced fx) env) = (r, c', d', log')"
  shows "start_grows (all_places c) c log (is_ret r) c' log'"
proof -
  let ?p = "\<lambda>s. map (Pair s) (service_hosts s c)"
  let ?x = "startMatching (traced fx) env c (d, log)"
  let ?y = "and_start ?x (startHistory (traced fx) env)"
  let ?z = "and_start ?y (startFrontend (traced fx) env)"
  obtain r1 c1 d1 l1 where x: "?x = (r1, c1, d1, l1)" by (metis prod_cases4)
  obtain r2 c2 d2 l2 where y: "?y = (r2, c2, d2, l2)" by (metis prod_cases4)
  obtain r3 c3 d3 l3 where z: "?z = (r3, c3, d3, l3)" by (metis prod_cases4)
  have g1: "start_grows (?p MatchingService) c log (is_ret r1) c1 l1"
    by (rule services_grow(1)[OF x])
  have g2: "start_grows (?p MatchingService @ ?p HistoryService) c log (is_ret r2) c2 l2"
    by (rule and_start_grows[OF x g1 _ y]) (drule services_grow(2), simp add: start_grows_hosts[OF g1])
  have g3: "start_grows ((?p MatchingService @ ?p HistoryService) @ ?p FrontendService) c log (is_ret r3) c3 l3"
    by (rule and_start_grows[OF y g2 _ z]) (drule frontend_grows, simp add: start_grows_hosts[OF g2])
  have "start_grows (((?p MatchingService @ ?p HistoryService) @ ?p FrontendService) @ ?p WorkerService)
      c log (is_ret r) c' log'"
    by (rule and_start_grows[OF z g3 _ assms]) (drule services_grow(3), simp add: start_grows_hosts[OF g3])
  then show ?thesis by (simp add: all_places_def)
qed

lemma Start_grows:
  assumes "Start (traced fx) env c (d, log) = (r, c', d', log')"
  shows "\<exists>apps ev. fxApps c' = fxApps c @ apps \<and> hostsByProtocolByService c' = hostsByProtocolByService c \<and> esConfig c' = esConfig c
    \<and> log' = log @ ev \<and> {a. Started a \<in> set ev} \<subseteq> set apps \<and> list_all is_start ev \<and> prefix (map place apps) (all_places c)
    \<and> (r = Ret None \<longrightarrow> map place apps = all_places c
        \<and> ev = System_namespace (CurrentClusterName (clusterMetadataConfig c)) # started_events apps)"
proof -
  let ?n = "CurrentClusterName (clusterMetadataConfig c)"
  obtain e d1 where init: "InitializeSystemNamespaces fx ?n d = (e, d1)" by (rule prod.exhaust)
  show ?thesis
  proof (cases e)
    case (Some err)
    then show ?thesis
      using assms init by (auto simp: Start_def createSystemNamespace_def Let_def)
  next
    case None
    obtain r1 c1 d2 l1 where run: "and_start (and_start (and_start (startMatching (traced fx) env c (d1, log @ [System_namespace ?n]))
      (startHistory (traced fx) env)) (startFrontend (traced fx) env)) (startWorker (traced fx) env) = (r1, c1, d2, l1)"
      by (metis prod_cases4)
    with assms init None have eqs: "r = and_then r1 (\<lambda>_. Ret None)" "c' = c1" "log' = l1"
      by (auto simp: Start_def createSystemNamespace_def Let_def)
    from start_services_grow[OF run] show ?thesis
      unfolding eqs by (cases r1) (auto simp: start_grows_def)
  qed
qed

lemma stop_apps_trace:
  "\<exists>es d'. stop_apps (traced fx) apps errs (d, log) = (errs @ es, d', log @ map2 Stopped apps es) \<and> length es = length apps"
proof (induction apps arbitrary: errs d log)
  case (Cons a apps)
  obtain e d1 where stop: "fx_Stop fx a d = (e, d1)" by (rule prod.exhaust)
  obtain es d' where "stop_apps (traced fx) apps (errs @ [e]) (d1, log @ [Stopped a e])
      = ((errs @ [e]) @ es, d', (log @ [Stopped a e]) @ map2 Stopped apps es)" "length es = length apps"
    using Cons.IH by metis
  then show ?case
    using stop by (auto intro!: exI[of _ "e # es"])
qed simp

section \<open>Copies, addresses and clients\<close>

text \<open>
  The JSON encoding of a persistence configuration is faithful except for the injectors, which are
  Go objects: the copy has the same settings and stores, and fault injection with the same targets or none.
\<close>

definition no_injector :: "data_store \<Rightarrow> data_store" where
  "no_injector d = d\<lparr>FaultInjection := map_option (\<lambda>f. f\<lparr>Injector := None\<rparr>) (FaultInjection d)\<rparr>"

definition json_drops_injectors :: "json_copy \<Rightarrow> persistence \<Rightarrow> bool" where
  "json_drops_injectors js cfg \<longleftrightarrow>
     (\<exists>b cp. js_Marshal js cfg = Inr b \<and> js_Unmarshal js b = Inr cp \<and> pc_settings cp = pc_settings cfg
        \<and> VisibilityStore cp = VisibilityStore cfg \<and> pc_NumHistoryShards cp = pc_NumHistoryShards cfg
        \<and> pc_DataStores cp = (\<lambda>n. map_option no_injector (pc_DataStores cfg n)))"

lemma restore_injectors_other [frame_simps]:
  "pc_settings (restore_injectors cfg ks new) = pc_settings new"
  "VisibilityStore (restore_injectors cfg ks new) = VisibilityStore new"
  "pc_NumHistoryShards (restore_injectors cfg ks new) = pc_NumHistoryShards new"
  by (induction cfg ks new rule: restore_injectors.induct) (simp_all add: Let_def split: option.splits)

text \<open>One store: its injector comes back, and the others are as they were.\<close>

lemma restore_one:
  assumes "pc_DataStores new k = pc_DataStores cfg k \<or> pc_DataStores new k = map_option no_injector (pc_DataStores cfg k)"
  shows "pc_DataStores (restore_injectors cfg [k] new) = (pc_DataStores new)(k := pc_DataStores cfg k)"
proof (cases "pc_DataStores cfg k")
  case (Some d)
  have "d\<lparr>FaultInjection := Some (f\<lparr>Injector := Injector f\<rparr>)\<rparr> = d" if "FaultInjection d = Some f" for f
    using that by (cases d) simp
  with Some assms show ?thesis
    by (cases "FaultInjection d") (auto simp: no_injector_def fun_eq_iff)
qed (use assms in \<open>auto simp: fun_eq_iff\<close>)

lemma restore_injectors_stores:
  assumes "\<And>n. pc_DataStores new n = pc_DataStores cfg n \<or> pc_DataStores new n = map_option no_injector (pc_DataStores cfg n)"
  shows "pc_DataStores (restore_injectors cfg ks new) n =
    (if n \<in> set ks then pc_DataStores cfg n else pc_DataStores new n)"
  using assms
proof (induction ks arbitrary: new)
  case (Cons k ks)
  define new' where "new' = restore_injectors cfg [k] new"
  have step: "pc_DataStores new' = (pc_DataStores new)(k := pc_DataStores cfg k)"
    unfolding new'_def by (rule restore_one) (rule Cons.prems)
  have "restore_injectors cfg (k # ks) new = restore_injectors cfg ks new'"
    unfolding new'_def by (simp only: restore_injectors.simps)
  moreover have "pc_DataStores (restore_injectors cfg ks new') n =
      (if n \<in> set ks then pc_DataStores cfg n else pc_DataStores new' n)"
    by (rule Cons.IH) (simp add: step Cons.prems)
  ultimately show ?case by (simp add: step)
qed simp

lemma copyPersistenceConfig_eq:
  assumes "json_drops_injectors js cfg" "set keys = dom (pc_DataStores cfg)"
  shows "copyPersistenceConfig js keys cfg = Ret cfg"
proof -
  obtain b cp where cp: "js_Marshal js cfg = Inr b" "js_Unmarshal js b = Inr cp"
    "pc_settings cp = pc_settings cfg" "VisibilityStore cp = VisibilityStore cfg"
    "pc_NumHistoryShards cp = pc_NumHistoryShards cfg"
    "pc_DataStores cp = (\<lambda>n. map_option no_injector (pc_DataStores cfg n))"
    using assms(1) unfolding json_drops_injectors_def by blast
  have "pc_DataStores (restore_injectors cfg keys cp) n = pc_DataStores cfg n" for n
    using restore_injectors_stores[of cp cfg keys n] cp(6) assms(2) by (cases "pc_DataStores cfg n") auto
  then have "restore_injectors cfg keys cp = cfg"
    using cp(3-5) by (intro persistence.equality ext) (simp_all add: frame_simps)
  with cp(1,2) show ?thesis by (simp add: copyPersistenceConfig_def)
qed

lemma makeHostMap_at:
  "makeHostMap s self c t =
     (if t = s then Some \<lparr>hosts_Self = self, hosts_All = service_hosts s c\<rparr>
      else (case hostsByProtocolByService c grpcProtocol of None \<Rightarrow> None | Some m \<Rightarrow> m t))"
  by (auto simp: makeHostMap_def service_hosts_def hosts_of_def Let_def split: option.splits)

definition at_address :: "(string \<rightharpoonup> cluster_information) \<Rightarrow> string \<Rightarrow> string \<Rightarrow> bool" where
  "at_address infos addr n \<longleftrightarrow> (case infos n of None \<Rightarrow> False | Some i \<Rightarrow> addr = ci_RPCAddress i)"

lemma cluster_at_eq: "cluster_at infos addr keys start = last (start # filter (at_address infos addr) keys)"
  by (induction keys arbitrary: start) (simp_all add: at_address_def split: option.split)

lemma cluster_at_unique:
  assumes "name \<in> set keys" "\<And>n. at_address infos addr n \<longleftrightarrow> n = name"
  shows "cluster_at infos addr keys start = name"
proof -
  have "filter (at_address infos addr) keys \<noteq> []"
    using assms by (auto simp: filter_empty_conv)
  then have "last (start # filter (at_address infos addr) keys) \<in> set (filter (at_address infos addr) keys)"
    by (simp del: set_filter)
  then show ?thesis
    using assms(2) by (auto simp: cluster_at_eq)
qed

section \<open>Properties\<close>

text \<open>
  The life of the server. Start builds and starts the applications of the matching, history, frontend and
  worker services, in this order and host by host; it returns without an error only when all of them run. However
  it ends, no application was started that Stop does not know. Stop then stops every application that was added,
  each once, in the reverse order, whether or not some fail to stop, and reports exactly the failures.
\<close>

theorem server_lifecycle:
  assumes "fxApps c = []" "Start (traced fx) env c (d, []) = (r, c', d', log)"
  shows "{a. Started a \<in> set log} \<subseteq> set (fxApps c')
    \<and> prefix (map place (fxApps c')) (all_places c)
    \<and> (r = Ret None \<longrightarrow> map place (fxApps c') = all_places c
        \<and> log = System_namespace (CurrentClusterName (clusterMetadataConfig c)) # started_events (fxApps c'))
    \<and> (\<exists>es. length es = length (fxApps c')
        \<and> snd (snd (snd (Stop (traced fx) c' (d', log)))) = log @ map2 Stopped (rev (fxApps c')) es
        \<and> fst (Stop (traced fx) c' (d', log)) = multierr_Combine es)"
proof -
  obtain apps where apps: "fxApps c' = apps" "{a. Started a \<in> set log} \<subseteq> set apps"
    "prefix (map place apps) (all_places c)"
    "r = Ret None \<longrightarrow> map place apps = all_places c
        \<and> log = System_namespace (CurrentClusterName (clusterMetadataConfig c)) # started_events apps"
    using Start_grows[OF assms(2)] assms(1) by (metis append_Nil)
  obtain es d'' where stop: "stop_apps (traced fx) (rev apps) [] (d', log) = (es, d'', log @ map2 Stopped (rev apps) es)"
    and len: "length es = length apps"
    using stop_apps_trace[of fx "rev apps" "[]" d' log] by auto
  have "Stop (traced fx) c' (d', log)
      = (multierr_Combine es, c'\<lparr>fxApps := rev apps\<rparr>, d'', log @ map2 Stopped (rev apps) es)"
    by (simp add: Stop_def apps(1) stop)
  then show ?thesis using apps len by auto
qed

definition example_params :: "host_table \<Rightarrow> TemporalParams" where
  "example_params hosts =
     \<lparr>p_ClusterMetadataConfig = \<lparr>EnableGlobalNamespace = False, FailoverVersionIncrement = 10,
        MasterClusterName = ''active'', CurrentClusterName = ''active'', ClusterInformation = Map.empty\<rparr>,
      p_PersistenceConfig = \<lparr>pc_settings = 0, VisibilityStore = ''visibility'', pc_NumHistoryShards = 4,
        pc_DataStores = Map.empty\<rparr>,
      p_MetadataMgr = 1, p_ClusterMetadataManager = 2, p_ShardMgr = 3, p_ExecutionManager = 4, p_TaskMgr = 5,
      p_NamespaceReplicationQueue = 6, p_AbstractDataStoreFactory = 7, p_VisibilityStoreFactory = 8, p_Logger = 9,
      p_ArchiverMetadata = 10, p_ArchiverProvider = 11, p_FrontendConfig = \<lparr>NumFrontendHosts = 1\<rparr>,
      p_HistoryConfig = \<lparr>NumHistoryShards = 4, NumHistoryHosts = 1\<rparr>, p_MatchingConfig = \<lparr>NumMatchingHosts = 1\<rparr>,
      p_WorkerConfig = \<lparr>NumWorkers = 1, DisableWorker = False\<rparr>, p_ESConfig = None, p_ESClient = None,
      p_MockAdminClient = Map.empty, p_NamespaceReplicationTaskExecutor = 12, p_DCRedirectionPolicy = 13,
      p_DynamicConfigOverrides = [], p_TLSConfigProvider = None, p_CaptureMetricsHandler = None,
      p_ServiceFxOptions = (\<lambda>_. []), p_TaskCategoryRegistry = 14, p_HostsByProtocolByService = hosts,
      p_SpanExporters = 15, p_TokenProvider = None\<rparr>"

definition example_hosts :: host_table where
  "example_hosts =
     [grpcProtocol \<mapsto> [FrontendService \<mapsto> \<lparr>hosts_Self = '''', hosts_All = [''127.0.0.1:1'']\<rparr>,
        HistoryService \<mapsto> \<lparr>hosts_Self = '''', hosts_All = [''127.0.0.1:2'', ''127.0.0.1:3'']\<rparr>,
        MatchingService \<mapsto> \<lparr>hosts_Self = '''', hosts_All = [''127.0.0.1:4'']\<rparr>],
      httpProtocol \<mapsto> [FrontendService \<mapsto> \<lparr>hosts_Self = '''', hosts_All = [''127.0.0.1:5'']\<rparr>]]"

definition example_server :: "unit TemporalImpl" where
  "example_server = new_impl () (example_params example_hosts)"

definition example_env :: server_env where
  "example_env = \<lparr>env_net = \<lparr>SplitHostPort = (\<lambda>_. Inr (''127.0.0.1'', ''5'')), Atoi = (\<lambda>_. Inr 5)\<rparr>,
     env_js = \<lparr>js_Marshal = (\<lambda>_. Inr []), js_Unmarshal = (\<lambda>_. Inr \<lparr>pc_settings = 0, VisibilityStore = ''visibility'',
       pc_NumHistoryShards = 4, pc_DataStores = Map.empty\<rparr>)\<rparr>, env_keys = [], env_pick = (\<lambda>_ _. 0), env_pick_config = (\<lambda>_. 0)\<rparr>"

text \<open>A container whose second history application does not stop.\<close>

definition example_fx :: "unit fx_ops" where
  "example_fx = \<lparr>fx_New = (\<lambda>app d. (Inr \<lparr>pop_namespaceRegistry = 0, pop_rpcFactory = 1, pop_historyRawClient = 2,
      pop_matchingRawClient = 3, pop_schedulerClient = 4, pop_grpcResolver = 5, pop_executionManager = 6,
      pop_chasmEngine = 7, pop_chasmVisibilityMgr = 8, pop_chasmRegistry = 9\<rparr>, d)),
     fx_Start = (\<lambda>app d. (None, d)),
     fx_Stop = (\<lambda>app d. (if app_host app = ''127.0.0.1:3'' then Some (Errorf ''stuck'') else None, d)),
     InitializeSystemNamespaces = (\<lambda>n d. (None, d)), LocalFrontendConnection = Suc, MakeURL = (\<lambda>_ _. ''membership:///frontend'')\<rparr>"

definition example_started :: "go_error option outcome \<times> unit TemporalImpl \<times> unit \<times> unit fx_event list" where
  "example_started = Start (traced example_fx) example_env example_server ((), [])"

theorem server_lifecycle_witness:
  "map place (fxApps (fst (snd example_started))) =
     [(MatchingService, ''127.0.0.1:4''), (HistoryService, ''127.0.0.1:2''), (HistoryService, ''127.0.0.1:3''),
      (FrontendService, ''127.0.0.1:1'')]"
proof -
  have "fxApps example_server = []"
    by (simp add: example_server_def new_impl_def)
  moreover obtain r c' d' log where run: "example_started = (r, c', d', log)"
    by (metis prod_cases4)
  moreover have "fst example_started = Ret None"
    by code_simp
  moreover have "all_places example_server = [(MatchingService, ''127.0.0.1:4''), (HistoryService, ''127.0.0.1:2''),
      (HistoryService, ''127.0.0.1:3''), (FrontendService, ''127.0.0.1:1'')]"
    by code_simp
  ultimately show ?thesis
    using server_lifecycle[of example_server example_fx example_env "()" r c' d' log]
    by (simp add: example_started_def)
qed

end
