(* ===== verification/MatchingBehavior.thy ===== *)
theory MatchingBehavior
  imports Prelude
begin

text \<open>
  The matching behaviours the conformance tests are run under (\<^verbatim>\<open>matching_behavior.go\<close>,
  \<^verbatim>\<open>matching_utils.go\<close>): eight combinations of three switches, each with a name, a set of dynamic
  configuration values and a set of hooks.
\<close>

section \<open>Model\<close>

record MatchingBehavior =
  ForceTaskForward :: bool
  ForcePollForward :: bool
  ForceAsync :: bool

definition behavior_Name :: "MatchingBehavior \<Rightarrow> string" where
  "behavior_Name b =
     (let name = ''NoTaskForward'';
          name = (if ForceTaskForward b then ''ForceTaskForward'' else name);
          name = (if ForcePollForward b then name @ ''ForcePollForward'' else name @ ''NoPollForward'')
      in if ForceAsync b then name @ ''ForceAsync'' else name @ ''AllowSync'')"

datatype config_key = MatchingForwarderMaxChildrenPerNode | MatchingNumTaskqueueReadPartitions
  | MatchingNumTaskqueueWritePartitions

datatype hook = MatchingLBForceWritePartition int | MatchingLBForceReadPartition int | MatchingDisableSyncMatch bool

definition behavior_Options :: "MatchingBehavior \<Rightarrow> (config_key \<times> int) list" where
  "behavior_Options b =
     (let opts = [(MatchingForwarderMaxChildrenPerNode, 3)] in
      if ForceTaskForward b \<or> ForcePollForward b
      then opts @ [(MatchingNumTaskqueueReadPartitions, 13), (MatchingNumTaskqueueWritePartitions, 13)]
      else opts @ [(MatchingNumTaskqueueReadPartitions, 1), (MatchingNumTaskqueueWritePartitions, 1)])"

definition InjectHooks :: "MatchingBehavior \<Rightarrow> hook list \<Rightarrow> hook list" where
  "InjectHooks b env =
     (let env = env @ [MatchingLBForceWritePartition (if ForceTaskForward b then 11 else 0)];
          env = env @ [MatchingLBForceReadPartition (if ForcePollForward b then 5 else 0)]
      in env @ [MatchingDisableSyncMatch (ForceAsync b)])"

definition AllMatchingBehaviors :: "MatchingBehavior list" where
  "AllMatchingBehaviors =
     concat (map (\<lambda>forcePollForward.
       concat (map (\<lambda>forceTaskForward.
         map (\<lambda>forceAsync.
           \<lparr>ForceTaskForward = forceTaskForward, ForcePollForward = forcePollForward, ForceAsync = forceAsync\<rparr>)
           [False, True]) [False, True])) [False, True])"

text \<open>The test runs: per behaviour its name, the options (after the base options) and the hooks.\<close>

definition runWithMatchingBehaviors :: "(config_key \<times> int) list \<Rightarrow> (string \<times> (config_key \<times> int) list \<times> hook list) list" where
  "runWithMatchingBehaviors baseOpts =
     map (\<lambda>behavior. (behavior_Name behavior, baseOpts @ behavior_Options behavior, InjectHooks behavior [])) AllMatchingBehaviors"

section \<open>The runs are complete, distinct and consistent\<close>

lemma all_behaviors_set: "set AllMatchingBehaviors = UNIV"
proof -
  have "b \<in> set AllMatchingBehaviors" for b
  proof (cases b)
    case (fields x y z)
    then show ?thesis by (cases x; cases y; cases z) (simp_all add: AllMatchingBehaviors_def)
  qed
  then show ?thesis by blast
qed

lemma all_behaviors_length: "length AllMatchingBehaviors = 8"
  by (simp add: AllMatchingBehaviors_def)

lemma behavior_names_distinct: "distinct (map behavior_Name AllMatchingBehaviors)"
  by (simp add: AllMatchingBehaviors_def behavior_Name_def)

lemma behavior_Name_inj: "behavior_Name b = behavior_Name c \<Longrightarrow> b = c"
  using behavior_names_distinct by (simp add: distinct_map all_behaviors_set inj_def)

text \<open>A forced partition exists among the partitions that are configured.\<close>

definition partitions_of :: "config_key \<Rightarrow> MatchingBehavior \<Rightarrow> int" where
  "partitions_of k b = (case map_of (behavior_Options b) k of Some n \<Rightarrow> n | None \<Rightarrow> 0)"

lemma forced_partition_exists:
  "MatchingLBForceWritePartition w \<in> set (InjectHooks b []) \<Longrightarrow> 0 \<le> w \<and> w < partitions_of MatchingNumTaskqueueWritePartitions b"
  "MatchingLBForceReadPartition r \<in> set (InjectHooks b []) \<Longrightarrow> 0 \<le> r \<and> r < partitions_of MatchingNumTaskqueueReadPartitions b"
  by (auto simp: InjectHooks_def partitions_of_def behavior_Options_def Let_def split: if_splits)

end
