(* ===== verification/TestBase.thy ===== *)
theory TestBase
  imports OneBox MatchingBehavior
begin

text \<open>
  The base of the conformance test suites (\<^verbatim>\<open>functional_test_base.go\<close>): the options of a test cluster and
  the configuration computed from them, the registration of a namespace with the cluster and with
  Tempura, reading a history page by page, and the helpers of a test. The RPCs of the cluster, the
  clock and the tear-down of its parts are operations on the state of the machine, a parameter.
\<close>

section \<open>Options of a cluster\<close>

record TestClusterParams =
  ServiceOptions :: "service \<Rightarrow> handle list"
  DCRedirectionPolicy :: handle
  DynamicConfigOverrides :: "(string \<rightharpoonup> dyn_value) option"
  ArchivalEnabled :: bool
  EnableMTLS :: bool
  EnableWorkerService :: bool
  FaultInjectionConfig :: "handle option"
  params_NumHistoryShards :: int
  SharedCluster :: bool
  CustomHistoryArchiverFactory :: "handle option"
  CustomVisibilityArchiverFactory :: "handle option"

type_synonym TestClusterOption = "TestClusterParams \<Rightarrow> TestClusterParams"

definition WithFxOptionsForService :: "service \<Rightarrow> handle list \<Rightarrow> TestClusterOption" where
  "WithFxOptionsForService serviceName options params =
     params\<lparr>ServiceOptions := (ServiceOptions params)(serviceName := ServiceOptions params serviceName @ options)\<rparr>"

definition WithDCRedirectionPolicy :: "handle \<Rightarrow> TestClusterOption" where
  "WithDCRedirectionPolicy policy params = params\<lparr>DCRedirectionPolicy := policy\<rparr>"

text \<open>
  The first map is kept as it is and later ones are copied into it, so the map a caller handed over
  changes; here it is a value.
\<close>

definition WithDynamicConfigOverrides :: "(string \<rightharpoonup> dyn_value) \<Rightarrow> TestClusterOption" where
  "WithDynamicConfigOverrides overrides params =
     params\<lparr>DynamicConfigOverrides := Some (case DynamicConfigOverrides params of
        None \<Rightarrow> overrides | Some m \<Rightarrow> m ++ overrides)\<rparr>"

definition WithArchivalEnabled :: TestClusterOption where
  "WithArchivalEnabled params = params\<lparr>ArchivalEnabled := True\<rparr>"

definition WithMTLS :: TestClusterOption where
  "WithMTLS params = params\<lparr>EnableMTLS := True\<rparr>"

definition withWorkerService :: "bool \<Rightarrow> TestClusterOption" where
  "withWorkerService enabled params = params\<lparr>EnableWorkerService := enabled\<rparr>"

definition WithFaultInjectionConfig :: "handle option \<Rightarrow> TestClusterOption" where
  "WithFaultInjectionConfig cfg params = params\<lparr>FaultInjectionConfig := cfg\<rparr>"

definition WithNumHistoryShards :: "int \<Rightarrow> TestClusterOption" where
  "WithNumHistoryShards n params = params\<lparr>params_NumHistoryShards := n\<rparr>"

definition WithSharedCluster :: TestClusterOption where
  "WithSharedCluster params = params\<lparr>SharedCluster := True\<rparr>"

definition WithCustomHistoryArchiverFactory :: "handle option \<Rightarrow> TestClusterOption" where
  "WithCustomHistoryArchiverFactory factory params = params\<lparr>CustomHistoryArchiverFactory := factory\<rparr>"

definition WithCustomVisibilityArchiverFactory :: "handle option \<Rightarrow> TestClusterOption" where
  "WithCustomVisibilityArchiverFactory factory params = params\<lparr>CustomVisibilityArchiverFactory := factory\<rparr>"

text \<open>\<open>no_policy\<close> is the zero redirection policy.\<close>

definition ApplyTestClusterOptions :: "handle \<Rightarrow> TestClusterOption list \<Rightarrow> TestClusterParams" where
  "ApplyTestClusterOptions no_policy options =
     fold (\<lambda>opt params. opt params) options
       \<lparr>ServiceOptions = (\<lambda>_. []), DCRedirectionPolicy = no_policy, DynamicConfigOverrides = None,
        ArchivalEnabled = False, EnableMTLS = False, EnableWorkerService = True, FaultInjectionConfig = None,
        params_NumHistoryShards = 0, SharedCluster = False, CustomHistoryArchiverFactory = None,
        CustomVisibilityArchiverFactory = None\<rparr>"

text \<open>The configuration of a cluster, with the fields that are set here; \<open>cmp_Or\<close> is \<^verbatim>\<open>cmp.Or\<close> of two integers.\<close>

definition cmp_Or :: "int \<Rightarrow> int \<Rightarrow> int" where
  "cmp_Or a b = (if a \<noteq> 0 then a else b)"

text \<open>The drivers with SQL visibility; the names of the plugins are parameters.\<close>

definition UseSQLVisibility :: "string list \<Rightarrow> string \<Rightarrow> bool" where
  "UseSQLVisibility sqlPlugins persistenceDriver \<longleftrightarrow> persistenceDriver \<in> set sqlPlugins"

definition UseCassandraPersistence :: "string \<Rightarrow> string \<Rightarrow> bool" where
  "UseCassandraPersistence persistenceType persistenceDriver \<longleftrightarrow>
     persistenceType = ''nosql'' \<and> persistenceDriver = ''cassandra''"

record TestClusterConfig =
  tc_FaultInjection :: "handle option"
  tc_HistoryConfig :: HistoryConfig
  tc_DCRedirectionPolicy :: handle
  tc_DynamicConfigOverrides :: "(string \<rightharpoonup> dyn_value) option"
  tc_ServiceFxOptions :: "service \<Rightarrow> handle list"
  tc_EnableMetricsCapture :: bool
  tc_EnableArchival :: bool
  tc_EnableMTLS :: bool
  tc_CustomHistoryArchiverFactory :: "handle option"
  tc_CustomVisibilityArchiverFactory :: "handle option"
  tc_WorkerConfig :: WorkerConfig
  tc_Persistence :: "handle option"
  tc_SpanExporters :: "handle option"

section \<open>A suite\<close>

record FunctionalTestBase =
  base_Logger :: "handle option"
  otelExporter :: "handle option"
  testCluster :: "handle option"
  testClusterConfig :: "TestClusterConfig option"
  base_namespace :: string
  base_namespaceID :: string
  base_externalNamespace :: string
  sdkClient :: "handle option"
  sdkWorker :: "handle option"
  taskQueue :: string
  base_taskPoller :: "string option"
  isShared :: bool

text \<open>The request that creates a namespace; the retention is in days and \<open>common.EmptyVersion\<close> is 0.\<close>

datatype archival_state = ARCHIVAL_STATE_DISABLED | ARCHIVAL_STATE_ENABLED

datatype namespace_state = NAMESPACE_STATE_REGISTERED | NAMESPACE_STATE_DELETED

record CreateNamespaceRequest =
  nsr_Id :: string
  nsr_Name :: string
  nsr_State :: namespace_state
  nsr_Description :: string
  nsr_Retention :: int
  nsr_HistoryArchivalState :: archival_state
  nsr_HistoryArchivalUri :: string
  nsr_VisibilityArchivalState :: archival_state
  nsr_VisibilityArchivalUri :: string
  nsr_ActiveClusterName :: string
  nsr_Clusters :: "string list"
  nsr_FailoverVersion :: int
  nsr_IsGlobalNamespace :: bool

text \<open>
  The operations of the machine. \<open>op_now\<close> reads the clock in milliseconds, \<open>op_NewTicker\<close> creates a
  ticker of a period and \<open>op_tick\<close> receives from it; the RPCs return an error or nil. \<open>op_post\<close> is a
  POST to the admin API of Tempura, whose answer is not looked at.
\<close>

record 'd test_ops =
  op_now :: "'d \<Rightarrow> int"
  op_NewTicker :: "int \<Rightarrow> 'd \<Rightarrow> 'd"
  op_tick :: "'d \<Rightarrow> 'd"
  op_uuid :: "'d \<Rightarrow> string \<times> 'd"
  op_CreateNamespace :: "CreateNamespaceRequest \<Rightarrow> 'd \<Rightarrow> go_error option \<times> 'd"
  op_DescribeNamespace :: "string \<Rightarrow> 'd \<Rightarrow> go_error option \<times> 'd"
  op_AddSearchAttributes :: "string \<Rightarrow> string list \<Rightarrow> 'd \<Rightarrow> go_error option \<times> 'd"
  op_ListSearchAttributes :: "string \<Rightarrow> 'd \<Rightarrow> string list result \<times> 'd"
  op_UpdateNamespace :: "string \<Rightarrow> namespace_state \<Rightarrow> 'd \<Rightarrow> go_error option \<times> 'd"
  op_post :: "string \<Rightarrow> byte list \<Rightarrow> 'd \<Rightarrow> 'd"
  op_NewCluster :: "TestClusterConfig \<Rightarrow> 'd \<Rightarrow> handle result \<times> 'd"
  op_TearDownCluster :: "handle \<Rightarrow> 'd \<Rightarrow> go_error option \<times> 'd"

section \<open>Registering a namespace\<close>

text \<open>The two JSON bodies, put together as text.\<close>

definition create_body :: "string \<Rightarrow> byte list" where
  "create_body nsName = bytes_of_string (''{\"name\":\"'' @ nsName @ ''\"}'')"

definition add_body :: "string \<Rightarrow> string \<Rightarrow> string \<Rightarrow> byte list" where
  "add_body virtual physical addr =
     bytes_of_string (''{\"virtual_namespace\":\"'' @ virtual @ ''\", \"physical_namespace\":\"'' @ physical @
       ''\", \"cluster_address\":\"'' @ addr @ ''\"}'')"

definition registerNamespaceWithTempura ::
    "'d test_ops \<Rightarrow> string \<Rightarrow> 'c TemporalImpl \<Rightarrow> string \<Rightarrow> 'd \<Rightarrow> unit outcome \<times> 'd" where
  "registerNamespaceWithTempura ops adminAPI host nsName d =
     (let d = op_post ops (adminAPI @ ''/namespace/virtual/create'') (create_body nsName) d in
      case FrontendGRPCAddress host of
        Panic msg \<Rightarrow> (Panic msg, d)
      | Hang \<Rightarrow> (Hang, d)
      | Ret clusterAddr \<Rightarrow>
          (Ret (), op_post ops (adminAPI @ ''/namespace/physical/add'') (add_body nsName nsName clusterAddr) d))"

text \<open>
  The two waiting loops have one shape: attempt, give up past the deadline, wait for the ticker,
  again. \<open>None\<close> would be a loop without end. The first attempt is to describe the namespace, the
  second to find all its search attributes in the list.
\<close>

partial_function (option) wait_loop ::
    "'d test_ops \<Rightarrow> ('d \<Rightarrow> bool \<times> 'd) \<Rightarrow> string \<Rightarrow> int \<Rightarrow> 'd \<Rightarrow> (go_error option \<times> 'd) option" where
  "wait_loop ops attempt give_up deadline d =
     (case attempt d of
        (ok, d) \<Rightarrow>
          if ok then Some (None, d)
          else if deadline < op_now ops d then Some (Some (Errorf give_up), d)
          else wait_loop ops attempt give_up deadline (op_tick ops d))"

definition try_describe :: "'d test_ops \<Rightarrow> string \<Rightarrow> 'd \<Rightarrow> bool \<times> 'd" where
  "try_describe ops nsName d = (case op_DescribeNamespace ops nsName d of (describeErr, d) \<Rightarrow> (describeErr = None, d))"

definition wait_described :: "'d test_ops \<Rightarrow> string \<Rightarrow> int \<Rightarrow> 'd \<Rightarrow> (go_error option \<times> 'd) option" where
  "wait_described ops nsName =
     wait_loop ops (try_describe ops nsName)
       (''namespace cache did not refresh for '' @ [CHR 0x22] @ nsName @ [CHR 0x22] @ '' before deadline'')"

definition attributes_ready :: "string list \<Rightarrow> string list result \<Rightarrow> bool" where
  "attributes_ready expected resp =
     (case resp of Inl _ \<Rightarrow> False | Inr customAttrs \<Rightarrow> (\<forall>saName\<in>set expected. saName \<in> set customAttrs))"

definition try_attributes :: "'d test_ops \<Rightarrow> string \<Rightarrow> string list \<Rightarrow> 'd \<Rightarrow> bool \<times> 'd" where
  "try_attributes ops nsName expected d =
     (case op_ListSearchAttributes ops nsName d of (resp, d) \<Rightarrow> (attributes_ready expected resp, d))"

definition wait_attributes :: "'d test_ops \<Rightarrow> string \<Rightarrow> string list \<Rightarrow> int \<Rightarrow> 'd \<Rightarrow> (go_error option \<times> 'd) option" where
  "wait_attributes ops nsName expected =
     wait_loop ops (try_attributes ops nsName expected)
       (''search attributes were not ready for '' @ [CHR 0x22] @ nsName @ [CHR 0x22] @ '' before deadline'')"

text \<open>
  \<open>expected\<close> are the names of \<^verbatim>\<open>searchattribute.TestSearchAttributesToRegister()\<close>, \<open>current\<close> the name of
  the cluster.
\<close>

definition namespace_request ::
    "string \<Rightarrow> string \<Rightarrow> string \<Rightarrow> int \<Rightarrow> archival_state \<Rightarrow> string \<Rightarrow> string \<Rightarrow> CreateNamespaceRequest" where
  "namespace_request current nsID nsName retentionDays archival historyURI visibilityURI =
     \<lparr>nsr_Id = nsID, nsr_Name = nsName, nsr_State = NAMESPACE_STATE_REGISTERED,
      nsr_Description = ''namespace for functional tests'', nsr_Retention = retentionDays,
      nsr_HistoryArchivalState = archival, nsr_HistoryArchivalUri = historyURI,
      nsr_VisibilityArchivalState = archival, nsr_VisibilityArchivalUri = visibilityURI,
      nsr_ActiveClusterName = current, nsr_Clusters = [current], nsr_FailoverVersion = 0,
      nsr_IsGlobalNamespace = False\<rparr>"

definition RegisterNamespace ::
    "'d test_ops \<Rightarrow> string \<Rightarrow> string \<Rightarrow> 'c TemporalImpl \<Rightarrow> string list \<Rightarrow> string \<Rightarrow> int \<Rightarrow> archival_state \<Rightarrow> string \<Rightarrow> string
     \<Rightarrow> 'd \<Rightarrow> string result outcome \<times> 'd" where
  "RegisterNamespace ops current adminAPI host expected nsName retentionDays archival historyURI visibilityURI d =
     (let (nsID, d) = op_uuid ops d in
      case op_CreateNamespace ops (namespace_request current nsID nsName retentionDays archival historyURI visibilityURI) d of
        (Some err, d) \<Rightarrow> (Ret (Inl err), d)
      | (None, d) \<Rightarrow>
        (case registerNamespaceWithTempura ops adminAPI host nsName d of
           (Panic msg, d) \<Rightarrow> (Panic msg, d)
         | (Hang, d) \<Rightarrow> (Hang, d)
         | (Ret _, d) \<Rightarrow>
           (let deadline = op_now ops d + 5 * NamespaceCacheRefreshInterval;
                d = op_NewTicker ops (NamespaceCacheRefreshInterval div 2) d
            in case wait_described ops nsName deadline d of
              None \<Rightarrow> (Hang, d)
            | Some (Some err, d) \<Rightarrow> (Ret (Inl err), d)
            | Some (None, d) \<Rightarrow>
              (case op_AddSearchAttributes ops nsName expected d of
                 (Some err, d) \<Rightarrow> (Ret (Inl err), d)
               | (None, d) \<Rightarrow>
                 (case wait_attributes ops nsName expected (op_now ops d + 5 * NamespaceCacheRefreshInterval) d of
                    None \<Rightarrow> (Hang, d)
                  | Some (Some err, d) \<Rightarrow> (Ret (Inl err), d)
                  | Some (None, d) \<Rightarrow> (Ret (Inr nsID), d))))))"

definition MarkNamespaceAsDeleted :: "'d test_ops \<Rightarrow> string \<Rightarrow> 'd \<Rightarrow> go_error option \<times> 'd" where
  "MarkNamespaceAsDeleted ops nsName d = op_UpdateNamespace ops nsName NAMESPACE_STATE_DELETED d"

section \<open>Setting a suite up and tearing it down\<close>

text \<open>
  \<open>new_logger\<close> is the test logger, \<open>sqlite\<close> the file-based persistence of shared clusters, \<open>exporter\<close> the
  file exporter when the output directory is set in the environment.
\<close>

definition cluster_config_for :: "TestClusterParams \<Rightarrow> handle \<Rightarrow> handle option \<Rightarrow> TestClusterConfig" where
  "cluster_config_for params sqlite exporter =
     \<lparr>tc_FaultInjection = FaultInjectionConfig params,
      tc_HistoryConfig = \<lparr>NumHistoryShards = cmp_Or (params_NumHistoryShards params) 4, NumHistoryHosts = 0\<rparr>,
      tc_DCRedirectionPolicy = DCRedirectionPolicy params, tc_DynamicConfigOverrides = DynamicConfigOverrides params,
      tc_ServiceFxOptions = ServiceOptions params, tc_EnableMetricsCapture = True,
      tc_EnableArchival = ArchivalEnabled params, tc_EnableMTLS = EnableMTLS params,
      tc_CustomHistoryArchiverFactory = CustomHistoryArchiverFactory params,
      tc_CustomVisibilityArchiverFactory = CustomVisibilityArchiverFactory params,
      tc_WorkerConfig = \<lparr>NumWorkers = 0, DisableWorker = \<not> EnableWorkerService params\<rparr>,
      tc_Persistence = (if SharedCluster params then Some sqlite else None),
      tc_SpanExporters = exporter\<rparr>"

definition RandomizeStr :: "string \<Rightarrow> string \<Rightarrow> string" where
  "RandomizeStr name uuid = name @ ''-'' @ uuid"

text \<open>A failed requirement stops the test: \<open>Panic\<close>. \<open>host_of\<close> gives the name of a cluster, the
  address of the admin API beside it and its server.\<close>

definition setupCluster ::
    "'d test_ops \<Rightarrow> handle \<Rightarrow> handle \<Rightarrow> handle \<Rightarrow> handle option \<Rightarrow> (handle \<Rightarrow> string \<times> string \<times> 'c TemporalImpl)
     \<Rightarrow> string list \<Rightarrow> TestClusterOption list \<Rightarrow> FunctionalTestBase \<Rightarrow> 'd \<Rightarrow> unit outcome \<times> FunctionalTestBase \<times> 'd" where
  "setupCluster ops no_policy new_logger sqlite exporter host_of expected options s d =
     (let params = ApplyTestClusterOptions no_policy options;
          s = (if base_Logger s = None then s\<lparr>base_Logger := Some new_logger\<rparr> else s);
          cfg = cluster_config_for params sqlite exporter;
          s = s\<lparr>testClusterConfig := Some cfg, isShared := isShared s \<or> SharedCluster params,
                otelExporter := (case exporter of None \<Rightarrow> otelExporter s | Some e \<Rightarrow> Some e)\<rparr>
      in case op_NewCluster ops cfg d of
           (Inl err, d) \<Rightarrow> (Panic (error_text err), s, d)
         | (Inr cl, d) \<Rightarrow>
             (let s = s\<lparr>testCluster := Some cl\<rparr>;
                  (current, adminAPI, host) = host_of cl;
                  (uuid, d) = op_uuid ops d;
                  s = s\<lparr>base_namespace := RandomizeStr ''namespace'' uuid\<rparr>
              in case RegisterNamespace ops current adminAPI host expected (base_namespace s) 1 ARCHIVAL_STATE_DISABLED [] [] d of
                   (Panic msg, d) \<Rightarrow> (Panic msg, s, d)
                 | (Hang, d) \<Rightarrow> (Hang, s, d)
                 | (Ret (Inl err), d) \<Rightarrow> (Panic (error_text err), s, d)
                 | (Ret (Inr nsID), d) \<Rightarrow>
                     (let s = s\<lparr>base_namespaceID := nsID\<rparr>;
                          (uuid, d) = op_uuid ops d;
                          s = s\<lparr>base_externalNamespace := RandomizeStr ''external-namespace'' uuid\<rparr>
                      in case RegisterNamespace ops current adminAPI host expected (base_externalNamespace s) 1 ARCHIVAL_STATE_DISABLED [] [] d of
                           (Panic msg, d) \<Rightarrow> (Panic msg, s, d)
                         | (Hang, d) \<Rightarrow> (Hang, s, d)
                         | (Ret (Inl err), d) \<Rightarrow> (Panic (error_text err), s, d)
                         | (Ret (Inr _), d) \<Rightarrow> (Ret (), s, d))))"

definition require_NoError :: "go_error option \<times> 'd \<Rightarrow> ('d \<Rightarrow> unit outcome \<times> 'd) \<Rightarrow> unit outcome \<times> 'd" where
  "require_NoError x f = (case x of (Some err, d) \<Rightarrow> (Panic (error_text err), d) | (None, d) \<Rightarrow> f d)"

definition TearDownCluster :: "'d test_ops \<Rightarrow> FunctionalTestBase \<Rightarrow> 'd \<Rightarrow> unit outcome \<times> 'd" where
  "TearDownCluster ops s d =
     require_NoError (MarkNamespaceAsDeleted ops (base_namespace s) d) (\<lambda>d.
     require_NoError (MarkNamespaceAsDeleted ops (base_externalNamespace s) d) (\<lambda>d.
       case testCluster s of
         None \<Rightarrow> (Ret (), d)
       | Some cl \<Rightarrow> require_NoError (op_TearDownCluster ops cl d) (\<lambda>d. (Ret (), d))))"

section \<open>Setting a test up and tearing it down\<close>

text \<open>
  What a test needs of the SDK and of the test framework. \<open>sdk_Dial\<close> gets the address, the namespace
  and the client's TLS configuration; \<open>sdk_override\<close> sets a dynamic configuration value for the test.
\<close>

record 'd sdk_ops =
  sdk_override :: "string \<Rightarrow> dyn_value \<Rightarrow> 'd \<Rightarrow> 'd"
  sdk_Dial :: "string \<Rightarrow> string \<Rightarrow> handle option \<Rightarrow> 'd \<Rightarrow> handle result \<times> 'd"
  sdk_NewWorker :: "handle \<Rightarrow> string \<Rightarrow> handle"
  sdk_Start :: "handle \<Rightarrow> 'd \<Rightarrow> go_error option \<times> 'd"
  sdk_Stop :: "handle \<Rightarrow> 'd \<Rightarrow> 'd"
  sdk_Close :: "handle \<Rightarrow> 'd \<Rightarrow> 'd"
  otel_Write :: "handle \<Rightarrow> string \<Rightarrow> 'd \<Rightarrow> 'd"
  otel_Shutdown :: "handle \<Rightarrow> 'd \<Rightarrow> 'd"

text \<open>\<open>proxyAddr\<close> is the gRPC address of Tempura, \<open>httpAddr\<close> the HTTP address of the frontend.\<close>

definition setupSdk ::
    "'d test_ops \<Rightarrow> 'd sdk_ops \<Rightarrow> string \<Rightarrow> string \<Rightarrow> handle option \<Rightarrow> FunctionalTestBase \<Rightarrow> 'd
     \<Rightarrow> unit outcome \<times> FunctionalTestBase \<times> 'd" where
  "setupSdk ops sdk proxyAddr httpAddr tls s d =
     (let d = sdk_override sdk ''nexusoperations.CallbackURLTemplate''
                (VString (''http://'' @ httpAddr @ ''/namespaces/{{.NamespaceName}}/nexus/callback'')) d
      in case sdk_Dial sdk proxyAddr (base_namespace s) tls d of
           (Inl err, d) \<Rightarrow> (Panic (error_text err), s\<lparr>sdkClient := None\<rparr>, d)
         | (Inr client, d) \<Rightarrow>
             (let (uuid, d) = op_uuid ops d;
                  worker = sdk_NewWorker sdk client (RandomizeStr ''tq'' uuid);
                  s = s\<lparr>sdkClient := Some client, taskQueue := RandomizeStr ''tq'' uuid, sdkWorker := Some worker\<rparr>
              in case sdk_Start sdk worker d of
                   (Some err, d) \<Rightarrow> (Panic (error_text err), s, d)
                 | (None, d) \<Rightarrow> (Ret (), s, d)))"

text \<open>\<open>in_shard\<close>: a test that is not in the shard of this run is skipped, which ends it.\<close>

definition SetupTest ::
    "'d test_ops \<Rightarrow> 'd sdk_ops \<Rightarrow> bool \<Rightarrow> string \<Rightarrow> string \<Rightarrow> handle option \<Rightarrow> FunctionalTestBase \<Rightarrow> 'd
     \<Rightarrow> unit outcome \<times> FunctionalTestBase \<times> 'd" where
  "SetupTest ops sdk in_shard proxyAddr httpAddr tls s d =
     (if \<not> in_shard then (Panic ''skipped'', s, d)
      else case setupSdk ops sdk proxyAddr httpAddr tls s d of
        (Ret _, s, d) \<Rightarrow> (Ret (), s\<lparr>base_taskPoller := Some (base_namespace s)\<rparr>, d)
      | (Panic msg, s, d) \<Rightarrow> (Panic msg, s, d)
      | (Hang, s, d) \<Rightarrow> (Hang, s, d))"

definition valid_filename_char :: "char \<Rightarrow> bool" where
  "valid_filename_char c \<longleftrightarrow>
     c \<in> set ''abcdefghijklmnopqrstuvwxyz'' \<or> c \<in> set ''ABCDEFGHIJKLMNOPQRSTUVWXYZ'' \<or> c \<in> set ''0123456789'' \<or> c \<in> set ''._-''"

text \<open>Every longest run of other characters becomes one dash.\<close>

function replace_invalid :: "string \<Rightarrow> string" where
  "replace_invalid [] = []"
| "replace_invalid (c # cs) =
     (if valid_filename_char c then c # replace_invalid cs
      else CHR ''-'' # replace_invalid (dropWhile (\<lambda>c. \<not> valid_filename_char c) cs))"
  by pat_completeness auto
termination
  by (relation "measure length") (auto simp: le_imp_less_Suc length_dropWhile_le)

text \<open>\<open>unix\<close> is the time in seconds, printed; \<open>failed\<close> whether the test failed.\<close>

definition exportOTELTraces :: "'d sdk_ops \<Rightarrow> bool \<Rightarrow> string \<Rightarrow> string \<Rightarrow> FunctionalTestBase \<Rightarrow> 'd \<Rightarrow> 'd" where
  "exportOTELTraces sdk failed test_name unix s d =
     (case otelExporter s of
        None \<Rightarrow> d
      | Some e \<Rightarrow>
          otel_Shutdown sdk e
            (if failed then otel_Write sdk e (''traces.'' @ replace_invalid test_name @ ''_'' @ unix @ ''.json'') d else d))"

definition tearDownSdk :: "'d sdk_ops \<Rightarrow> FunctionalTestBase \<Rightarrow> 'd \<Rightarrow> 'd" where
  "tearDownSdk sdk s d =
     (let d = (case sdkWorker s of None \<Rightarrow> d | Some w \<Rightarrow> sdk_Stop sdk w d)
      in case sdkClient s of None \<Rightarrow> d | Some c \<Rightarrow> sdk_Close sdk c d)"

definition TearDownTest :: "'d sdk_ops \<Rightarrow> bool \<Rightarrow> string \<Rightarrow> string \<Rightarrow> FunctionalTestBase \<Rightarrow> 'd \<Rightarrow> 'd" where
  "TearDownTest sdk failed test_name unix s d = tearDownSdk sdk s (exportOTELTraces sdk failed test_name unix s d)"

section \<open>Reading a history\<close>

text \<open>
  The first page is asked for with a page size, the next ones with the token of the page before; a
  failed call stops the test. A page is its events and the next token.
\<close>

datatype page_request = First_page int | Next_page "byte list"

type_synonym ('e, 'd) page_source = "page_request \<Rightarrow> 'd \<Rightarrow> ('e list \<times> byte list option) result \<times> 'd"

partial_function (option) more_pages ::
    "('e, 'd) page_source \<Rightarrow> byte list option \<Rightarrow> 'e list \<Rightarrow> 'd \<Rightarrow> ('e list outcome \<times> 'd) option" where
  "more_pages src token events d =
     (case token of
        None \<Rightarrow> Some (Ret events, d)
      | Some t \<Rightarrow>
          (case src (Next_page t) d of
             (Inl err, d) \<Rightarrow> Some (Panic (error_text err), d)
           | (Inr (evs, token), d) \<Rightarrow> more_pages src token (events @ evs) d))"

definition GetHistory :: "('e, 'd) page_source \<Rightarrow> 'd \<Rightarrow> 'e list outcome \<times> 'd" where
  "GetHistory src d =
     (case src (First_page 5) d of
        (Inl err, d) \<Rightarrow> (Panic (error_text err), d)
      | (Inr (evs, token), d) \<Rightarrow> (case more_pages src token evs d of None \<Rightarrow> (Hang, d) | Some x \<Rightarrow> x))"

section \<open>Helpers of a test\<close>

definition DurationNear :: "int \<Rightarrow> int \<Rightarrow> int \<Rightarrow> bool" where
  "DurationNear v target tolerance \<longleftrightarrow> v > target - tolerance \<and> v < target + tolerance"

datatype hook_scope = ScopeNamespace | ScopeGlobal | OtherScope nat

datatype scope_value = NamespaceScope string | GlobalScope

definition hook_target :: "FunctionalTestBase \<Rightarrow> hook_scope \<Rightarrow> scope_value outcome" where
  "hook_target s sc = (case sc of
     ScopeNamespace \<Rightarrow> Ret (NamespaceScope (base_namespaceID s))
   | ScopeGlobal \<Rightarrow> Ret GlobalScope
   | OtherScope _ \<Rightarrow> Panic ''InjectHook: unknown scope'')"

text \<open>\<open>shard_of\<close> is \<^verbatim>\<open>common.WorkflowIDToHistoryShard\<close>, \<open>close\<close> the admin RPC.\<close>

definition CloseShard ::
    "(string \<Rightarrow> string \<Rightarrow> int \<Rightarrow> int) \<Rightarrow> (int \<Rightarrow> 'd \<Rightarrow> go_error option \<times> 'd) \<Rightarrow> FunctionalTestBase \<Rightarrow> string \<Rightarrow> string \<Rightarrow> 'd
     \<Rightarrow> unit outcome \<times> 'd" where
  "CloseShard shard_of close s namespaceID workflowID d =
     (if isShared s then (Panic ''CloseShard cannot be called on a shared cluster; use testcore.WithDedicatedCluster()'', d)
      else case testClusterConfig s of
        None \<Rightarrow> (Panic ''nil pointer dereference'', d)
      | Some cfg \<Rightarrow>
          require_NoError (close (shard_of namespaceID workflowID (NumHistoryShards (tc_HistoryConfig cfg))) d) (\<lambda>d. (Ret (), d)))"

text \<open>The overrides and hooks of each subtest.\<close>

definition RunTestWithMatchingBehavior :: "(string \<times> (config_key \<times> int) list \<times> hook list) list" where
  "RunTestWithMatchingBehavior =
     map (\<lambda>behavior.
       (behavior_Name behavior,
        (MatchingForwarderMaxChildrenPerNode, 3) #
        (if ForceTaskForward behavior \<or> ForcePollForward behavior
         then [(MatchingNumTaskqueueReadPartitions, 13), (MatchingNumTaskqueueWritePartitions, 13)]
         else [(MatchingNumTaskqueueReadPartitions, 1), (MatchingNumTaskqueueWritePartitions, 1)]),
        InjectHooks behavior [])) AllMatchingBehaviors"

section \<open>The waiting loops\<close>

text \<open>
  What is documented of a clock and a ticker: no operation moves the clock back, and the \<open>k\<close>-th
  receive on a ticker is not served before \<open>k\<close> periods have passed. \<open>ticker\<close> gives the period of the
  ticker of a state and the time its next tick is due.
\<close>

definition keeps_time :: "'d test_ops \<Rightarrow> ('d \<Rightarrow> int \<times> int) \<Rightarrow> ('d \<Rightarrow> 'd) \<Rightarrow> bool" where
  "keeps_time ops ticker f \<longleftrightarrow> (\<forall>d. op_now ops d \<le> op_now ops (f d) \<and> ticker (f d) = ticker d)"

definition ticker_laws :: "'d test_ops \<Rightarrow> ('d \<Rightarrow> int \<times> int) \<Rightarrow> bool" where
  "ticker_laws ops ticker \<longleftrightarrow>
     (\<forall>d p. ticker (op_NewTicker ops p d) = (p, op_now ops d + p)) \<and>
     (\<forall>d. snd (ticker d) \<le> op_now ops (op_tick ops d)) \<and>
     (\<forall>d. op_now ops d \<le> op_now ops (op_tick ops d)) \<and>
     (\<forall>d. ticker (op_tick ops d) = (fst (ticker d), snd (ticker d) + fst (ticker d)))"

definition time_laws :: "'d test_ops \<Rightarrow> ('d \<Rightarrow> int \<times> int) \<Rightarrow> string \<Rightarrow> string list \<Rightarrow> bool" where
  "time_laws ops ticker nsName expected \<longleftrightarrow>
     ticker_laws ops ticker \<and>
     keeps_time ops ticker (\<lambda>d. snd (op_DescribeNamespace ops nsName d)) \<and>
     keeps_time ops ticker (\<lambda>d. snd (op_AddSearchAttributes ops nsName expected d)) \<and>
     keeps_time ops ticker (\<lambda>d. snd (op_ListSearchAttributes ops nsName d))"

lemma wait_loop_late:
  assumes "keeps_time ops ticker (\<lambda>d. snd (attempt d))" and "deadline < op_now ops d"
  shows "\<exists>x. wait_loop ops attempt give_up deadline d = Some x"
proof -
  have "op_now ops d \<le> op_now ops (snd (attempt d))"
    using assms(1) by (simp add: keeps_time_def)
  then show ?thesis
    using assms(2) by (subst wait_loop.simps) (simp add: case_prod_unfold)
qed

lemma wait_loop_ends_in:
  assumes "ticker_laws ops ticker" and "keeps_time ops ticker (\<lambda>d. snd (attempt d))"
  shows "fst (ticker d) = p \<Longrightarrow> 0 < p \<Longrightarrow> deadline < snd (ticker d) + p * int n
    \<Longrightarrow> \<exists>x. wait_loop ops attempt give_up deadline d = Some x"
proof (induction n arbitrary: d)
  case 0
  let ?d = "op_tick ops (snd (attempt d))"
  have "ticker (snd (attempt d)) = ticker d"
    using assms(2) by (simp add: keeps_time_def)
  then have "snd (ticker d) \<le> op_now ops ?d"
    using assms(1) by (metis ticker_laws_def)
  then have "\<exists>x. wait_loop ops attempt give_up deadline ?d = Some x"
    using 0 by (intro wait_loop_late[OF assms(2)]) simp
  then show ?case
    by (subst wait_loop.simps) (simp add: case_prod_unfold)
next
  case (Suc n)
  let ?d = "op_tick ops (snd (attempt d))"
  have "ticker (snd (attempt d)) = ticker d"
    using assms(2) by (simp add: keeps_time_def)
  then have "ticker ?d = (fst (ticker d), snd (ticker d) + fst (ticker d))"
    using assms(1) by (simp add: ticker_laws_def)
  then have "\<exists>x. wait_loop ops attempt give_up deadline ?d = Some x"
    using Suc.prems by (intro Suc.IH) (simp_all add: algebra_simps)
  then show ?case
    by (subst wait_loop.simps) (simp add: case_prod_unfold)
qed

lemma wait_loop_ends:
  assumes "ticker_laws ops ticker" and "keeps_time ops ticker (\<lambda>d. snd (attempt d))" and "0 < fst (ticker d)"
  obtains x where "wait_loop ops attempt give_up deadline d = Some x"
proof -
  have "deadline - snd (ticker d) \<le> int (nat (deadline - snd (ticker d)))"
    by simp
  also have "\<dots> \<le> fst (ticker d) * int (nat (deadline - snd (ticker d)))"
    using assms(3) by (cases "fst (ticker d)" rule: int_cases) (auto simp: mult_le_cancel_right1)
  finally have "deadline < snd (ticker d) + fst (ticker d) * int (Suc (nat (deadline - snd (ticker d))))"
    using assms(3) by (simp add: algebra_simps)
  then show ?thesis
    using wait_loop_ends_in[OF assms(1,2) refl assms(3)] that by blast
qed

text \<open>
  What a loop keeps: a property the attempts and the ticks keep holds of the state it ends in; and
  when no attempt that fails ends past the deadline, the loop does not give up.
\<close>

lemma wait_loop_inv:
  assumes "\<And>d. I d \<Longrightarrow> I (snd (attempt d))" and "\<And>d. I d \<Longrightarrow> I (op_tick ops d)"
    and "wait_loop ops attempt give_up deadline d = Some y" and "I d"
  shows "I (snd y) \<and>
    ((\<forall>d. I d \<and> \<not> fst (attempt d) \<longrightarrow> op_now ops (snd (attempt d)) \<le> deadline) \<longrightarrow> fst y = None)"
proof -
  let ?Q = "\<lambda>y. I (snd y) \<and>
    ((\<forall>d. I d \<and> \<not> fst (attempt d) \<longrightarrow> op_now ops (snd (attempt d)) \<le> deadline) \<longrightarrow> fst y = None)"
  have "ops = ops \<and> attempt = attempt \<and> deadline = deadline \<and> I d \<longrightarrow> ?Q y"
    apply (rule wait_loop.raw_induct[where P = "\<lambda>ops' attempt' give_up deadline' d y.
        ops' = ops \<and> attempt' = attempt \<and> deadline' = deadline \<and> I d \<longrightarrow> ?Q y", rotated])
     apply (rule assms(3))
    subgoal premises body for f ops' attempt' give_up deadline' d y
    proof (intro impI)
      assume same: "ops' = ops \<and> attempt' = attempt \<and> deadline' = deadline \<and> I d"
      then have I: "I (snd (attempt d))" "I (op_tick ops (snd (attempt d)))"
        using assms(1,2) by blast+
      show "?Q y"
        using body(2) I same body(1)[of ops attempt give_up deadline "op_tick ops (snd (attempt d))" y]
        by (cases "fst (attempt d)"; cases "deadline < op_now ops (snd (attempt d))")
          (auto simp: case_prod_unfold)
    qed
    done
  then show ?thesis
    using assms(4) by blast
qed

section \<open>Registering a namespace ends, and succeeds on a cluster that gets ready\<close>

lemma snd_tries [simp]:
  "snd (try_describe ops nsName d) = snd (op_DescribeNamespace ops nsName d)"
  "snd (try_attributes ops nsName expected d) = snd (op_ListSearchAttributes ops nsName d)"
  by (simp_all add: try_describe_def try_attributes_def case_prod_unfold)

lemma fst_tries [simp]:
  "fst (try_describe ops nsName d) \<longleftrightarrow> fst (op_DescribeNamespace ops nsName d) = None"
  "fst (try_attributes ops nsName expected d) \<longleftrightarrow> attributes_ready expected (fst (op_ListSearchAttributes ops nsName d))"
  by (simp_all add: try_describe_def try_attributes_def case_prod_unfold)

lemma registerNamespaceWithTempura_Ret:
  assumes "FrontendGRPCAddress host = Ret addr"
  shows "registerNamespaceWithTempura ops adminAPI host nsName d =
    (Ret (), op_post ops (adminAPI @ ''/namespace/physical/add'') (add_body nsName nsName addr)
       (op_post ops (adminAPI @ ''/namespace/virtual/create'') (create_body nsName) d))"
  using assms by (simp add: registerNamespaceWithTempura_def Let_def)

text \<open>The period of the ticker is positive from its creation on.\<close>

lemma tries_keep_period:
  assumes "time_laws ops ticker nsName expected"
  shows "0 < fst (ticker d) \<Longrightarrow> 0 < fst (ticker (snd (try_describe ops nsName d)))"
    and "0 < fst (ticker d) \<Longrightarrow> 0 < fst (ticker (snd (try_attributes ops nsName expected d)))"
    and "0 < fst (ticker d) \<Longrightarrow> 0 < fst (ticker (snd (op_AddSearchAttributes ops nsName expected d)))"
    and "0 < fst (ticker d) \<Longrightarrow> 0 < fst (ticker (op_tick ops d))"
    and "0 < fst (ticker (op_NewTicker ops (NamespaceCacheRefreshInterval div 2) d))"
  using assms by (simp_all add: time_laws_def ticker_laws_def keeps_time_def NamespaceCacheRefreshInterval_def)

lemma wait_described_ends:
  assumes "time_laws ops ticker nsName expected" and "0 < fst (ticker d)"
  obtains r d' where "wait_described ops nsName deadline d = Some (r, d')" and "0 < fst (ticker d')"
proof -
  obtain x where x: "wait_described ops nsName deadline d = Some x"
    using assms unfolding wait_described_def
    by (elim wait_loop_ends[of ops ticker "try_describe ops nsName" d, rotated -1])
      (simp_all add: time_laws_def)
  moreover have "0 < fst (ticker (snd x))"
    using wait_loop_inv[of "\<lambda>d. 0 < fst (ticker d)", OF tries_keep_period(1)[OF assms(1)]
        tries_keep_period(4)[OF assms(1)] x[unfolded wait_described_def] assms(2)] by simp
  ultimately show ?thesis
    using that by (metis prod.collapse)
qed

lemma wait_attributes_ends:
  assumes "time_laws ops ticker nsName expected" and "0 < fst (ticker d)"
  obtains r d' where "wait_attributes ops nsName expected deadline d = Some (r, d')"
proof -
  obtain x where "wait_attributes ops nsName expected deadline d = Some x"
    using assms unfolding wait_attributes_def
    by (elim wait_loop_ends[of ops ticker "try_attributes ops nsName expected" d, rotated -1])
      (simp_all add: time_laws_def)
  then show ?thesis
    using that by (metis prod.collapse)
qed

text \<open>
  registering a namespace always returns: both waiting loops end, whatever the cluster answers,
  because they stop at a deadline and the ticker they wait for moves the clock.
\<close>

theorem RegisterNamespace_returns:
  assumes "time_laws ops ticker nsName expected" and "FrontendGRPCAddress host = Ret addr"
  shows "\<exists>r d'. RegisterNamespace ops current adminAPI host expected nsName days archival huri vuri d = (Ret r, d')"
proof -
  obtain nsID d1 where uuid: "op_uuid ops d = (nsID, d1)" by fastforce
  obtain e d2 where create: "op_CreateNamespace ops (namespace_request current nsID nsName days archival huri vuri) d1 = (e, d2)"
    by fastforce
  obtain d3 where tempura: "registerNamespaceWithTempura ops adminAPI host nsName d2 = (Ret (), d3)"
    by (rule that) (rule registerNamespaceWithTempura_Ret[OF assms(2)])
  obtain r4 d4 where described: "wait_described ops nsName (op_now ops d3 + 5 * NamespaceCacheRefreshInterval)
      (op_NewTicker ops (NamespaceCacheRefreshInterval div 2) d3) = Some (r4, d4)" and "0 < fst (ticker d4)"
    by (rule wait_described_ends[OF assms(1) tries_keep_period(5)[OF assms(1)]])
  obtain e5 d5 where add: "op_AddSearchAttributes ops nsName expected d4 = (e5, d5)" by fastforce
  have "0 < fst (ticker d5)"
    using tries_keep_period(3)[OF assms(1) \<open>0 < fst (ticker d4)\<close>] add by simp
  then obtain r6 d6 where "wait_attributes ops nsName expected
      (op_now ops d5 + 5 * NamespaceCacheRefreshInterval) d5 = Some (r6, d6)"
    by (rule wait_attributes_ends[OF assms(1)])
  then show ?thesis
    by (cases e; cases r4; cases e5; cases r6)
      (simp_all add: RegisterNamespace_def Let_def uuid create tempura described add)
qed













text \<open>A machine with a clock, a ticker and a cluster that answers from the second second on.\<close>

record sample_machine =
  sm_now :: int
  sm_period :: int
  sm_due :: int
  sm_created :: bool
  sm_added :: bool

definition sample_ops :: "string list \<Rightarrow> sample_machine test_ops" where
  "sample_ops expected =
     \<lparr>op_now = sm_now, op_NewTicker = (\<lambda>p d. d\<lparr>sm_period := p, sm_due := sm_now d + p\<rparr>),
      op_tick = (\<lambda>d. d\<lparr>sm_now := max (sm_now d) (sm_due d), sm_due := sm_due d + sm_period d\<rparr>),
      op_uuid = (\<lambda>d. (''id'', d)), op_CreateNamespace = (\<lambda>_ d. (if sm_created d then Some (Errorf ''already registered'') else None, d\<lparr>sm_created := True\<rparr>)),
      op_DescribeNamespace = (\<lambda>_ d. (if sm_created d \<and> 2000 \<le> sm_now d then None else Some (Errorf ''not found''),
        d\<lparr>sm_now := sm_now d + 10\<rparr>)),
      op_AddSearchAttributes = (\<lambda>_ _ d. (if sm_added d then Some (Errorf ''already exists'') else None, d\<lparr>sm_added := True\<rparr>)),
      op_ListSearchAttributes = (\<lambda>_ d. (if sm_added d \<and> 2000 \<le> sm_now d then Inr expected else Inr [],
        d\<lparr>sm_now := sm_now d + 10\<rparr>)),
      op_UpdateNamespace = (\<lambda>_ _ d. (None, d)), op_post = (\<lambda>_ _ d. d), op_NewCluster = (\<lambda>_ d. (Inl (Errorf ''''), d)),
      op_TearDownCluster = (\<lambda>_ d. (None, d))\<rparr>"

definition sample_start :: sample_machine where
  "sample_start = \<lparr>sm_now = 0, sm_period = 0, sm_due = 0, sm_created = False, sm_added = False\<rparr>"

lemma sample_time_laws: "time_laws (sample_ops expected) (\<lambda>d. (sm_period d, sm_due d)) nsName expected"
  by (simp add: time_laws_def ticker_laws_def keeps_time_def sample_ops_def)




lemma example_frontend: "FrontendGRPCAddress example_server = Ret ''127.0.0.1:1''"
  by code_simp

theorem RegisterNamespace_returns_witness:
  "\<exists>r d'. RegisterNamespace (sample_ops [''Text'']) ''active'' ''http://127.0.0.1:8080'' example_server [''Text''] ''orders'' 1
     ARCHIVAL_STATE_DISABLED [] [] sample_start = (Ret r, d')"
  by (rule RegisterNamespace_returns[OF sample_time_laws example_frontend])


section \<open>Reading a history, the options, the matching behaviours\<close>

text \<open>A server that hands a finite history out page by page is read to its end, page after page.\<close>

lemma GetHistory_reads_pages:
  assumes "src (First_page 5) d = (Inr (p, tok 0), d0)"
    and "\<And>k. k < n \<Longrightarrow> tok k = Some (t k) \<and> src (Next_page (t k)) (ds k) = (Inr (ps k, tok (Suc k)), ds (Suc k))"
    and "tok n = None" and "ds 0 = d0"
  shows "GetHistory src d = (Ret (p @ concat (map ps [0..<n])), ds n)"
proof -
  have "k \<le> n \<Longrightarrow> more_pages src (tok k) (p @ concat (map ps [0..<k])) (ds k) = Some (Ret (p @ concat (map ps [0..<n])), ds n)" for k
  proof (induction "n - k" arbitrary: k)
    case 0
    then show ?case
      using assms(3) by (simp add: more_pages.simps)
  next
    case (Suc m)
    then have "more_pages src (tok (Suc k)) (p @ concat (map ps [0..<Suc k])) (ds (Suc k)) =
        Some (Ret (p @ concat (map ps [0..<n])), ds n)"
      by (intro Suc.hyps(1)) auto
    then show ?case
      using assms(2)[of k] Suc.hyps(2) by (subst more_pages.simps) simp
  qed
  from this[of 0] show ?thesis
    using assms(1,4) by (simp add: GetHistory_def)
qed

text \<open>The suite's own loop over the behaviours runs what \<^const>\<open>runWithMatchingBehaviors\<close> runs.\<close>

lemma suite_matching_behaviors: "RunTestWithMatchingBehavior = runWithMatchingBehaviors []"
  by (simp add: RunTestWithMatchingBehavior_def runWithMatchingBehaviors_def behavior_Options_def Let_def)

text \<open>The name of a trace file holds valid characters only.\<close>

lemma replace_invalid_valid: "c \<in> set (replace_invalid cs) \<Longrightarrow> valid_filename_char c"
proof (induction cs rule: replace_invalid.induct)
  case (2 a cs)
  have "valid_filename_char (CHR ''-'')"
    by code_simp
  then show ?case
    using 2 by (cases "valid_filename_char a") auto
qed simp

lemma replace_invalid_id: "\<forall>c\<in>set cs. valid_filename_char c \<Longrightarrow> replace_invalid cs = cs"
  by (induction cs) simp_all

end
