(* ===== verification/Harness.thy ===== *)
theory Harness
  imports System TestBase
begin

text \<open>
  The conformance test suites in front of Tempura: a test cluster starts Tempura with the
  frontend of the cluster as its default target (\<^verbatim>\<open>test_cluster.go\<close>), and every namespace a suite
  registers is made known to Tempura over the admin API (\<^verbatim>\<open>functional_test_base.go\<close>). The theorem says
  that the proxy then sends the suite's requests to the cluster.
\<close>

section \<open>Model\<close>

text \<open>Tempura beside a cluster: a fresh Redis, a port for the proxy and the cluster's frontend as target.\<close>

definition launch_tempura ::
    "hash_fun \<Rightarrow> (string \<Rightarrow> schema result) \<Rightarrow> (string \<Rightarrow> string result) \<Rightarrow> (string \<Rightarrow> 'w redis_client \<times> 'w)
     \<Rightarrow> string \<Rightarrow> int \<Rightarrow> 'c TemporalImpl \<Rightarrow> ('w system \<times> string) result outcome" where
  "launch_tempura sum32 unmarshal url_parse connect redisAddr proxyPort cluster =
     and_then (FrontendGRPCAddress cluster) (\<lambda>addr.
       Ret (main sum32 unmarshal url_parse connect redisAddr (''localhost:'' @ Itoa proxyPort) (''http://'' @ addr)))"

text \<open>
  A machine that holds a running Tempura: a POST to a path of the admin API is one step of it.
  \<open>keys\<close> is an order of map iteration that no POST depends on.
\<close>

definition post_request :: "string \<Rightarrow> byte list \<Rightarrow> admin_request" where
  "post_request path body = \<lparr>ar_path = path, ar_Method = ''POST'', ar_body = body, ar_name = ''''\<rparr>"

definition posts_to_tempura :: "config \<Rightarrow> string \<Rightarrow> ('d \<Rightarrow> 'w system) \<Rightarrow> 'd test_ops \<Rightarrow> bool" where
  "posts_to_tempura cfg adminAPI tempura ops \<longleftrightarrow>
     (\<forall>path body d. tempura (op_post ops (adminAPI @ path) body d) =
        exec cfg (AdminCall (post_request path body) []) (tempura d))"

text \<open>
  A JSON string literal of characters that need no escape stands for these characters: quotes,
  backslashes and control characters do.
\<close>

definition json_plain :: "string \<Rightarrow> bool" where
  "json_plain s \<longleftrightarrow> (\<forall>c\<in>set s. c \<noteq> CHR 0x22 \<and> c \<noteq> CHR 0x5C \<and> of_char c \<ge> (32 :: nat) \<and> of_char c < (127 :: nat))"

definition json_reads_plain :: "json \<Rightarrow> bool" where
  "json_reads_plain js \<longleftrightarrow>
     (\<forall>n. json_plain n \<longrightarrow> decode_create js (create_body n) = Inr \<lparr>create_Name = n\<rparr>) \<and>
     (\<forall>v p a. json_plain v \<longrightarrow> json_plain p \<longrightarrow> json_plain a \<longrightarrow> decode_manage js (add_body v p a) =
        Inr \<lparr>mp_VirtualNamespace = v, mp_PhysicalNamespace = p, mp_ClusterAddress = a\<rparr>)"

section \<open>A new namespace in the registry\<close>

text \<open>Tempura starts over an empty Redis with no namespace and no assignment.\<close>

lemma launch_tempura_fresh:
  assumes "launch_tempura sum32 unmarshal url_parse connect redisAddr proxyPort cluster = Ret (Inr (s, dflt))"
    and "connect (registry_addr redisAddr) = (c, w)" and "redis_ok c" and "redis_view c w = Map.empty"
    and "\<And>addr. fst (connect addr) = c"
  shows "resolver_ok (sys_resolver s)" and "sys_registry s = empty_registry"
    and "assigned (sys_resolver s) = Map.empty"
proof -
  obtain e1 w1 where ping: "rc_ping c w = (e1, w1)" by fastforce
  obtain g w2 where get: "rc_get c registry_key w1 = (g, w2)" by fastforce
  have w1: "redis_view c w1 = Map.empty"
    using redis_okD(8)[OF assms(3), of w] ping assms(4) by simp
  have w2: "redis_view c w2 = Map.empty"
    using redis_okD(1)[OF assms(3), of registry_key w1] get w1 by simp
  have "redis_view c w1 registry_key = None"
    using w1 by simp
  then obtain e where "g = Inl e"
    using get by (cases g) (auto simp: redis_view_def)
  then have reg: "NewVirtualNamespaceRegistry sum32 unmarshal connect redisAddr = (empty_registry, w2)"
    by (simp add: NewVirtualNamespaceRegistry_def assms(2) ping get Let_def)
  obtain e3 w3 where ping2: "rc_ping c w2 = (e3, w3)" by fastforce
  have "redis_view c w3 = Map.empty"
    using redis_okD(8)[OF assms(3), of w2] ping2 w2 by simp
  moreover have "s = \<lparr>sys_registry = empty_registry,
      sys_resolver = NewResolver \<lparr>client = c, server = w3, cacheHitCount = 0, cacheMissCount = 0\<rparr>\<rparr>"
    using assms(1,5) reg ping2
    by (auto simp: launch_tempura_def main_def NewStickyProxy_def NewMappings_def Let_def and_then_Ret_iff split: sum.splits)
  ultimately show "resolver_ok (sys_resolver s)" and "sys_registry s = empty_registry"
    and "assigned (sys_resolver s) = Map.empty"
    using assms(3) by (simp_all add: resolver_ok_def cache_ok_def assigned_def cache_view_def NewResolver_def)
qed

text \<open>The two admin requests of a registration, on the status tables.\<close>

lemma register_requests:
  assumes "json_reads_plain js" and "json_plain n" "json_plain a" "n \<noteq> ''''" "a \<noteq> ''''" and "n \<notin> names"
  shows "admin_op_of js (post_request ''/namespace/virtual/create'' (create_body n)) names = Create n"
    and "admin_op_of js (post_request ''/namespace/physical/add'' (add_body n n a)) (insert n names) =
      AddPhysical n (buildPhysicalNamespace n a)"
  using assms by (simp_all add: json_reads_plain_def admin_op_of_def post_request_def)

lemma registered_tables:
  assumes "posts_to_tempura cfg adminAPI tempura ops" and "FrontendGRPCAddress host = Ret a"
    and "reg_full (ext_sum32 (cfg_ext cfg)) S (sys_registry (tempura d))" and "collision_free (ext_sum32 (cfg_ext cfg)) 50 S"
    and "buildPhysicalNamespace n a \<in> S"
    and "json_reads_plain (cfg_json cfg)" "json_plain n" "json_plain a" "n \<noteq> ''''" "a \<noteq> ''''"
    and "reg_statuses (sys_registry (tempura d)) n = None"
    and "s' = tempura (snd (registerNamespaceWithTempura ops adminAPI host n d))"
  shows "reg_full (ext_sum32 (cfg_ext cfg)) S (sys_registry s')" and "sys_resolver s' = sys_resolver (tempura d)"
    and "reg_statuses (sys_registry s') =
      (reg_statuses (sys_registry (tempura d)))(n \<mapsto> [buildPhysicalNamespace n a \<mapsto> NamespaceActive])"
proof -
  let ?create = "post_request ''/namespace/virtual/create'' (create_body n)"
  let ?add = "post_request ''/namespace/physical/add'' (add_body n n a)"
  let ?s1 = "exec cfg (AdminCall ?create []) (tempura d)"
  have s': "s' = exec cfg (AdminCall ?add []) ?s1"
    using assms(1,12) by (simp add: registerNamespaceWithTempura_Ret[OF assms(2)] posts_to_tempura_def)
  have new: "n \<notin> dom (reg_statuses (sys_registry (tempura d)))"
    using assms(11) by (simp add: domIff)
  note ops = register_requests[OF assms(6-10) new]
  have ok1: "admin_ok (ext_sum32 (cfg_ext cfg)) S (Create n) (sys_registry (tempura d))
      (admin_handler (ext_sum32 (cfg_ext cfg)) (cfg_json cfg) (cfg_metrics cfg) [] ?create (sys_registry (tempura d)))"
    using ops(1) by (intro admin_refines[OF assms(3,4)]) simp_all
  then have r1: "reg_full (ext_sum32 (cfg_ext cfg)) S (sys_registry ?s1)"
    "reg_statuses (sys_registry ?s1) = (reg_statuses (sys_registry (tempura d)))(n \<mapsto> Map.empty)"
    by (simp_all add: admin_ok_def)
  then have "admin_op_of (cfg_json cfg) ?add (dom (reg_statuses (sys_registry ?s1))) = AddPhysical n (buildPhysicalNamespace n a)"
    using ops(2) by simp
  then have "admin_ok (ext_sum32 (cfg_ext cfg)) S (AddPhysical n (buildPhysicalNamespace n a)) (sys_registry ?s1)
      (admin_handler (ext_sum32 (cfg_ext cfg)) (cfg_json cfg) (cfg_metrics cfg) [] ?add (sys_registry ?s1))"
    using assms(5) by (intro admin_refines[OF r1(1) assms(4)]) simp_all
  then show "reg_full (ext_sum32 (cfg_ext cfg)) S (sys_registry s')" and "sys_resolver s' = sys_resolver (tempura d)"
    and "reg_statuses (sys_registry s') =
      (reg_statuses (sys_registry (tempura d)))(n \<mapsto> [buildPhysicalNamespace n a \<mapsto> NamespaceActive])"
    using r1(2) by (simp_all add: s' admin_ok_def)
qed

section \<open>The requests of a suite reach its cluster\<close>

text \<open>A namespace with one active physical namespace routes every workflow to it.\<close>

lemma single_active_route:
  assumes "reg_full sum32 S reg" and "reg_statuses reg n = Some [q \<mapsto> NamespaceActive]"
  obtains p where "reg_namespaces reg n = Some p" and "GetSlot sum32 k (vn_Ring (deref p reg)) = q"
proof -
  obtain p where p: "reg_namespaces reg n = Some p" "vn_Namespaces (deref p reg) = [q \<mapsto> NamespaceActive]"
    using assms(2) by (auto simp: reg_statuses_def)
  then have act: "vn_active (deref p reg) = {q}"
    by (auto simp: vn_active_def)
  have "vn_full sum32 S (deref p reg)"
    using deref_full[OF assms(1) p(1)] by simp
  from vns.route_active[OF this, of k] act have "GetSlot sum32 k (vn_Ring (deref p reg)) = q"
    by simp
  with p(1) show ?thesis by (rule that)
qed

text \<open>
  C8: a namespace that a suite registers is served through Tempura by the suite's own cluster. Let its name be new
  to Tempura, its name and the address of the frontend need no escaping in JSON text and contain no delimiter, no
  virtual nodes collide, and the posts be delivered. After the two admin calls the namespace has exactly one physical namespace, of the same name on the frontend of
  the cluster, the other namespaces and all assignments are as before, and every rewriting RPC about
  a workflow of the namespace that has no assignment is forwarded to that frontend and
  assigns the workflow there unless it completes it.
\<close>

theorem registered_namespace_reaches_the_cluster:
  assumes "posts_to_tempura cfg adminAPI tempura ops" and "FrontendGRPCAddress host = Ret a"
    and "reg_full (ext_sum32 (cfg_ext cfg)) S (sys_registry (tempura d))" and "collision_free (ext_sum32 (cfg_ext cfg)) 50 S"
    and "buildPhysicalNamespace n a \<in> S"
    and "json_reads_plain (cfg_json cfg)" "json_plain n" "json_plain a" "n \<noteq> ''''" "a \<noteq> ''''"
    and "reg_statuses (sys_registry (tempura d)) n = None"
    and "plain_name n" "plain_addr a" and "resolver_ok (sys_resolver (tempura d))"
    and "s' = tempura (snd (registerNamespaceWithTempura ops adminAPI host n d))"
  shows "reg_statuses (sys_registry s') =
      (reg_statuses (sys_registry (tempura d)))(n \<mapsto> [buildPhysicalNamespace n a \<mapsto> NamespaceActive]) \<and>
    sys_resolver s' = sys_resolver (tempura d) \<and>
    (\<forall>r m bs p ch tr. dispatch (url_path r) = Some m \<and> req_body r = Inr bs \<and> request_payload (cfg_ext cfg) m bs = Some p \<and>
       VirtualNamespaceName p = n \<and> uncached (sys_resolver s') (WorkflowID p) \<longrightarrow>
       (\<exists>r'. fst (serve cfg r ch tr s') = Ret (Forwarded r') \<and> url_host r' = a) \<and>
       assigned (sys_resolver (snd (serve cfg r ch tr s'))) = (assigned (sys_resolver s'))
         (WorkflowID p := if completes (cfg_ext cfg) m bs then None else Some (buildPhysicalNamespace n a)))"
proof (intro conjI allI impI)
  note tables = registered_tables[OF assms(1-11,15)]
  show "reg_statuses (sys_registry s') =
      (reg_statuses (sys_registry (tempura d)))(n \<mapsto> [buildPhysicalNamespace n a \<mapsto> NamespaceActive])"
    and "sys_resolver s' = sys_resolver (tempura d)"
    using tables by simp_all
  fix r :: http_request and m bs p ch tr
  assume req: "dispatch (url_path r) = Some m \<and> req_body r = Inr bs \<and> request_payload (cfg_ext cfg) m bs = Some p \<and>
    VirtualNamespaceName p = n \<and> uncached (sys_resolver s') (WorkflowID p)"
  have ok: "resolver_ok (sys_resolver s')"
    using tables(2) assms(14) by simp
  obtain q where "reg_namespaces (sys_registry s') n = Some q"
    and slot: "GetSlot (ext_sum32 (cfg_ext cfg)) (WorkflowID p) (vn_Ring (deref q (sys_registry s'))) = buildPhysicalNamespace n a"
    using single_active_route[OF tables(1), of n "buildPhysicalNamespace n a" "WorkflowID p"] tables(3) by auto
  then have miss: "fst (Resolver_Resolve (ext_sum32 (cfg_ext cfg)) p (sys_registry s') (sys_resolver s')) =
      (buildPhysicalNamespace n a, False)"
    "assigned (snd (Resolver_Resolve (ext_sum32 (cfg_ext cfg)) p (sys_registry s') (sys_resolver s'))) =
      (assigned (sys_resolver s'))(WorkflowID p \<mapsto> buildPhysicalNamespace n a)"
    using Resolve_miss[OF ok, of p "sys_registry s'" q _ "ext_sum32 (cfg_ext cfg)"] req by simp_all
  show "\<exists>r'. fst (serve cfg r ch tr s') = Ret (Forwarded r') \<and> url_host r' = a"
    using serve_resolved[of cfg p s' _ _ r m bs ch tr, OF _ parse_build[OF assms(12,13)]] miss(1) req assms(10)
    by (auto simp: ns_address_def)
  show "assigned (sys_resolver (snd (serve cfg r ch tr s'))) = (assigned (sys_resolver s'))
      (WorkflowID p := if completes (cfg_ext cfg) m bs then None else Some (buildPhysicalNamespace n a))"
    using serve_state[of r m bs cfg p ch tr s'] after_resolve_view[of "cfg_ext cfg" m bs p, OF _ Resolve_ok[OF ok]] miss(2) req
    by simp
qed

section \<open>An example\<close>

text \<open>A reader of the two bodies: the strings stand between quotes at known places.\<close>

definition quoted_at :: "nat \<Rightarrow> string \<Rightarrow> string \<times> string" where
  "quoted_at k s = (takeWhile (\<lambda>c. c \<noteq> CHR 0x22) (drop k s), dropWhile (\<lambda>c. c \<noteq> CHR 0x22) (drop k s))"

definition harness_json :: json where
  "harness_json =
     \<lparr>decode_create = (\<lambda>bs. Inr \<lparr>create_Name = fst (quoted_at 9 (string_of_bytes bs))\<rparr>),
      decode_manage = (\<lambda>bs.
        let (v, rest) = quoted_at 22 (string_of_bytes bs);
            (p, rest) = quoted_at 25 rest;
            (a, rest) = quoted_at 22 rest
        in Inr \<lparr>mp_VirtualNamespace = v, mp_PhysicalNamespace = p, mp_ClusterAddress = a\<rparr>),
      encode_get = (\<lambda>_ _. [])\<rparr>"

lemma quoted_at_append:
  assumes "json_plain s" and "drop k xs = s @ CHR 0x22 # rest"
  shows "quoted_at k xs = (s, CHR 0x22 # rest)"
  using assms by (simp add: quoted_at_def json_plain_def)

lemma harness_json_plain: "json_reads_plain harness_json"
  unfolding json_reads_plain_def
proof (intro conjI allI impI)
  fix n assume "json_plain n"
  then have "quoted_at 9 (''{\"name\":\"'' @ n @ ''\"}'') = (n, ''\"}'')"
    by (intro quoted_at_append) simp_all
  then show "decode_create harness_json (create_body n) = Inr \<lparr>create_Name = n\<rparr>"
    by (simp add: harness_json_def create_body_def)
next
  fix v p a assume plain: "json_plain v" "json_plain p" "json_plain a"
  let ?c = "''\", \"cluster_address\":\"'' @ a @ ''\"}''"
  let ?p = "''\", \"physical_namespace\":\"'' @ p @ ?c"
  have "quoted_at 22 (''{\"virtual_namespace\":\"'' @ v @ ?p) = (v, ?p)"
    using plain by (simp add: quoted_at_append)
  moreover have "quoted_at 25 ?p = (p, ?c)" and "quoted_at 22 ?c = (a, ''\"}'')"
    using plain by (simp_all add: quoted_at_append)
  ultimately show "decode_manage harness_json (add_body v p a) =
      Inr \<lparr>mp_VirtualNamespace = v, mp_PhysicalNamespace = p, mp_ClusterAddress = a\<rparr>"
    by (simp add: harness_json_def add_body_def)
qed

definition harness_config :: config where
  "harness_config = example_config\<lparr>cfg_json := harness_json\<rparr>"

definition harness_system :: "(string \<times> string) list system" where
  "harness_system = \<lparr>sys_registry = empty_registry, sys_resolver = example_resolver []\<rparr>"

definition harness_ops :: "string \<Rightarrow> (string \<times> string) list system test_ops" where
  "harness_ops adminAPI =
     \<lparr>op_now = (\<lambda>_. 0), op_NewTicker = (\<lambda>_ d. d), op_tick = id, op_uuid = (\<lambda>d. (''id'', d)),
      op_CreateNamespace = (\<lambda>_ d. (None, d)), op_DescribeNamespace = (\<lambda>_ d. (None, d)),
      op_AddSearchAttributes = (\<lambda>_ _ d. (None, d)), op_ListSearchAttributes = (\<lambda>_ d. (Inr [], d)),
      op_UpdateNamespace = (\<lambda>_ _ d. (None, d)),
      op_post = (\<lambda>url body. exec harness_config (AdminCall (post_request (drop (length adminAPI) url) body) [])),
      op_NewCluster = (\<lambda>_ d. (Inl (Errorf ''''), d)), op_TearDownCluster = (\<lambda>_ d. (None, d))\<rparr>"

lemma harness_posts: "posts_to_tempura harness_config adminAPI id (harness_ops adminAPI)"
  by (simp add: posts_to_tempura_def harness_ops_def)

theorem registered_namespace_reaches_the_cluster_witness:
  "\<exists>r'. fst (serve harness_config (rpc_request SignalWorkflowExecution ''orders'' ''wf'') example_choices example_transport
     (snd (registerNamespaceWithTempura (harness_ops ''http://localhost:80'') ''http://localhost:80'' example_server ''orders''
        harness_system))) = Ret (Forwarded r') \<and> url_host r' = ''127.0.0.1:1''"
proof -
  have free: "collision_free (ext_sum32 (cfg_ext harness_config)) 50 {''orders::127.0.0.1:1''}"
    unfolding harness_config_def config.simps example_config_simps example_ext_def
    by (simp, rule first_byte_collision_free) auto
  have full: "reg_full (ext_sum32 (cfg_ext harness_config)) {''orders::127.0.0.1:1''} (sys_registry (id harness_system))"
    by (simp add: harness_system_def empty_registry_full)
  have names: "buildPhysicalNamespace ''orders'' ''127.0.0.1:1'' \<in> {''orders::127.0.0.1:1''}"
    "json_plain ''orders''" "json_plain ''127.0.0.1:1''" "plain_name ''orders''" "plain_addr ''127.0.0.1:1''"
    by code_simp+
  have state: "reg_statuses (sys_registry (id harness_system)) ''orders'' = None" "resolver_ok (sys_resolver (id harness_system))"
    by (simp_all add: harness_system_def reg_statuses_def empty_registry_def)
  have json: "json_reads_plain (cfg_json harness_config)"
    by (simp add: harness_config_def harness_json_plain)
  note reg = registered_namespace_reaches_the_cluster[OF harness_posts example_frontend full free names(1) json names(2,3) _ _
      state(1) names(4,5) state(2) refl, of "''http://localhost:80''"]
  let ?r = "rpc_request SignalWorkflowExecution ''orders'' ''wf''"
  have req: "dispatch (url_path ?r) = Some SignalWorkflowExecution" "req_body ?r = Inr (example_body ''orders'' ''wf'')"
    "request_payload (cfg_ext harness_config) SignalWorkflowExecution (example_body ''orders'' ''wf'') =
      Some \<lparr>WorkflowID = ''wf'', VirtualNamespaceName = ''orders''\<rparr>"
    using example_payloads(1)[of "''orders''" "''wf''"]
    by (simp_all add: harness_config_def del: request_payload.simps)
  have "uncached (sys_resolver harness_system) ''wf''"
    by (simp add: harness_system_def uncached_def)
  then show ?thesis
    using reg req by (fastforce simp del: request_payload.simps)
qed

end
