(* ===== verification/TestCluster.thy ===== *)
theory TestCluster
  imports Harness
begin

text \<open>
  The set-up and the tear-down of a test cluster (\<^verbatim>\<open>testcore/test_cluster.go\<close>): hosts and addresses, the persistence
  store, archival directories, the search index, the saved cluster metadata, certificates, the in-process server, and
  Tempura with its Redis beside it. Everything the code calls outside the repository is an operation of the record
  \<open>cluster_ops\<close>. What a run acquires and releases is in \<open>ClusterLedger\<close>.
\<close>

section \<open>Data\<close>

record persistence_options =
  po_settings :: "handle option"
  po_Logger :: handle
  po_FaultInjection :: "handle option"

record test_base =
  tb_MetadataManager :: handle
  tb_ClusterMetadataManager :: handle
  tb_ShardMgr :: handle
  tb_ExecutionManager :: handle
  tb_NamespaceReplicationQueue :: handle
  tb_AbstractDataStoreFactory :: handle
  tb_VisibilityStoreFactory :: handle
  tb_TaskMgr :: handle
  tb_Config :: persistence

record ArchiverBase =
  ab_metadata :: handle
  ab_provider :: handle
  historyStoreDirectory :: string
  visibilityStoreDirectory :: string
  historyURI :: string
  visibilityURI :: string

text \<open>The configuration of a cluster, with the fields that only the set-up looks at.\<close>

record cluster_setup = TestClusterConfig +
  tc_IsMasterCluster :: bool
  tc_ClusterMetadata :: cluster_config
  tc_FrontendConfig :: FrontendConfig
  tc_MatchingConfig :: MatchingConfig
  tc_ESConfig :: "handle option"
  tc_MockAdminClient :: "string \<rightharpoonup> handle"
  tc_TokenProvider :: "handle option"
  tc_TLSConfigProvider :: "handle option"

record 'c TestCluster =
  testBase :: test_base
  archiverBase :: ArchiverBase
  cl_host :: "'c TemporalImpl"
  miniredis :: "string option"
  tempuraCmd :: "handle option"
  proxyPort :: int
  adminPort :: int
  tempuraFrontendClient :: "handle option"

record save_request =
  HistoryShardCount :: int
  sr_ClusterName :: string
  ClusterId :: string
  IsConnectionEnabled :: bool
  IsReplicationEnabled :: bool
  IsGlobalNamespaceEnabled :: bool
  sr_FailoverVersionIncrement :: int
  ClusterAddress :: string
  HttpAddress :: string
  sr_InitialFailoverVersion :: int

record cliFlags =
  persistenceType :: string
  persistenceDriver :: string
  enableFaultInjection :: string

record tls_config =
  tls_ServerName :: string
  tls_Certificates :: "handle list"
  tls_ClientCAs :: "handle option"
  tls_RootCAs :: "handle option"
  RequireAndVerifyClientCert :: bool

record FixedTLSConfigProvider =
  InternodeServerConfig :: tls_config
  InternodeClientConfig :: tls_config
  FrontendServerConfig :: tls_config
  FrontendClientConfig :: tls_config

record cert_chain =
  CertPubFile :: string
  CertKeyFile :: string
  CaPubFile :: string

section \<open>What is called\<close>

text \<open>
  The operations on the state \<open>'d\<close> of the machine: ports and identifiers; the persistence test base with its defaults;
  archivers; files; Elasticsearch; TLS; the server's own functions; the container of the services; building and running
  programs; Redis and gRPC. A handle names an object. \<open>co_attempts\<close> is the number of repetitions the retry policy of one
  minute allows; \<open>co_built\<close> and \<open>co_set_built\<close> are the package variable \<^verbatim>\<open>buildTempuraOnce\<close>.
\<close>

record 'd cluster_ops =
  co_freeport :: "'d \<Rightarrow> int outcome \<times> 'd"
  co_uuid :: "'d \<Rightarrow> string \<times> 'd"
  co_ApplyDefaults :: "string \<Rightarrow> string \<Rightarrow> persistence_options \<Rightarrow> persistence_options"
  co_DefaultFaultInjection :: handle
  co_NewTestBase :: "persistence_options \<Rightarrow> 'd \<Rightarrow> test_base \<times> 'd"
  co_Setup :: "test_base \<Rightarrow> cluster_config \<Rightarrow> 'd \<Rightarrow> 'd"
  co_TearDownWorkflowStore :: "test_base \<Rightarrow> 'd \<Rightarrow> 'd"
  co_TestClusterMetadataConfig :: "bool \<Rightarrow> bool \<Rightarrow> cluster_config"
  co_NewArchivalMetadata :: "bool \<Rightarrow> handle"
  co_NoArchiverProvider :: handle
  co_NewArchiverProvider :: "handle option \<Rightarrow> handle option \<Rightarrow> handle \<Rightarrow> handle"
  co_URIScheme :: string
  co_MkdirTemp :: "string \<Rightarrow> 'd \<Rightarrow> string result \<times> 'd"
  co_RemoveAll :: "string \<Rightarrow> 'd \<Rightarrow> go_error option \<times> 'd"
  co_ReadFile :: "string \<Rightarrow> 'd \<Rightarrow> byte list result \<times> 'd"
  co_NewESConfig :: "string \<Rightarrow> handle"
  co_VisibilityIndex :: "handle \<Rightarrow> string"
  co_NewFunctionalTestsClient :: "handle \<Rightarrow> 'd \<Rightarrow> handle result \<times> 'd"
  co_Ping :: "handle \<Rightarrow> 'd \<Rightarrow> go_error option \<times> 'd"
  co_attempts :: "'d \<Rightarrow> nat"
  co_IndexExists :: "handle \<Rightarrow> string \<Rightarrow> 'd \<Rightarrow> bool result \<times> 'd"
  co_DeleteIndex :: "handle \<Rightarrow> string \<Rightarrow> 'd \<Rightarrow> go_error option \<times> 'd"
  co_IndexPutTemplate :: "handle \<Rightarrow> string \<Rightarrow> byte list \<Rightarrow> 'd \<Rightarrow> go_error option \<times> 'd"
  co_CreateIndex :: "handle \<Rightarrow> string \<Rightarrow> int \<Rightarrow> 'd \<Rightarrow> go_error option \<times> 'd"
  co_WaitForYellowStatus :: "handle \<Rightarrow> string \<Rightarrow> 'd \<Rightarrow> string result \<times> 'd"
  co_NewESClient :: "handle \<Rightarrow> 'd \<Rightarrow> handle result \<times> 'd"
  co_SaveClusterMetadata :: "save_request \<Rightarrow> 'd \<Rightarrow> go_error option \<times> 'd"
  co_ApplyClusterMetadata :: "cluster_config \<Rightarrow> persistence \<Rightarrow> 'd \<Rightarrow> (cluster_config \<times> persistence) result \<times> 'd"
  co_GenerateTestChain :: "string \<Rightarrow> string \<Rightarrow> 'd \<Rightarrow> cert_chain result \<times> 'd"
  co_LoadX509KeyPair :: "string \<Rightarrow> string \<Rightarrow> 'd \<Rightarrow> handle result \<times> 'd"
  co_AppendCertsFromPEM :: "byte list \<Rightarrow> handle option"
  co_tls_handle :: "FixedTLSConfigProvider \<Rightarrow> handle"
  co_NewTaskExecutor :: "string \<Rightarrow> handle \<Rightarrow> handle"
  co_TaskCategoryRegistry :: "handle \<Rightarrow> handle"
  co_CaptureHandler :: handle
  co_pprof_Start :: "'d \<Rightarrow> go_error option \<times> 'd"
  co_fx :: "'d fx_ops"
  co_built :: "'d \<Rightarrow> bool"
  co_set_built :: "'d \<Rightarrow> 'd"
  co_build :: "string list \<Rightarrow> 'd \<Rightarrow> go_error option \<times> 'd"
  co_projectRoot :: string
  co_miniredis_Run :: "'d \<Rightarrow> string result \<times> 'd"
  co_miniredis_Close :: "string \<Rightarrow> 'd \<Rightarrow> 'd"
  co_exec_Start :: "string list \<Rightarrow> 'd \<Rightarrow> handle result \<times> 'd"
  co_Kill :: "handle \<Rightarrow> 'd \<Rightarrow> 'd"
  co_grpc_Dial :: "string \<Rightarrow> 'd \<Rightarrow> handle result \<times> 'd"

section \<open>Hosts\<close>

definition do_port :: "'d cluster_ops \<Rightarrow> 'd \<Rightarrow> int result outcome \<times> 'd" where
  "do_port ops d = (let (r, d) = co_freeport ops d in (and_then r (\<lambda>p. Ret (Inr p)), d))"

fun fill_addresses :: "'d cluster_ops \<Rightarrow> nat \<Rightarrow> string list \<Rightarrow> 'd \<Rightarrow> string list result outcome \<times> 'd" where
  "fill_addresses ops 0 hosts d = (Ret (Inr hosts), d)"
| "fill_addresses ops (Suc n) hosts d =
     and_try (do_port ops d) (\<lambda>port d. fill_addresses ops n (hosts @ [''127.0.0.1:'' @ Itoa port]) d)"

definition makeAddresses :: "'d cluster_ops \<Rightarrow> int \<Rightarrow> 'd \<Rightarrow> string list result outcome \<times> 'd" where
  "makeAddresses ops n d =
     (if n < 0 then (Panic ''makeslice: len out of range'', d) else fill_addresses ops (nat n) [] d)"

definition host_counts :: "cluster_setup \<Rightarrow> cluster_setup" where
  "host_counts cfg =
     (let minNodes = 1;
          cfg = cfg\<lparr>tc_FrontendConfig := (tc_FrontendConfig cfg)\<lparr>NumFrontendHosts := max minNodes (NumFrontendHosts (tc_FrontendConfig cfg))\<rparr>\<rparr>;
          cfg = cfg\<lparr>tc_HistoryConfig := (tc_HistoryConfig cfg)\<lparr>NumHistoryHosts := max minNodes (NumHistoryHosts (tc_HistoryConfig cfg))\<rparr>\<rparr>;
          cfg = cfg\<lparr>tc_MatchingConfig := (tc_MatchingConfig cfg)\<lparr>NumMatchingHosts := max minNodes (NumMatchingHosts (tc_MatchingConfig cfg))\<rparr>\<rparr>;
          cfg = cfg\<lparr>tc_WorkerConfig := (tc_WorkerConfig cfg)\<lparr>NumWorkers := max minNodes (NumWorkers (tc_WorkerConfig cfg))\<rparr>\<rparr>
      in if DisableWorker (tc_WorkerConfig cfg) then cfg\<lparr>tc_WorkerConfig := (tc_WorkerConfig cfg)\<lparr>NumWorkers := 0\<rparr>\<rparr> else cfg)"

definition all_hosts :: "string list \<Rightarrow> Hosts" where
  "all_hosts hosts = \<lparr>hosts_Self = '''', hosts_All = hosts\<rparr>"

definition allocate_hosts :: "'d cluster_ops \<Rightarrow> cluster_setup \<Rightarrow> 'd \<Rightarrow> host_table result outcome \<times> 'd" where
  "allocate_hosts ops cfg d =
     and_try (makeAddresses ops (NumFrontendHosts (tc_FrontendConfig cfg)) d) (\<lambda>frontend d.
     and_try (makeAddresses ops (NumMatchingHosts (tc_MatchingConfig cfg)) d) (\<lambda>matching d.
     and_try (makeAddresses ops (NumHistoryHosts (tc_HistoryConfig cfg)) d) (\<lambda>history d.
     and_try (makeAddresses ops (NumWorkers (tc_WorkerConfig cfg)) d) (\<lambda>worker d.
     and_try (makeAddresses ops (NumFrontendHosts (tc_FrontendConfig cfg)) d) (\<lambda>http d.
       (Ret (Inr [grpcProtocol \<mapsto> [FrontendService \<mapsto> all_hosts frontend, MatchingService \<mapsto> all_hosts matching,
                                    HistoryService \<mapsto> all_hosts history, WorkerService \<mapsto> all_hosts worker],
                  httpProtocol \<mapsto> [FrontendService \<mapsto> all_hosts http]]), d))))))"

text \<open>
  The address of the cluster in its own metadata. \<open>own\<close> are the clusters the configuration knows; a cluster that it does
  not know is added with the zero value.
\<close>

definition zero_information :: cluster_information where
  "zero_information = \<lparr>ci_Enabled = False, ci_ReplicationEnabled = False, ci_InitialFailoverVersion = 0, ci_RPCAddress = '''',
     ci_HTTPAddress = '''', ci_ClusterID = '''', ci_ShardCount = 0\<rparr>"

definition set_self_address :: "string list \<Rightarrow> host_table \<Rightarrow> cluster_setup \<Rightarrow> cluster_setup outcome" where
  "set_self_address own hosts cfg =
     (if own = [] then Ret cfg
      else case (hosts_All (hosts_of hosts grpcProtocol FrontendService), hosts_All (hosts_of hosts httpProtocol FrontendService)) of
        (rpc # _, http # _) \<Rightarrow>
          let m = tc_ClusterMetadata cfg;
              ci = (case ClusterInformation m (CurrentClusterName m) of None \<Rightarrow> zero_information | Some ci \<Rightarrow> ci);
              ci = ci\<lparr>ci_RPCAddress := rpc, ci_HTTPAddress := http\<rparr>
          in Ret (cfg\<lparr>tc_ClusterMetadata := m\<lparr>ClusterInformation := (ClusterInformation m)(CurrentClusterName m \<mapsto> ci)\<rparr>\<rparr>)
      | _ \<Rightarrow> Panic ''index out of range [0] with length 0'')"

definition metadata_config :: "'d cluster_ops \<Rightarrow> cluster_setup \<Rightarrow> cluster_config" where
  "metadata_config ops cfg =
     (let m = tc_ClusterMetadata cfg in
      if \<not> tc_IsMasterCluster cfg \<and> MasterClusterName m \<noteq> '''' then
        \<lparr>EnableGlobalNamespace = EnableGlobalNamespace m, FailoverVersionIncrement = FailoverVersionIncrement m,
         MasterClusterName = MasterClusterName m, CurrentClusterName = CurrentClusterName m,
         ClusterInformation = ClusterInformation m\<rparr>
      else co_TestClusterMetadataConfig ops (EnableGlobalNamespace m) (tc_IsMasterCluster cfg))"

section \<open>Stores, archivers, index, certificates\<close>

text \<open>The default fault injection is added when the flag is set and the test has none of its own.\<close>

definition factory_NewTestBase :: "'d cluster_ops \<Rightarrow> cliFlags \<Rightarrow> persistence_options \<Rightarrow> 'd \<Rightarrow> test_base \<times> 'd" where
  "factory_NewTestBase ops flags options d =
     (let options = co_ApplyDefaults ops (persistenceType flags) (persistenceDriver flags) options;
          options = (if enableFaultInjection flags \<noteq> '''' \<and> po_FaultInjection options = None
                     then options\<lparr>po_FaultInjection := Some (co_DefaultFaultInjection ops)\<rparr> else options)
      in co_NewTestBase ops options d)"

text \<open>A directory that cannot be made ends the process.\<close>

definition newArchiverBase ::
    "'d cluster_ops \<Rightarrow> bool \<Rightarrow> handle option \<Rightarrow> handle option \<Rightarrow> handle \<Rightarrow> 'd \<Rightarrow> ArchiverBase outcome \<times> 'd" where
  "newArchiverBase ops enabled historyFactory visibilityFactory execMgr d =
     (if \<not> enabled then
        (Ret \<lparr>ab_metadata = co_NewArchivalMetadata ops False, ab_provider = co_NoArchiverProvider ops,
              historyStoreDirectory = '''', visibilityStoreDirectory = '''', historyURI = '''', visibilityURI = ''''\<rparr>, d)
      else case co_MkdirTemp ops ''test-history-archival'' d of
        (Inl err, d) \<Rightarrow> (Panic ''Failed to create temp dir for history archival'', d)
      | (Inr historyDir, d) \<Rightarrow>
          (case co_MkdirTemp ops ''test-visibility-archival'' d of
             (Inl err, d) \<Rightarrow> (Panic ''Failed to create temp dir for visibility archival'', d)
           | (Inr visibilityDir, d) \<Rightarrow>
               (Ret \<lparr>ab_metadata = co_NewArchivalMetadata ops True,
                     ab_provider = co_NewArchiverProvider ops historyFactory visibilityFactory execMgr,
                     historyStoreDirectory = historyDir, visibilityStoreDirectory = visibilityDir,
                     historyURI = co_URIScheme ops @ ''://'' @ historyDir,
                     visibilityURI = co_URIScheme ops @ ''://'' @ visibilityDir\<rparr>, d)))"

definition deleteIndex :: "'d cluster_ops \<Rightarrow> handle \<Rightarrow> 'd \<Rightarrow> unit result outcome \<times> 'd" where
  "deleteIndex ops esCfg d =
     and_try (do_call (co_NewFunctionalTestsClient ops esCfg d)) (\<lambda>esC d.
     and_try (do_err (co_DeleteIndex ops esC (co_VisibilityIndex ops esCfg) d)) (\<lambda>_ d.
       (Ret (Inr ()), d)))"

definition waitForYellowStatus :: "'d cluster_ops \<Rightarrow> handle \<Rightarrow> string \<Rightarrow> 'd \<Rightarrow> unit result outcome \<times> 'd" where
  "waitForYellowStatus ops esC index d =
     and_try (do_call (co_WaitForYellowStatus ops esC index d)) (\<lambda>status d.
       (if status = ''red'' then (Ret (Inl (Errorf (''Elasticsearch index status for '' @ index @ '' is red''))), d)
        else (Ret (Inr ()), d)))"

text \<open>\<^verbatim>\<open>backoff.ThrottleRetry\<close> repeats a failing operation until its policy expires, and returns the last error.\<close>

fun throttle_retry :: "nat \<Rightarrow> ('d \<Rightarrow> 'a result \<times> 'd) \<Rightarrow> 'd \<Rightarrow> 'a result \<times> 'd" where
  "throttle_retry 0 op d = op d"
| "throttle_retry (Suc n) op d = (case op d of (Inr x, d) \<Rightarrow> (Inr x, d) | (Inl _, d) \<Rightarrow> throttle_retry n op d)"

definition connect_es :: "'d cluster_ops \<Rightarrow> handle \<Rightarrow> 'd \<Rightarrow> handle result \<times> 'd" where
  "connect_es ops esCfg d =
     (case co_NewFunctionalTestsClient ops esCfg d of
        (Inl err, d) \<Rightarrow> (Inl err, d)
      | (Inr esC, d) \<Rightarrow>
          (case co_Ping ops esC d of (Some err, d) \<Rightarrow> (Inl err, d) | (None, d) \<Rightarrow> (Inr esC, d)))"

definition setupIndex :: "'d cluster_ops \<Rightarrow> string \<Rightarrow> handle \<Rightarrow> 'd \<Rightarrow> unit result outcome \<times> 'd" where
  "setupIndex ops repoRoot esCfg d =
     (let index = co_VisibilityIndex ops esCfg in
      case throttle_retry (co_attempts ops d) (connect_es ops esCfg) d of
        (Inl err, d) \<Rightarrow> (Panic ''Failed to connect to elasticsearch'', d)
      | (Inr esC, d) \<Rightarrow>
          and_try (do_call (co_IndexExists ops esC index d)) (\<lambda>exists d.
          and_try (if exists then deleteIndex ops esCfg d else (Ret (Inr ()), d)) (\<lambda>_ d.
          and_try (do_call (co_ReadFile ops (repoRoot @ ''/schema/elasticsearch/visibility/index_template_v7.json'') d)) (\<lambda>tmpl d.
          and_try (do_err (co_IndexPutTemplate ops esC ''temporal_visibility_v1_template'' tmpl d)) (\<lambda>_ d.
          and_try (do_err (co_CreateIndex ops esC index 0 d)) (\<lambda>_ d.
          and_try (waitForYellowStatus ops esC index d) (\<lambda>_ d.
            waitForYellowStatus ops esC index d)))))))"

text \<open>The visibility store: the configuration of Elasticsearch, its client and the persistence configuration with both.\<close>

definition setup_visibility ::
    "'d cluster_ops \<Rightarrow> string list \<Rightarrow> cliFlags \<Rightarrow> string \<Rightarrow> persistence \<Rightarrow> 'd
     \<Rightarrow> (handle option \<times> handle option \<times> persistence) result outcome \<times> 'd" where
  "setup_visibility ops sqlPlugins flags repoRoot pConfig d =
     (if UseSQLVisibility sqlPlugins (persistenceDriver flags) then (Ret (Inr (None, None, pConfig)), d)
      else let (uuid, d) = co_uuid ops d;
               es = co_NewESConfig ops (RandomizeStr ''temporal_visibility_v1_test'' uuid)
           in and_try (setupIndex ops repoRoot es d) (\<lambda>_ d.
              let pConfig = pConfig\<lparr>VisibilityStore := ''test-es-visibility'',
                    pc_DataStores := (pc_DataStores pConfig)(''test-es-visibility'' \<mapsto>
                      \<lparr>ds_settings = 0, FaultInjection = None, Elasticsearch = Some es\<rparr>)\<rparr>
              in and_try (do_call (co_NewESClient ops es d)) (\<lambda>esC d.
                   (Ret (Inr (Some es, Some esC, pConfig)), d))))"

text \<open>\<open>keys\<close> is the order of the range over the cluster information.\<close>

fun save_metadata ::
    "'d cluster_ops \<Rightarrow> int \<Rightarrow> cluster_config \<Rightarrow> string list \<Rightarrow> (string \<rightharpoonup> cluster_information) \<Rightarrow> 'd
     \<Rightarrow> (string \<rightharpoonup> cluster_information) result outcome \<times> 'd" where
  "save_metadata ops shards m [] infos d = (Ret (Inr infos), d)"
| "save_metadata ops shards m (clusterName # keys) infos d =
     (case ClusterInformation m clusterName of
        None \<Rightarrow> save_metadata ops shards m keys infos d
      | Some info \<Rightarrow>
          let (uuid, d) = co_uuid ops d;
              info = info\<lparr>ci_ShardCount := shards, ci_ClusterID := uuid\<rparr>
          in and_try (do_err (co_SaveClusterMetadata ops
               \<lparr>HistoryShardCount = shards, sr_ClusterName = clusterName, ClusterId = ci_ClusterID info,
                IsConnectionEnabled = ci_Enabled info, IsReplicationEnabled = ci_ReplicationEnabled info,
                IsGlobalNamespaceEnabled = EnableGlobalNamespace m, sr_FailoverVersionIncrement = FailoverVersionIncrement m,
                ClusterAddress = ci_RPCAddress info, HttpAddress = ci_HTTPAddress info,
                sr_InitialFailoverVersion = ci_InitialFailoverVersion info\<rparr> d)) (\<lambda>_ d.
               save_metadata ops shards m keys (infos(clusterName \<mapsto> info)) d))"

definition TlsCertCommonName :: string where
  "TlsCertCommonName = ''my-common-name''"

definition chain_provider :: "'d cluster_ops \<Rightarrow> string \<Rightarrow> 'd \<Rightarrow> FixedTLSConfigProvider result outcome \<times> 'd" where
  "chain_provider ops tempDir d =
     and_try (do_call (co_GenerateTestChain ops tempDir TlsCertCommonName d)) (\<lambda>certChain d.
     and_try (do_call (co_LoadX509KeyPair ops (CertPubFile certChain) (CertKeyFile certChain) d)) (\<lambda>tlsCert d.
     and_try (do_call (co_ReadFile ops (CaPubFile certChain) d)) (\<lambda>caCertBytes d.
       (case co_AppendCertsFromPEM ops caCertBytes of
          None \<Rightarrow> (Ret (Inl (Errorf ''failed adding CA to pool'')), d)
        | Some caCertPool \<Rightarrow>
            (let server = \<lparr>tls_ServerName = '''', tls_Certificates = [tlsCert], tls_ClientCAs = Some caCertPool,
                           tls_RootCAs = None, RequireAndVerifyClientCert = True\<rparr>;
                 client = \<lparr>tls_ServerName = TlsCertCommonName, tls_Certificates = [tlsCert], tls_ClientCAs = None,
                           tls_RootCAs = Some caCertPool, RequireAndVerifyClientCert = False\<rparr>
             in (Ret (Inr \<lparr>InternodeServerConfig = server, InternodeClientConfig = client,
                           FrontendServerConfig = server, FrontendClientConfig = client\<rparr>), d))))))"

text \<open>The directory of the certificates is removed however the function ends.\<close>

definition createFixedTLSConfigProvider :: "'d cluster_ops \<Rightarrow> 'd \<Rightarrow> FixedTLSConfigProvider result outcome \<times> 'd" where
  "createFixedTLSConfigProvider ops d =
     and_try (do_call (co_MkdirTemp ops '''' d)) (\<lambda>tempDir d.
       let (r, d) = chain_provider ops tempDir d in (r, snd (co_RemoveAll ops tempDir d)))"

definition tls_provider :: "'d cluster_ops \<Rightarrow> cluster_setup \<Rightarrow> 'd \<Rightarrow> handle option result outcome \<times> 'd" where
  "tls_provider ops cfg d =
     (case tc_TLSConfigProvider cfg of
        Some provider \<Rightarrow> (Ret (Inr (Some provider)), d)
      | None \<Rightarrow>
          if tc_EnableMTLS cfg
          then and_try (createFixedTLSConfigProvider ops d) (\<lambda>provider d. (Ret (Inr (Some (co_tls_handle ops provider))), d))
          else (Ret (Inr None), d))"

section \<open>The server and Tempura\<close>

text \<open>
  What the set-up of a cluster reads beside its configuration: the logger; the dynamic configuration store, its
  defaults and the draws of the server; the flags and the plugins with SQL visibility; the root of the repository; and the
  orders of the maps that are ranged over (\<open>su_own\<close> are the clusters of the configuration).
\<close>

record 'c setup_env =
  su_logger :: handle
  su_store :: "'c config_store"
  su_dc :: 'c
  su_defaults :: "(string \<times> dyn_value) list"
  su_pick :: nat
  su_server :: server_env
  su_flags :: cliFlags
  su_sqlPlugins :: "string list"
  su_repoRoot :: string
  su_own :: "string list"
  su_clusters :: "string list"
  su_overrides :: "string list"

definition in_order :: "string list \<Rightarrow> (string \<rightharpoonup> dyn_value) option \<Rightarrow> (string \<times> dyn_value) list" where
  "in_order keys m = List.map_filter (\<lambda>k. Option.bind m (\<lambda>m. map_option (Pair k) (m k))) keys"

definition temporal_params ::
    "'d cluster_ops \<Rightarrow> 'c setup_env \<Rightarrow> cluster_setup \<Rightarrow> test_base \<Rightarrow> ArchiverBase \<Rightarrow> cluster_config \<Rightarrow> persistence \<Rightarrow> handle option
     \<Rightarrow> handle option \<Rightarrow> host_table \<Rightarrow> TemporalParams" where
  "temporal_params ops su cfg tb ab m pConfig esC tls hosts =
     \<lparr>p_ClusterMetadataConfig = m, p_PersistenceConfig = pConfig, p_MetadataMgr = tb_MetadataManager tb,
      p_ClusterMetadataManager = tb_ClusterMetadataManager tb, p_ShardMgr = tb_ShardMgr tb,
      p_ExecutionManager = tb_ExecutionManager tb, p_TaskMgr = tb_TaskMgr tb,
      p_NamespaceReplicationQueue = tb_NamespaceReplicationQueue tb,
      p_AbstractDataStoreFactory = tb_AbstractDataStoreFactory tb, p_VisibilityStoreFactory = tb_VisibilityStoreFactory tb,
      p_Logger = su_logger su, p_ArchiverMetadata = ab_metadata ab, p_ArchiverProvider = ab_provider ab,
      p_FrontendConfig = tc_FrontendConfig cfg, p_HistoryConfig = tc_HistoryConfig cfg, p_MatchingConfig = tc_MatchingConfig cfg,
      p_WorkerConfig = tc_WorkerConfig cfg, p_ESConfig = tc_ESConfig cfg, p_ESClient = esC,
      p_MockAdminClient = tc_MockAdminClient cfg,
      p_NamespaceReplicationTaskExecutor = co_NewTaskExecutor ops (CurrentClusterName (tc_ClusterMetadata cfg)) (tb_MetadataManager tb),
      p_DCRedirectionPolicy = tc_DCRedirectionPolicy cfg,
      p_DynamicConfigOverrides = in_order (su_overrides su) (tc_DynamicConfigOverrides cfg), p_TLSConfigProvider = tls,
      p_CaptureMetricsHandler = (if tc_EnableMetricsCapture cfg then Some (co_CaptureHandler ops) else None),
      p_ServiceFxOptions = tc_ServiceFxOptions cfg, p_TaskCategoryRegistry = co_TaskCategoryRegistry ops (ab_metadata ab),
      p_HostsByProtocolByService = hosts,
      p_SpanExporters = (case tc_SpanExporters cfg of None \<Rightarrow> 0 | Some e \<Rightarrow> e), p_TokenProvider = tc_TokenProvider cfg\<rparr>"

definition start_server ::
    "'d cluster_ops \<Rightarrow> 'c setup_env \<Rightarrow> TemporalParams \<Rightarrow> cleanups \<Rightarrow> 'd \<Rightarrow> (cleanups \<times> 'c TemporalImpl) result outcome \<times> 'd" where
  "start_server ops su params t d =
     (case co_pprof_Start ops d of
        (Some err, d) \<Rightarrow> (Panic ''Failed to start pprof'', d)
      | (None, d) \<Rightarrow>
          (case newTemporal (su_store su) (su_dc su) (su_defaults su) (su_pick su) params t of
             Panic msg \<Rightarrow> (Panic msg, d)
           | Hang \<Rightarrow> (Hang, d)
           | Ret (t, cluster) \<Rightarrow>
               (let (r, cluster, d) = Start (co_fx ops) (su_server su) cluster d
                in (and_then r (\<lambda>e. Ret (case e of Some err \<Rightarrow> Inl err | None \<Rightarrow> Inr (t, cluster))), d))))"

text \<open>Tempura is built once in the life of the test process.\<close>

definition build_tempura :: "'d cluster_ops \<Rightarrow> 'd \<Rightarrow> unit result outcome \<times> 'd" where
  "build_tempura ops d =
     (if co_built ops d then (Ret (Inr ()), d)
      else case co_build ops [''go'', ''build'', ''-o'', ''tempura_test_bin''] (co_set_built ops d) of
        (Some err, d) \<Rightarrow> (Panic ''Failed to build tempura'', d)
      | (None, d) \<Rightarrow> (Ret (Inr ()), d))"

definition localhost :: "int \<Rightarrow> string" where
  "localhost port = ''localhost:'' @ Itoa port"

definition tempura_args :: "string \<Rightarrow> string \<Rightarrow> int \<Rightarrow> int \<Rightarrow> string \<Rightarrow> string list" where
  "tempura_args projectRoot redisAddr proxy admin frontend =
     [projectRoot @ ''/tempura_test_bin'', ''-redis-addr'', redisAddr, ''-listen-addr'', localhost proxy,
      ''-admin-port'', Itoa admin, ''-default-target'', ''http://'' @ frontend]"

definition start_tempura ::
    "'d cluster_ops \<Rightarrow> 'c TemporalImpl \<Rightarrow> 'd \<Rightarrow> (string \<times> int \<times> int \<times> handle \<times> handle) result outcome \<times> 'd" where
  "start_tempura ops cluster d =
     and_try (do_call (co_miniredis_Run ops d)) (\<lambda>mr d.
     and_try (do_port ops d) (\<lambda>proxy d.
     and_try (do_port ops d) (\<lambda>admin d.
     and_try (and_then (FrontendGRPCAddress cluster) (\<lambda>addr. Ret (Inr addr)), d) (\<lambda>addr d.
     and_try (do_call (co_exec_Start ops (tempura_args (co_projectRoot ops) mr proxy admin addr) d)) (\<lambda>cmd d.
     and_try (do_call (co_grpc_Dial ops (localhost proxy) d)) (\<lambda>conn d.
       (Ret (Inr (mr, proxy, admin, cmd, conn)), d)))))))"

section \<open>Set-up and tear-down\<close>

definition setup_store ::
    "'d cluster_ops \<Rightarrow> 'c setup_env \<Rightarrow> cluster_setup \<Rightarrow> cluster_config \<Rightarrow> 'd \<Rightarrow> (test_base \<times> ArchiverBase) result outcome \<times> 'd" where
  "setup_store ops su cfg m d =
     (let (tb, d) = factory_NewTestBase ops (su_flags su)
            \<lparr>po_settings = tc_Persistence cfg, po_Logger = su_logger su, po_FaultInjection = tc_FaultInjection cfg\<rparr> d;
          d = co_Setup ops tb m d;
          (ab, d) = newArchiverBase ops (tc_EnableArchival cfg) (tc_CustomHistoryArchiverFactory cfg)
            (tc_CustomVisibilityArchiverFactory cfg) (tb_ExecutionManager tb) d
      in (and_then ab (\<lambda>ab. Ret (Inr (tb, ab))), d))"

text \<open>The configuration of the server: visibility, the saved metadata of the clusters, certificates.\<close>

definition configure ::
    "'d cluster_ops \<Rightarrow> 'c setup_env \<Rightarrow> cluster_setup \<Rightarrow> test_base \<Rightarrow> cluster_config \<Rightarrow> 'd
     \<Rightarrow> (handle option \<times> handle option \<times> cluster_config \<times> persistence \<times> handle option) result outcome \<times> 'd" where
  "configure ops su cfg tb m d =
     (let shards = NumHistoryShards (tc_HistoryConfig cfg);
          pConfig = (tb_Config tb)\<lparr>pc_NumHistoryShards := shards\<rparr>
      in and_try (setup_visibility ops (su_sqlPlugins su) (su_flags su) (su_repoRoot su) pConfig d) (\<lambda>(es, esC, pConfig) d.
         and_try (save_metadata ops shards m (su_clusters su) Map.empty d) (\<lambda>infos d.
         and_try (do_call (co_ApplyClusterMetadata ops (m\<lparr>ClusterInformation := infos\<rparr>) pConfig d)) (\<lambda>(m, pConfig) d.
         and_try (tls_provider ops cfg d) (\<lambda>tls d.
           (Ret (Inr (es, esC, m, pConfig, tls)), d))))))"

definition NewCluster ::
    "'d cluster_ops \<Rightarrow> 'c setup_env \<Rightarrow> cluster_setup \<Rightarrow> cleanups \<Rightarrow> 'd \<Rightarrow> (cleanups \<times> 'c TestCluster) result outcome \<times> 'd" where
  "NewCluster ops su cfg t d =
     (let cfg = host_counts cfg in
      and_try (allocate_hosts ops cfg d) (\<lambda>hosts d.
      and_try (and_then (set_self_address (su_own su) hosts cfg) (\<lambda>cfg. Ret (Inr cfg)), d) (\<lambda>cfg d.
      let m = metadata_config ops cfg in
      and_try (setup_store ops su cfg m d) (\<lambda>(tb, ab) d.
      and_try (configure ops su cfg tb m d) (\<lambda>(es, esC, m, pConfig, tls) d.
      let cfg = cfg\<lparr>tc_ESConfig := es\<rparr> in
      and_try (start_server ops su (temporal_params ops su cfg tb ab m pConfig esC tls hosts) t d) (\<lambda>(t, cluster) d.
      and_try (build_tempura ops d) (\<lambda>_ d.
      and_try (start_tempura ops cluster d) (\<lambda>(mr, proxy, admin, cmd, conn) d.
        (Ret (Inr (t, \<lparr>testBase = tb, archiverBase = ab, cl_host = cluster, miniredis = Some mr, tempuraCmd = Some cmd,
           proxyPort = proxy, adminPort = admin, tempuraFrontendClient = Some conn\<rparr>)), d)))))))))"

definition cluster_TearDown ::
    "'d cluster_ops \<Rightarrow> string list \<Rightarrow> cliFlags \<Rightarrow> 'c TestCluster \<Rightarrow> 'd \<Rightarrow> go_error list \<times> 'c TestCluster \<times> 'd" where
  "cluster_TearDown ops sqlPlugins flags tc d =
     (let (errs, host, d) = Stop (co_fx ops) (cl_host tc) d;
          d = co_TearDownWorkflowStore ops (testBase tc) d;
          (errs, d) = (case esConfig host of
             Some es \<Rightarrow>
               if UseSQLVisibility sqlPlugins (persistenceDriver flags) then (errs, d)
               else (case deleteIndex ops es d of (Ret (Inl err), d) \<Rightarrow> (errs @ [err], d) | (_, d) \<Rightarrow> (errs, d))
           | None \<Rightarrow> (errs, d));
          (err, d) = co_RemoveAll ops (historyStoreDirectory (archiverBase tc)) d;
          errs = errs @ (case err of None \<Rightarrow> [] | Some e \<Rightarrow> [e]);
          (err, d) = co_RemoveAll ops (visibilityStoreDirectory (archiverBase tc)) d;
          errs = errs @ (case err of None \<Rightarrow> [] | Some e \<Rightarrow> [e]);
          d = (case miniredis tc of None \<Rightarrow> d | Some mr \<Rightarrow> co_miniredis_Close ops mr d);
          d = (case tempuraCmd tc of None \<Rightarrow> d | Some cmd \<Rightarrow> co_Kill ops cmd d)
      in (errs, tc\<lparr>cl_host := host\<rparr>, d))"

text \<open>Tests talk to the cluster through Tempura.\<close>

definition cluster_FrontendClient :: "'c TestCluster \<Rightarrow> handle option" where
  "cluster_FrontendClient tc =
     (case tempuraFrontendClient tc of Some c \<Rightarrow> Some c | None \<Rightarrow> frontendClient (cl_host tc))"

definition TempuraProxyGRPCAddress :: "'c TestCluster \<Rightarrow> string" where
  "TempuraProxyGRPCAddress tc = ''localhost:'' @ Itoa (proxyPort tc)"

definition TempuraAdminAPIAddress :: "'c TestCluster \<Rightarrow> string" where
  "TempuraAdminAPIAddress tc = ''http://localhost:'' @ Itoa (adminPort tc)"

end
