(* ===== verification/ClusterLedger.thy ===== *)
theory ClusterLedger
  imports TestCluster
begin

text \<open>
  The ledger of a test cluster: what its set-up acquires (services, store, directories, search index, profiler, Redis,
  the process of Tempura and the connection to it), what its tear-down gives up, and what a set-up that fails leaves
  behind.
\<close>

section \<open>What a run acquires and releases\<close>

text \<open>
  The same operations with a log of what was acquired and released beside the events of the services. A release is
  noted when it is tried; an acquisition when it succeeds, except that the start of a service is noted when it is called
  (a set-up in which one fails does not succeed). No operation of the code gives up the profiler or the connection.
\<close>

datatype tc_event =
    Store_up | Store_down
  | Dir_made string | Dir_removed string
  | Index_made string | Index_deleted string
  | Redis_started string | Redis_closed string
  | Process_started handle "string list" | Process_killed handle
  | Pprof_started | Conn_opened handle

type_synonym tc_log = "tc_event fx_event list"

definition quiet :: "('d \<Rightarrow> 'a \<times> 'd) \<Rightarrow> 'd \<times> tc_log \<Rightarrow> 'a \<times> 'd \<times> tc_log" where
  "quiet f = (\<lambda>(d, log). let (x, d) = f d in (x, d, log))"

definition noting :: "('a \<Rightarrow> tc_event list) \<Rightarrow> ('d \<Rightarrow> 'a \<times> 'd) \<Rightarrow> 'd \<times> tc_log \<Rightarrow> 'a \<times> 'd \<times> tc_log" where
  "noting ev f = (\<lambda>(d, log). let (x, d) = f d in (x, d, log @ map Beside (ev x)))"

definition on_success :: "('a \<Rightarrow> tc_event) \<Rightarrow> 'a result \<Rightarrow> tc_event list" where
  "on_success ev r = (case r of Inr x \<Rightarrow> [ev x] | Inl _ \<Rightarrow> [])"

definition tracked :: "'d cluster_ops \<Rightarrow> ('d \<times> tc_log) cluster_ops" where
  "tracked ops =
     \<lparr>co_freeport = quiet (co_freeport ops), co_uuid = quiet (co_uuid ops), co_ApplyDefaults = co_ApplyDefaults ops,
      co_DefaultFaultInjection = co_DefaultFaultInjection ops, co_NewTestBase = (\<lambda>opts. quiet (co_NewTestBase ops opts)),
      co_Setup = (\<lambda>tb m (d, log). (co_Setup ops tb m d, log @ [Beside Store_up])),
      co_TearDownWorkflowStore = (\<lambda>tb (d, log). (co_TearDownWorkflowStore ops tb d, log @ [Beside Store_down])),
      co_TestClusterMetadataConfig = co_TestClusterMetadataConfig ops, co_NewArchivalMetadata = co_NewArchivalMetadata ops,
      co_NoArchiverProvider = co_NoArchiverProvider ops, co_NewArchiverProvider = co_NewArchiverProvider ops,
      co_URIScheme = co_URIScheme ops,
      co_MkdirTemp = (\<lambda>p. noting (on_success Dir_made) (co_MkdirTemp ops p)),
      co_RemoveAll = (\<lambda>p. noting (\<lambda>_. [Dir_removed p]) (co_RemoveAll ops p)),
      co_ReadFile = (\<lambda>p. quiet (co_ReadFile ops p)), co_NewESConfig = co_NewESConfig ops,
      co_VisibilityIndex = co_VisibilityIndex ops,
      co_NewFunctionalTestsClient = (\<lambda>es. quiet (co_NewFunctionalTestsClient ops es)), co_Ping = (\<lambda>c. quiet (co_Ping ops c)),
      co_attempts = (\<lambda>(d, log). co_attempts ops d), co_IndexExists = (\<lambda>c i. quiet (co_IndexExists ops c i)),
      co_DeleteIndex = (\<lambda>c i. noting (\<lambda>_. [Index_deleted i]) (co_DeleteIndex ops c i)),
      co_IndexPutTemplate = (\<lambda>c n bs. quiet (co_IndexPutTemplate ops c n bs)),
      co_CreateIndex = (\<lambda>c i n. noting (\<lambda>e. if e = None then [Index_made i] else []) (co_CreateIndex ops c i n)),
      co_WaitForYellowStatus = (\<lambda>c i. quiet (co_WaitForYellowStatus ops c i)),
      co_NewESClient = (\<lambda>es. quiet (co_NewESClient ops es)),
      co_SaveClusterMetadata = (\<lambda>rq. quiet (co_SaveClusterMetadata ops rq)),
      co_ApplyClusterMetadata = (\<lambda>m p. quiet (co_ApplyClusterMetadata ops m p)),
      co_GenerateTestChain = (\<lambda>dir n. quiet (co_GenerateTestChain ops dir n)),
      co_LoadX509KeyPair = (\<lambda>p k. quiet (co_LoadX509KeyPair ops p k)), co_AppendCertsFromPEM = co_AppendCertsFromPEM ops,
      co_tls_handle = co_tls_handle ops, co_NewTaskExecutor = co_NewTaskExecutor ops,
      co_TaskCategoryRegistry = co_TaskCategoryRegistry ops, co_CaptureHandler = co_CaptureHandler ops,
      co_pprof_Start = noting (\<lambda>e. if e = None then [Pprof_started] else []) (co_pprof_Start ops), co_fx = traced (co_fx ops), co_built = (\<lambda>(d, log). co_built ops d),
      co_set_built = (\<lambda>(d, log). (co_set_built ops d, log)), co_build = (\<lambda>args. quiet (co_build ops args)),
      co_projectRoot = co_projectRoot ops,
      co_miniredis_Run = noting (on_success Redis_started) (co_miniredis_Run ops),
      co_miniredis_Close = (\<lambda>mr (d, log). (co_miniredis_Close ops mr d, log @ [Beside (Redis_closed mr)])),
      co_exec_Start = (\<lambda>args. noting (on_success (\<lambda>cmd. Process_started cmd args)) (co_exec_Start ops args)),
      co_Kill = (\<lambda>cmd (d, log). (co_Kill ops cmd d, log @ [Beside (Process_killed cmd)])),
      co_grpc_Dial = (\<lambda>a. noting (on_success Conn_opened) (co_grpc_Dial ops a))\<rparr>"

datatype resource =
  App service_app | Store | Dir string | Index string | Redis string | Process handle | Pprof | Conn handle

fun acquires :: "tc_event fx_event \<Rightarrow> resource option" where
  "acquires (Started a) = Some (App a)"
| "acquires (Beside Store_up) = Some Store"
| "acquires (Beside (Dir_made p)) = Some (Dir p)"
| "acquires (Beside (Index_made i)) = Some (Index i)"
| "acquires (Beside (Redis_started mr)) = Some (Redis mr)"
| "acquires (Beside (Process_started cmd _)) = Some (Process cmd)"
| "acquires (Beside Pprof_started) = Some Pprof"
| "acquires (Beside (Conn_opened conn)) = Some (Conn conn)"
| "acquires _ = None"

fun releases :: "tc_event fx_event \<Rightarrow> resource option" where
  "releases (Stopped a _) = Some (App a)"
| "releases (Beside Store_down) = Some Store"
| "releases (Beside (Dir_removed p)) = Some (Dir p)"
| "releases (Beside (Index_deleted i)) = Some (Index i)"
| "releases (Beside (Redis_closed mr)) = Some (Redis mr)"
| "releases (Beside (Process_killed cmd)) = Some (Process cmd)"
| "releases _ = None"

definition acquired :: "tc_log \<Rightarrow> resource set" where
  "acquired log = {r. \<exists>e\<in>set log. acquires e = Some r}"

definition released :: "tc_log \<Rightarrow> resource set" where
  "released log = {r. \<exists>e\<in>set log. releases e = Some r}"

lemma ledger_simps [simp]:
  "acquired [] = {}" "acquired (e # log) = set_option (acquires e) \<union> acquired log"
  "acquired (log @ log') = acquired log \<union> acquired log'"
  "released [] = {}" "released (e # log) = set_option (releases e) \<union> released log"
  "released (log @ log') = released log \<union> released log'"
  by (auto simp: acquired_def released_def)

text \<open>A run that adds to the log only events of a kind, however it ends.\<close>

definition emits :: "(tc_event fx_event \<Rightarrow> bool) \<Rightarrow> tc_log \<Rightarrow> 'r \<times> 'd \<times> tc_log \<Rightarrow> bool" where
  "emits P log m \<longleftrightarrow> (\<exists>ev. snd (snd m) = log @ ev \<and> list_all P ev)"

named_theorems emits_rules \<open>runs that only add events of a kind to the log\<close>

lemma emits_same [emits_rules]: "emits P log (r, d, log)"
  by (simp add: emits_def)

lemma emits_try [emits_rules]:
  assumes "emits P log m" "\<And>x d' log'. m = (Ret (Inr x), d', log') \<Longrightarrow> emits P log' (f x (d', log'))"
  shows "emits P log (and_try m f)"
proof -
  obtain r d' log' where m: "m = (r, d', log')"
    by (metis prod_cases3)
  obtain ev where ev: "log' = log @ ev" "list_all P ev"
    using assms(1) by (auto simp: m emits_def)
  show ?thesis
  proof (cases "\<exists>x. r = Ret (Inr x)")
    case True
    then obtain x where x: "r = Ret (Inr x)" ..
    then obtain ev' where "snd (snd (f x (d', log'))) = log' @ ev'" "list_all P ev'"
      using assms(2) m by (auto simp: emits_def)
    then show ?thesis
      using ev x by (auto simp: emits_def and_try_def m)
  next
    case False
    then have "snd (and_try m f) = (d', log')"
      by (auto simp: and_try_def m split: outcome.splits sum.splits)
    then show ?thesis
      using ev by (auto simp: emits_def)
  qed
qed

lemma quiet_apply [simp]: "quiet f (d, log) = (fst (f d), snd (f d), log)"
  by (simp add: quiet_def case_prod_unfold Let_def)

lemma noting_apply [simp]: "noting ev f (d, log) = (fst (f d), snd (f d), log @ map Beside (ev (fst (f d))))"
  by (simp add: noting_def case_prod_unfold Let_def)

lemma tracked_sel [simp]:
  "co_freeport (tracked ops) = quiet (co_freeport ops)" "co_uuid (tracked ops) = quiet (co_uuid ops)"
  "co_ApplyDefaults (tracked ops) = co_ApplyDefaults ops" "co_DefaultFaultInjection (tracked ops) = co_DefaultFaultInjection ops"
  "co_NewTestBase (tracked ops) opts = quiet (co_NewTestBase ops opts)"
  "co_Setup (tracked ops) tb m (d, log) = (co_Setup ops tb m d, log @ [Beside Store_up])"
  "co_TearDownWorkflowStore (tracked ops) tb (d, log) = (co_TearDownWorkflowStore ops tb d, log @ [Beside Store_down])"
  "co_MkdirTemp (tracked ops) p = noting (on_success Dir_made) (co_MkdirTemp ops p)"
  "co_RemoveAll (tracked ops) p = noting (\<lambda>_. [Dir_removed p]) (co_RemoveAll ops p)"
  "co_ReadFile (tracked ops) p = quiet (co_ReadFile ops p)" "co_NewESConfig (tracked ops) = co_NewESConfig ops"
  "co_VisibilityIndex (tracked ops) = co_VisibilityIndex ops"
  "co_NewFunctionalTestsClient (tracked ops) es = quiet (co_NewFunctionalTestsClient ops es)"
  "co_Ping (tracked ops) c = quiet (co_Ping ops c)" "co_attempts (tracked ops) (d, log) = co_attempts ops d"
  "co_IndexExists (tracked ops) c i = quiet (co_IndexExists ops c i)"
  "co_DeleteIndex (tracked ops) c i = noting (\<lambda>_. [Index_deleted i]) (co_DeleteIndex ops c i)"
  "co_IndexPutTemplate (tracked ops) c n bs = quiet (co_IndexPutTemplate ops c n bs)"
  "co_CreateIndex (tracked ops) c i k = noting (\<lambda>e. if e = None then [Index_made i] else []) (co_CreateIndex ops c i k)"
  "co_WaitForYellowStatus (tracked ops) c i = quiet (co_WaitForYellowStatus ops c i)"
  "co_NewESClient (tracked ops) es = quiet (co_NewESClient ops es)"
  "co_SaveClusterMetadata (tracked ops) rq = quiet (co_SaveClusterMetadata ops rq)"
  "co_ApplyClusterMetadata (tracked ops) m pc = quiet (co_ApplyClusterMetadata ops m pc)"
  "co_GenerateTestChain (tracked ops) dir cn = quiet (co_GenerateTestChain ops dir cn)"
  "co_LoadX509KeyPair (tracked ops) pf kf = quiet (co_LoadX509KeyPair ops pf kf)"
  "co_AppendCertsFromPEM (tracked ops) = co_AppendCertsFromPEM ops"
  "co_pprof_Start (tracked ops) = noting (\<lambda>e. if e = None then [Pprof_started] else []) (co_pprof_Start ops)"
  "co_fx (tracked ops) = traced (co_fx ops)"
  "co_built (tracked ops) (d, log) = co_built ops d" "co_set_built (tracked ops) (d, log) = (co_set_built ops d, log)"
  "co_build (tracked ops) args = quiet (co_build ops args)" "co_projectRoot (tracked ops) = co_projectRoot ops"
  "co_miniredis_Run (tracked ops) = noting (on_success Redis_started) (co_miniredis_Run ops)"
  "co_miniredis_Close (tracked ops) mr (d, log) = (co_miniredis_Close ops mr d, log @ [Beside (Redis_closed mr)])"
  "co_exec_Start (tracked ops) args = noting (on_success (\<lambda>cmd. Process_started cmd args)) (co_exec_Start ops args)"
  "co_Kill (tracked ops) cmd (d, log) = (co_Kill ops cmd d, log @ [Beside (Process_killed cmd)])"
  "co_grpc_Dial (tracked ops) a = noting (on_success Conn_opened) (co_grpc_Dial ops a)"
  by (simp_all add: tracked_def)

lemma emits_call [emits_rules]: "emits P log (do_call (x, d, log))" "emits P log (do_err (e, d, log))"
  by (simp_all add: emits_def do_call_def do_err_def)

lemma emits_noted:
  "list_all P ev \<Longrightarrow> emits P log (do_call (x, d, log @ ev))" "list_all P ev \<Longrightarrow> emits P log (do_err (e, d, log @ ev))"
  "list_all P ev \<Longrightarrow> emits P log (r, d, log @ ev)"
  by (simp_all add: emits_def do_call_def do_err_def)

text \<open>Runs without an event.\<close>

abbreviation silent :: "tc_log \<Rightarrow> 'r \<times> 'd \<times> tc_log \<Rightarrow> bool" where
  "silent \<equiv> emits (\<lambda>_. False)"

lemma silentD: "silent log (r, d, log') \<Longrightarrow> log' = log"
  by (auto simp: emits_def list_all_iff)

lemma do_port_emits [emits_rules]: "emits P log (do_port (tracked ops) (d, log))"
  by (simp add: do_port_def emits_def case_prod_unfold)

lemma fill_addresses_emits [emits_rules]: "emits P log (fill_addresses (tracked ops) n hosts (d, log))"
  by (induction n arbitrary: hosts d log) (auto intro: emits_rules)

lemma makeAddresses_emits [emits_rules]: "emits P log (makeAddresses (tracked ops) n (d, log))"
  by (auto simp: makeAddresses_def intro: emits_rules)

lemma allocate_hosts_emits [emits_rules]: "emits P log (allocate_hosts (tracked ops) cfg (d, log))"
  unfolding allocate_hosts_def by (intro emits_rules)

lemma build_tempura_emits [emits_rules]: "emits P log (build_tempura (tracked ops) (d, log))"
  by (auto simp: build_tempura_def intro: emits_rules split: option.split)

lemma save_metadata_emits [emits_rules]: "emits P log (save_metadata (tracked ops) shards m keys infos (d, log))"
proof (induction keys arbitrary: infos d log)
  case (Cons k keys)
  show ?case
    by (cases "ClusterInformation m k") (auto simp: Let_def intro!: emits_rules Cons.IH)
qed (simp add: emits_same)

lemma connect_es_emits: "emits P log (connect_es (tracked ops) es (d, log))"
  by (auto simp: connect_es_def emits_def split: sum.split option.split)

lemma throttle_retry_emits:
  assumes "\<And>d log. emits P log (op (d, log))"
  shows "emits P log (throttle_retry n op (d, log))"
proof (induction n arbitrary: d log)
  case (Suc n)
  obtain r d' log' where op: "op (d, log) = (r, d', log')"
    by (metis prod_cases3)
  then obtain ev where "log' = log @ ev" "list_all P ev"
    using assms[of log d] by (auto simp: emits_def)
  then show ?case
    using Suc[of log' d'] assms[of log d] op by (cases r) (auto simp: emits_def)
qed (simp add: assms)

lemma waitForYellowStatus_emits [emits_rules]: "emits P log (waitForYellowStatus (tracked ops) c i (d, log))"
  unfolding waitForYellowStatus_def by (auto intro!: emits_rules)

lemma chain_provider_emits [emits_rules]: "emits P log (chain_provider (tracked ops) dir (d, log))"
  unfolding chain_provider_def by (auto simp: Let_def intro!: emits_rules split: option.split)

text \<open>The steps that acquire something.\<close>

lemma on_success_simps [simp]: "on_success ev (Inr x) = [ev x]" "on_success ev (Inl err) = []"
  by (simp_all add: on_success_def)

lemma deleteIndex_emits:
  "P (Beside (Index_deleted (co_VisibilityIndex ops es))) \<Longrightarrow> emits P log (deleteIndex (tracked ops) es (d, log))"
  unfolding deleteIndex_def by (auto intro!: emits_try emits_call emits_noted emits_same)

lemma setupIndex_emits:
  assumes "P (Beside (Index_deleted (co_VisibilityIndex ops es)))" "P (Beside (Index_made (co_VisibilityIndex ops es)))"
  shows "emits P log (setupIndex (tracked ops) root es (d, log))"
proof -
  obtain r d' log' where retry: "throttle_retry (co_attempts ops d) (connect_es (tracked ops) es) (d, log) = (r, d', log')"
    by (metis prod_cases3)
  moreover have "emits P log (throttle_retry (co_attempts ops d) (connect_es (tracked ops) es) (d, log))"
    by (rule throttle_retry_emits) (rule connect_es_emits)
  ultimately have first: "emits P log (r, d', log')"
    by simp
  show ?thesis
  proof (cases r)
    case (Inl err)
    then show ?thesis
      using first by (simp add: setupIndex_def retry emits_def)
  next
    case (Inr c)
    have "emits P log' (setupIndex (tracked ops) root es (d, log))"
      using assms
      by (auto simp: setupIndex_def retry Inr Let_def intro!: emits_try emits_rules emits_noted deleteIndex_emits)
    then show ?thesis
      using first by (auto simp: emits_def)
  qed
qed

lemma setup_visibility_emits:
  assumes "\<And>i. P (Beside (Index_deleted i))" "\<And>i. P (Beside (Index_made i))"
  shows "emits P log (setup_visibility (tracked ops) plugins flags root pc (d, log))"
  using assms by (auto simp: setup_visibility_def Let_def intro!: emits_try emits_rules setupIndex_emits)

lemma setup_visibility_index:
  assumes "setup_visibility (tracked ops) plugins flags root pc (d, log) = (Ret (Inr (es, esC, pc')), d', log')"
  shows "\<exists>ev. log' = log @ ev \<and> acquired ev \<subseteq> Index ` co_VisibilityIndex ops ` set_option es \<and>
    (es = None \<longleftrightarrow> UseSQLVisibility plugins (persistenceDriver flags))"
proof (cases "UseSQLVisibility plugins (persistenceDriver flags)")
  case True
  then show ?thesis
    using assms by (simp add: setup_visibility_def)
next
  case False
  then obtain e u d1 log1 where e: "es = Some e" "setupIndex (tracked ops) root e (u, log) = (Ret (Inr ()), d1, log1)" "log' = log1"
    using assms by (auto simp: setup_visibility_def Let_def and_try_Ret)
  let ?P = "\<lambda>x. acquires x = None \<or> acquires x = Some (Index (co_VisibilityIndex ops e))"
  have "emits ?P log (setupIndex (tracked ops) root e (u, log))"
    by (rule setupIndex_emits) simp_all
  then show ?thesis
    using e False by (fastforce simp: emits_def list_all_iff acquired_def)
qed

lemma newArchiverBase_emits:
  assumes "\<And>p. P (Beside (Dir_made p))"
  shows "emits P log (newArchiverBase (tracked ops) b h v x (d, log))"
  using assms by (auto simp: newArchiverBase_def emits_def on_success_def split: sum.split)

lemma newArchiverBase_dirs:
  assumes "newArchiverBase (tracked ops) b h v x (d, log) = (Ret ab, d', log')"
  shows "\<exists>ev. log' = log @ ev \<and> acquired ev \<subseteq> {Dir (historyStoreDirectory ab), Dir (visibilityStoreDirectory ab)}"
  using assms by (auto simp: newArchiverBase_def on_success_def split: if_splits sum.splits)

lemma tls_provider_dir:
  "\<exists>ev. snd (snd (tls_provider (tracked ops) cfg (d, log))) = log @ ev \<and> acquired ev \<subseteq> released ev \<and>
     list_all (\<lambda>e. \<exists>p. e = Beside (Dir_made p) \<or> e = Beside (Dir_removed p)) ev"
proof (cases "tc_TLSConfigProvider cfg = None \<and> tc_EnableMTLS cfg")
  case True
  obtain r d1 where mk: "co_MkdirTemp ops '''' d = (r, d1)"
    by (rule prod.exhaust)
  show ?thesis
  proof (cases r)
    case (Inl err)
    then show ?thesis
      using True by (simp add: tls_provider_def createFixedTLSConfigProvider_def mk do_call_def and_try_def on_success_def)
  next
    case (Inr dir)
    obtain q d2 log2 where chain: "chain_provider (tracked ops) dir (d1, log @ [Beside (Dir_made dir)]) = (q, d2, log2)"
      by (metis prod_cases3)
    have "log2 = log @ [Beside (Dir_made dir)]"
      using chain_provider_emits[of "\<lambda>_. False"] chain by (metis silentD)
    then show ?thesis
      using True
      by (auto simp: tls_provider_def createFixedTLSConfigProvider_def mk Inr do_call_def and_try_def on_success_def chain
          split: outcome.splits sum.splits)
  qed
qed (auto simp: tls_provider_def split: option.splits)

lemma tls_provider_emits:
  assumes "\<And>p. P (Beside (Dir_made p))" "\<And>p. P (Beside (Dir_removed p))"
  shows "emits P log (tls_provider (tracked ops) cfg (d, log))"
  using tls_provider_dir[of ops cfg d log] assms by (fastforce simp: emits_def list_all_iff)

lemma start_server_emits:
  assumes "P (Beside Pprof_started)" "\<And>e. is_start e \<Longrightarrow> P e"
  shows "emits P log (start_server (tracked ops) su params t (d, log))"
proof (cases "newTemporal (su_store su) (su_dc su) (su_defaults su) (su_pick su) params t")
  case (Ret x)
  obtain t' c where x: "x = (t', c)"
    by (rule prod.exhaust)
  obtain r c' d' log' where start: "Start (traced (co_fx ops)) (su_server su) c
      (snd (co_pprof_Start ops d), log @ [Beside Pprof_started]) = (r, c', d', log')"
    by (metis prod_cases4)
  show ?thesis
    using Start_grows[OF start] assms
    by (cases "fst (co_pprof_Start ops d)") (auto simp: start_server_def Ret x start emits_def list_all_iff prod_eq_iff split: prod.splits)
qed (auto simp: start_server_def emits_def assms(1) split: option.split)

lemma start_server_apps:
  assumes "start_server (tracked ops) su params t (d, log) = (Ret (Inr (t', c)), d', log')"
  shows "map place (fxApps c) = all_places c" "esConfig c = p_ESConfig params"
    "hostsByProtocolByService c = p_HostsByProtocolByService params"
    "\<exists>n. log' = log @ [Beside Pprof_started, System_namespace n] @ started_events (fxApps c)"
proof -
  obtain c0 d0 where c0: "newTemporal (su_store su) (su_dc su) (su_defaults su) (su_pick su) params t = Ret (t', c0)"
    "Start (traced (co_fx ops)) (su_server su) c0 (d0, log @ [Beside Pprof_started]) = (Ret None, c, d', log')"
    using assms by (auto simp: start_server_def and_then_Ret_iff Let_def split: option.splits outcome.splits prod.splits)
  have places: "all_places c = all_places c0" if "hostsByProtocolByService c = hostsByProtocolByService c0"
    using that by (simp add: all_places_def service_hosts_def)
  show "map place (fxApps c) = all_places c" "esConfig c = p_ESConfig params"
    "hostsByProtocolByService c = p_HostsByProtocolByService params"
    "\<exists>n. log' = log @ [Beside Pprof_started, System_namespace n] @ started_events (fxApps c)"
    using Start_grows[OF c0(2)] newTemporal_fields[OF c0(1)] places by auto
qed

lemma start_tempura_emits:
  assumes "\<And>mr. P (Beside (Redis_started mr))" "\<And>cmd args. P (Beside (Process_started cmd args))"
    "\<And>conn. P (Beside (Conn_opened conn))"
  shows "emits P log (start_tempura (tracked ops) c (d, log))"
  unfolding start_tempura_def using assms
  by (auto intro!: emits_try emits_rules emits_noted simp: on_success_def split: sum.split) (simp add: emits_def do_call_def)

lemma start_tempura_process:
  assumes "start_tempura (tracked ops) c (d, log) = (Ret (Inr (mr, proxy, admin, cmd, conn)), d', log')"
  shows "\<exists>addr. FrontendGRPCAddress c = Ret addr \<and>
    log' = log @ [Beside (Redis_started mr), Beside (Process_started cmd (tempura_args (co_projectRoot ops) mr proxy admin addr)),
      Beside (Conn_opened conn)]"
  using assms
  by (auto simp: start_tempura_def and_try_Ret and_then_Ret_iff do_port_def case_prod_unfold)

section \<open>The whole set-up\<close>

text \<open>During a set-up no service, store, Redis or process is given up.\<close>

definition holds_on :: "tc_event fx_event \<Rightarrow> bool" where
  "holds_on e \<longleftrightarrow> (\<forall>a mr cmd. releases e \<notin> {Some (App a), Some Store, Some (Redis mr), Some (Process cmd)})"

lemma holds_on_simps [simp]:
  "holds_on (Beside Store_up)" "holds_on (Beside (Dir_made p))" "holds_on (Beside (Dir_removed p))"
  "holds_on (Beside (Index_made i))" "holds_on (Beside (Index_deleted i))" "holds_on (Beside (Redis_started mr))"
  "holds_on (Beside (Process_started cmd args))" "holds_on (Beside Pprof_started)" "holds_on (Beside (Conn_opened conn))"
  by (simp_all add: holds_on_def)

lemma is_start_holds_on: "is_start e \<Longrightarrow> holds_on e"
  by (cases e) (simp_all add: holds_on_def)

lemma start_server_holds_on: "emits holds_on log (start_server (tracked ops) su params t (d, log))"
  by (rule start_server_emits) (simp_all add: is_start_holds_on)

lemma setup_store_log:
  assumes "setup_store (tracked ops) su cfg m (d, log) = (r, d', log')"
  shows "\<exists>ab b h v x d1. newArchiverBase (tracked ops) b h v x (d1, log @ [Beside Store_up]) = (ab, d', log') \<and>
    (\<forall>tb base. r = Ret (Inr (tb, base)) \<longrightarrow> ab = Ret base)"
  using assms
  by (fastforce simp: setup_store_def factory_NewTestBase_def Let_def and_then_Ret_iff case_prod_unfold prod_eq_iff)

lemma setup_store_holds_on: "emits holds_on log (setup_store (tracked ops) su cfg m (d, log))"
proof -
  obtain r d' log' where m: "setup_store (tracked ops) su cfg m (d, log) = (r, d', log')"
    by (metis prod_cases3)
  obtain ab b h v x d1 where "newArchiverBase (tracked ops) b h v x (d1, log @ [Beside Store_up]) = (ab, d', log')"
    using setup_store_log[OF m] by blast
  then show ?thesis
    using newArchiverBase_emits[of holds_on "log @ [Beside Store_up]" ops b h v x d1] by (auto simp: emits_def m)
qed

lemma configure_holds_on: "emits holds_on log (configure (tracked ops) su cfg tb m (d, log))"
  unfolding configure_def Let_def
  by (auto intro!: emits_try setup_visibility_emits emits_rules tls_provider_emits)

lemma NewCluster_holds_on: "emits holds_on log (NewCluster (tracked ops) su cfg t (d, log))"
  unfolding NewCluster_def Let_def
  by (auto intro!: emits_try setup_store_holds_on configure_holds_on start_server_holds_on start_tempura_emits emits_rules)

lemma configure_log:
  assumes "configure (tracked ops) su cfg tb m (d, log) = (Ret (Inr (es, esC, m', pConfig, tls)), d', log')"
  shows "\<exists>ev. log' = log @ ev \<and> acquired ev \<subseteq> Index ` co_VisibilityIndex ops ` set_option es \<union> released ev \<and>
    (es = None \<longleftrightarrow> UseSQLVisibility (su_sqlPlugins su) (persistenceDriver (su_flags su)))"
proof -
  obtain pc pc' d1 log1 infos d2 log2 d3 d4 where
    vis: "setup_visibility (tracked ops) (su_sqlPlugins su) (su_flags su) (su_repoRoot su) pc (d, log) = (Ret (Inr (es, esC, pc')), d1, log1)"
    and save: "save_metadata (tracked ops) (NumHistoryShards (tc_HistoryConfig cfg)) m (su_clusters su) Map.empty (d1, log1) = (Ret (Inr infos), d2, log2)"
    and tls: "tls_provider (tracked ops) cfg (d3, log2) = (Ret (Inr tls), d4, log')"
    using assms by (auto simp: configure_def Let_def and_try_Ret)
  have "log2 = log1"
    using save_metadata_emits[of "\<lambda>_. False"] save by (metis silentD)
  moreover obtain ev where "log1 = log @ ev" "acquired ev \<subseteq> Index ` co_VisibilityIndex ops ` set_option es"
    "es = None \<longleftrightarrow> UseSQLVisibility (su_sqlPlugins su) (persistenceDriver (su_flags su))"
    using setup_visibility_index[OF vis] by blast
  moreover obtain ev' where "log' = log2 @ ev'" "acquired ev' \<subseteq> released ev'"
    using tls_provider_dir[of ops cfg d3 log2] tls by auto
  ultimately show ?thesis
    by (intro exI[of _ "ev @ ev'"]) auto
qed

text \<open>Everything a successful set-up has acquired is known to the cluster it returns.\<close>

lemma never_released: "released log \<inter> insert Pprof (range Conn) = {}"
proof -
  have "releases e \<noteq> Some Pprof" "releases e \<noteq> Some (Conn conn)" for e conn
    by (cases e rule: releases.cases; simp)+
  then show ?thesis
    by (auto simp: released_def)
qed

lemma NewCluster_ledger:
  assumes "NewCluster (tracked ops) su cfg t (d, log) = (Ret (Inr (t', tc)), d', log')"
  shows "\<exists>ev addr mr cmd conn. log' = log @ ev \<and>
    acquired ev \<subseteq> App ` set (fxApps (cl_host tc)) \<union> Index ` co_VisibilityIndex ops ` set_option (esConfig (cl_host tc)) \<union>
      {Store, Dir (historyStoreDirectory (archiverBase tc)), Dir (visibilityStoreDirectory (archiverBase tc)), Redis mr, Process cmd,
       Pprof, Conn conn} \<union> released ev \<and> sublist (started_events (fxApps (cl_host tc))) ev \<and>
    {Store, Pprof, Redis mr, Process cmd, Conn conn} \<subseteq> acquired ev \<and> released ev \<inter> insert Pprof (range Conn) = {} \<and>
    (esConfig (cl_host tc) = None \<longleftrightarrow> UseSQLVisibility (su_sqlPlugins su) (persistenceDriver (su_flags su))) \<and>
    map place (fxApps (cl_host tc)) = all_places (cl_host tc) \<and> miniredis tc = Some mr \<and> tempuraCmd tc = Some cmd \<and>
    tempuraFrontendClient tc = Some conn \<and> FrontendGRPCAddress (cl_host tc) = Ret addr \<and>
    Beside (Process_started cmd (tempura_args (co_projectRoot ops) mr (proxyPort tc) (adminPort tc) addr)) \<in> set ev"
proof -
  let ?cfg = "host_counts cfg"
  obtain hosts d1 log1 cfg1 tb ab d2 log2 es esC m pc tls d3 log3 c d4 log4 d5 log5 mr proxy admin cmd conn d6 where
    hosts: "allocate_hosts (tracked ops) ?cfg (d, log) = (Ret (Inr hosts), d1, log1)"
    and store: "setup_store (tracked ops) su cfg1 (metadata_config (tracked ops) cfg1) (d1, log1) = (Ret (Inr (tb, ab)), d2, log2)"
    and conf: "configure (tracked ops) su cfg1 tb (metadata_config (tracked ops) cfg1) (d2, log2) =
      (Ret (Inr (es, esC, m, pc, tls)), d3, log3)"
    and server: "start_server (tracked ops) su (temporal_params (tracked ops) su (cfg1\<lparr>tc_ESConfig := es\<rparr>) tb ab m pc esC tls hosts) t
      (d3, log3) = (Ret (Inr (t', c)), d4, log4)"
    and build: "build_tempura (tracked ops) (d4, log4) = (Ret (Inr ()), d5, log5)"
    and tempura: "start_tempura (tracked ops) c (d5, log5) = (Ret (Inr (mr, proxy, admin, cmd, conn)), d6, log')"
    and tc: "tc = \<lparr>testBase = tb, archiverBase = ab, cl_host = c, miniredis = Some mr, tempuraCmd = Some cmd,
      proxyPort = proxy, adminPort = admin, tempuraFrontendClient = Some conn\<rparr>"
    using assms by (auto simp: NewCluster_def Let_def and_try_Ret)
  have log1: "log1 = log" and log5: "log5 = log4"
    using allocate_hosts_emits[of "\<lambda>_. False"] hosts build_tempura_emits[of "\<lambda>_. False"] build by (metis silentD)+
  obtain b h v x d0 where "newArchiverBase (tracked ops) b h v x (d0, log1 @ [Beside Store_up]) = (Ret ab, d2, log2)"
    using setup_store_log[OF store] by metis
  then obtain ev2 where ev2: "log2 = log1 @ [Beside Store_up] @ ev2"
    "acquired ev2 \<subseteq> {Dir (historyStoreDirectory ab), Dir (visibilityStoreDirectory ab)}"
    using newArchiverBase_dirs by fastforce
  obtain ev3 where ev3: "log3 = log2 @ ev3" "acquired ev3 \<subseteq> Index ` co_VisibilityIndex ops ` set_option es \<union> released ev3"
    "es = None \<longleftrightarrow> UseSQLVisibility (su_sqlPlugins su) (persistenceDriver (su_flags su))"
    using configure_log[OF conf] by blast
  obtain n where ev4: "log4 = log3 @ [Beside Pprof_started, System_namespace n] @ started_events (fxApps c)"
    using start_server_apps(4)[OF server] by blast
  have es: "esConfig c = es"
    using start_server_apps(2)[OF server] by (simp add: temporal_params_def)
  obtain addr where addr: "FrontendGRPCAddress c = Ret addr" "log' = log5 @ [Beside (Redis_started mr),
      Beside (Process_started cmd (tempura_args (co_projectRoot ops) mr proxy admin addr)), Beside (Conn_opened conn)]"
    using start_tempura_process[OF tempura] by blast
  have apps: "acquired (started_events as) = App ` set as" for as :: "service_app list"
    by (induction as) auto
  let ?front = "[Beside Store_up] @ ev2 @ ev3 @ [Beside Pprof_started, System_namespace n]"
  let ?rear = "[Beside (Redis_started mr), Beside (Process_started cmd (tempura_args (co_projectRoot ops) mr proxy admin addr)),
    Beside (Conn_opened conn)]"
  let ?ev = "?front @ started_events (fxApps c) @ ?rear"
  have "log' = log @ ?ev"
    by (simp add: addr(2) log5 ev4 ev3(1) ev2(1) log1)
  moreover have "sublist (started_events (fxApps c)) ?ev"
    by (rule sublist_appendI)
  moreover have "acquired ?ev \<subseteq> App ` set (fxApps c) \<union> Index ` co_VisibilityIndex ops ` set_option es \<union>
      {Store, Dir (historyStoreDirectory ab), Dir (visibilityStoreDirectory ab), Redis mr, Process cmd, Pprof, Conn conn} \<union> released ?ev"
    using ev2(2) ev3(2) by (auto simp: apps)
  moreover have "{Store, Pprof, Redis mr, Process cmd, Conn conn} \<subseteq> acquired ?ev"
    by simp
  ultimately show ?thesis
    using ev3(3) addr(1) es start_server_apps(1)[OF server] never_released[of ?ev]
    by (intro exI[of _ ?ev] exI[of _ addr] exI[of _ mr] exI[of _ cmd] exI[of _ conn] conjI) (simp_all add: tc)
qed

section \<open>The tear-down\<close>

definition torn_down :: "'d cluster_ops \<Rightarrow> 'c TestCluster \<Rightarrow> go_error option list \<Rightarrow> tc_log \<Rightarrow> tc_log" where
  "torn_down ops tc es del =
     map2 Stopped (rev (fxApps (cl_host tc))) es @ [Beside Store_down] @ del @
     [Beside (Dir_removed (historyStoreDirectory (archiverBase tc))), Beside (Dir_removed (visibilityStoreDirectory (archiverBase tc)))] @
     map (\<lambda>mr. Beside (Redis_closed mr)) (case miniredis tc of None \<Rightarrow> [] | Some mr \<Rightarrow> [mr]) @
     map (\<lambda>cmd. Beside (Process_killed cmd)) (case tempuraCmd tc of None \<Rightarrow> [] | Some cmd \<Rightarrow> [cmd])"

lemma rest_left: "A - R \<subseteq> K \<union> I \<Longrightarrow> I \<subseteq> R \<Longrightarrow> K \<subseteq> A - R \<Longrightarrow> A - R = K"
  by blast

lemma released_stops: "length es = length as \<Longrightarrow> released (map2 Stopped as es) = App ` set as"
  by (induction es as rule: list_induct2) auto

lemma deleteIndex_log:
  assumes "deleteIndex (tracked ops) es (d, log) = (r, d', log')"
  shows "(\<exists>x. r = Ret x) \<and> (log' = log @ [Beside (Index_deleted (co_VisibilityIndex ops es))] \<or> log' = log \<and> (\<exists>err. r = Ret (Inl err)))"
  using assms
  by (cases "co_NewFunctionalTestsClient ops es d")
    (auto simp: deleteIndex_def and_try_def do_call_def do_err_def split: sum.splits option.splits)

lemma TearDown_log:
  assumes "cluster_TearDown (tracked ops) plugins flags tc (d, log) = (errs, tc', d', log')"
  shows "\<exists>es del. length es = length (fxApps (cl_host tc)) \<and> log' = log @ torn_down ops tc es del \<and>
    (\<forall>i. esConfig (cl_host tc) = Some i \<longrightarrow> \<not> UseSQLVisibility plugins (persistenceDriver flags) \<longrightarrow> errs = [] \<longrightarrow>
       del = [Beside (Index_deleted (co_VisibilityIndex ops i))])"
proof -
  let ?sql = "UseSQLVisibility plugins (persistenceDriver flags)"
  obtain es d1 where stop: "stop_apps (traced (co_fx ops)) (rev (fxApps (cl_host tc))) [] (d, log) =
      (es, d1, log @ map2 Stopped (rev (fxApps (cl_host tc))) es)" "length es = length (fxApps (cl_host tc))"
    using stop_apps_trace[of "co_fx ops" "rev (fxApps (cl_host tc))" "[]" d log] by auto
  let ?log = "log @ map2 Stopped (rev (fxApps (cl_host tc))) es @ [Beside Store_down]"
  let ?d = "co_TearDownWorkflowStore ops (testBase tc) d1"
  show ?thesis
  proof (cases "esConfig (cl_host tc) = None \<or> ?sql")
    case True
    then have "log' = log @ torn_down ops tc es []"
      using assms stop
      by (auto simp: cluster_TearDown_def Stop_def torn_down_def Let_def split: option.splits)
    then show ?thesis
      using stop(2) True by (intro exI[of _ es] exI[of _ "[]"]) auto
  next
    case False
    then obtain i where i: "esConfig (cl_host tc) = Some i" "\<not> ?sql"
      by auto
    obtain r d2 log2 where del: "deleteIndex (tracked ops) i (?d, ?log) = (r, d2, log2)"
      by (metis prod_cases3)
    let ?del = "Beside (Index_deleted (co_VisibilityIndex ops i))"
    obtain x del' where x: "r = Ret x" "log2 = ?log @ del'" "del' = [?del] \<or> (\<exists>err. x = Inl err)"
      using deleteIndex_log[OF del] by auto
    have "log' = log @ torn_down ops tc es del' \<and> (errs = [] \<longrightarrow> (\<forall>err. x \<noteq> Inl err))"
      using assms stop i del x(1,2)
      by (cases x) (auto simp: cluster_TearDown_def Stop_def torn_down_def Let_def split: option.splits)
    then show ?thesis
      using x(3) stop(2) i by (intro exI[of _ es] exI[of _ del']) auto
  qed
qed

section \<open>Properties\<close>

text \<open>
  C39: a test cluster from its set-up to its tear-down. A set-up that succeeds has started one service for every host of
  every service, in the order of the cluster's list, and Tempura in front of them: its default target is the cluster's own
  frontend, its Redis the one started for it. The tear-down first asks every service to stop, in the opposite order, and
  goes on whatever fails. It asks for the release of the store, the directories, Redis and the process, and of the search
  index unless it reports an error; the profiler and the connection to Tempura are acquired and never given up, and when
  no error is reported they are all that is left.
\<close>

theorem cluster_torn_down:
  assumes "NewCluster (tracked ops) su cfg t (d, []) = (Ret (Inr (t', tc)), d1, log)"
    and "cluster_TearDown (tracked ops) (su_sqlPlugins su) (su_flags su) tc (d1, log) = (errs, tc', d2, log')"
  shows "map place (fxApps (cl_host tc)) = all_places (cl_host tc) \<and> sublist (started_events (fxApps (cl_host tc))) log \<and>
    (\<exists>es. length es = length (fxApps (cl_host tc)) \<and> prefix (log @ map2 Stopped (rev (fxApps (cl_host tc))) es) log') \<and>
    (\<exists>addr mr cmd conn. FrontendGRPCAddress (cl_host tc) = Ret addr \<and> miniredis tc = Some mr \<and>
       tempuraFrontendClient tc = Some conn \<and>
       Beside (Process_started cmd (tempura_args (co_projectRoot ops) mr (proxyPort tc) (adminPort tc) addr)) \<in> set log \<and>
       {Store, Redis mr, Process cmd} \<subseteq> acquired log \<inter> released log' \<and>
       {Pprof, Conn conn} \<subseteq> acquired log - released log' \<and>
       acquired log - released log' \<subseteq> {Pprof, Conn conn} \<union> range Index \<and>
       (errs = [] \<longrightarrow> acquired log - released log' = {Pprof, Conn conn}))"
proof -
  let ?c = "cl_host tc"
  let ?idx = "Index ` co_VisibilityIndex ops ` set_option (esConfig ?c)"
  obtain addr mr cmd conn where up: "acquired log \<subseteq> App ` set (fxApps ?c) \<union> ?idx \<union>
      {Store, Dir (historyStoreDirectory (archiverBase tc)), Dir (visibilityStoreDirectory (archiverBase tc)), Redis mr, Process cmd,
       Pprof, Conn conn} \<union> released log" "esConfig ?c = None \<longleftrightarrow> UseSQLVisibility (su_sqlPlugins su) (persistenceDriver (su_flags su))"
    "map place (fxApps ?c) = all_places ?c" "sublist (started_events (fxApps ?c)) log" "miniredis tc = Some mr" "tempuraCmd tc = Some cmd"
    "tempuraFrontendClient tc = Some conn" "FrontendGRPCAddress ?c = Ret addr"
    "{Store, Pprof, Redis mr, Process cmd, Conn conn} \<subseteq> acquired log"
    "Beside (Process_started cmd (tempura_args (co_projectRoot ops) mr (proxyPort tc) (adminPort tc) addr)) \<in> set log"
    using NewCluster_ledger[OF assms(1)] by auto
  obtain es del where down: "length es = length (fxApps ?c)" "log' = log @ torn_down ops tc es del"
    "\<forall>i. esConfig ?c = Some i \<longrightarrow> errs = [] \<longrightarrow> del = [Beside (Index_deleted (co_VisibilityIndex ops i))]"
    using TearDown_log[OF assms(2)] up(2) by auto
  have rel: "released log' = released log \<union> App ` set (fxApps ?c) \<union> released del \<union>
      {Store, Dir (historyStoreDirectory (archiverBase tc)), Dir (visibilityStoreDirectory (archiverBase tc)), Redis mr, Process cmd}"
    using down(1) by (auto simp: down(2) torn_down_def up(5,6) released_stops)
  have idx: "?idx \<subseteq> released log'" if "errs = []"
    using down(3) that by (cases "esConfig ?c") (auto simp: rel)
  have left: "acquired log - released log' \<subseteq> {Pprof, Conn conn} \<union> ?idx"
    using up(1) by (auto simp: rel)
  have kept: "{Pprof, Conn conn} \<subseteq> acquired log - released log'"
    using up(9) never_released[of log'] by auto
  have "errs = [] \<longrightarrow> acquired log - released log' = {Pprof, Conn conn}"
    using rest_left[OF left idx kept] by simp
  moreover have "acquired log - released log' \<subseteq> {Pprof, Conn conn} \<union> range Index"
    using left by auto
  moreover have "prefix (log @ map2 Stopped (rev (fxApps ?c)) es) log'"
    by (simp add: down(2) torn_down_def)
  moreover have "{Store, Redis mr, Process cmd} \<subseteq> acquired log \<inter> released log'"
    using up(9) by (auto simp: rel)
  ultimately show ?thesis
    using up(3-5,7,8,10) down(1) kept
    by (intro conjI exI[of _ es] exI[of _ addr] exI[of _ mr] exI[of _ cmd] exI[of _ conn]) simp_all
qed

text \<open>
  A machine with SQL visibility and archival directories on which everything works; ports count up.
\<close>

definition example_cluster_ops :: "bool \<Rightarrow> int cluster_ops" where
  "example_cluster_ops redis_works =
     \<lparr>co_freeport = (\<lambda>d. (Ret d, d + 1)), co_uuid = (\<lambda>d. (''u'', d)), co_ApplyDefaults = (\<lambda>_ _ o'. o'),
      co_DefaultFaultInjection = 1,
      co_NewTestBase = (\<lambda>_ d. (\<lparr>tb_MetadataManager = 2, tb_ClusterMetadataManager = 3, tb_ShardMgr = 4, tb_ExecutionManager = 5,
        tb_NamespaceReplicationQueue = 6, tb_AbstractDataStoreFactory = 7, tb_VisibilityStoreFactory = 8, tb_TaskMgr = 9,
        tb_Config = \<lparr>pc_settings = 0, VisibilityStore = ''visibility'', pc_NumHistoryShards = 0, pc_DataStores = Map.empty\<rparr>\<rparr>, d)),
      co_Setup = (\<lambda>_ _ d. d), co_TearDownWorkflowStore = (\<lambda>_ d. d),
      co_TestClusterMetadataConfig = (\<lambda>g _. \<lparr>EnableGlobalNamespace = g, FailoverVersionIncrement = 10, MasterClusterName = ''active'',
        CurrentClusterName = ''active'', ClusterInformation = [''active'' \<mapsto> zero_information]\<rparr>),
      co_NewArchivalMetadata = (\<lambda>_. 10), co_NoArchiverProvider = 11, co_NewArchiverProvider = (\<lambda>_ _ _. 12), co_URIScheme = ''file'',
      co_MkdirTemp = (\<lambda>p d. (Inr (''/tmp/'' @ p), d)), co_RemoveAll = (\<lambda>_ d. (None, d)), co_ReadFile = (\<lambda>_ d. (Inr [], d)),
      co_NewESConfig = (\<lambda>_. 13), co_VisibilityIndex = (\<lambda>_. ''index''), co_NewFunctionalTestsClient = (\<lambda>_ d. (Inr 14, d)),
      co_Ping = (\<lambda>_ d. (None, d)), co_attempts = (\<lambda>_. 3), co_IndexExists = (\<lambda>_ _ d. (Inr False, d)),
      co_DeleteIndex = (\<lambda>_ _ d. (None, d)), co_IndexPutTemplate = (\<lambda>_ _ _ d. (None, d)), co_CreateIndex = (\<lambda>_ _ _ d. (None, d)),
      co_WaitForYellowStatus = (\<lambda>_ _ d. (Inr ''green'', d)), co_NewESClient = (\<lambda>_ d. (Inr 15, d)),
      co_SaveClusterMetadata = (\<lambda>_ d. (None, d)), co_ApplyClusterMetadata = (\<lambda>m p d. (Inr (m, p), d)),
      co_GenerateTestChain = (\<lambda>dir _ d. (Inr \<lparr>CertPubFile = dir, CertKeyFile = dir, CaPubFile = dir\<rparr>, d)),
      co_LoadX509KeyPair = (\<lambda>_ _ d. (Inr 16, d)), co_AppendCertsFromPEM = (\<lambda>_. Some 17), co_tls_handle = (\<lambda>_. 18),
      co_NewTaskExecutor = (\<lambda>_ _. 19), co_TaskCategoryRegistry = (\<lambda>_. 20), co_CaptureHandler = 21, co_pprof_Start = (\<lambda>d. (None, d)),
      co_fx = \<lparr>fx_New = (\<lambda>app d. (fst (fx_New example_fx app ()), d)), fx_Start = (\<lambda>app d. (None, d)), fx_Stop = (\<lambda>app d. (None, d)),
        InitializeSystemNamespaces = (\<lambda>n d. (None, d)), LocalFrontendConnection = Suc, MakeURL = (\<lambda>_ _. ''membership:///frontend'')\<rparr>,
      co_built = (\<lambda>_. False), co_set_built = (\<lambda>d. d), co_build = (\<lambda>_ d. (None, d)), co_projectRoot = ''/tempura'',
      co_miniredis_Run = (\<lambda>d. (if redis_works then Inr ''127.0.0.1:6379'' else Inl (Errorf ''address in use''), d)),
      co_miniredis_Close = (\<lambda>_ d. d), co_exec_Start = (\<lambda>_ d. (Inr 22, d)), co_Kill = (\<lambda>_ d. d), co_grpc_Dial = (\<lambda>_ d. (Inr 23, d))\<rparr>"

definition example_setup_env :: "mem_config setup_env" where
  "example_setup_env =
     \<lparr>su_logger = 0, su_store = mem_store, su_dc = (0, []), su_defaults = [], su_pick = 0, su_server = example_env,
      su_flags = \<lparr>persistenceType = ''sql'', persistenceDriver = ''sqlite'', enableFaultInjection = ''''\<rparr>,
      su_sqlPlugins = [''sqlite''], su_repoRoot = ''/temporal'', su_own = [], su_clusters = [''active''], su_overrides = []\<rparr>"

definition example_cluster_setup :: cluster_setup where
  "example_cluster_setup =
     \<lparr>tc_FaultInjection = None, tc_HistoryConfig = \<lparr>NumHistoryShards = 4, NumHistoryHosts = 0\<rparr>, tc_DCRedirectionPolicy = 0,
      tc_DynamicConfigOverrides = None, tc_ServiceFxOptions = (\<lambda>_. []), tc_EnableMetricsCapture = True, tc_EnableArchival = True,
      tc_EnableMTLS = True, tc_CustomHistoryArchiverFactory = None, tc_CustomVisibilityArchiverFactory = None,
      tc_WorkerConfig = \<lparr>NumWorkers = 0, DisableWorker = True\<rparr>, tc_Persistence = None, tc_SpanExporters = None,
      tc_IsMasterCluster = True,
      tc_ClusterMetadata = \<lparr>EnableGlobalNamespace = False, FailoverVersionIncrement = 10, MasterClusterName = '''',
        CurrentClusterName = '''', ClusterInformation = Map.empty\<rparr>,
      tc_FrontendConfig = \<lparr>NumFrontendHosts = 0\<rparr>, tc_MatchingConfig = \<lparr>NumMatchingHosts = 0\<rparr>, tc_ESConfig = None,
      tc_MockAdminClient = Map.empty, tc_TokenProvider = None, tc_TLSConfigProvider = None\<rparr>"

definition example_host_table :: host_table where
  "example_host_table =
     [grpcProtocol \<mapsto> [FrontendService \<mapsto> all_hosts [''127.0.0.1:1''], MatchingService \<mapsto> all_hosts [''127.0.0.1:2''],
        HistoryService \<mapsto> all_hosts [''127.0.0.1:3''], WorkerService \<mapsto> all_hosts []],
      httpProtocol \<mapsto> [FrontendService \<mapsto> all_hosts [''127.0.0.1:4'']]]"

definition example_base_log :: tc_log where
  "example_base_log = map Beside [Store_up, Dir_made ''/tmp/test-history-archival'', Dir_made ''/tmp/test-visibility-archival'']"

definition example_config_log :: tc_log where
  "example_config_log = example_base_log @ map Beside [Dir_made ''/tmp/'', Dir_removed ''/tmp/'']"

abbreviation example_tracked :: "bool \<Rightarrow> (int \<times> tc_log) cluster_ops" where
  "example_tracked redis_works \<equiv> tracked (example_cluster_ops redis_works)"

lemma small_ports: "Itoa 1 = ''1''" "Itoa 2 = ''2''" "Itoa 3 = ''3''" "Itoa 4 = ''4''"
  by code_simp+

lemma example_allocated:
  "allocate_hosts (example_tracked b) (host_counts example_cluster_setup) (1, []) = (Ret (Inr example_host_table), 5, [])"
  by (simp add: allocate_hosts_def makeAddresses_def host_counts_def example_cluster_setup_def do_port_def and_try_def
      example_cluster_ops_def small_ports example_host_table_def)

definition example_test_base :: test_base where
  "example_test_base = fst (co_NewTestBase (example_cluster_ops True) undefined 0)"

definition example_archiver :: ArchiverBase where
  "example_archiver = \<lparr>ab_metadata = 10, ab_provider = 12, historyStoreDirectory = ''/tmp/test-history-archival'',
     visibilityStoreDirectory = ''/tmp/test-visibility-archival'', historyURI = ''file:///tmp/test-history-archival'',
     visibilityURI = ''file:///tmp/test-visibility-archival''\<rparr>"

lemma example_stored:
  "setup_store (example_tracked b) example_setup_env (host_counts example_cluster_setup) m (5, []) =
     (Ret (Inr (example_test_base, example_archiver)), 5, example_base_log)"
  by (simp add: setup_store_def factory_NewTestBase_def newArchiverBase_def example_cluster_ops_def example_cluster_setup_def
      host_counts_def example_setup_env_def example_base_log_def tracked_def example_test_base_def example_archiver_def)

definition example_metadata :: cluster_config where
  "example_metadata = co_TestClusterMetadataConfig (example_cluster_ops True) False True"

definition example_saved :: cluster_config where
  "example_saved = example_metadata\<lparr>ClusterInformation := [''active'' \<mapsto> zero_information\<lparr>ci_ShardCount := 4, ci_ClusterID := ''u''\<rparr>]\<rparr>"

definition example_persistence :: persistence where
  "example_persistence = \<lparr>pc_settings = 0, VisibilityStore = ''visibility'', pc_NumHistoryShards = 4, pc_DataStores = Map.empty\<rparr>"

lemma example_metadata_config: "metadata_config (example_tracked b) (host_counts example_cluster_setup) = example_metadata"
  by (simp add: metadata_config_def example_metadata_def host_counts_def example_cluster_setup_def example_cluster_ops_def tracked_def)

lemma example_configured:
  "configure (example_tracked b) example_setup_env (host_counts example_cluster_setup) example_test_base example_metadata
     (5, example_base_log) = (Ret (Inr (None, None, example_saved, example_persistence, Some 18)), 5, example_config_log)"
  by (simp add: configure_def setup_visibility_def UseSQLVisibility_def example_setup_env_def example_metadata_def example_saved_def
      example_persistence_def example_test_base_def tls_provider_def createFixedTLSConfigProvider_def chain_provider_def
      host_counts_def example_cluster_setup_def example_cluster_ops_def tracked_def example_config_log_def and_try_def do_call_def
      do_err_def Let_def)

definition example_temporal_params :: TemporalParams where
  "example_temporal_params = temporal_params (example_tracked True) example_setup_env
     ((host_counts example_cluster_setup)\<lparr>tc_ESConfig := None\<rparr>) example_test_base example_archiver example_saved example_persistence
     None (Some 18) example_host_table"

lemma example_params_any: "temporal_params (example_tracked b) example_setup_env
     ((host_counts example_cluster_setup)\<lparr>tc_ESConfig := None\<rparr>) example_test_base example_archiver example_saved example_persistence
     None (Some 18) example_host_table = example_temporal_params"
  by (simp add: example_temporal_params_def temporal_params_def example_cluster_ops_def tracked_def)

lemma example_served:
  "case start_server (example_tracked b) example_setup_env example_temporal_params [] (5, example_config_log) of
     (Ret (Inr (t, c)), d, log) \<Rightarrow> d = 5 \<and> FrontendGRPCAddress c = Ret ''127.0.0.1:1''
   | _ \<Rightarrow> False"
  by (cases b) code_simp+

definition example_up :: "bool \<Rightarrow> (cleanups \<times> mem_config TestCluster) result outcome \<times> int \<times> tc_log" where
  "example_up redis_works = NewCluster (example_tracked redis_works) example_setup_env example_cluster_setup [] (1, [])"

lemma example_up_server:
  "\<exists>t c log. start_server (example_tracked b) example_setup_env example_temporal_params [] (5, example_config_log) =
       (Ret (Inr (t, c)), 5, log) \<and> FrontendGRPCAddress c = Ret ''127.0.0.1:1'' \<and>
     example_up b = and_try (start_tempura (example_tracked b) c (5, log)) (\<lambda>(mr, proxy, admin, cmd, conn) d.
       (Ret (Inr (t, \<lparr>testBase = example_test_base, archiverBase = example_archiver, cl_host = c, miniredis = Some mr,
          tempuraCmd = Some cmd, proxyPort = proxy, adminPort = admin, tempuraFrontendClient = Some conn\<rparr>)), d))"
proof -
  obtain t c log where srv: "start_server (example_tracked b) example_setup_env example_temporal_params [] (5, example_config_log) =
      (Ret (Inr (t, c)), 5, log)" "FrontendGRPCAddress c = Ret ''127.0.0.1:1''"
    using example_served[of b] by (auto split: prod.splits outcome.splits sum.splits)
  have own: "su_own example_setup_env = []"
    by (simp add: example_setup_env_def)
  have try_Ret: "and_try (Ret (Inr x), d) f = f x d" for x d and f :: "_ \<Rightarrow> int \<times> tc_log \<Rightarrow> 'r result outcome \<times> _"
    by (simp add: and_try_def)
  have built: "build_tempura (example_tracked b) (5, log) = (Ret (Inr ()), 5, log)"
    by (simp add: build_tempura_def example_cluster_ops_def)
  show ?thesis
    using srv by (simp add: example_up_def NewCluster_def Let_def example_allocated set_self_address_def own try_Ret
        example_metadata_config example_stored example_configured example_params_any built)
qed

text \<open>The run that succeeds, and its tear-down.\<close>

theorem cluster_torn_down_witness:
  "\<exists>t tc d log errs tc' d' log'. example_up True = (Ret (Inr (t, tc)), d, log) \<and>
     cluster_TearDown (example_tracked True) (su_sqlPlugins example_setup_env) (su_flags example_setup_env) tc (d, log) =
       (errs, tc', d', log') \<and>
     {Redis ''127.0.0.1:6379'', Process 22} \<subseteq> acquired log \<inter> released log' \<and> {Pprof, Conn 23} \<subseteq> acquired log - released log'"
proof -
  obtain t c log where c: "FrontendGRPCAddress c = Ret ''127.0.0.1:1''"
    "example_up True = and_try (start_tempura (example_tracked True) c (5, log)) (\<lambda>(mr, proxy, admin, cmd, conn) d.
       (Ret (Inr (t, \<lparr>testBase = example_test_base, archiverBase = example_archiver, cl_host = c, miniredis = Some mr,
          tempuraCmd = Some cmd, proxyPort = proxy, adminPort = admin, tempuraFrontendClient = Some conn\<rparr>)), d))"
    using example_up_server[of True] by blast
  let ?args = "tempura_args ''/tempura'' ''127.0.0.1:6379'' 5 6 ''127.0.0.1:1''"
  let ?log = "log @ [Beside (Redis_started ''127.0.0.1:6379''), Beside (Process_started 22 ?args), Beside (Conn_opened 23)]"
  have "start_tempura (example_tracked True) c (5, log) = (Ret (Inr (''127.0.0.1:6379'', 5, 6, 22, 23)), 7, ?log)"
    by (simp add: start_tempura_def do_port_def and_try_def do_call_def c(1) example_cluster_ops_def)
  then obtain tc where up: "example_up True = (Ret (Inr (t, tc)), 7, ?log)" "miniredis tc = Some ''127.0.0.1:6379''"
      "tempuraFrontendClient tc = Some 23"
    by (simp add: c(2) and_try_def)
  obtain errs tc' d' log' where down: "cluster_TearDown (example_tracked True) (su_sqlPlugins example_setup_env)
      (su_flags example_setup_env) tc (7, ?log) = (errs, tc', d', log')"
    by (metis prod_cases4)
  have "acquired ?log - released log' \<subseteq> {Pprof, Conn 23} \<union> range Index \<and> {Pprof, Conn 23} \<subseteq> acquired ?log - released log'"
    using cluster_torn_down[OF up(1)[unfolded example_up_def] down] up(3) by auto
  moreover have "{Redis ''127.0.0.1:6379'', Process 22} \<subseteq> acquired ?log"
    by simp
  ultimately have "{Redis ''127.0.0.1:6379'', Process 22} \<subseteq> acquired ?log \<inter> released log' \<and> {Pprof, Conn 23} \<subseteq> acquired ?log - released log'"
    by auto
  then show ?thesis
    using up(1) down by (intro exI[of _ t] exI[of _ tc] exI[of _ 7] exI[of _ ?log] exI[of _ errs] exI[of _ tc'] exI[of _ d'] exI[of _ log'])
      (simp only: simp_thms)
qed

text \<open>
  A set-up that fails: with a Redis that does not start, the services run on behind the error, and no cluster is returned
  through which they could be stopped.
\<close>

lemma failed_redis_leaves_services:
  "\<exists>err d log a. example_up False = (Ret (Inl err), d, log) \<and> App a \<in> acquired log \<and> App a \<notin> released log"
proof -
  obtain t c log where c: "start_server (example_tracked False) example_setup_env example_temporal_params [] (5, example_config_log) =
       (Ret (Inr (t, c)), 5, log)"
    "example_up False = and_try (start_tempura (example_tracked False) c (5, log)) (\<lambda>(mr, proxy, admin, cmd, conn) d.
       (Ret (Inr (t, \<lparr>testBase = example_test_base, archiverBase = example_archiver, cl_host = c, miniredis = Some mr,
          tempuraCmd = Some cmd, proxyPort = proxy, adminPort = admin, tempuraFrontendClient = Some conn\<rparr>)), d))"
    using example_up_server[of False] by blast
  have "start_tempura (example_tracked False) c (5, log) = (Ret (Inl (Errorf ''address in use'')), 5, log)"
    by (simp add: start_tempura_def and_try_def do_call_def example_cluster_ops_def)
  then have up: "example_up False = (Ret (Inl (Errorf ''address in use'')), 5, log)"
    by (simp add: c(2) and_try_def)
  have "all_places c = [(MatchingService, ''127.0.0.1:2''), (HistoryService, ''127.0.0.1:3''), (FrontendService, ''127.0.0.1:1'')]"
    using start_server_apps(3)[OF c(1)]
    by (simp add: all_places_def service_hosts_def hosts_of_def example_temporal_params_def temporal_params_def example_host_table_def
        all_hosts_def)
  then obtain a as where "fxApps c = a # as"
    using start_server_apps(1)[OF c(1)] by (cases "fxApps c") auto
  then have "App a \<in> acquired log"
    using start_server_apps(4)[OF c(1)] by auto
  moreover have "App a \<notin> released log"
    using NewCluster_holds_on[of "[]" "example_cluster_ops False" example_setup_env example_cluster_setup "[]" 1] up
    by (auto simp: example_up_def emits_def list_all_iff holds_on_def released_def)
  ultimately show ?thesis
    using up by blast
qed

end
