(* ===== verification/TaskPoller.thy ===== *)
theory TaskPoller
  imports Prelude
begin

text \<open>
  The task poller of the conformance tests (\<^verbatim>\<open>taskpoller.go\<close>): it polls a task queue, runs the
  test's handlers and answers the server. The server is a parameter: a client record over a state
  \<open>'d\<close>. \<^verbatim>\<open>Logger.Fatal\<close>, a failed \<^verbatim>\<open>require\<close> and a nil dereference end the test, which is the
  outcome \<open>Panic\<close>; reading the pages of a history may never end, which is \<open>Hang\<close>.
\<close>

section \<open>Tasks, requests and options\<close>

text \<open>Payloads, queries and messages are opaque. A nil slice or pointer is \<open>None\<close>.\<close>

type_synonym payload = "byte list"

datatype history_event = WorkflowTaskScheduled int | OtherEvent nat

record execution =
  ex_WorkflowId :: string
  ex_RunId :: string

record workflow_task =
  wt_TaskToken :: "byte list"
  wt_Execution :: "execution option"
  wt_Query :: "payload option"
  wt_History :: "history_event list option"
  wt_NextPageToken :: "byte list option"
  wt_Queries :: "string list"

record activity_task =
  at_TaskToken :: "byte list"
  at_Execution :: "execution option"
  at_ActivityId :: string

record application_failure =
  fail_Message :: string
  fail_Source :: string
  fail_Type :: string
  fail_NonRetryable :: bool
  fail_Details :: "payload option"

record query_completed =
  qc_Namespace :: string
  qc_TaskToken :: "byte list"
  qc_answered :: bool
  qc_ErrorMessage :: string
  qc_QueryResult :: "payload option"

record task_failed =
  tf_Namespace :: string
  tf_TaskToken :: "byte list"
  tf_Failure :: application_failure
  tf_Identity :: string

record task_completed =
  tc_Namespace :: string
  tc_TaskToken :: "byte list"
  tc_Identity :: string
  tc_Commands :: "payload list"
  tc_Messages :: "payload list"
  tc_Sticky :: "(string \<times> int) option"
  tc_ReturnNewWorkflowTask :: bool
  tc_ForceCreateNewWorkflowTask :: bool
  tc_QueryResults :: "string \<rightharpoonup> payload option"

text \<open>What an activity is answered with, by token or by ids.\<close>

datatype activity_ref = ByToken "byte list" | ById string string string

datatype activity_answer = Canceled string | Failed application_failure | Completed "payload option"

record activity_respond =
  ar_Namespace :: string
  ar_ref :: activity_ref
  ar_answer :: activity_answer
  ar_Identity :: string

record PollAndProcessWorkflowTaskOptions =
  DumpHistory :: bool
  DumpCommands :: bool
  DropTask :: bool
  PollSticky :: bool
  RespondSticky :: bool
  ExpectedAttemptCount :: int
  Retries :: int
  ForceNewWorkflowTask :: bool
  QueryResult :: "payload option"

definition defaultPollAndProcessWorkflowTaskOptions :: PollAndProcessWorkflowTaskOptions where
  "defaultPollAndProcessWorkflowTaskOptions =
     \<lparr>DumpHistory = False, DumpCommands = True, DropTask = False, PollSticky = False, RespondSticky = False,
      ExpectedAttemptCount = 1, Retries = 5, ForceNewWorkflowTask = False, QueryResult = None\<rparr>"

type_synonym option_func = "PollAndProcessWorkflowTaskOptions \<Rightarrow> PollAndProcessWorkflowTaskOptions"

definition WithDumpHistory :: option_func where
  "WithDumpHistory o' = o'\<lparr>DumpHistory := True\<rparr>"

definition WithNoDumpCommands :: option_func where
  "WithNoDumpCommands o' = o'\<lparr>DumpCommands := False\<rparr>"

definition WithDropTask :: option_func where
  "WithDropTask o' = o'\<lparr>DropTask := True\<rparr>"

definition WithPollSticky :: option_func where
  "WithPollSticky o' = o'\<lparr>PollSticky := True\<rparr>"

definition WithRespondSticky :: option_func where
  "WithRespondSticky o' = o'\<lparr>RespondSticky := True\<rparr>"

definition WithExpectedAttemptCount :: "int \<Rightarrow> option_func" where
  "WithExpectedAttemptCount c o' = o'\<lparr>ExpectedAttemptCount := c\<rparr>"

definition WithRetries :: "int \<Rightarrow> option_func" where
  "WithRetries c o' = o'\<lparr>Retries := c\<rparr>"

definition WithoutRetries :: option_func where
  "WithoutRetries o' = o'\<lparr>Retries := 1\<rparr>"

definition WithForceNewWorkflowTask :: option_func where
  "WithForceNewWorkflowTask o' = o'\<lparr>ForceNewWorkflowTask := True\<rparr>"

section \<open>The poller and its client\<close>

text \<open>
  The errors of the packages it uses: \<^verbatim>\<open>consts.ErrDuplicate\<close>, \<^verbatim>\<open>common.IsServiceTransientError\<close>, the
  retryability of an SDK application error and the type name of an error.
\<close>

record error_info =
  ErrDuplicate :: go_error
  IsServiceTransientError :: "go_error option \<Rightarrow> bool"
  as_application :: "go_error \<Rightarrow> bool option"
  getErrorType :: "go_error \<Rightarrow> string"

record TaskPoller =
  poller_Namespace :: string
  TaskQueue :: string
  StickyTaskQueue :: string
  StickyScheduleToStartTimeout :: int
  Identity :: string
  WorkflowTaskHandler :: "workflow_task \<Rightarrow> payload list result"
  ActivityTaskHandler :: "activity_task \<Rightarrow> payload option \<times> bool \<times> go_error option"
  QueryHandler :: "workflow_task \<Rightarrow> payload result"
  MessageHandler :: "(workflow_task \<Rightarrow> payload list result) option"
  poller_errors :: error_info

text \<open>A page of history is the events of the response's history (nil or not) and the next token.\<close>

record ('d, 'r) service_client =
  cl_PollWorkflow :: "string \<times> string \<times> string \<Rightarrow> 'd \<Rightarrow> (workflow_task option \<times> go_error option) \<times> 'd"
  cl_GetHistory :: "string \<times> execution option \<times> byte list \<Rightarrow> 'd \<Rightarrow> (history_event list option \<times> byte list option) result \<times> 'd"
  cl_RespondQuery :: "query_completed \<Rightarrow> 'd \<Rightarrow> go_error option \<times> 'd"
  cl_RespondFailed :: "task_failed \<Rightarrow> 'd \<Rightarrow> go_error option \<times> 'd"
  cl_RespondCompleted :: "task_completed \<Rightarrow> 'd \<Rightarrow> ('r option \<times> go_error option) \<times> 'd"
  cl_PollActivity :: "string \<times> string \<times> string \<Rightarrow> 'd \<Rightarrow> (activity_task option \<times> go_error option) \<times> 'd"
  cl_RespondActivity :: "activity_respond \<Rightarrow> 'd \<Rightarrow> go_error option \<times> 'd"

record 'r PollAndProcessWorkflowTaskResponse =
  IsQueryTask :: bool
  NewTask :: "'r option"

definition no_response :: "'r PollAndProcessWorkflowTaskResponse" where
  "no_response = \<lparr>IsQueryTask = False, NewTask = None\<rparr>"

type_synonym 'r processed = "'r PollAndProcessWorkflowTaskResponse \<times> go_error option"

definition ErrNoTasks :: go_error where
  "ErrNoTasks = Errorf ''no tasks''"

definition newApplicationFailure :: "error_info \<Rightarrow> go_error \<Rightarrow> bool \<Rightarrow> payload option \<Rightarrow> application_failure" where
  "newApplicationFailure info err nonRetryable details =
     (let nonRetryable = (case as_application info err of None \<Rightarrow> nonRetryable | Some b \<Rightarrow> b) in
      \<lparr>fail_Message = error_text err, fail_Source = ''Functional Tests'', fail_Type = getErrorType info err,
       fail_NonRetryable = nonRetryable, fail_Details = details\<rparr>)"

fun getQueryResults :: "string list \<Rightarrow> payload option \<Rightarrow> (string \<rightharpoonup> payload option)" where
  "getQueryResults [] queryResult = Map.empty"
| "getQueryResults (k # queries) queryResult = (getQueryResults queries queryResult)(k \<mapsto> queryResult)"

section \<open>Workflow tasks\<close>

text \<open>The pages after the first: \<open>None\<close> when the server never stops handing out tokens.\<close>

partial_function (option) page_loop ::
    "('d, 'r) service_client \<Rightarrow> string \<Rightarrow> execution option \<Rightarrow> byte list option \<Rightarrow> history_event list \<Rightarrow> 'd
     \<Rightarrow> (history_event list result outcome \<times> 'd) option" where
  "page_loop cl namespace exe nextPageToken events d =
     (case nextPageToken of
        None \<Rightarrow> Some (Ret (Inr events), d)
      | Some token \<Rightarrow>
          (case cl_GetHistory cl (namespace, exe, token) d of
             (Inl err, d) \<Rightarrow> Some (Ret (Inl err), d)
           | (Inr (None, _), d) \<Rightarrow> Some (Panic ''nil pointer dereference'', d)
           | (Inr (Some evs, token'), d) \<Rightarrow> page_loop cl namespace exe token' (events @ evs) d))"

definition fetch_events ::
    "('d, 'r) service_client \<Rightarrow> TaskPoller \<Rightarrow> bool \<Rightarrow> workflow_task \<Rightarrow> 'd \<Rightarrow> history_event list result outcome \<times> 'd" where
  "fetch_events cl p pollSticky response d =
     (if wt_Query response = None \<or> \<not> pollSticky then
        (case wt_History response of
           None \<Rightarrow> (Panic ''History is nil'', d)
         | Some events \<Rightarrow>
             if length events = 0 then (Panic ''History Events are empty'', d)
             else (case page_loop cl (poller_Namespace p) (wt_Execution response) (wt_NextPageToken response) events d of
                     None \<Rightarrow> (Hang, d) | Some x \<Rightarrow> x))
      else
        (case wt_History response of
           None \<Rightarrow> (Ret (Inr []), d)
         | Some events \<Rightarrow>
             if length events = 0 \<and> wt_NextPageToken response = None then (Ret (Inr []), d)
             else (Panic ''History is not empty for sticky query'', d)))"

definition answer_query :: "('d, 'r) service_client \<Rightarrow> TaskPoller \<Rightarrow> workflow_task \<Rightarrow> 'd \<Rightarrow> 'r processed \<times> 'd" where
  "answer_query cl p response d =
     (let completeRequest =
            (case QueryHandler p response of
               Inl err \<Rightarrow> \<lparr>qc_Namespace = poller_Namespace p, qc_TaskToken = wt_TaskToken response, qc_answered = False,
                 qc_ErrorMessage = error_text err, qc_QueryResult = None\<rparr>
             | Inr blob \<Rightarrow> \<lparr>qc_Namespace = poller_Namespace p, qc_TaskToken = wt_TaskToken response, qc_answered = True,
                 qc_ErrorMessage = '''', qc_QueryResult = Some blob\<rparr>);
          (err, d) = cl_RespondQuery cl completeRequest d
      in ((\<lparr>IsQueryTask = True, NewTask = None\<rparr>, err), d))"

definition fail_task :: "('d, 'r) service_client \<Rightarrow> TaskPoller \<Rightarrow> workflow_task \<Rightarrow> go_error \<Rightarrow> 'd \<Rightarrow> go_error option \<times> 'd" where
  "fail_task cl p response err d =
     cl_RespondFailed cl \<lparr>tf_Namespace = poller_Namespace p, tf_TaskToken = wt_TaskToken response,
       tf_Failure = newApplicationFailure (poller_errors p) err False None, tf_Identity = Identity p\<rparr> d"

definition handle_messages :: "TaskPoller \<Rightarrow> workflow_task \<Rightarrow> payload list result" where
  "handle_messages p response = (case MessageHandler p of None \<Rightarrow> Inr [] | Some f \<Rightarrow> f response)"

fun last_scheduled :: "history_event list \<Rightarrow> int option \<Rightarrow> int option" where
  "last_scheduled [] e = e"
| "last_scheduled (WorkflowTaskScheduled n # es) e = last_scheduled es (Some n)"
| "last_scheduled (OtherEvent _ # es) e = last_scheduled es e"

definition sticky_attributes :: "TaskPoller \<Rightarrow> (string \<times> int) option" where
  "sticky_attributes p = Some (StickyTaskQueue p, StickyScheduleToStartTimeout p)"

text \<open>The answer to a sticky queue carries no messages.\<close>

definition completed_request ::
    "TaskPoller \<Rightarrow> PollAndProcessWorkflowTaskOptions \<Rightarrow> workflow_task \<Rightarrow> payload list \<Rightarrow> payload list \<Rightarrow> task_completed" where
  "completed_request p opts response commands messages =
     (if \<not> RespondSticky opts then
        \<lparr>tc_Namespace = poller_Namespace p, tc_TaskToken = wt_TaskToken response, tc_Identity = Identity p,
         tc_Commands = commands, tc_Messages = messages, tc_Sticky = None, tc_ReturnNewWorkflowTask = True,
         tc_ForceCreateNewWorkflowTask = ForceNewWorkflowTask opts,
         tc_QueryResults = getQueryResults (wt_Queries response) (QueryResult opts)\<rparr>
      else
        \<lparr>tc_Namespace = poller_Namespace p, tc_TaskToken = wt_TaskToken response, tc_Identity = Identity p,
         tc_Commands = commands, tc_Messages = [], tc_Sticky = sticky_attributes p, tc_ReturnNewWorkflowTask = True,
         tc_ForceCreateNewWorkflowTask = ForceNewWorkflowTask opts,
         tc_QueryResults = getQueryResults (wt_Queries response) (QueryResult opts)\<rparr>)"

text \<open>The check of the attempt count of the last scheduled task.\<close>

definition attempt_mismatch :: "PollAndProcessWorkflowTaskOptions \<Rightarrow> history_event list \<Rightarrow> bool" where
  "attempt_mismatch opts events \<longleftrightarrow>
     (case last_scheduled events None of
        None \<Rightarrow> False
      | Some n \<Rightarrow> ExpectedAttemptCount opts > 1 \<and> n \<noteq> ExpectedAttemptCount opts)"

text \<open>The rest of an attempt once a task and its events are there.\<close>

definition process_task ::
    "('d, 'r) service_client \<Rightarrow> TaskPoller \<Rightarrow> PollAndProcessWorkflowTaskOptions \<Rightarrow> workflow_task \<Rightarrow> history_event list
     \<Rightarrow> 'd \<Rightarrow> 'r processed outcome \<times> 'd" where
  "process_task cl p opts response events d =
     (if DropTask opts then (Ret (no_response, None), d)
      else if DumpHistory opts \<and> wt_History response = None then (Panic ''nil pointer dereference'', d)
      else if wt_Query response \<noteq> None then (let (x, d) = answer_query cl p response d in (Ret x, d))
      else case handle_messages p response of
        Inl err \<Rightarrow> (let (err', d) = fail_task cl p response err d in (Ret (no_response, err'), d))
      | Inr messages \<Rightarrow>
          if attempt_mismatch opts events then (Panic ''Not equal'', d)
          else (case WorkflowTaskHandler p response of
              Inl err \<Rightarrow> (let (err', d) = fail_task cl p response err d in (Ret (no_response, err'), d))
            | Inr commands \<Rightarrow>
                (let ((newTask, err), d) = cl_RespondCompleted cl (completed_request p opts response commands messages) d
                 in (Ret (\<lparr>IsQueryTask = False, NewTask = newTask\<rparr>, err), d))))"

text \<open>\<open>attempts\<close> is the number of attempts left.\<close>

fun poll_loop ::
    "('d, 'r) service_client \<Rightarrow> TaskPoller \<Rightarrow> PollAndProcessWorkflowTaskOptions \<Rightarrow> nat \<Rightarrow> 'd \<Rightarrow> 'r processed outcome \<times> 'd" where
  "poll_loop cl p opts 0 d = (Ret (no_response, Some ErrNoTasks), d)"
| "poll_loop cl p opts (Suc attempts) d =
     (let taskQueue = (if PollSticky opts then StickyTaskQueue p else TaskQueue p);
          ((response, err1), d) = cl_PollWorkflow cl (poller_Namespace p, taskQueue, Identity p) d
      in if \<not> IsServiceTransientError (poller_errors p) err1 then (Ret (no_response, err1), d)
         else if err1 = Some (ErrDuplicate (poller_errors p)) then poll_loop cl p opts attempts d
         else if err1 \<noteq> None then (Ret (no_response, err1), d)
         else case response of
           None \<Rightarrow> poll_loop cl p opts attempts d
         | Some response \<Rightarrow>
             if length (wt_TaskToken response) = 0 then poll_loop cl p opts attempts d
             else (case fetch_events cl p (PollSticky opts) response d of
                 (Panic msg, d) \<Rightarrow> (Panic msg, d)
               | (Hang, d) \<Rightarrow> (Hang, d)
               | (Ret (Inl err2), d) \<Rightarrow> (Ret (no_response, Some err2), d)
               | (Ret (Inr events), d) \<Rightarrow> process_task cl p opts response events d))"

definition PollAndProcessWorkflowTaskWithOptions ::
    "('d, 'r) service_client \<Rightarrow> TaskPoller \<Rightarrow> PollAndProcessWorkflowTaskOptions \<Rightarrow> 'd \<Rightarrow> 'r processed outcome \<times> 'd" where
  "PollAndProcessWorkflowTaskWithOptions cl p opts d = poll_loop cl p opts (nat (Retries opts)) d"

definition PollAndProcessWorkflowTask ::
    "('d, 'r) service_client \<Rightarrow> TaskPoller \<Rightarrow> option_func list \<Rightarrow> 'd \<Rightarrow> 'r processed outcome \<times> 'd" where
  "PollAndProcessWorkflowTask cl p funcs d =
     (let opts = fold (\<lambda>f o'. f o') funcs defaultPollAndProcessWorkflowTaskOptions
      in PollAndProcessWorkflowTaskWithOptions cl p opts d)"

definition HandlePartialWorkflowTask ::
    "('d, 'r) service_client \<Rightarrow> TaskPoller \<Rightarrow> workflow_task option \<Rightarrow> bool \<Rightarrow> 'd
     \<Rightarrow> ('r option \<times> go_error option) outcome \<times> 'd" where
  "HandlePartialWorkflowTask cl p response forceCreateNewWorkflowTask d =
     (case response of
        None \<Rightarrow> (Ret (None, None), d)
      | Some response \<Rightarrow>
          if length (wt_TaskToken response) = 0 then (Ret (None, None), d)
          else case wt_History response of
            None \<Rightarrow> (Panic ''History is nil'', d)
          | Some events \<Rightarrow>
              if length events = 0 then (Panic ''History Events are empty'', d)
              else case handle_messages p response of
                Inl err \<Rightarrow> (let (err', d) = fail_task cl p response err d in (Ret (None, err'), d))
              | Inr messages \<Rightarrow>
                  (case WorkflowTaskHandler p response of
                     Inl err \<Rightarrow> (let (err', d) = fail_task cl p response err d in (Ret (None, err'), d))
                   | Inr commands \<Rightarrow>
                       (let (x, d) = cl_RespondCompleted cl
                              \<lparr>tc_Namespace = poller_Namespace p, tc_TaskToken = wt_TaskToken response,
                               tc_Identity = Identity p, tc_Commands = commands, tc_Messages = messages,
                               tc_Sticky = sticky_attributes p, tc_ReturnNewWorkflowTask = True,
                               tc_ForceCreateNewWorkflowTask = forceCreateNewWorkflowTask, tc_QueryResults = Map.empty\<rparr> d
                        in (Ret x, d))))"

section \<open>Activity tasks\<close>

definition respond_activity ::
    "('d, 'r) service_client \<Rightarrow> TaskPoller \<Rightarrow> activity_ref \<Rightarrow> activity_task \<Rightarrow> 'd \<Rightarrow> go_error option \<times> 'd" where
  "respond_activity cl p ref response d =
     (let (result, cancel, err2) = ActivityTaskHandler p response;
          ans = (if cancel then Canceled ''details''
                 else case err2 of
                   Some err \<Rightarrow> Failed (newApplicationFailure (poller_errors p) err False None)
                 | None \<Rightarrow> Completed result)
      in cl_RespondActivity cl \<lparr>ar_Namespace = poller_Namespace p, ar_ref = ref, ar_answer = ans, ar_Identity = Identity p\<rparr> d)"

fun activity_loop ::
    "('d, 'r) service_client \<Rightarrow> TaskPoller \<Rightarrow> bool \<Rightarrow> nat \<Rightarrow> 'd \<Rightarrow> go_error option \<times> 'd" where
  "activity_loop cl p dropTask 0 d = (Some ErrNoTasks, d)"
| "activity_loop cl p dropTask (Suc attempts) d =
     (let ((response, err), d) = cl_PollActivity cl (poller_Namespace p, TaskQueue p, Identity p) d
      in if err = Some (ErrDuplicate (poller_errors p)) then activity_loop cl p dropTask attempts d
         else if err \<noteq> None then (err, d)
         else case response of
           None \<Rightarrow> activity_loop cl p dropTask attempts d
         | Some response \<Rightarrow>
             if length (at_TaskToken response) = 0 then activity_loop cl p dropTask attempts d
             else if dropTask then (None, d)
             else respond_activity cl p (ByToken (at_TaskToken response)) response d)"

definition PollAndProcessActivityTask ::
    "('d, 'r) service_client \<Rightarrow> TaskPoller \<Rightarrow> bool \<Rightarrow> 'd \<Rightarrow> go_error option \<times> 'd" where
  "PollAndProcessActivityTask cl p dropTask d = activity_loop cl p dropTask 5 d"

definition by_id :: "activity_task \<Rightarrow> activity_ref" where
  "by_id response =
     ById (case at_Execution response of None \<Rightarrow> '''' | Some e \<Rightarrow> ex_WorkflowId e)
       (case at_Execution response of None \<Rightarrow> '''' | Some e \<Rightarrow> ex_RunId e) (at_ActivityId response)"

text \<open>Here an empty poll returns at once.\<close>

fun activity_id_loop ::
    "('d, 'r) service_client \<Rightarrow> TaskPoller \<Rightarrow> bool \<Rightarrow> nat \<Rightarrow> 'd \<Rightarrow> go_error option \<times> 'd" where
  "activity_id_loop cl p dropTask 0 d = (Some ErrNoTasks, d)"
| "activity_id_loop cl p dropTask (Suc attempts) d =
     (let ((response, err1), d) = cl_PollActivity cl (poller_Namespace p, TaskQueue p, Identity p) d
      in if err1 = Some (ErrDuplicate (poller_errors p)) then activity_id_loop cl p dropTask attempts d
         else if err1 \<noteq> None then (err1, d)
         else case response of
           None \<Rightarrow> (None, d)
         | Some response \<Rightarrow>
             if length (at_TaskToken response) = 0 then (None, d)
             else if at_ActivityId response = '''' then (None, d)
             else if dropTask then (None, d)
             else respond_activity cl p (by_id response) response d)"

definition PollAndProcessActivityTaskWithID ::
    "('d, 'r) service_client \<Rightarrow> TaskPoller \<Rightarrow> bool \<Rightarrow> 'd \<Rightarrow> go_error option \<times> 'd" where
  "PollAndProcessActivityTaskWithID cl p dropTask d = activity_id_loop cl p dropTask 5 d"

section \<open>Reading a history ends\<close>

text \<open>
  A server that hands out tokens of decreasing rank is read to the end.
\<close>

lemma page_loop_ends:
  fixes rank :: "byte list \<Rightarrow> nat"
  assumes "\<And>token d evs token' d'. cl_GetHistory cl (ns, exe, token) d = (Inr (evs, Some token'), d') \<Longrightarrow> rank token' < rank token"
  shows "\<exists>x. page_loop cl ns exe tok events d = Some x"
proof (induction "case tok of None \<Rightarrow> 0 | Some t \<Rightarrow> Suc (rank t)" arbitrary: tok events d rule: less_induct)
  case less
  show ?case
  proof (cases tok)
    case None
    then show ?thesis by (simp add: page_loop.simps)
  next
    case (Some t)
    obtain r d' where r: "cl_GetHistory cl (ns, exe, t) d = (r, d')" by fastforce
    have "\<exists>x. page_loop cl ns exe token' (events @ evs) d' = Some x" if "r = Inr (Some evs, token')" for evs token'
      using that assms[of t d "Some evs" _ d'] r Some by (intro less.hyps) (auto split: option.splits)
    then show ?thesis using Some r
      by (subst page_loop.simps) (auto split: sum.splits option.splits)
  qed
qed

section \<open>How often the server is called\<close>

text \<open>The same client with two counters next to its state: polls, and answers to tasks.\<close>

definition counted :: "('d, 'r) service_client \<Rightarrow> ('d \<times> nat \<times> nat, 'r) service_client" where
  "counted cl =
     \<lparr>cl_PollWorkflow = (\<lambda>q (d, a, b). let (x, d) = cl_PollWorkflow cl q d in (x, (d, a + 1, b))),
      cl_GetHistory = (\<lambda>q (d, a, b). let (x, d) = cl_GetHistory cl q d in (x, (d, a, b))),
      cl_RespondQuery = (\<lambda>q (d, a, b). let (x, d) = cl_RespondQuery cl q d in (x, (d, a, b + 1))),
      cl_RespondFailed = (\<lambda>q (d, a, b). let (x, d) = cl_RespondFailed cl q d in (x, (d, a, b + 1))),
      cl_RespondCompleted = (\<lambda>q (d, a, b). let (x, d) = cl_RespondCompleted cl q d in (x, (d, a, b + 1))),
      cl_PollActivity = (\<lambda>q (d, a, b). let (x, d) = cl_PollActivity cl q d in (x, (d, a + 1, b))),
      cl_RespondActivity = (\<lambda>q (d, a, b). let (x, d) = cl_RespondActivity cl q d in (x, (d, a, b + 1)))\<rparr>"

definition polls :: "'d \<times> nat \<times> nat \<Rightarrow> nat" where "polls s = fst (snd s)"
definition answers :: "'d \<times> nat \<times> nat \<Rightarrow> nat" where "answers s = snd (snd s)"

lemma counted_calls:
  "cl_PollWorkflow (counted cl) q s = (x, s') \<Longrightarrow> polls s' = polls s + 1 \<and> answers s' = answers s"
  "cl_GetHistory (counted cl) g s = (y, s') \<Longrightarrow> polls s' = polls s \<and> answers s' = answers s"
  "cl_RespondQuery (counted cl) k s = (e, s') \<Longrightarrow> polls s' = polls s \<and> answers s' = answers s + 1"
  "cl_RespondFailed (counted cl) f s = (e, s') \<Longrightarrow> polls s' = polls s \<and> answers s' = answers s + 1"
  "cl_RespondCompleted (counted cl) c s = (z, s') \<Longrightarrow> polls s' = polls s \<and> answers s' = answers s + 1"
  "cl_PollActivity (counted cl) q s = (v, s') \<Longrightarrow> polls s' = polls s + 1 \<and> answers s' = answers s"
  "cl_RespondActivity (counted cl) r s = (e, s') \<Longrightarrow> polls s' = polls s \<and> answers s' = answers s + 1"
  by (auto simp: counted_def polls_def answers_def Let_def case_prod_beta)

lemma page_loop_counts:
  assumes "page_loop (counted cl) ns exe tok events s = Some (out, s')"
  shows "polls s' = polls s \<and> answers s' = answers s"
proof -
  have "cl' = counted cl \<longrightarrow> polls (snd y) = polls s \<and> answers (snd y) = answers s"
    if "page_loop cl' ns exe tok events s = Some y" for cl' ns exe tok events s y
    using that
    apply (rule page_loop.raw_induct[where P = "\<lambda>cl' ns exe tok events s y. cl' = counted cl \<longrightarrow>
          polls (snd y) = polls s \<and> answers (snd y) = answers s", rotated])
    subgoal premises body for f cl' ns exe tok events s y
      using body(2)
      by (auto split: option.splits sum.splits prod.splits dest!: counted_calls(2) body(1))
    done
  from this[OF assms] show ?thesis by simp
qed

lemma fetch_events_counts:
  "fetch_events (counted cl) p st response s = (out, s') \<Longrightarrow> polls s' = polls s \<and> answers s' = answers s"
  by (auto simp: fetch_events_def split: if_splits option.splits dest: page_loop_counts)

lemma fail_task_counts:
  "fail_task (counted cl) p response err s = (out, s') \<Longrightarrow> polls s' = polls s \<and> answers s' = answers s + 1"
  by (auto simp: fail_task_def dest: counted_calls(4))

lemma process_task_counts:
  assumes "process_task (counted cl) p opts response events s = (out, s')"
  shows "polls s' = polls s \<and> answers s' = answers s + (if DropTask opts \<or> is_panic out then 0 else 1)"
  using assms unfolding process_task_def
  by (auto simp: answer_query_def Let_def split: if_splits sum.splits prod.splits
      dest: counted_calls fail_task_counts)

text \<open>A run polls at most as often as it may, and answers at most one task.\<close>

lemma poll_loop_counts:
  assumes "poll_loop (counted cl) p opts n s = (out, s')"
  shows "polls s' \<le> polls s + n \<and> answers s' \<le> answers s + (if DropTask opts then 0 else 1)"
  using assms
proof (induction n arbitrary: s)
  case 0
  then show ?case by simp
next
  case (Suc n)
  let ?q = "(poller_Namespace p, if PollSticky opts then StickyTaskQueue p else TaskQueue p, Identity p)"
  obtain response err1 s1 where q: "cl_PollWorkflow (counted cl) ?q s = ((response, err1), s1)" by (metis prod.collapse)
  have c: "polls s1 = polls s + 1" "answers s1 = answers s" using counted_calls(1)[OF q] by auto
  define Q where "Q \<longleftrightarrow> polls s' \<le> polls s + Suc n \<and> answers s' \<le> answers s + (if DropTask opts then 0 else 1)"
  have again: "poll_loop (counted cl) p opts n s1 = (out, s') \<Longrightarrow> Q"
    using Suc.IH[of s1] c by (auto simp: Q_def)
  have stop: "s1 = s' \<Longrightarrow> Q" using c by (auto simp: Q_def)
  have task: "process_task (counted cl) p opts r ev s2 = (out, s') \<Longrightarrow> fetch_events (counted cl) p st r s1 = (e, s2) \<Longrightarrow> Q"
    for r ev s2 st e
    using process_task_counts[of cl p opts r ev s2 out s'] fetch_events_counts[of cl p st r s1 e s2] c
    by (auto simp: Q_def)
  have fetched: "fetch_events (counted cl) p st r s1 = (e, s') \<Longrightarrow> Q" for r st e
    using fetch_events_counts[of cl p st r s1 e s'] c by (auto simp: Q_def)
  have Q
  proof (cases "\<not> IsServiceTransientError (poller_errors p) err1 \<or> err1 \<noteq> None \<or> response = None \<or> wt_TaskToken (the response) = []")
    case True
    then show ?thesis using Suc.prems again stop by (auto simp: q Let_def split: if_splits option.splits)
  next
    case False
    then obtain r where r: "response = Some r" "err1 = None" "IsServiceTransientError (poller_errors p) None" "wt_TaskToken r \<noteq> []"
      by auto
    obtain e s2 where f: "fetch_events (counted cl) p (PollSticky opts) r s1 = (e, s2)"
      by (cases "fetch_events (counted cl) p (PollSticky opts) r s1") blast
    show ?thesis using Suc.prems r f task[OF _ f] fetched[of "PollSticky opts" r e]
      by (auto simp: q Let_def split: outcome.splits sum.splits)
  qed
  then show ?case by (simp add: Q_def)
qed

section \<open>A queue without tasks\<close>

text \<open>
  The answer to a poll that has run into its time limit: a response without a token (a gRPC client gives a response whenever
  it gives no error; the code allows for none as well).
\<close>

definition no_task_in :: "workflow_task option \<Rightarrow> bool" where
  "no_task_in response \<longleftrightarrow> (case response of None \<Rightarrow> True | Some t \<Rightarrow> wt_TaskToken t = [])"

definition queue_empty :: "('d, 'r) service_client \<Rightarrow> bool" where
  "queue_empty cl \<longleftrightarrow> (\<forall>q d. case cl_PollWorkflow cl q d of ((response, err), d') \<Rightarrow> err = None \<and> no_task_in response)"

lemma poll_loop_empty:
  assumes "IsServiceTransientError (poller_errors p) None" "queue_empty cl"
  shows "\<exists>s'. poll_loop (counted cl) p opts n s = (Ret (no_response, Some ErrNoTasks), s') \<and> polls s' = polls s + n \<and> answers s' = answers s"
proof (induction n arbitrary: s)
  case (Suc n)
  let ?q = "(poller_Namespace p, if PollSticky opts then StickyTaskQueue p else TaskQueue p, Identity p)"
  obtain d a b where s: "s = (d, a, b)" by (cases s)
  obtain response err d' where "cl_PollWorkflow cl ?q d = ((response, err), d')"
    by (metis prod.exhaust)
  moreover from this have "err = None \<and> no_task_in response"
    using assms(2)[unfolded queue_empty_def, rule_format, of ?q d] by simp
  ultimately have r: "cl_PollWorkflow cl ?q d = ((response, None), d')" "no_task_in response"
    by simp_all
  then have q: "cl_PollWorkflow (counted cl) ?q s = ((response, None), (d', a + 1, b))" by (simp add: counted_def s)
  from Suc.IH[of "(d', a + 1, b)"] show ?case
    using assms(1) q r(2) by (auto simp: polls_def answers_def s Let_def no_task_in_def split: option.splits)
qed simp

section \<open>Properties\<close>

text \<open>
  C35: A call of the task poller polls the server at most as often as its retry option says and answers
  at most one task, none when it is told to drop it. On a queue without tasks, where every poll brings a response with an empty token,
  it uses all its retries, answers nothing and reports that there are no tasks; here the classification of errors outside the repository is
  assumed to call the absence of an error transient, without which the poller returns after its first poll.
\<close>

theorem poller_calls_bounded:
  assumes "PollAndProcessWorkflowTaskWithOptions (counted cl) p opts (d, 0, 0) = (out, s')"
  shows "int (polls s') \<le> max 0 (Retries opts) \<and> answers s' \<le> (if DropTask opts then 0 else 1) \<and>
    (IsServiceTransientError (poller_errors p) None \<longrightarrow> queue_empty cl \<longrightarrow>
       out = Ret (no_response, Some ErrNoTasks) \<and> int (polls s') = max 0 (Retries opts) \<and> answers s' = 0)"
proof -
  have run: "poll_loop (counted cl) p opts (nat (Retries opts)) (d, 0, 0) = (out, s')"
    using assms by (simp add: PollAndProcessWorkflowTaskWithOptions_def)
  have "out = Ret (no_response, Some ErrNoTasks) \<and> int (polls s') = max 0 (Retries opts) \<and> answers s' = 0"
    if "IsServiceTransientError (poller_errors p) None" "queue_empty cl"
    using poll_loop_empty[OF that, of opts "nat (Retries opts)" "(d, 0, 0)"] run by (auto simp: polls_def answers_def)
  then show ?thesis using poll_loop_counts[OF run] by (auto simp: polls_def answers_def)
qed

text \<open>A server without tasks and a poller, for an example.\<close>

definition empty_task :: workflow_task where
  "empty_task = \<lparr>wt_TaskToken = [], wt_Execution = None, wt_Query = None, wt_History = None, wt_NextPageToken = None, wt_Queries = []\<rparr>"

definition example_client :: "(nat, unit) service_client" where
  "example_client = \<lparr>cl_PollWorkflow = (\<lambda>_ d. ((Some empty_task, None), d)), cl_GetHistory = (\<lambda>_ d. (Inl (Errorf ''no history''), d)),
     cl_RespondQuery = (\<lambda>_ d. (None, d)), cl_RespondFailed = (\<lambda>_ d. (None, d)), cl_RespondCompleted = (\<lambda>_ d. ((None, None), d)),
     cl_PollActivity = (\<lambda>_ d. ((None, None), d)), cl_RespondActivity = (\<lambda>_ d. (None, d))\<rparr>"

definition example_poller :: TaskPoller where
  "example_poller = \<lparr>poller_Namespace = ''ns'', TaskQueue = ''tq'', StickyTaskQueue = ''sticky'', StickyScheduleToStartTimeout = 0,
     Identity = ''id'', WorkflowTaskHandler = (\<lambda>_. Inr []), ActivityTaskHandler = (\<lambda>_. (None, False, None)),
     QueryHandler = (\<lambda>_. Inr []), MessageHandler = None,
     poller_errors = \<lparr>ErrDuplicate = Errorf ''duplicate'', IsServiceTransientError = (\<lambda>_. True), as_application = (\<lambda>_. None),
       getErrorType = error_text\<rparr>\<rparr>"

theorem poller_calls_bounded_witness:
  "fst (PollAndProcessWorkflowTaskWithOptions (counted example_client) example_poller defaultPollAndProcessWorkflowTaskOptions (0, 0, 0))
     = Ret (no_response, Some ErrNoTasks)"
proof -
  obtain out s' where r: "PollAndProcessWorkflowTaskWithOptions (counted example_client) example_poller
      defaultPollAndProcessWorkflowTaskOptions (0, 0, 0) = (out, s')" by (rule prod.exhaust)
  have "IsServiceTransientError (poller_errors example_poller) None" "queue_empty example_client"
    by (simp_all add: example_poller_def example_client_def queue_empty_def no_task_in_def empty_task_def)
  with poller_calls_bounded[OF r] show ?thesis by (simp add: r)
qed

end
