(* ===== verification/MixedBrain.thy ===== *)
theory MixedBrain
  imports GoStdlib
begin

text \<open>
  The helpers of the mixed-version tests (\<^verbatim>\<open>mixedbrain/\<close>): the ports of the two servers and the
  configuration generated for them, the round-robin TCP proxy in front of them, the choice of the
  release to test against, and the test that the servers have found each other.
\<close>

section \<open>Ports and configuration\<close>

record portSet =
  FrontendGRPC :: int
  FrontendMembership :: int
  FrontendHTTP :: int
  HistoryGRPC :: int
  HistoryMembership :: int
  MatchingGRPC :: int
  MatchingMembership :: int
  WorkerGRPC :: int
  WorkerMembership :: int

definition newPortSet :: "int \<Rightarrow> portSet" where
  "newPortSet base =
     \<lparr>FrontendGRPC = base, FrontendMembership = base + 1, FrontendHTTP = base + 2, HistoryGRPC = base + 3,
      HistoryMembership = base + 4, MatchingGRPC = base + 5, MatchingMembership = base + 6, WorkerGRPC = base + 7,
      WorkerMembership = base + 8\<rparr>"

definition portSetA :: portSet where
  "portSetA = newPortSet 7230"

definition portSetB :: portSet where
  "portSetB = newPortSet 8240"

definition frontendAddr :: "portSet \<Rightarrow> string" where
  "frontendAddr p = ''127.0.0.1:'' @ Itoa (FrontendGRPC p)"

definition membershipPorts :: "portSet \<Rightarrow> int list" where
  "membershipPorts p = [FrontendMembership p, HistoryMembership p, MatchingMembership p, WorkerMembership p]"

record sql_store =
  PluginName :: string
  DatabaseName :: string
  ConnectAddr :: string
  ConnectProtocol :: string
  User :: string
  Password :: string
  ConnectAttributes :: "(string \<times> string) list"
  MaxConns :: int
  MaxIdleConns :: int
  MaxConnLifetimeSec :: int

record rpc_config =
  GRPCPort :: int
  MembershipPort :: int
  HTTPPort :: int
  BindOnLocalHost :: bool

record server_config =
  NumHistoryShards :: int
  DataStores :: "(string \<times> sql_store) list"
  Services :: "(string \<times> rpc_config) list"
  RPCAddress :: string
  HTTPAddress :: string

text \<open>\<open>join\<close> is \<^verbatim>\<open>filepath.Join\<close>.\<close>

definition sqlite_store :: "(string list \<Rightarrow> string) \<Rightarrow> string \<Rightarrow> string \<Rightarrow> sql_store" where
  "sqlite_store join tmpDir dbName =
     \<lparr>PluginName = ''sqlite'', DatabaseName = join [tmpDir, dbName], ConnectAddr = ''localhost'',
      ConnectProtocol = ''tcp'', User = '''', Password = '''',
      ConnectAttributes = [(''cache'', ''private''), (''setup'', ''true''), (''journal_mode'', ''wal''),
        (''synchronous'', ''2''), (''busy_timeout'', ''10000'')],
      MaxConns = 1, MaxIdleConns = 1, MaxConnLifetimeSec = 0\<rparr>"

definition postgres_store :: "string \<Rightarrow> string \<Rightarrow> sql_store" where
  "postgres_store driver dbName =
     \<lparr>PluginName = driver, DatabaseName = dbName, ConnectAddr = ''127.0.0.1:5432'', ConnectProtocol = ''tcp'',
      User = ''temporal'', Password = ''temporal'', ConnectAttributes = [], MaxConns = 20, MaxIdleConns = 20,
      MaxConnLifetimeSec = 3600\<rparr>"

definition data_stores :: "(string list \<Rightarrow> string) \<Rightarrow> string \<Rightarrow> string \<Rightarrow> (string \<times> sql_store) list outcome" where
  "data_stores join tmpDir envDriver =
     (let driver = (if envDriver = '''' then ''sqlite'' else envDriver) in
      if driver = ''sqlite'' then
        Ret [(''default'', sqlite_store join tmpDir ''temporal_default.db''),
             (''visibility'', sqlite_store join tmpDir ''temporal_visibility.db'')]
      else if driver = ''postgres12'' \<or> driver = ''postgres12_pgx'' then
        Ret [(''default'', postgres_store driver ''temporal''), (''visibility'', postgres_store driver ''temporal_visibility'')]
      else Panic (''unsupported persistence driver: '' @ driver))"

definition generateConfig :: "(string list \<Rightarrow> string) \<Rightarrow> string \<Rightarrow> string \<Rightarrow> portSet \<Rightarrow> portSet \<Rightarrow> server_config outcome" where
  "generateConfig join tmpDir envDriver ports activePorts =
     and_then (data_stores join tmpDir envDriver) (\<lambda>dataStores.
       Ret \<lparr>NumHistoryShards = 4, DataStores = dataStores,
            Services =
              [(''frontend'', \<lparr>GRPCPort = FrontendGRPC ports, MembershipPort = FrontendMembership ports,
                  HTTPPort = FrontendHTTP ports, BindOnLocalHost = True\<rparr>),
               (''matching'', \<lparr>GRPCPort = MatchingGRPC ports, MembershipPort = MatchingMembership ports,
                  HTTPPort = 0, BindOnLocalHost = True\<rparr>),
               (''history'', \<lparr>GRPCPort = HistoryGRPC ports, MembershipPort = HistoryMembership ports,
                  HTTPPort = 0, BindOnLocalHost = True\<rparr>),
               (''worker'', \<lparr>GRPCPort = WorkerGRPC ports, MembershipPort = WorkerMembership ports,
                  HTTPPort = 0, BindOnLocalHost = True\<rparr>)],
            RPCAddress = ''localhost:'' @ Itoa (FrontendGRPC activePorts),
            HTTPAddress = ''localhost:'' @ Itoa (FrontendHTTP activePorts)\<rparr>)"

text \<open>The ports a server listens on; port 0 is none.\<close>

definition listening :: "server_config \<Rightarrow> int set" where
  "listening cfg = (\<Union>(name, r)\<in>set (Services cfg). {GRPCPort r, MembershipPort r, HTTPPort r} - {0})"

section \<open>The TCP proxy\<close>

record frontendProxy =
  backends :: "string list"
  connCount :: "nat list"
  next_conn :: nat

definition startFrontendProxy :: "string list \<Rightarrow> frontendProxy" where
  "startFrontendProxy bs = \<lparr>backends = bs, connCount = replicate (length bs) 0, next_conn = 0\<rparr>"

text \<open>
  One accepted connection: the backend it is proxied to. \<open>next_conn\<close> stays far below the range of
  the 64-bit counter. Without a backend the remainder by zero panics.
\<close>

definition accept_conn :: "frontendProxy \<Rightarrow> string outcome \<times> frontendProxy" where
  "accept_conn p =
     (if length (backends p) = 0 then (Panic ''integer divide by zero'', p\<lparr>next_conn := next_conn p + 1\<rparr>)
      else let idx = next_conn p mod length (backends p);
               p = p\<lparr>next_conn := next_conn p + 1\<rparr>;
               p = p\<lparr>connCount := (connCount p)[idx := connCount p ! idx + 1]\<rparr>
           in (Ret (backends p ! idx), p))"

section \<open>Release choice\<close>

text \<open>The semantic versions of the package \<^verbatim>\<open>semver\<close>: parsing and order are parameters.\<close>

record 'v semver =
  sv_Major :: "'v \<Rightarrow> u64"
  sv_Minor :: "'v \<Rightarrow> u64"
  sv_GT :: "'v \<Rightarrow> 'v \<Rightarrow> bool"
  sv_zero :: 'v
  sv_ParseTolerant :: "string \<Rightarrow> 'v result"

fun best_version :: "'v semver \<Rightarrow> u64 \<Rightarrow> u64 \<Rightarrow> string list \<Rightarrow> 'v \<Rightarrow> 'v" where
  "best_version sv targetMajor targetMinor [] best = best"
| "best_version sv targetMajor targetMinor (tag # tags) best =
     best_version sv targetMajor targetMinor tags
       (case sv_ParseTolerant sv tag of
          Inl _ \<Rightarrow> best
        | Inr v \<Rightarrow> if sv_Major sv v = targetMajor \<and> sv_Minor sv v = targetMinor \<and> sv_GT sv v best then v else best)"

definition resolveReleaseVersion :: "'v semver \<Rightarrow> 'v \<Rightarrow> string list \<Rightarrow> 'v" where
  "resolveReleaseVersion sv current tags =
     best_version sv (sv_Major sv current) (sv_Minor sv current - 1) tags (sv_zero sv)"

section \<open>Cluster formation\<close>

text \<open>\<open>split\<close> is \<^verbatim>\<open>net.SplitHostPort\<close> (the port) and \<open>atoi\<close> is \<^verbatim>\<open>strconv.Atoi\<close>.\<close>

fun seen_ports :: "(string \<Rightarrow> string result) \<Rightarrow> (string \<Rightarrow> int result) \<Rightarrow> string list \<Rightarrow> int set \<Rightarrow> int set" where
  "seen_ports split atoi [] seen = seen"
| "seen_ports split atoi (member # ms) seen =
     seen_ports split atoi ms
       (case split member of
          Inl _ \<Rightarrow> seen
        | Inr portStr \<Rightarrow> (case atoi portStr of Inl _ \<Rightarrow> seen | Inr port \<Rightarrow> insert port seen))"

fun all_seen :: "int list \<Rightarrow> int set \<Rightarrow> bool" where
  "all_seen [] seen = True"
| "all_seen (port # ports) seen = (if port \<notin> seen then False else all_seen ports seen)"

fun all_sets_seen :: "portSet list \<Rightarrow> int set \<Rightarrow> bool" where
  "all_sets_seen [] seen = True"
| "all_sets_seen (ps # pss) seen = (if all_seen (membershipPorts ps) seen then all_sets_seen pss seen else False)"

text \<open>One probe: the reply of \<^verbatim>\<open>DescribeCluster\<close> is an error, no membership, or the reachable members.\<close>

definition cluster_formed ::
    "(string \<Rightarrow> string result) \<Rightarrow> (string \<Rightarrow> int result) \<Rightarrow> string list option result \<Rightarrow> portSet list \<Rightarrow> bool" where
  "cluster_formed split atoi resp portSets =
     (case resp of
        Inl _ \<Rightarrow> False
      | Inr None \<Rightarrow> False
      | Inr (Some members) \<Rightarrow> all_sets_seen portSets (seen_ports split atoi members {}))"

section \<open>Ports, turns and releases\<close>

lemma port_sets_disjoint:
  assumes "generateConfig join dir drv portSetA active = Ret a" "generateConfig join dir' drv' portSetB active' = Ret b"
  shows "listening a \<inter> listening b = {} \<and> (\<forall>p\<in>listening a \<union> listening b. 0 < p \<and> p \<le> 32767)"
proof -
  have "listening a = {7230..7238}"
    using assms(1) by (cases "data_stores join dir drv") (auto simp: generateConfig_def listening_def portSetA_def newPortSet_def)
  moreover have "listening b = {8240..8248}"
    using assms(2) by (cases "data_stores join dir' drv'") (auto simp: generateConfig_def listening_def portSetB_def newPortSet_def)
  ultimately show ?thesis by auto
qed

definition conn_inv :: "frontendProxy \<Rightarrow> bool" where
  "conn_inv p \<longleftrightarrow> length (connCount p) = length (backends p) \<and>
     (\<forall>i<length (backends p). connCount p ! i = (next_conn p + (length (backends p) - 1 - i)) div length (backends p))"

lemma round_robin_div:
  fixes n :: nat
  assumes "0 < n" "i < n"
  shows "(k + 1 + (n - 1 - i)) div n = (k + (n - 1 - i)) div n + (if k mod n = i then 1 else 0)"
proof -
  let ?m = "k + (n - 1 - i)"
  have d: "(?m + 1) div n = ?m div n + (if (?m + 1) mod n = 0 then 1 else 0)"
    using assms(1) by (auto simp: div_Suc mod_Suc)
  have "(?m + 1) mod n = 0 \<longleftrightarrow> k mod n = i"
  proof -
    have "?m + 1 = k + (n - i)" using assms(2) by simp
    then have "(?m + 1) mod n = (k mod n + (n - i)) mod n" by (simp only: mod_add_left_eq)
    also have "\<dots> = 0 \<longleftrightarrow> k mod n = i"
    proof (cases "k mod n < i")
      case True
      then have "k mod n + (n - i) < n" "0 < k mod n + (n - i)" using assms(2) by auto
      then show ?thesis using True by (auto simp: mod_less)
    next
      case False
      then have "k mod n + (n - i) = (k mod n - i) + n" using assms(2) by simp
      then have "(k mod n + (n - i)) mod n = (k mod n - i) mod n" by (simp only: mod_add_self2)
      also have "\<dots> = k mod n - i" using assms(1) by (intro mod_less) (simp add: less_imp_diff_less)
      finally show ?thesis using False by auto
    qed
    finally show ?thesis .
  qed
  then show ?thesis using d by (simp add: add.commute add.left_commute)
qed

lemma accept_conn_inv:
  assumes "conn_inv p" "backends p \<noteq> []"
  shows "conn_inv (snd (accept_conn p))"
    "fst (accept_conn p) = Ret (backends p ! (next_conn p mod length (backends p)))"
    "backends (snd (accept_conn p)) = backends p" "next_conn (snd (accept_conn p)) = next_conn p + 1"
  using assms round_robin_div[of "length (backends p)" _ "next_conn p"]
  by (auto simp: conn_inv_def accept_conn_def Let_def nth_list_update)

lemma conn_inv_start: "conn_inv (startFrontendProxy bs)"
  by (auto simp: conn_inv_def startFrontendProxy_def)

definition accept_many :: "nat \<Rightarrow> frontendProxy \<Rightarrow> frontendProxy" where
  "accept_many k p = ((\<lambda>p. snd (accept_conn p)) ^^ k) p"

lemma accept_many_inv:
  assumes "bs \<noteq> []"
  shows "conn_inv (accept_many k (startFrontendProxy bs)) \<and> backends (accept_many k (startFrontendProxy bs)) = bs \<and>
    next_conn (accept_many k (startFrontendProxy bs)) = k"
proof (induction k)
  case 0
  then show ?case using conn_inv_start by (simp add: accept_many_def) (simp add: startFrontendProxy_def)
next
  case (Suc k)
  then show ?case using accept_conn_inv[of "accept_many k (startFrontendProxy bs)"] assms
    by (simp add: accept_many_def)
qed

text \<open>The counts of any two backends differ by at most one.\<close>

lemma round_robin_balanced:
  assumes "bs \<noteq> []" "i < length bs" "j < length bs"
  shows "connCount (accept_many k (startFrontendProxy bs)) ! i \<le> connCount (accept_many k (startFrontendProxy bs)) ! j + 1"
proof -
  let ?p = "accept_many k (startFrontendProxy bs)" and ?n = "length bs"
  have c: "connCount ?p ! m = (k + (?n - 1 - m)) div ?n" if "m < ?n" for m
    using accept_many_inv[OF assms(1), of k] that by (simp add: conn_inv_def)
  have "(k + (?n - 1 - i)) div ?n \<le> (k + ?n) div ?n" by (intro div_le_mono) simp
  also have "\<dots> = k div ?n + 1" using assms(1) div_add_self2[of ?n k] by simp
  also have "\<dots> \<le> (k + (?n - 1 - j)) div ?n + 1" by (simp add: div_le_mono)
  finally show ?thesis using c assms by simp
qed

text \<open>
  \<open>semver_ok\<close>: greater-than is a strict weak order, as the precedence of semantic versions is
  (versions that differ in build metadata only are equivalent). Then the release is a greatest
  version among the matching tags.
\<close>

definition semver_ok :: "'v semver \<Rightarrow> bool" where
  "semver_ok sv \<longleftrightarrow> (\<forall>a. \<not> sv_GT sv a a) \<and> (\<forall>a b c. sv_GT sv a b \<longrightarrow> sv_GT sv b c \<longrightarrow> sv_GT sv a c) \<and>
     (\<forall>a b c. sv_GT sv a c \<longrightarrow> sv_GT sv a b \<or> sv_GT sv b c)"

definition candidates :: "'v semver \<Rightarrow> u64 \<Rightarrow> u64 \<Rightarrow> string list \<Rightarrow> 'v set" where
  "candidates sv maj mnr tags = {v. \<exists>t\<in>set tags. sv_ParseTolerant sv t = Inr v \<and> sv_Major sv v = maj \<and> sv_Minor sv v = mnr}"

lemma candidates_Cons:
  "candidates sv maj mnr (t # tags) = (case sv_ParseTolerant sv t of Inl _ \<Rightarrow> {}
     | Inr v \<Rightarrow> if sv_Major sv v = maj \<and> sv_Minor sv v = mnr then {v} else {}) \<union> candidates sv maj mnr tags"
  by (auto simp: candidates_def split: sum.splits)

lemma best_version_max:
  assumes "semver_ok sv"
  shows "best_version sv maj mnr tags b \<in> insert b (candidates sv maj mnr tags) \<and>
    (\<forall>v\<in>insert b (candidates sv maj mnr tags). \<not> sv_GT sv v (best_version sv maj mnr tags b))"
proof (induction tags arbitrary: b)
  case Nil
  then show ?case using assms by (simp add: candidates_def semver_ok_def)
next
  case (Cons t tags)
  let ?ok = "\<lambda>v. sv_ParseTolerant sv t = Inr v \<and> sv_Major sv v = maj \<and> sv_Minor sv v = mnr"
  show ?case
  proof (cases "\<exists>v. ?ok v")
    case False
    then show ?thesis using Cons[of b] by (auto simp: candidates_Cons split: sum.splits)
  next
    case True
    then obtain v where v: "sv_ParseTolerant sv t = Inr v" "sv_Major sv v = maj" "sv_Minor sv v = mnr" by blast
    have set: "insert b (candidates sv maj mnr (t # tags)) = insert b (insert v (candidates sv maj mnr tags))"
      using v by (simp add: candidates_Cons)
    show ?thesis
    proof (cases "sv_GT sv v b")
      case True
      let ?r = "best_version sv maj mnr tags v"
      have r: "?r \<in> insert v (candidates sv maj mnr tags)" "\<forall>x\<in>insert v (candidates sv maj mnr tags). \<not> sv_GT sv x ?r"
        using Cons[of v] by blast+
      have "\<not> sv_GT sv b ?r" using r(2) True assms unfolding semver_ok_def by blast
      then show ?thesis using r v True set by auto
    next
      case False
      let ?r = "best_version sv maj mnr tags b"
      have r: "?r \<in> insert b (candidates sv maj mnr tags)" "\<forall>x\<in>insert b (candidates sv maj mnr tags). \<not> sv_GT sv x ?r"
        using Cons[of b] by blast+
      have "\<not> sv_GT sv v ?r" using r(2) False assms unfolding semver_ok_def by (metis insertI1)
      then show ?thesis using r v False set by auto
    qed
  qed
qed

lemma seen_ports_eq:
  "seen_ports split atoi ms seen = seen \<union> {port. \<exists>m\<in>set ms. \<exists>s. split m = Inr s \<and> atoi s = Inr port}"
  by (induction split atoi ms seen rule: seen_ports.induct) (auto split: sum.splits)

lemma all_seen_iff: "all_seen ports seen \<longleftrightarrow> set ports \<subseteq> seen"
  by (induction ports) auto

lemma all_sets_seen_iff: "all_sets_seen pss seen \<longleftrightarrow> (\<forall>ps\<in>set pss. set (membershipPorts ps) \<subseteq> seen)"
  by (induction pss) (auto simp: all_seen_iff)

lemma cluster_formed_iff:
  "cluster_formed split atoi resp pss \<longleftrightarrow>
     (\<exists>members. resp = Inr (Some members) \<and> (\<forall>ps\<in>set pss. \<forall>port\<in>set (membershipPorts ps).
        \<exists>m\<in>set members. \<exists>s. split m = Inr s \<and> atoi s = Inr port))"
  by (auto simp: cluster_formed_def all_sets_seen_iff seen_ports_eq subset_iff split: sum.splits option.splits)

section \<open>Properties\<close>

text \<open>
  The TCP proxy in front of the two servers is fair: after any number of connections the counts of
  any two backends differ by at most one, and the next connection goes to the next backend in
  turn.
\<close>

theorem frontend_proxy_fair:
  assumes "bs \<noteq> []" "i < length bs" "j < length bs" "p = accept_many k (startFrontendProxy bs)"
  shows "connCount p ! i \<le> connCount p ! j + 1 \<and> fst (accept_conn p) = Ret (bs ! (k mod length bs)) \<and> next_conn p = k"
  using round_robin_balanced[OF assms(1-3), of k] accept_many_inv[OF assms(1), of k] accept_conn_inv(2)[of p] assms(1,4)
  by auto

theorem frontend_proxy_fair_witness:
  "fst (accept_conn (accept_many 3 (startFrontendProxy [''a'', ''b'']))) = Ret ''b''"
proof -
  have "[''a'', ''b''] ! ((3 :: nat) mod length [''a'', ''b'']) = ''b''" by code_simp
  then show ?thesis using frontend_proxy_fair[of "[''a'', ''b'']" 0 0 _ 3, OF _ _ _ refl] by (metis length_greater_0_conv list.distinct(1))
qed

text \<open>
  The release a mixed cluster is tested against is a greatest version among the tags of the
  previous minor version, and the zero version when there is none. The minor version is
  decremented as an unsigned number, so for a version x.0 the tags of minor 2^64 - 1 are sought.
\<close>

theorem release_is_greatest_previous_minor:
  assumes "semver_ok sv" "best = resolveReleaseVersion sv current tags"
    and "cands = candidates sv (sv_Major sv current) (sv_Minor sv current - 1) tags"
  shows "best \<in> insert (sv_zero sv) cands \<and> (\<forall>v\<in>cands. \<not> sv_GT sv v best) \<and>
    unat (sv_Minor sv current - 1) = (if sv_Minor sv current = 0 then 2 ^ 64 - 1 else unat (sv_Minor sv current) - 1)"
proof -
  have "unat (sv_Minor sv current - 1) = (if sv_Minor sv current = 0 then 2 ^ 64 - 1 else unat (sv_Minor sv current) - 1)"
    by (auto simp: unat_minus_one unsigned_minus_1_eq_mask mask_eq_exp_minus_1)
  then show ?thesis
    using best_version_max[OF assms(1), of "sv_Major sv current" "sv_Minor sv current - 1" tags "sv_zero sv"] assms(2,3)
    by (simp add: resolveReleaseVersion_def)
qed

text \<open>Versions as triples, for an example.\<close>

definition example_semver :: "(u64 \<times> u64 \<times> nat) semver" where
  "example_semver = \<lparr>sv_Major = fst, sv_Minor = (\<lambda>v. fst (snd v)), sv_GT = (\<lambda>a b. snd (snd a) > snd (snd b)),
     sv_zero = (0, 0, 0), sv_ParseTolerant = (\<lambda>t. if t = ''v1.2.7'' then Inr (1, 2, 7) else if t = ''v1.2.9'' then Inr (1, 2, 9)
       else Inl (Errorf ''invalid''))\<rparr>"

theorem release_is_greatest_previous_minor_witness:
  "resolveReleaseVersion example_semver (1, 3, 0) [''v1.2.7'', ''v1.2.9'', ''nightly''] = (1, 2, 9) \<and>
   \<not> sv_GT example_semver (1, 2, 7) (resolveReleaseVersion example_semver (1, 3, 0) [''v1.2.7'', ''v1.2.9'', ''nightly''])"
proof -
  have ok: "semver_ok example_semver" by (auto simp: semver_ok_def example_semver_def)
  have "(1, 2, 7) \<in> candidates example_semver 1 (3 - 1) [''v1.2.7'', ''v1.2.9'', ''nightly'']"
    by (auto simp: candidates_def example_semver_def)
  moreover have "resolveReleaseVersion example_semver (1, 3, 0) [''v1.2.7'', ''v1.2.9'', ''nightly''] = (1, 2, 9)"
    by (simp add: resolveReleaseVersion_def example_semver_def)
  moreover have "sv_Major example_semver (1, 3, 0) = 1" "sv_Minor example_semver (1, 3, 0) = 3" by (simp_all add: example_semver_def)
  ultimately show ?thesis
    using release_is_greatest_previous_minor[OF ok refl refl, of "(1, 3, 0)" "[''v1.2.7'', ''v1.2.9'', ''nightly'']"] by metis
qed

end
