(* ===== verification/MixedServers.thy ===== *)
theory MixedServers
  imports MixedBrain
begin

text \<open>
  The server processes of the mixed-version tests (\<^verbatim>\<open>mixedbrain/server_util.go\<close>) and the release tags they are built
  from (\<^verbatim>\<open>mixedbrain/build_util.go\<close>). A process, the goroutine that waits for it and the test that asks whether it is
  alive and stops it meet over one channel with room for one value; this is a step relation. Running processes and
  git is I/O.
\<close>

section \<open>Release tags\<close>

text \<open>\<^verbatim>\<open>strings.Fields\<close> on ASCII text and \<^verbatim>\<open>strings.TrimPrefix\<close>.\<close>

fun Fields_from :: "string \<Rightarrow> string \<Rightarrow> string list" where
  "Fields_from acc [] = (if acc = [] then [] else [acc])"
| "Fields_from acc (c # cs) =
     (if is_space c then (if acc = [] then Fields_from [] cs else acc # Fields_from [] cs) else Fields_from (acc @ [c]) cs)"

definition Fields :: "string \<Rightarrow> string list" where
  "Fields s = Fields_from [] s"

definition TrimPrefix :: "string \<Rightarrow> string \<Rightarrow> string" where
  "TrimPrefix s p = (if take (length p) s = p then drop (length p) s else s)"

text \<open>The tags in the output of \<^verbatim>\<open>git ls-remote\<close>.\<close>

fun tags_of_lines :: "string list \<Rightarrow> string list" where
  "tags_of_lines [] = []"
| "tags_of_lines (line # ls) =
     (let parts = Fields line in
      (if length parts = 2 then [TrimPrefix (parts ! 1) ''refs/tags/''] else []) @ tags_of_lines ls)"

definition release_tags :: "string \<Rightarrow> string list" where
  "release_tags out = tags_of_lines (Split out [CHR 0x0A])"

text \<open>One attempt of \<^verbatim>\<open>downloadAndBuildReleaseServer\<close>: the version, unless git failed or no tag matches.\<close>

definition resolve_attempt :: "'v semver \<Rightarrow> 'v \<Rightarrow> string result \<Rightarrow> 'v option" where
  "resolve_attempt sv current out =
     (case out of
        Inl _ \<Rightarrow> None
      | Inr text \<Rightarrow>
          (let version = resolveReleaseVersion sv current (release_tags text) in
           if version = sv_zero sv then None else Some version))"

lemma Fields_from_word: "\<forall>c\<in>set w. \<not> is_space c \<Longrightarrow> Fields_from acc (w @ rest) = Fields_from (acc @ w) rest"
  by (induction w arbitrary: acc) simp_all

text \<open>A line of \<^verbatim>\<open>git ls-remote\<close>, a hash, a tabulator and a reference, gives its tag.\<close>

lemma tag_of_line:
  assumes "h \<noteq> ''''" "\<forall>c\<in>set h. \<not> is_space c" "\<forall>c\<in>set t. \<not> is_space c"
  shows "tags_of_lines [h @ [CHR 0x09] @ ''refs/tags/'' @ t] = [t]"
proof -
  have "\<forall>c\<in>set (''refs/tags/'' @ t). \<not> is_space c"
    using assms(3) by (auto simp: is_space_def)
  then have "Fields_from [] (''refs/tags/'' @ t) = [''refs/tags/'' @ t]"
    using Fields_from_word[of "''refs/tags/'' @ t" "[]" "[]"] by simp
  then have "Fields (h @ [CHR 0x09] @ ''refs/tags/'' @ t) = [h, ''refs/tags/'' @ t]"
    using assms(1) Fields_from_word[OF assms(2), of "[]" "[CHR 0x09] @ ''refs/tags/'' @ t"]
    by (simp add: Fields_def is_space_def)
  then show ?thesis
    by (simp add: TrimPrefix_def)
qed

section \<open>Registration\<close>

text \<open>The conditions of \<^verbatim>\<open>registerDefaultNamespace\<close> and \<^verbatim>\<open>createNexusEndpoint\<close>: what is there already is fine.\<close>

datatype code = AlreadyExists | OtherCode nat

definition created_or_exists :: "(go_error \<Rightarrow> code option) \<Rightarrow> go_error option \<Rightarrow> bool" where
  "created_or_exists status_FromError err =
     (case err of None \<Rightarrow> True | Some e \<Rightarrow> status_FromError e = Some AlreadyExists)"

section \<open>Processes\<close>

text \<open>What the test is doing: nothing, having taken the exit out of the channel, waiting in \<open>stop\<close>, or done with it.\<close>

datatype phase = Idle | Holding "go_error option" | Stopping | Stopped

record server_process =
  running :: bool
  exit_error :: "go_error option"
  waiter :: bool
  done_ch :: "go_error option list"
  phase_of :: phase
  fatal :: bool

definition startServerProcess :: server_process where
  "startServerProcess = \<lparr>running = True, exit_error = None, waiter = True, done_ch = [], phase_of = Idle, fatal = False\<rparr>"

text \<open>
  The process exits, with some error; the goroutine of \<^verbatim>\<open>cmd.Wait\<close> reports it when there is room. \<open>requireAlive\<close> finds
  nothing, or takes the report out and puts it back, and fails the test. \<open>stop\<close> cancels the process and waits for the
  report.
\<close>

inductive process_step :: "server_process \<Rightarrow> server_process \<Rightarrow> bool" where
  exits: "running p \<Longrightarrow> process_step p (p\<lparr>running := False, exit_error := e\<rparr>)"
| reports: "\<not> running p \<Longrightarrow> waiter p \<Longrightarrow> length (done_ch p) < 1 \<Longrightarrow>
    process_step p (p\<lparr>waiter := False, done_ch := done_ch p @ [exit_error p]\<rparr>)"
| alive: "phase_of p = Idle \<Longrightarrow> done_ch p = [] \<Longrightarrow> process_step p p"
| not_alive: "phase_of p = Idle \<Longrightarrow> done_ch p = e # es \<Longrightarrow> process_step p (p\<lparr>phase_of := Holding e, done_ch := es\<rparr>)"
| put_back: "phase_of p = Holding e \<Longrightarrow> length (done_ch p) < 1 \<Longrightarrow>
    process_step p (p\<lparr>phase_of := Idle, done_ch := done_ch p @ [e], fatal := True\<rparr>)"
| stop: "phase_of p = Idle \<Longrightarrow> process_step p (p\<lparr>phase_of := Stopping\<rparr>)"
| stopped: "phase_of p = Stopping \<Longrightarrow> done_ch p = e # es \<Longrightarrow> process_step p (p\<lparr>phase_of := Stopped, done_ch := es\<rparr>)"

inductive_cases process_stepE: "process_step p p'"

text \<open>There is exactly one report: to come, in the channel, in the hands of the test, or consumed.\<close>

definition reports_left :: "server_process \<Rightarrow> nat" where
  "reports_left p = (if waiter p then 1 else 0) + length (done_ch p) + (case phase_of p of Holding _ \<Rightarrow> 1 | Stopped \<Rightarrow> 1 | _ \<Rightarrow> 0)"

definition process_inv :: "server_process \<Rightarrow> bool" where
  "process_inv p \<longleftrightarrow> reports_left p = 1 \<and> (running p \<longrightarrow> waiter p)"

lemma process_inv_step: "process_step p p' \<Longrightarrow> process_inv p \<Longrightarrow> process_inv p'"
  by (erule process_stepE) (auto simp: process_inv_def reports_left_def split: phase.splits if_splits)

lemma process_inv_start: "process_inv startServerProcess"
  by (simp add: process_inv_def reports_left_def startServerProcess_def)

lemma process_inv_run: "process_step\<^sup>*\<^sup>* startServerProcess p \<Longrightarrow> process_inv p"
  by (induction rule: rtranclp_induct) (auto intro: process_inv_start process_inv_step)

text \<open>A report in the channel is taken at once; a dead process reports first.\<close>

lemma stopping_takes_report: "phase_of q = Stopping \<Longrightarrow> done_ch q = e # es \<Longrightarrow> \<exists>p'. process_step q p' \<and> phase_of p' = Stopped"
  using stopped by fastforce

lemma stopping_dead_process:
  assumes "phase_of q = Stopping" "\<not> running q" "waiter q" "done_ch q = []"
  shows "\<exists>n\<le>2. \<exists>p'. (process_step ^^ n) q p' \<and> phase_of p' = Stopped"
proof -
  let ?r = "q\<lparr>waiter := False, done_ch := done_ch q @ [exit_error q]\<rparr>"
  obtain p' where p': "process_step ?r p'" "phase_of p' = Stopped"
    using stopping_takes_report[of ?r "exit_error q" "[]"] assms by auto
  moreover have "process_step q ?r"
    using assms by (intro reports) simp_all
  ultimately have "(process_step ^^ 2) q p'"
    by (auto simp: numeral_2_eq_2)
  then show ?thesis
    using p'(2) by blast
qed

text \<open>
  Neither the test nor the waiting goroutine is ever stuck: a report can always be put back at once, and a stop can be
  completed in at most three steps, whatever the test has asked before; a process that was found dead is still found dead by
  the stop.
\<close>

lemma put_back_never_blocks:
  assumes "process_step\<^sup>*\<^sup>* startServerProcess p" and "phase_of p = Holding e"
  shows "done_ch p = []"
  using process_inv_run[OF assms(1)] assms(2) by (simp add: process_inv_def reports_left_def)

lemma stop_completes:
  assumes "process_step\<^sup>*\<^sup>* startServerProcess p" and "phase_of p = Stopping"
  shows "\<exists>n\<le>3. \<exists>p'. (process_step ^^ n) p p' \<and> phase_of p' = Stopped"
proof -
  have inv: "process_inv p"
    by (rule process_inv_run[OF assms(1)])
  consider (report) e es where "done_ch p = e # es" | (dead) "done_ch p = []" "waiter p" "\<not> running p"
    | (live) "done_ch p = []" "waiter p" "running p"
    using inv assms(2) by (cases "done_ch p"; cases "waiter p") (auto simp: process_inv_def reports_left_def)
  then show ?thesis
  proof cases
    case report
    then obtain p' where "process_step p p'" "phase_of p' = Stopped"
      using stopping_takes_report[OF assms(2)] by blast
    then have "(process_step ^^ 1) p p'"
      by (auto simp: relcompp_apply)
    then show ?thesis
      using \<open>phase_of p' = Stopped\<close> one_le_numeral by blast
  next
    case dead
    then obtain n p' where n: "n \<le> 2" "(process_step ^^ n) p p'" "phase_of p' = Stopped"
      using stopping_dead_process[of p] assms(2) by blast
    show ?thesis
      using n by (intro exI[of _ n]) auto
  next
    case live
    let ?q = "p\<lparr>running := False, exit_error := None\<rparr>"
    have "process_step p ?q"
      by (rule exits[OF live(3)])
    moreover obtain n p' where n: "n \<le> 2" "(process_step ^^ n) ?q p'" "phase_of p' = Stopped"
      using stopping_dead_process[of ?q] assms(2) live by auto
    ultimately have "(process_step ^^ Suc n) p p'"
      by (blast intro: relpowp_Suc_I2)
    then show ?thesis
      using n(1,3) by (intro exI[of _ "Suc n"]) auto
  qed
qed

end
