(* ===== verification/MixedBuild.thy ===== *)
theory MixedBuild
  imports MixedServers
begin

text \<open>
  The programs the mixed-version tests build and the connections of their TCP proxy (\<^verbatim>\<open>mixedbrain/build_util.go\<close>,
  \<^verbatim>\<open>server_util.go\<close>, \<^verbatim>\<open>proxy_util.go\<close>): the sequences of git and go commands with their retries, the registration of the
  default namespace and of Nexus endpoints, and a proxied connection with its two copying goroutines as a step relation.
\<close>

section \<open>Commands and retries\<close>

text \<open>
  \<open>run\<close> runs a command in a directory (\<open>None\<close>: the current one) and gives its output or an error; \<open>attempts\<close> is the number of
  times a condition is evaluated before its time is over.
\<close>

type_synonym command = "string option \<times> string list"

record 'd build_ops =
  run :: "command \<Rightarrow> 'd \<Rightarrow> string result \<times> 'd"
  remove_all :: "string \<Rightarrow> 'd \<Rightarrow> 'd"
  attempts :: "'d \<Rightarrow> nat"
  path_Join :: "string \<Rightarrow> string \<Rightarrow> string"
  path_Dir :: "string \<Rightarrow> string"

fun eventually_some :: "nat \<Rightarrow> ('d \<Rightarrow> 'a option \<times> 'd) \<Rightarrow> 'd \<Rightarrow> 'a option \<times> 'd" where
  "eventually_some 0 cond d = (None, d)"
| "eventually_some (Suc n) cond d =
     (case cond d of (Some x, d) \<Rightarrow> (Some x, d) | (None, d) \<Rightarrow> eventually_some n cond d)"

definition require_run :: "'d build_ops \<Rightarrow> string \<Rightarrow> command \<Rightarrow> 'd \<Rightarrow> unit result outcome \<times> 'd" where
  "require_run ops msg c d = (case run ops c d of (Inl err, d) \<Rightarrow> (Panic msg, d) | (Inr _, d) \<Rightarrow> (Ret (Inr ()), d))"

definition require_eventually ::
    "'d build_ops \<Rightarrow> string \<Rightarrow> ('d \<Rightarrow> 'a option \<times> 'd) \<Rightarrow> 'd \<Rightarrow> 'a result outcome \<times> 'd" where
  "require_eventually ops msg cond d =
     (case eventually_some (attempts ops d) cond d of (None, d) \<Rightarrow> (Panic msg, d) | (Some x, d) \<Rightarrow> (Ret (Inr x), d))"

section \<open>Building\<close>

definition temporalRepo :: string where
  "temporalRepo = ''https://github.com/temporalio/temporal.git''"

definition omesRepo :: string where
  "omesRepo = ''https://github.com/temporalio/omes''"

definition omesCommit :: string where
  "omesCommit = ''8e4c1f54f3b0fb5e39d131f859c56fb2236395b1''"

definition clone_command :: "string \<Rightarrow> string \<Rightarrow> command" where
  "clone_command url destDir = (None, [''git'', ''clone'', ''--filter=blob:none'', url, destDir])"

definition checkout_command :: "string \<Rightarrow> string \<Rightarrow> command" where
  "checkout_command destDir ref = (None, [''git'', ''-C'', destDir, ''checkout'', ref])"

definition clone_attempt :: "'d build_ops \<Rightarrow> string \<Rightarrow> string \<Rightarrow> 'd \<Rightarrow> unit option \<times> 'd" where
  "clone_attempt ops url destDir d =
     (case run ops (clone_command url destDir) (remove_all ops destDir d) of
        (Inl _, d) \<Rightarrow> (None, d)
      | (Inr _, d) \<Rightarrow> (Some (), d))"

definition cloneRepo :: "'d build_ops \<Rightarrow> string \<Rightarrow> string \<Rightarrow> string \<Rightarrow> 'd \<Rightarrow> unit result outcome \<times> 'd" where
  "cloneRepo ops url destDir ref d =
     and_try (require_eventually ops ''git clone'' (clone_attempt ops url destDir) d) (\<lambda>_ d.
       require_run ops ''git checkout failed'' (checkout_command destDir ref) d)"

definition build_command :: "string \<Rightarrow> string \<Rightarrow> command" where
  "build_command srcDir outputPath =
     (Some srcDir, [''go'', ''build'', ''-tags'', ''disable_grpc_modules'', ''-o'', outputPath, ''./cmd/server''])"

definition buildServer :: "'d build_ops \<Rightarrow> string \<Rightarrow> string \<Rightarrow> 'd \<Rightarrow> unit result outcome \<times> 'd" where
  "buildServer ops srcDir outputPath d = require_run ops ''build server binary failed'' (build_command srcDir outputPath) d"

definition ls_remote :: command where
  "ls_remote = (None, [''git'', ''ls-remote'', ''--tags'', ''--refs'', temporalRepo])"

definition tags_attempt :: "'d build_ops \<Rightarrow> 'v semver \<Rightarrow> 'v \<Rightarrow> 'd \<Rightarrow> 'v option \<times> 'd" where
  "tags_attempt ops sv current d = (let (out, d) = run ops ls_remote d in (resolve_attempt sv current out, d))"

text \<open>\<open>show_version\<close> is the text of a version, \<open>current\<close> the version of the server.\<close>

definition downloadAndBuildReleaseServer ::
    "'d build_ops \<Rightarrow> 'v semver \<Rightarrow> ('v \<Rightarrow> string) \<Rightarrow> 'v \<Rightarrow> string \<Rightarrow> 'd \<Rightarrow> string result outcome \<times> 'd" where
  "downloadAndBuildReleaseServer ops sv show_version current outputPath d =
     and_try (require_eventually ops ''fetch release tags'' (tags_attempt ops sv current) d) (\<lambda>version d.
     let tag = ''v'' @ show_version version;
         repoDir = path_Join ops (path_Dir ops outputPath) ''temporal-release''
     in and_try (cloneRepo ops temporalRepo repoDir tag d) (\<lambda>_ d.
        and_try (buildServer ops repoDir outputPath d) (\<lambda>_ d.
          (Ret (Inr tag), d))))"

definition downloadAndBuildOmes :: "'d build_ops \<Rightarrow> string \<Rightarrow> 'd \<Rightarrow> unit result outcome \<times> 'd" where
  "downloadAndBuildOmes ops workDir d =
     (let repoDir = path_Join ops workDir ''omes'' in
      and_try (cloneRepo ops omesRepo repoDir omesCommit d) (\<lambda>_ d.
        require_run ops ''build Omes failed'' (Some repoDir, [''go'', ''build'', ''-o'', path_Join ops workDir ''omes-bin'', ''./cmd'']) d))"

section \<open>Registration\<close>

text \<open>\<open>rpc\<close> makes the call with its request; the retention is in hours.\<close>

record endpoint_request =
  ep_Name :: string
  ep_Namespace :: string
  ep_TaskQueue :: string

definition created_attempt ::
    "(go_error \<Rightarrow> code option) \<Rightarrow> ('q \<Rightarrow> 'd \<Rightarrow> go_error option \<times> 'd) \<Rightarrow> 'q \<Rightarrow> 'd \<Rightarrow> unit option \<times> 'd" where
  "created_attempt status_FromError rpc req d =
     (let (err, d) = rpc req d in (if created_or_exists status_FromError err then Some () else None, d))"

definition registerDefaultNamespace ::
    "'d build_ops \<Rightarrow> (go_error \<Rightarrow> code option) \<Rightarrow> (string \<times> int \<Rightarrow> 'd \<Rightarrow> go_error option \<times> 'd) \<Rightarrow> 'd \<Rightarrow> unit result outcome \<times> 'd" where
  "registerDefaultNamespace ops status_FromError rpc d =
     require_eventually ops ''failed to register default namespace'' (created_attempt status_FromError rpc (''default'', 24)) d"

definition createNexusEndpoint ::
    "'d build_ops \<Rightarrow> (go_error \<Rightarrow> code option) \<Rightarrow> (endpoint_request \<Rightarrow> 'd \<Rightarrow> go_error option \<times> 'd) \<Rightarrow> string \<Rightarrow> string \<Rightarrow> string
     \<Rightarrow> 'd \<Rightarrow> unit result outcome \<times> 'd" where
  "createNexusEndpoint ops status_FromError rpc endpointName namespace tq d =
     require_eventually ops (''failed to create nexus endpoint '' @ endpointName)
       (created_attempt status_FromError rpc \<lparr>ep_Name = endpointName, ep_Namespace = namespace, ep_TaskQueue = tq\<rparr>) d"

section \<open>What was run\<close>

text \<open>The same operations with a log of the commands and whether they succeeded.\<close>

definition logged :: "'d build_ops \<Rightarrow> ('d \<times> (command \<times> bool) list) build_ops" where
  "logged ops =
     \<lparr>run = (\<lambda>c (d, log). let (out, d) = run ops c d in (out, d, log @ [(c, case out of Inr _ \<Rightarrow> True | Inl _ \<Rightarrow> False)])),
      remove_all = (\<lambda>dir (d, log). (remove_all ops dir d, log)), attempts = (\<lambda>(d, log). attempts ops d),
      path_Join = path_Join ops, path_Dir = path_Dir ops\<rparr>"

lemma logged_sel [simp]:
  "run (logged ops) c (d, log) = (fst (run ops c d), snd (run ops c d), log @ [(c, case fst (run ops c d) of Inr _ \<Rightarrow> True | Inl _ \<Rightarrow> False)])"
  "remove_all (logged ops) dir (d, log) = (remove_all ops dir d, log)" "attempts (logged ops) (d, log) = attempts ops d"
  "path_Join (logged ops) = path_Join ops" "path_Dir (logged ops) = path_Dir ops"
  by (simp_all add: logged_def case_prod_unfold Let_def)

lemma require_run_log:
  "require_run (logged ops) msg c (d, log) = (Ret (Inr u), d', log') \<Longrightarrow> log' = log @ [(c, True)]"
  by (auto simp: require_run_def split: sum.splits)

lemma require_eventually_Ret:
  "require_eventually ops msg cond d = (Ret (Inr x), d') \<longleftrightarrow> eventually_some (attempts ops d) cond d = (Some x, d')"
  by (auto simp: require_eventually_def split: prod.splits option.splits)

text \<open>A condition that runs one command, until it succeeds.\<close>

lemma eventually_log:
  assumes "eventually_some n cond (d, log) = (Some x, d', log')"
    and "\<And>d log r d' log'. cond (d, log) = (r, d', log') \<Longrightarrow> \<exists>ok. log' = log @ [(c, ok)] \<and> (r \<noteq> None \<longrightarrow> ok)"
  shows "\<exists>tries. log' = log @ map (Pair c) tries @ [(c, True)] \<and> length tries < n"
  using assms(1)
proof (induction n arbitrary: d log)
  case (Suc n)
  obtain r d1 log1 where step: "cond (d, log) = (r, d1, log1)"
    by (metis prod_cases3)
  obtain ok where ok: "log1 = log @ [(c, ok)]" "r \<noteq> None \<longrightarrow> ok"
    using assms(2)[OF step] by blast
  show ?case
  proof (cases r)
    case None
    then have "eventually_some n cond (d1, log1) = (Some x, d', log')"
      using Suc.prems step by simp
    from Suc.IH[OF this] obtain tries where "log' = log1 @ map (Pair c) tries @ [(c, True)]" "length tries < n"
      by blast
    then show ?thesis
      by (intro exI[of _ "ok # tries"]) (simp add: ok(1))
  next
    case (Some y)
    then show ?thesis
      using Suc.prems step ok by (intro exI[of _ "[]"]) simp
  qed
qed simp

lemma clone_attempt_log:
  "clone_attempt (logged ops) url dir (d, log) = (r, d', log') \<Longrightarrow>
     \<exists>ok. log' = log @ [(clone_command url dir, ok)] \<and> (r \<noteq> None \<longrightarrow> ok)"
  by (auto simp: clone_attempt_def split: sum.splits)

lemma tags_attempt_log:
  "tags_attempt (logged ops) sv current (d, log) = (r, d', log') \<Longrightarrow> \<exists>ok. log' = log @ [(ls_remote, ok)] \<and> (r \<noteq> None \<longrightarrow> ok)"
  by (auto simp: tags_attempt_def resolve_attempt_def split: sum.splits)

text \<open>The condition that ends a wait with success held for one answer.\<close>

lemma eventually_some_cond: "eventually_some n cond d = (Some x, d') \<Longrightarrow> \<exists>d0. cond d0 = (Some x, d')"
  by (induction n arbitrary: d) (auto split: prod.splits option.splits)

section \<open>A proxied connection\<close>

text \<open>
  \<^verbatim>\<open>proxyConn\<close> after a successful dial: one goroutine copies from the client to the server and then closes the server's
  socket, the other copies back and closes the client's. \<open>client_ended\<close> and \<open>server_ended\<close> say that the peer has closed or
  reset its side. A copy has to end when its source has ended or is closed, and may end earlier, on a failing write.
\<close>

record tcp_conn =
  client_ended :: bool
  server_ended :: bool
  client_closed :: bool
  server_closed :: bool
  copying_up :: bool
  copying_down :: bool

definition proxyConn :: "bool \<Rightarrow> tcp_conn" where
  "proxyConn dialed =
     (if dialed then \<lparr>client_ended = False, server_ended = False, client_closed = False, server_closed = False,
        copying_up = True, copying_down = True\<rparr>
      else \<lparr>client_ended = False, server_ended = False, client_closed = True, server_closed = True,
        copying_up = False, copying_down = False\<rparr>)"

definition up_must_end :: "tcp_conn \<Rightarrow> bool" where
  "up_must_end c \<longleftrightarrow> copying_up c \<and> (client_ended c \<or> client_closed c)"

definition down_must_end :: "tcp_conn \<Rightarrow> bool" where
  "down_must_end c \<longleftrightarrow> copying_down c \<and> (server_ended c \<or> server_closed c)"

inductive conn_step :: "tcp_conn \<Rightarrow> tcp_conn \<Rightarrow> bool" where
  client_ends: "\<not> client_ended c \<Longrightarrow> conn_step c (c\<lparr>client_ended := True\<rparr>)"
| server_ends: "\<not> server_ended c \<Longrightarrow> conn_step c (c\<lparr>server_ended := True\<rparr>)"
| up_ends: "copying_up c \<Longrightarrow> up_must_end c \<or> server_ended c \<Longrightarrow> conn_step c (c\<lparr>copying_up := False, server_closed := True\<rparr>)"
| down_ends: "copying_down c \<Longrightarrow> down_must_end c \<or> client_ended c \<Longrightarrow> conn_step c (c\<lparr>copying_down := False, client_closed := True\<rparr>)"

inductive_cases conn_stepE: "conn_step c c'"

text \<open>\<open>stop\<close> returns when the wait group is empty.\<close>

definition waited :: "tcp_conn \<Rightarrow> bool" where
  "waited c \<longleftrightarrow> \<not> copying_up c \<and> \<not> copying_down c"

definition sockets_inv :: "tcp_conn \<Rightarrow> bool" where
  "sockets_inv c \<longleftrightarrow> (server_closed c \<longleftrightarrow> \<not> copying_up c) \<and> (client_closed c \<longleftrightarrow> \<not> copying_down c) \<and>
     (client_ended c \<or> server_ended c \<or> copying_up c \<and> copying_down c)"

definition conn_rank :: "tcp_conn \<Rightarrow> nat" where
  "conn_rank c = (if client_ended c then 0 else 1) + (if server_ended c then 0 else 1) + (if copying_up c then 1 else 0) +
     (if copying_down c then 1 else 0)"

lemma conn_rank_step: "conn_step c c' \<Longrightarrow> conn_rank c' < conn_rank c"
  by (erule conn_stepE) (auto simp: conn_rank_def)

lemma sockets_inv_step: "conn_step c c' \<Longrightarrow> sockets_inv c \<Longrightarrow> sockets_inv c'"
  by (erule conn_stepE) (auto simp: sockets_inv_def up_must_end_def down_must_end_def)

lemma sockets_inv_run: "(conn_step ^^ n) c c' \<Longrightarrow> sockets_inv c \<Longrightarrow> sockets_inv c'"
  by (induction n arbitrary: c') (auto dest: sockets_inv_step)

text \<open>
  A proxied connection drains. A connection makes at most four steps. Once one of its peers has ended, a copy that has
  to end remains until both have; then both sockets are closed. Until a peer ends, both copies go on, and \<open>stop\<close> waits.
\<close>

theorem connection_drains:
  assumes "(conn_step ^^ n) (proxyConn True) c"
  shows "n \<le> 4 \<and> (waited c \<longrightarrow> client_closed c \<and> server_closed c) \<and>
    (client_ended c \<or> server_ended c \<longrightarrow> \<not> waited c \<longrightarrow> up_must_end c \<or> down_must_end c) \<and>
    (\<not> client_ended c \<longrightarrow> \<not> server_ended c \<longrightarrow> \<not> waited c)"
proof -
  have "sockets_inv c"
    by (rule sockets_inv_run[OF assms]) (simp add: sockets_inv_def proxyConn_def)
  moreover have "n + conn_rank c \<le> conn_rank (proxyConn True)"
    by (rule relpowp_measure[OF conn_rank_step assms])
  ultimately show ?thesis
    by (auto simp: sockets_inv_def waited_def up_must_end_def down_must_end_def conn_rank_def proxyConn_def)
qed

section \<open>The release server\<close>

text \<open>
  The release server. When the release server has been built, the tag that is returned is the one of the version chosen from
  the tags of the repository, and the commands were: listing the tags until one was found, cloning until it succeeded,
  checking this very tag out in the clone, and building there.
\<close>

theorem release_built_from_its_tag:
  assumes "downloadAndBuildReleaseServer (logged ops) sv show_version current outputPath (d, []) = (Ret (Inr tag), d', log)"
  defines "repoDir \<equiv> path_Join ops (path_Dir ops outputPath) ''temporal-release''"
  shows "\<exists>version text lists clones. tag = ''v'' @ show_version version \<and> resolve_attempt sv current (Inr text) = Some version \<and>
    log = map (Pair ls_remote) lists @ [(ls_remote, True)] @ map (Pair (clone_command temporalRepo repoDir)) clones @
      [(clone_command temporalRepo repoDir, True), (checkout_command repoDir tag, True), (build_command repoDir outputPath, True)]"
proof -
  obtain version d1 log1 d2 log2 d3 log3 where
    tags: "eventually_some (attempts ops d) (tags_attempt (logged ops) sv current) (d, []) = (Some version, d1, log1)"
    and tag: "tag = ''v'' @ show_version version"
    and clone: "eventually_some (attempts ops d1) (clone_attempt (logged ops) temporalRepo repoDir) (d1, log1) = (Some (), d2, log2)"
    and checkout: "require_run (logged ops) ''git checkout failed'' (checkout_command repoDir tag) (d2, log2) = (Ret (Inr ()), d3, log3)"
    and build: "require_run (logged ops) ''build server binary failed'' (build_command repoDir outputPath) (d3, log3) = (Ret (Inr ()), d', log)"
    using assms(1)
    by (auto simp: downloadAndBuildReleaseServer_def cloneRepo_def buildServer_def require_eventually_Ret and_try_Ret Let_def
        repoDir_def)
  obtain lists where lists: "log1 = map (Pair ls_remote) lists @ [(ls_remote, True)]"
    using eventually_log[OF tags, of ls_remote] tags_attempt_log[of ops sv current] by (metis append_Nil)
  obtain clones where clones: "log2 = log1 @ map (Pair (clone_command temporalRepo repoDir)) clones @ [(clone_command temporalRepo repoDir, True)]"
    using eventually_log[OF clone, of "clone_command temporalRepo repoDir"] clone_attempt_log[of ops temporalRepo repoDir] by blast
  obtain d0 where "tags_attempt (logged ops) sv current d0 = (Some version, d1, log1)"
    using eventually_some_cond[OF tags] by blast
  then obtain out where "resolve_attempt sv current out = Some version"
    by (auto simp: tags_attempt_def Let_def split: prod.splits)
  then obtain txt0 where "resolve_attempt sv current (Inr txt0) = Some version"
    by (cases out) (auto simp: resolve_attempt_def)
  then show ?thesis
    using tag lists clones require_run_log[OF checkout] require_run_log[OF build] by auto
qed

end
