(* ===== verification/CrossDC.thy ===== *)
theory CrossDC
  imports TestBase
begin

text \<open>
  The base of the cross-cluster suites (\<^verbatim>\<open>xdc/base.go\<close>, \<^verbatim>\<open>ndc/cluster_config.go\<close>): the two clusters and their
  configuration, their connection, the check that replication has caught up, and the operations on
  a replicated namespace: create, change of its clusters, promotion, failover. The RPCs, the
  namespace caches and the assertion library's \<^verbatim>\<open>EventuallyWithT\<close> are parameters over the state of
  the machine.
\<close>

section \<open>Data\<close>

text \<open>Durations are in milliseconds.\<close>

definition namespaceCacheWaitTime :: int where
  "namespaceCacheWaitTime = 2 * NamespaceCacheRefreshInterval"

definition namespaceCacheCheckInterval :: int where
  "namespaceCacheCheckInterval = NamespaceCacheRefreshInterval div 2"

definition replicationWaitTime :: int where
  "replicationWaitTime = 15000"

definition replicationCheckInterval :: int where
  "replicationCheckInterval = 500"

text \<open>What the suites set of a cluster's configuration.\<close>

record xdc_config =
  xc_ClusterMetadata :: cluster_config
  xc_HistoryConfig :: HistoryConfig
  xc_DBName :: string
  xc_DynamicConfigOverrides :: "string \<rightharpoonup> dyn_value"
  xc_ServiceFxOptions :: "service \<Rightarrow> handle list"
  xc_EnableMetricsCapture :: bool

text \<open>The answer of \<^verbatim>\<open>GetReplicationStatus\<close>; a time that is not set is \<open>None\<close>.\<close>

record ack_info =
  AckedTaskId :: int
  AckedTaskVisibilityTime :: "int option"

record shard_status =
  MaxReplicationTaskId :: int
  ShardLocalTime :: "int option"
  RemoteClusters :: "(string \<rightharpoonup> ack_info option) option"

text \<open>What a namespace registry knows of a namespace.\<close>

record namespace_entry =
  ne_IsGlobal :: bool
  ne_ClusterNames :: "string list"
  ne_ActiveClusterName :: string

record RemoteClusterRequest =
  FrontendAddress :: string
  FrontendHttpAddress :: string
  EnableRemoteClusterConnection :: bool
  EnableReplication :: bool

record RegisterRequest =
  rr_Namespace :: string
  rr_IsGlobalNamespace :: bool
  rr_Clusters :: "string list"
  rr_ActiveClusterName :: string
  rr_Retention :: int

datatype UpdateRequest = SetClusters string "string list" | Promote string | SetActive string string

record xdc_suite =
  clusters :: "handle list"
  x_logger :: "handle option"
  dynamicConfigOverrides :: "(string \<rightharpoonup> dyn_value) option"
  startTime :: int
  clusterConnected :: bool
  enableTransitionHistory :: bool

text \<open>
  The operations of the machine. \<open>x_Eventually\<close> gets the condition, the time to wait, the interval and
  the value of a variable of the caller that the condition may assign; it says whether the condition
  held in time.
\<close>

record ('c, 'd) xdc_ops =
  x_now :: "'d \<Rightarrow> int"
  x_Sleep :: "int \<Rightarrow> 'd \<Rightarrow> 'd"
  x_random :: "'d \<Rightarrow> string \<times> 'd"
  x_pick :: "'d \<Rightarrow> nat \<times> 'd"
  x_name :: "handle \<Rightarrow> string"
  x_host :: "handle \<Rightarrow> 'c TemporalImpl"
  x_NewCluster :: "xdc_config \<Rightarrow> 'd \<Rightarrow> handle result \<times> 'd"
  x_TearDown :: "handle \<Rightarrow> 'd \<Rightarrow> go_error option \<times> 'd"
  x_AddRemote :: "handle \<Rightarrow> RemoteClusterRequest \<Rightarrow> 'd \<Rightarrow> go_error option \<times> 'd"
  x_Status :: "handle \<Rightarrow> 'd \<Rightarrow> shard_status option list result \<times> 'd"
  x_Register :: "handle \<Rightarrow> RegisterRequest \<Rightarrow> 'd \<Rightarrow> go_error option \<times> 'd"
  x_Update :: "handle \<Rightarrow> UpdateRequest \<Rightarrow> 'd \<Rightarrow> int result \<times> 'd"
  x_GetNamespace :: "handle \<Rightarrow> string \<Rightarrow> 'd \<Rightarrow> namespace_entry option result \<times> 'd"
  x_AddAttributes :: "handle \<Rightarrow> string \<Rightarrow> (string \<times> nat) list \<Rightarrow> 'd \<Rightarrow> go_error option \<times> 'd"
  x_ListAttributes :: "handle \<Rightarrow> string \<Rightarrow> 'd \<Rightarrow> (string \<rightharpoonup> nat) result \<times> 'd"
  x_Count :: "handle \<Rightarrow> string \<Rightarrow> 'd \<Rightarrow> int result \<times> 'd"
  x_Eventually :: "(bool \<Rightarrow> 'd \<Rightarrow> bool \<times> bool \<times> 'd) \<Rightarrow> int \<Rightarrow> int \<Rightarrow> bool \<Rightarrow> 'd \<Rightarrow> bool \<times> bool \<times> 'd"

text \<open>A step that fails stops the test, with the panic standing for \<^verbatim>\<open>FailNow\<close>.\<close>

type_synonym ('a, 'd) step = "'d \<Rightarrow> 'a outcome \<times> 'd"

definition then_do :: "('a, 'd) step \<Rightarrow> ('a \<Rightarrow> ('b, 'd) step) \<Rightarrow> ('b, 'd) step" where
  "then_do m f d = (case m d of (Ret x, d) \<Rightarrow> f x d | (Panic msg, d) \<Rightarrow> (Panic msg, d) | (Hang, d) \<Rightarrow> (Hang, d))"

definition no_error :: "('d \<Rightarrow> go_error option \<times> 'd) \<Rightarrow> (unit, 'd) step" where
  "no_error f d = (case f d of (Some err, d) \<Rightarrow> (Panic (error_text err), d) | (None, d) \<Rightarrow> (Ret (), d))"

definition no_error_value :: "('d \<Rightarrow> 'a result \<times> 'd) \<Rightarrow> ('a, 'd) step" where
  "no_error_value f d = (case f d of (Inl err, d) \<Rightarrow> (Panic (error_text err), d) | (Inr x, d) \<Rightarrow> (Ret x, d))"

definition EventuallyWithT_var ::
    "('c, 'd) xdc_ops \<Rightarrow> (bool \<Rightarrow> 'd \<Rightarrow> bool \<times> bool \<times> 'd) \<Rightarrow> int \<Rightarrow> int \<Rightarrow> bool \<Rightarrow> (bool, 'd) step" where
  "EventuallyWithT_var ops cond wait interval v d =
     (case x_Eventually ops cond wait interval v d of
        (ok, v, d) \<Rightarrow> (if ok then Ret v else Panic ''Condition never satisfied'', d))"

definition EventuallyWithT :: "('c, 'd) xdc_ops \<Rightarrow> ('d \<Rightarrow> bool \<times> 'd) \<Rightarrow> int \<Rightarrow> int \<Rightarrow> (unit, 'd) step" where
  "EventuallyWithT ops cond wait interval =
     then_do (EventuallyWithT_var ops (\<lambda>v d. case cond d of (ok, d) \<Rightarrow> (ok, v, d)) wait interval False) (\<lambda>_ d. (Ret (), d))"

fun for_each :: "('a \<Rightarrow> (unit, 'd) step) \<Rightarrow> 'a list \<Rightarrow> (unit, 'd) step" where
  "for_each f [] d = (Ret (), d)"
| "for_each f (x # xs) d = then_do (f x) (\<lambda>_. for_each f xs) d"

section \<open>Setting the suite up\<close>

definition xdc_overrides :: "bool \<Rightarrow> (string \<rightharpoonup> dyn_value) \<Rightarrow> (string \<rightharpoonup> dyn_value)" where
  "xdc_overrides transitionHistory m =
     m(''ClusterMetadataRefreshInterval'' \<mapsto> VDuration 5000,
       ''NamespaceCacheRefreshInterval'' \<mapsto> VDuration NamespaceCacheRefreshInterval,
       ''EnableTransitionHistory'' \<mapsto> VBool transitionHistory,
       ''SendRawHistoryBetweenInternalServices'' \<mapsto> VBool True,
       ''TransferProcessorUpdateAckInterval'' \<mapsto> VDuration 3000,
       ''TimerProcessorUpdateAckInterval'' \<mapsto> VDuration 3000,
       ''VisibilityProcessorUpdateAckInterval'' \<mapsto> VDuration 3000,
       ''OutboundProcessorUpdateAckInterval'' \<mapsto> VDuration 3000,
       ''ArchivalProcessorUpdateAckInterval'' \<mapsto> VDuration 3000,
       ''TransferProcessorMaxPollInterval'' \<mapsto> VDuration 3000,
       ''TimerProcessorMaxPollInterval'' \<mapsto> VDuration 3000,
       ''VisibilityProcessorMaxPollInterval'' \<mapsto> VDuration 3000,
       ''OutboundProcessorMaxPollInterval'' \<mapsto> VDuration 3000)"

text \<open>The configuration of the cluster with an index and a name.\<close>

definition xdc_cluster_config ::
    "TestClusterParams \<Rightarrow> (string \<rightharpoonup> dyn_value) \<Rightarrow> string \<Rightarrow> nat \<times> string \<Rightarrow> xdc_config" where
  "xdc_cluster_config params overrides db ic =
     (case ic of (clusterIndex, clusterName) \<Rightarrow>
      \<lparr>xc_ClusterMetadata =
         \<lparr>EnableGlobalNamespace = True, FailoverVersionIncrement = 10, MasterClusterName = clusterName,
          CurrentClusterName = clusterName,
          ClusterInformation = [clusterName \<mapsto> \<lparr>ci_Enabled = True, ci_ReplicationEnabled = False,
             ci_InitialFailoverVersion = int clusterIndex + 1,
             ci_RPCAddress = '''', ci_HTTPAddress = '''', ci_ClusterID = '''', ci_ShardCount = 0\<rparr>]\<rparr>,
       xc_HistoryConfig = \<lparr>NumHistoryShards = cmp_Or (params_NumHistoryShards params) 1, NumHistoryHosts = 0\<rparr>,
       xc_DBName = db @ ''_'' @ clusterName, xc_DynamicConfigOverrides = overrides,
       xc_ServiceFxOptions = ServiceOptions params, xc_EnableMetricsCapture = True\<rparr>)"

fun new_clusters :: "('c, 'd) xdc_ops \<Rightarrow> xdc_config list \<Rightarrow> (handle list, 'd) step" where
  "new_clusters ops [] d = (Ret [], d)"
| "new_clusters ops (cfg # cfgs) d =
     then_do (no_error_value (x_NewCluster ops cfg)) (\<lambda>c.
       then_do (new_clusters ops cfgs) (\<lambda>cs d. (Ret (c # cs), d))) d"

definition connect_remote :: "('c, 'd) xdc_ops \<Rightarrow> handle \<times> handle \<Rightarrow> (unit, 'd) step" where
  "connect_remote ops cr d =
     (case (cr, x_pick ops d) of ((c, remoteC), (pick, d)) \<Rightarrow>
        (case and_then (RemoteFrontendGRPCAddress (x_host ops remoteC)) (\<lambda>rpc.
                and_then (FrontendHTTPAddress pick (x_host ops remoteC)) (\<lambda>http. Ret (rpc, http))) of
           Panic msg \<Rightarrow> (Panic msg, d)
         | Hang \<Rightarrow> (Hang, d)
         | Ret (rpc, http) \<Rightarrow>
             no_error (x_AddRemote ops c \<lparr>FrontendAddress = rpc, FrontendHttpAddress = http,
               EnableRemoteClusterConnection = True, EnableReplication = True\<rparr>) d))"

text \<open>The pairs of clusters with different indices, in the order of the nested loops.\<close>

definition other_pairs :: "'a list \<Rightarrow> ('a \<times> 'a) list" where
  "other_pairs cs =
     concat (map (\<lambda>(ci, c). map (\<lambda>(_, remoteC). (c, remoteC)) (filter (\<lambda>(remoteCi, _). ci \<noteq> remoteCi) (enumerate 0 cs)))
       (enumerate 0 cs))"

definition cluster_names :: "string \<Rightarrow> string list" where
  "cluster_names sfx = [''active_'' @ sfx, ''standby_'' @ sfx]"

text \<open>\<open>new_logger\<close> is the test logger, \<open>db\<close> the name of the default database.\<close>

definition setupSuite ::
    "('c, 'd) xdc_ops \<Rightarrow> handle \<Rightarrow> handle \<Rightarrow> string \<Rightarrow> TestClusterOption list \<Rightarrow> xdc_suite \<Rightarrow> (xdc_suite, 'd) step" where
  "setupSuite ops no_policy new_logger db opts s d =
     (let params = ApplyTestClusterOptions no_policy opts;
          s = (if x_logger s = None then s\<lparr>x_logger := Some new_logger\<rparr> else s);
          overrides = xdc_overrides (enableTransitionHistory s)
            (case dynamicConfigOverrides s of None \<Rightarrow> Map.empty | Some m \<Rightarrow> m);
          s = s\<lparr>dynamicConfigOverrides := Some overrides\<rparr>;
          (sfx, d) = x_random ops d
      in then_do (new_clusters ops (map (xdc_cluster_config params overrides db) (enumerate 0 (cluster_names sfx))))
           (\<lambda>cs d.
             let s = s\<lparr>clusters := cs, startTime := x_now ops d\<rparr>
             in then_do (for_each (connect_remote ops) (other_pairs cs)) (\<lambda>_ d. (Ret s, x_Sleep ops 200 d)) d) d)"

definition tearDownSuite :: "('c, 'd) xdc_ops \<Rightarrow> xdc_suite \<Rightarrow> (unit, 'd) step" where
  "tearDownSuite ops s = for_each (\<lambda>c. no_error (x_TearDown ops c)) (clusters s)"

text \<open>
  Two places are made and one is filled per cluster: a third cluster is out of range, and with
  fewer than two clusters places stay empty.
\<close>

definition clusterReplicationConfig :: "('c, 'd) xdc_ops \<Rightarrow> xdc_suite \<Rightarrow> string option list outcome" where
  "clusterReplicationConfig ops s =
     (if length (clusters s) > 2 then Panic ''index out of range [2] with length 2''
      else Ret (map (\<lambda>c. Some (x_name ops c)) (clusters s) @ replicate (2 - length (clusters s)) None))"

section \<open>Waiting for replication\<close>

definition within_range :: "int option \<Rightarrow> int \<Rightarrow> int \<Rightarrow> bool" where
  "within_range t start now \<longleftrightarrow> (case t of None \<Rightarrow> False | Some t \<Rightarrow> start \<le> t \<and> t \<le> now)"

text \<open>The requirements on the status of the only shard.\<close>

definition shard_synced :: "int \<Rightarrow> int \<Rightarrow> string \<Rightarrow> shard_status \<Rightarrow> bool" where
  "shard_synced start now target shard \<longleftrightarrow>
     0 < MaxReplicationTaskId shard \<and> within_range (ShardLocalTime shard) start now \<and>
     (case RemoteClusters shard of
        None \<Rightarrow> False
      | Some remotes \<Rightarrow>
          (case remotes target of
             Some (Some ack) \<Rightarrow>
               MaxReplicationTaskId shard \<le> AckedTaskId ack \<and> within_range (AckedTaskVisibilityTime ack) start now
           | _ \<Rightarrow> False))"

definition synced_status :: "int \<Rightarrow> int \<Rightarrow> string \<Rightarrow> shard_status option list result \<Rightarrow> bool" where
  "synced_status start now target resp \<longleftrightarrow>
     (case resp of Inr [Some shard] \<Rightarrow> shard_synced start now target shard | _ \<Rightarrow> False)"

definition check_connected :: "('c, 'd) xdc_ops \<Rightarrow> int \<Rightarrow> handle \<Rightarrow> string \<Rightarrow> 'd \<Rightarrow> bool \<times> 'd" where
  "check_connected ops start source target d =
     (case x_Status ops source d of (resp, d) \<Rightarrow> (synced_status start (x_now ops d) target resp, d))"

definition waitForClusterConnected :: "('c, 'd) xdc_ops \<Rightarrow> xdc_suite \<Rightarrow> handle \<Rightarrow> string \<Rightarrow> (unit, 'd) step" where
  "waitForClusterConnected ops s source target =
     EventuallyWithT ops (check_connected ops (startTime s) source target) 90000 1000"

definition waitForClusterSynced :: "('c, 'd) xdc_ops \<Rightarrow> xdc_suite \<Rightarrow> (unit, 'd) step" where
  "waitForClusterSynced ops s =
     for_each (\<lambda>(source, target). waitForClusterConnected ops s source (x_name ops target)) (other_pairs (clusters s))"

text \<open>\<^verbatim>\<open>sync.Once\<close>: the flag is set even when the function fails.\<close>

definition setupTest :: "('c, 'd) xdc_ops \<Rightarrow> xdc_suite \<Rightarrow> 'd \<Rightarrow> unit outcome \<times> xdc_suite \<times> 'd" where
  "setupTest ops s d =
     (if clusterConnected s then (Ret (), s, d)
      else case waitForClusterSynced ops s d of (out, d) \<Rightarrow> (out, s\<lparr>clusterConnected := True\<rparr>, d))"

section \<open>Replicated namespaces\<close>

text \<open>A condition over namespace registries: every one knows the namespace, and as required.\<close>

fun check_registries :: "('c, 'd) xdc_ops \<Rightarrow> string \<Rightarrow> (namespace_entry \<Rightarrow> bool) \<Rightarrow> handle list \<Rightarrow> 'd \<Rightarrow> bool \<times> 'd" where
  "check_registries ops ns ok [] d = (True, d)"
| "check_registries ops ns ok (r # rs) d =
     (case x_GetNamespace ops r ns d of
        (Inr (Some resp), d) \<Rightarrow> if ok resp then check_registries ops ns ok rs d else (False, d)
      | (_, d) \<Rightarrow> (False, d))"

definition registries :: "('c, 'd) xdc_ops \<Rightarrow> handle list \<Rightarrow> handle list" where
  "registries ops cs = concat (map (\<lambda>c. namespaceRegistries (x_host ops c)) cs)"

definition createNamespace :: "('c, 'd) xdc_ops \<Rightarrow> bool \<Rightarrow> handle list \<Rightarrow> (string, 'd) step" where
  "createNamespace ops isGlobal cs d =
     (let (uuid, d) = x_random ops d;
          ns = ''test-namespace-'' @ uuid;
          clusterNames = (if isGlobal then map (x_name ops) cs else [])
      in case cs of
           [] \<Rightarrow> (Panic ''index out of range [0] with length 0'', d)
         | c0 # rest \<Rightarrow>
             then_do (no_error (x_Register ops c0 \<lparr>rr_Namespace = ns, rr_IsGlobalNamespace = isGlobal, rr_Clusters = clusterNames,
               rr_ActiveClusterName = x_name ops c0, rr_Retention = 7 * 24 * 3600 * 1000\<rparr>)) (\<lambda>_.
             then_do (EventuallyWithT ops (check_registries ops ns (\<lambda>resp. ne_IsGlobal resp = isGlobal) (registries ops [c0]))
               namespaceCacheWaitTime namespaceCacheCheckInterval) (\<lambda>_.
             then_do (if length cs > 1 \<and> isGlobal
               then EventuallyWithT ops (check_registries ops ns
                      (\<lambda>resp. ne_IsGlobal resp = isGlobal \<and> ne_ClusterNames resp = clusterNames) (registries ops rest))
                    replicationWaitTime replicationCheckInterval
               else (\<lambda>d. (Ret (), d))) (\<lambda>_ d. (Ret ns, d)))) d)"

definition createGlobalNamespace :: "('c, 'd) xdc_ops \<Rightarrow> xdc_suite \<Rightarrow> (string, 'd) step" where
  "createGlobalNamespace ops s = createNamespace ops True (clusters s)"

definition createNamespaceInCluster0 :: "('c, 'd) xdc_ops \<Rightarrow> xdc_suite \<Rightarrow> bool \<Rightarrow> (string, 'd) step" where
  "createNamespaceInCluster0 ops s isGlobal d =
     (if clusters s = [] then (Panic ''slice bounds out of range [:1] with capacity 0'', d)
      else createNamespace ops isGlobal (take 1 (clusters s)) d)"

text \<open>
  The first condition of \<^verbatim>\<open>updateNamespaceClusters\<close> assigns \<^verbatim>\<open>isGlobalNamespace\<close> after every registry that
  passes.
\<close>

fun check_and_assign ::
    "('c, 'd) xdc_ops \<Rightarrow> string \<Rightarrow> (namespace_entry \<Rightarrow> bool) \<Rightarrow> handle list \<Rightarrow> bool \<Rightarrow> 'd \<Rightarrow> bool \<times> bool \<times> 'd" where
  "check_and_assign ops ns ok [] g d = (True, g, d)"
| "check_and_assign ops ns ok (r # rs) g d =
     (case x_GetNamespace ops r ns d of
        (Inr (Some resp), d) \<Rightarrow> if ok resp then check_and_assign ops ns ok rs (ne_IsGlobal resp) d else (False, g, d)
      | (_, d) \<Rightarrow> (False, g, d))"

definition updateNamespaceClusters :: "('c, 'd) xdc_ops \<Rightarrow> string \<Rightarrow> nat \<Rightarrow> handle list \<Rightarrow> (unit, 'd) step" where
  "updateNamespaceClusters ops ns inClusterIndex cs d =
     (let clusterNames = map (x_name ops) cs in
      if inClusterIndex \<ge> length cs then (Panic ''index out of range'', d)
      else let c = cs ! inClusterIndex;
               others = map snd (filter (\<lambda>(ci, _). ci \<noteq> inClusterIndex) (enumerate 0 cs))
        in then_do (no_error_value (x_Update ops c (SetClusters ns clusterNames))) (\<lambda>_.
           then_do (EventuallyWithT_var ops
               (check_and_assign ops ns (\<lambda>resp. ne_ClusterNames resp = clusterNames) (registries ops [c]))
               namespaceCacheWaitTime namespaceCacheCheckInterval False) (\<lambda>isGlobalNamespace.
             if length cs > 1 \<and> isGlobalNamespace
             then EventuallyWithT ops (check_registries ops ns (\<lambda>resp. ne_ClusterNames resp = clusterNames) (registries ops others))
                    replicationWaitTime replicationCheckInterval
             else (\<lambda>d. (Ret (), d)))) d)"

definition promoteNamespace :: "('c, 'd) xdc_ops \<Rightarrow> xdc_suite \<Rightarrow> string \<Rightarrow> nat \<Rightarrow> (unit, 'd) step" where
  "promoteNamespace ops s ns inClusterIndex d =
     (if inClusterIndex \<ge> length (clusters s) then (Panic ''index out of range'', d)
      else let c = clusters s ! inClusterIndex in
        then_do (no_error_value (x_Update ops c (Promote ns))) (\<lambda>_.
          EventuallyWithT ops (check_registries ops ns ne_IsGlobal (registries ops [c]))
            namespaceCacheWaitTime namespaceCacheCheckInterval) d)"

definition failover :: "('c, 'd) xdc_ops \<Rightarrow> xdc_suite \<Rightarrow> string \<Rightarrow> nat \<Rightarrow> string \<Rightarrow> int \<Rightarrow> (unit, 'd) step" where
  "failover ops s ns inClusterIndex targetCluster targetFailoverVersion =
     then_do (waitForClusterSynced ops s) (\<lambda>_ d.
       if inClusterIndex \<ge> length (clusters s) then (Panic ''index out of range'', d)
       else then_do (no_error_value (x_Update ops (clusters s ! inClusterIndex) (SetActive ns targetCluster))) (\<lambda>version d.
         if version \<noteq> targetFailoverVersion then (Panic ''Not equal'', d)
         else then_do (EventuallyWithT ops
                  (check_registries ops ns (\<lambda>resp. ne_ActiveClusterName resp = targetCluster) (registries ops (clusters s)))
                  replicationWaitTime replicationCheckInterval)
                (\<lambda>_. waitForClusterSynced ops s) d) d)"

section \<open>Search attributes and visibility\<close>

text \<open>\<open>already_exists\<close> is \<^verbatim>\<open>errors.As\<close> for the error of that name; any other error stops the test.\<close>

definition add_attributes ::
    "('c, 'd) xdc_ops \<Rightarrow> (go_error \<Rightarrow> bool) \<Rightarrow> (string \<times> nat) list \<Rightarrow> string \<Rightarrow> handle \<Rightarrow> (unit, 'd) step" where
  "add_attributes ops already_exists expected ns cl d =
     (case x_AddAttributes ops cl ns expected d of
        (None, d) \<Rightarrow> (Ret (), d)
      | (Some err, d) \<Rightarrow> (if already_exists err then Ret () else Panic (error_text err), d))"

definition check_attributes :: "('c, 'd) xdc_ops \<Rightarrow> (string \<times> nat) list \<Rightarrow> string \<Rightarrow> handle \<Rightarrow> 'd \<Rightarrow> bool \<times> 'd" where
  "check_attributes ops expected ns cl d =
     (case x_ListAttributes ops cl ns d of
        (Inl _, d) \<Rightarrow> (False, d)
      | (Inr customAttributes, d) \<Rightarrow> (\<forall>(attrName, attrType)\<in>set expected. customAttributes attrName = Some attrType, d))"

definition registerTestSearchAttributes ::
    "('c, 'd) xdc_ops \<Rightarrow> (go_error \<Rightarrow> bool) \<Rightarrow> bool \<Rightarrow> (string \<times> nat) list \<Rightarrow> xdc_suite \<Rightarrow> string \<Rightarrow> (unit, 'd) step" where
  "registerTestSearchAttributes ops already_exists sqlVisibility expected s ns d =
     (if sqlVisibility \<and> clusters s = [] then (Panic ''slice bounds out of range [:1] with capacity 0'', d)
      else then_do (for_each (add_attributes ops already_exists expected ns)
               (if sqlVisibility then take 1 (clusters s) else clusters s)) (\<lambda>_.
             for_each (\<lambda>cl. EventuallyWithT ops (check_attributes ops expected ns cl) replicationWaitTime replicationCheckInterval)
               (clusters s)) d)"

definition check_count :: "('c, 'd) xdc_ops \<Rightarrow> handle \<Rightarrow> string \<Rightarrow> int \<Rightarrow> 'd \<Rightarrow> bool \<times> 'd" where
  "check_count ops c ns expectedCount d =
     (case x_Count ops c ns d of (Inl _, d) \<Rightarrow> (False, d) | (Inr n, d) \<Rightarrow> (n = expectedCount, d))"

definition waitForVisibilityCount :: "('c, 'd) xdc_ops \<Rightarrow> xdc_suite \<Rightarrow> string \<Rightarrow> int \<Rightarrow> (unit, 'd) step" where
  "waitForVisibilityCount ops s ns expectedCount d =
     (case clusters s of
        [] \<Rightarrow> (Panic ''index out of range [0] with length 0'', d)
      | c # _ \<Rightarrow> EventuallyWithT ops (check_count ops c ns expectedCount) 15000 200 d)"

section \<open>Clusters of the NDC suites\<close>

definition ndc_information :: "string list \<Rightarrow> (string \<rightharpoonup> cluster_information)" where
  "ndc_information clusterNames =
     fold (\<lambda>(i, cn) m. m(cn \<mapsto> \<lparr>ci_Enabled = True, ci_ReplicationEnabled = False, ci_InitialFailoverVersion = int i + 1,
         ci_RPCAddress = ''nowhere'' @ Itoa (int i + 1) @ '':7134'', ci_HTTPAddress = '''', ci_ClusterID = '''', ci_ShardCount = 0\<rparr>))
       (enumerate 0 clusterNames) Map.empty"

definition clustersConfig :: "string list \<Rightarrow> (cluster_config \<times> HistoryConfig) list outcome" where
  "clustersConfig clusterNames =
     (if length clusterNames < 2 then Panic ''at least 2 clusters are needed for ndc tests''
      else Ret (map (\<lambda>cn.
        (\<lparr>EnableGlobalNamespace = True, FailoverVersionIncrement = 10, MasterClusterName = clusterNames ! 0,
          CurrentClusterName = cn, ClusterInformation = ndc_information clusterNames\<rparr>,
         \<lparr>NumHistoryShards = 1, NumHistoryHosts = 0\<rparr>)) clusterNames))"

section \<open>Steps in time\<close>

text \<open>
  What is assumed of the machine: \<open>later\<close> orders its states in time, every operation leads to a
  later state, and \<^verbatim>\<open>EventuallyWithT\<close> succeeds only after the condition was evaluated once, in the
  meantime, with success.
\<close>

definition later_ok :: "('c, 'd) xdc_ops \<Rightarrow> ('d \<Rightarrow> 'd \<Rightarrow> bool) \<Rightarrow> bool" where
  "later_ok ops later \<longleftrightarrow>
     (\<forall>d. later d d) \<and> (\<forall>a b c. later a b \<longrightarrow> later b c \<longrightarrow> later a c) \<and>
     (\<forall>c d. later d (snd (x_Status ops c d))) \<and> (\<forall>c u d. later d (snd (x_Update ops c u d))) \<and>
     (\<forall>c q d. later d (snd (x_Register ops c q d))) \<and> (\<forall>r ns d. later d (snd (x_GetNamespace ops r ns d))) \<and>
     (\<forall>d. later d (snd (x_random ops d))) \<and>
     (\<forall>cond w i v d v' d'. x_Eventually ops cond w i v d = (True, v', d') \<longrightarrow>
        (\<exists>v0 d0 d1. later d d0 \<and> cond v0 d0 = (True, v', d1) \<and> later d1 d'))"

lemma later_okD:
  assumes "later_ok ops later"
  shows "later d d" and "later a b \<Longrightarrow> later b c \<Longrightarrow> later a c"
    and "later d (snd (x_Status ops cl d))" and "later d (snd (x_Update ops cl u d))"
    and "later d (snd (x_Register ops cl q d))" and "later d (snd (x_GetNamespace ops r ns d))"
    and "later d (snd (x_random ops d))"
proof -
  show "later a b \<Longrightarrow> later b c \<Longrightarrow> later a c"
    by (rule assms[unfolded later_ok_def, THEN conjunct2, THEN conjunct1, rule_format])
qed (use assms in \<open>simp_all add: later_ok_def\<close>)

lemma later_ok_Eventually:
  assumes "later_ok ops later" and "x_Eventually ops cond w i v d = (True, v', d')"
  obtains v0 d0 d1 where "later d d0" and "cond v0 d0 = (True, v', d1)" and "later d1 d'"
proof -
  have "\<forall>cond w i v d v' d'. x_Eventually ops cond w i v d = (True, v', d') \<longrightarrow>
      (\<exists>v0 d0 d1. later d d0 \<and> cond v0 d0 = (True, v', d1) \<and> later d1 d')"
    using assms(1) by (simp add: later_ok_def)
  from this[rule_format, OF assms(2)] show ?thesis
    using that by auto
qed

lemma then_do_Ret:
  "then_do m f d = (Ret y, d') \<longleftrightarrow> (\<exists>x d1. m d = (Ret x, d1) \<and> f x d1 = (Ret y, d'))"
  by (auto simp: then_do_def split: prod.splits outcome.splits)

lemma no_error_Ret: "no_error f d = (Ret u, d') \<longleftrightarrow> f d = (None, d')"
  by (auto simp: no_error_def split: prod.splits option.splits)

lemma no_error_value_Ret: "no_error_value f d = (Ret x, d') \<longleftrightarrow> f d = (Inr x, d')"
  by (auto simp: no_error_value_def split: prod.splits sum.splits)

lemma Eventually_Ret:
  assumes "later_ok ops later" and "EventuallyWithT ops cond w i d = (Ret u, d')"
  obtains d0 d1 where "later d d0" and "cond d0 = (True, d1)" and "later d1 d'"
proof -
  obtain v v' where "x_Eventually ops (\<lambda>v d. case cond d of (ok, d) \<Rightarrow> (ok, v, d)) w i v d = (True, v', d')"
    using assms(2) by (auto simp: EventuallyWithT_def EventuallyWithT_var_def then_do_Ret split: prod.splits if_splits)
  from later_ok_Eventually[OF assms(1) this] obtain v0 d0 d1 where
    "later d d0" "(case cond d0 of (ok, d) \<Rightarrow> (ok, v0, d)) = (True, v', d1)" "later d1 d'" .
  then show ?thesis
    using that by (cases "cond d0") auto
qed

text \<open>A loop that succeeds ran every one of its steps with success, within its time.\<close>

lemma for_each_Ret:
  assumes "later_ok ops later" and "for_each f xs d = (Ret u, d')"
    and "\<And>x d d'. x \<in> set xs \<Longrightarrow> f x d = (Ret (), d') \<Longrightarrow> later d d'"
  shows "later d d' \<and> (\<forall>x\<in>set xs. \<exists>d1 d2. later d d1 \<and> f x d1 = (Ret (), d2) \<and> later d2 d')"
  using assms(2,3)
proof (induction xs arbitrary: d)
  case Nil
  then show ?case
    using later_okD(1)[OF assms(1)] by simp
next
  case (Cons x xs)
  obtain d1 where d1: "f x d = (Ret (), d1)" "for_each f xs d1 = (Ret u, d')"
    using Cons.prems(1) by (auto simp: then_do_Ret)
  have "later d d1"
    using Cons.prems(2)[of x, OF _ d1(1)] by simp
  have IH: "later d1 d' \<and> (\<forall>x\<in>set xs. \<exists>e1 e2. later d1 e1 \<and> f x e1 = (Ret (), e2) \<and> later e2 d')"
    by (intro Cons.IH[OF d1(2)], rule Cons.prems(2)) simp_all
  note trans = later_okD(2)[OF assms(1)]
  have "\<exists>e1 e2. later d e1 \<and> f y e1 = (Ret (), e2) \<and> later e2 d'" if "y \<in> set xs" for y
    using IH that trans[OF \<open>later d d1\<close>] by blast
  moreover have "\<exists>e1 e2. later d e1 \<and> f x e1 = (Ret (), e2) \<and> later e2 d'"
    using d1(1) IH later_okD(1)[OF assms(1)] by blast
  ultimately show ?case
    using trans[OF \<open>later d d1\<close>] IH by auto
qed

section \<open>What a successful operation has seen\<close>

text \<open>Between two states a registry was read, and what it knew passed; a cluster was seen to have caught up.\<close>

definition saw ::
    "('c, 'd) xdc_ops \<Rightarrow> ('d \<Rightarrow> 'd \<Rightarrow> bool) \<Rightarrow> 'd \<Rightarrow> 'd \<Rightarrow> handle \<Rightarrow> string \<Rightarrow> (namespace_entry \<Rightarrow> bool) \<Rightarrow> bool" where
  "saw ops later d d' r ns ok \<longleftrightarrow>
     (\<exists>e e' resp. later d e \<and> x_GetNamespace ops r ns e = (Inr (Some resp), e') \<and> ok resp \<and> later e' d')"

definition caught_up :: "('c, 'd) xdc_ops \<Rightarrow> ('d \<Rightarrow> 'd \<Rightarrow> bool) \<Rightarrow> 'd \<Rightarrow> 'd \<Rightarrow> int \<Rightarrow> handle \<Rightarrow> string \<Rightarrow> bool" where
  "caught_up ops later d d' start source target \<longleftrightarrow>
     (\<exists>e e' shard. later d e \<and> x_Status ops source e = (Inr [Some shard], e') \<and>
        shard_synced start (x_now ops e') target shard \<and> later e' d')"

lemma saw_mono:
  assumes "later_ok ops later" and "saw ops later a b r ns ok" and "later d a" and "later b d'"
  shows "saw ops later d d' r ns ok"
  using assms later_okD(2)[OF assms(1)] unfolding saw_def by meson

lemma saw_weaken: "saw ops later d d' r ns ok \<Longrightarrow> (\<And>resp. ok resp \<Longrightarrow> ok' resp) \<Longrightarrow> saw ops later d d' r ns ok'"
  unfolding saw_def by blast

lemma caught_up_mono:
  assumes "later_ok ops later" and "caught_up ops later a b start source target" and "later d a" and "later b d'"
  shows "caught_up ops later d d' start source target"
  using assms later_okD(2)[OF assms(1)] unfolding caught_up_def by meson

lemma check_registries_saw:
  assumes "later_ok ops later" and "check_registries ops ns ok rs d = (True, d')"
  shows "later d d' \<and> (\<forall>r\<in>set rs. saw ops later d d' r ns ok)"
  using assms(2)
proof (induction rs arbitrary: d)
  case Nil
  then show ?case
    using later_okD(1)[OF assms(1)] by simp
next
  case (Cons r rs)
  obtain resp d1 where r: "x_GetNamespace ops r ns d = (Inr (Some resp), d1)" "ok resp"
    "check_registries ops ns ok rs d1 = (True, d')"
    using Cons.prems by (auto split: prod.splits sum.splits option.splits if_splits)
  have d1: "later d d1"
    using later_okD(6)[OF assms(1), of d r ns] r(1) by simp
  have "saw ops later d d' r ns ok"
    using r Cons.IH[OF r(3)] later_okD(1)[OF assms(1)] unfolding saw_def by blast
  then show ?case
    using Cons.IH[OF r(3)] d1 later_okD(2)[OF assms(1) d1] saw_mono[OF assms(1) _ d1 later_okD(1)[OF assms(1)]] by auto
qed

lemma Eventually_saw:
  assumes "later_ok ops later" and "EventuallyWithT ops (check_registries ops ns ok rs) w i d = (Ret u, d')"
  shows "later d d' \<and> (\<forall>r\<in>set rs. saw ops later d d' r ns ok)"
proof -
  obtain d0 d1 where c: "later d d0" "check_registries ops ns ok rs d0 = (True, d1)" "later d1 d'"
    by (rule Eventually_Ret[OF assms])
  note seen = check_registries_saw[OF assms(1) c(2)]
  note trans = later_okD(2)[OF assms(1)]
  show ?thesis
    using trans[OF c(1) trans[OF conjunct1[OF seen] c(3)]] seen saw_mono[OF assms(1) _ c(1,3)] by blast
qed

lemma synced_status_iff:
  "synced_status start now target resp \<longleftrightarrow> (\<exists>shard. resp = Inr [Some shard] \<and> shard_synced start now target shard)"
proof (cases resp)
  case (Inr l)
  then show ?thesis
    by (cases l; cases "tl l") (auto simp: synced_status_def split: option.splits)
qed (simp add: synced_status_def)

lemma waitForClusterConnected_caught_up:
  assumes "later_ok ops later" and "waitForClusterConnected ops s source target d = (Ret u, d')"
  shows "later d d' \<and> caught_up ops later d d' (startTime s) source target"
proof -
  obtain d0 d1 where c: "later d d0" "check_connected ops (startTime s) source target d0 = (True, d1)" "later d1 d'"
    by (rule Eventually_Ret[OF assms(1) assms(2)[unfolded waitForClusterConnected_def]])
  obtain shard where shard: "x_Status ops source d0 = (Inr [Some shard], d1)" "shard_synced (startTime s) (x_now ops d1) target shard"
    using c(2) by (auto simp: check_connected_def synced_status_iff split: prod.splits)
  have "later d0 d1"
    using later_okD(3)[OF assms(1), of d0 source] shard(1) by simp
  then show ?thesis
    using c shard later_okD(2)[OF assms(1)] unfolding caught_up_def by meson
qed

lemma waitForClusterSynced_caught_up:
  assumes "later_ok ops later" and "waitForClusterSynced ops s d = (Ret u, d')"
  shows "later d d' \<and> (\<forall>(source, target)\<in>set (other_pairs (clusters s)).
    caught_up ops later d d' (startTime s) source (x_name ops target))"
proof -
  let ?f = "\<lambda>(source, target). waitForClusterConnected ops s source (x_name ops target)"
  have "later e e'" if "?f p e = (Ret (), e')" for p e e'
    using that waitForClusterConnected_caught_up[OF assms(1)] by (cases p) auto
  then have run: "later d d' \<and> (\<forall>p\<in>set (other_pairs (clusters s)). \<exists>d1 d2. later d d1 \<and> ?f p d1 = (Ret (), d2) \<and> later d2 d')"
    using assms(2) unfolding waitForClusterSynced_def by (intro for_each_Ret[OF assms(1)]) auto
  have "caught_up ops later d d' (startTime s) source (x_name ops target)"
    if pair: "(source, target) \<in> set (other_pairs (clusters s))" for source target
  proof -
    obtain d1 d2 where "later d d1" "waitForClusterConnected ops s source (x_name ops target) d1 = (Ret (), d2)" "later d2 d'"
      using run pair by fastforce
    then show ?thesis
      using waitForClusterConnected_caught_up[OF assms(1)] caught_up_mono[OF assms(1)] by blast
  qed
  then show ?thesis
    using run by auto
qed

section \<open>Properties\<close>

text \<open>
  C40: a failover that the suite reports as done was seen everywhere. The update was accepted with the
  expected failover version at a moment before which every cluster had caught up with every other; after
  it, every namespace registry of every host of every cluster was read and named the target as the active
  cluster; and after that every cluster had caught up with every other again.
\<close>

theorem failover_confirmed:
  assumes "later_ok ops later" and "failover ops s ns i target version d = (Ret u, d')"
  shows "\<exists>d1 d2 d3. later d d1 \<and> x_Update ops (clusters s ! i) (SetActive ns target) d1 = (Inr version, d2) \<and>
    later d2 d3 \<and> later d3 d' \<and>
    (\<forall>c\<in>set (clusters s). \<forall>r\<in>set (namespaceRegistries (x_host ops c)).
       saw ops later d2 d3 r ns (\<lambda>resp. ne_ActiveClusterName resp = target)) \<and>
    (\<forall>(source, remote)\<in>set (other_pairs (clusters s)).
       caught_up ops later d d1 (startTime s) source (x_name ops remote) \<and>
       caught_up ops later d3 d' (startTime s) source (x_name ops remote))"
proof -
  obtain d1 d2 d3 where run: "waitForClusterSynced ops s d = (Ret (), d1)" "i < length (clusters s)"
    "x_Update ops (clusters s ! i) (SetActive ns target) d1 = (Inr version, d2)"
    "EventuallyWithT ops (check_registries ops ns (\<lambda>resp. ne_ActiveClusterName resp = target) (registries ops (clusters s)))
       replicationWaitTime replicationCheckInterval d2 = (Ret (), d3)"
    "waitForClusterSynced ops s d3 = (Ret (), d')"
    using assms(2) by (auto simp: failover_def then_do_Ret no_error_value_Ret split: if_splits)
  note before = waitForClusterSynced_caught_up[OF assms(1) run(1)]
  note after = waitForClusterSynced_caught_up[OF assms(1) run(5)]
  note seen = Eventually_saw[OF assms(1) run(4)]
  have "\<forall>c\<in>set (clusters s). \<forall>r\<in>set (namespaceRegistries (x_host ops c)).
      saw ops later d2 d3 r ns (\<lambda>resp. ne_ActiveClusterName resp = target)"
    using seen by (auto simp: registries_def)
  then show ?thesis
    using before after seen run(3) by blast
qed

text \<open>A machine of two clusters with one registry each, a clock and the active cluster of the only namespace.\<close>

record xdc_machine =
  xm_clock :: nat
  xm_active :: string

definition xdc_example :: "(unit, xdc_machine) xdc_ops" where
  "xdc_example =
     \<lparr>x_now = (\<lambda>d. int (xm_clock d)), x_Sleep = (\<lambda>_ d. d), x_random = (\<lambda>d. (''x'', d)), x_pick = (\<lambda>d. (0, d)),
      x_name = (\<lambda>c. if c = 0 then ''active'' else ''standby''),
      x_host = (\<lambda>c. example_server\<lparr>namespaceRegistries := [c]\<rparr>),
      x_NewCluster = (\<lambda>_ d. (Inr 0, d)), x_TearDown = (\<lambda>_ d. (None, d)), x_AddRemote = (\<lambda>_ _ d. (None, d)),
      x_Status = (\<lambda>c d. (Inr [Some \<lparr>MaxReplicationTaskId = 5, ShardLocalTime = Some (int (xm_clock d)),
         RemoteClusters = Some (\<lambda>_. Some (Some \<lparr>AckedTaskId = 5, AckedTaskVisibilityTime = Some (int (xm_clock d))\<rparr>))\<rparr>], d)),
      x_Register = (\<lambda>_ _ d. (None, d)),
      x_Update = (\<lambda>_ u d. (Inr 2, d\<lparr>xm_clock := Suc (xm_clock d),
         xm_active := (case u of SetActive _ c \<Rightarrow> c | _ \<Rightarrow> xm_active d)\<rparr>)),
      x_GetNamespace = (\<lambda>_ _ d. (Inr (Some \<lparr>ne_IsGlobal = True, ne_ClusterNames = [''active'', ''standby''],
         ne_ActiveClusterName = xm_active d\<rparr>), d)),
      x_AddAttributes = (\<lambda>_ _ _ d. (None, d)), x_ListAttributes = (\<lambda>_ _ d. (Inr Map.empty, d)), x_Count = (\<lambda>_ _ d. (Inr 0, d)),
      x_Eventually = (\<lambda>cond _ _ v d. cond v d)\<rparr>"

definition xdc_later :: "xdc_machine \<Rightarrow> xdc_machine \<Rightarrow> bool" where
  "xdc_later d d' \<longleftrightarrow> xm_clock d \<le> xm_clock d'"

definition xdc_example_suite :: xdc_suite where
  "xdc_example_suite = \<lparr>clusters = [0, 1], x_logger = None, dynamicConfigOverrides = None, startTime = 0,
     clusterConnected = True, enableTransitionHistory = True\<rparr>"

lemma xdc_example_later: "later_ok xdc_example xdc_later"
  unfolding later_ok_def xdc_later_def by (auto simp: xdc_example_def)

theorem failover_confirmed_witness:
  "\<exists>d2 d3. saw xdc_example xdc_later d2 d3 0 ''orders'' (\<lambda>resp. ne_ActiveClusterName resp = ''standby'') \<and>
     saw xdc_example xdc_later d2 d3 1 ''orders'' (\<lambda>resp. ne_ActiveClusterName resp = ''standby'')"
proof -
  let ?run = "failover xdc_example xdc_example_suite ''orders'' 0 ''standby'' 2 \<lparr>xm_clock = 0, xm_active = ''active''\<rparr>"
  have "fst ?run = Ret ()"
    by code_simp
  then have "?run = (Ret (), snd ?run)"
    by (metis prod.collapse)
  from failover_confirmed[OF xdc_example_later this] show ?thesis
    by (auto simp: xdc_example_suite_def xdc_example_def)
qed

text \<open>
  A global namespace that the suite created is known to every registry of every cluster: as global, and
  in the clusters after the first with the clusters of the suite in their order.
\<close>

lemma createGlobalNamespace_confirmed:
  assumes "later_ok ops later" and "createGlobalNamespace ops s d = (Ret ns, d')"
  shows "later d d' \<and> (\<forall>c\<in>set (clusters s). \<forall>r\<in>set (namespaceRegistries (x_host ops c)). saw ops later d d' r ns ne_IsGlobal) \<and>
    (\<forall>c\<in>set (tl (clusters s)). \<forall>r\<in>set (namespaceRegistries (x_host ops c)).
       saw ops later d d' r ns (\<lambda>resp. ne_ClusterNames resp = map (x_name ops) (clusters s)))"
proof -
  obtain c0 rest where cs: "clusters s = c0 # rest"
    using assms(2) by (cases "clusters s") (auto simp: createGlobalNamespace_def createNamespace_def case_prod_unfold)
  obtain uuid d0 where uuid: "x_random ops d = (uuid, d0)" by fastforce
  let ?names = "x_name ops c0 # map (x_name ops) rest"
  let ?ok = "\<lambda>resp. ne_IsGlobal resp = True \<and> ne_ClusterNames resp = ?names"
  obtain q d1 d2 where run: "x_Register ops c0 q d0 = (None, d1)"
    "EventuallyWithT ops (check_registries ops ns ne_IsGlobal (registries ops [c0]))
       namespaceCacheWaitTime namespaceCacheCheckInterval d1 = (Ret (), d2)"
    "(if rest \<noteq> [] then EventuallyWithT ops (check_registries ops ns ?ok (registries ops rest))
       replicationWaitTime replicationCheckInterval else (\<lambda>d. (Ret (), d))) d2 = (Ret (), d')"
    using assms(2) uuid
    by (auto simp: createGlobalNamespace_def createNamespace_def cs then_do_Ret no_error_Ret Let_def)
  have d1: "later d d1"
    using later_okD(2)[OF assms(1)] later_okD(5)[OF assms(1), of d0 c0 q] later_okD(7)[OF assms(1), of d] run(1) uuid by auto
  note home = Eventually_saw[OF assms(1) run(2)]
  have away: "later d2 d' \<and> (\<forall>r\<in>set (registries ops rest). saw ops later d2 d' r ns ?ok)"
    using run(3) Eventually_saw[OF assms(1)] later_okD(1)[OF assms(1)]
    by (cases "rest = []") (auto simp: registries_def)
  note trans = later_okD(2)[OF assms(1)]
  have near: "saw ops later d d' r ns ne_IsGlobal" if "r \<in> set (namespaceRegistries (x_host ops c0))" for r
    using home that saw_mono[OF assms(1) _ d1] away by (auto simp: registries_def)
  have far: "saw ops later d d' r ns ?ok" if "c \<in> set rest" "r \<in> set (namespaceRegistries (x_host ops c))" for c r
    using away that saw_mono[OF assms(1) _ trans[OF d1 conjunct1[OF home]] later_okD(1)[OF assms(1)]]
    by (auto simp: registries_def)
  show ?thesis
    using trans[OF d1 trans[OF conjunct1[OF home] conjunct1[OF away]]] near far[THEN saw_weaken]
    by (simp add: cs)
qed

section \<open>Clusters can be told apart\<close>

text \<open>A failover version belongs to the cluster it is congruent to modulo the increment.\<close>

definition own_version :: "cluster_config \<Rightarrow> int" where
  "own_version m = (case ClusterInformation m (CurrentClusterName m) of
     None \<Rightarrow> 0 | Some info \<Rightarrow> ci_InitialFailoverVersion info mod FailoverVersionIncrement m)"

definition ndc_info :: "nat \<Rightarrow> cluster_information" where
  "ndc_info i = \<lparr>ci_Enabled = True, ci_ReplicationEnabled = False, ci_InitialFailoverVersion = int i + 1,
     ci_RPCAddress = ''nowhere'' @ Itoa (int i + 1) @ '':7134'', ci_HTTPAddress = '''', ci_ClusterID = '''', ci_ShardCount = 0\<rparr>"

lemma ndc_information_snoc: "ndc_information (xs @ [x]) = (ndc_information xs)(x \<mapsto> ndc_info (length xs))"
  by (simp add: ndc_information_def enumerate_append_eq ndc_info_def)

lemma ndc_information_at: "distinct xs \<Longrightarrow> i < length xs \<Longrightarrow> ndc_information xs (xs ! i) = Some (ndc_info i)"
proof (induction xs rule: rev_induct)
  case (snoc x xs)
  then show ?case
    by (cases "i < length xs") (auto simp: ndc_information_snoc nth_append less_Suc_eq dest: nth_mem)
qed simp

lemma distinct_versions_iff: "distinct (map (\<lambda>i. (int i + 1) mod 10) [0..<n]) \<longleftrightarrow> n \<le> 10"
proof
  assume distinct: "distinct (map (\<lambda>i. (int i + 1) mod 10) [0..<n])"
  show "n \<le> 10"
  proof (rule ccontr)
    assume "\<not> n \<le> 10"
    moreover have "inj_on (\<lambda>i. (int i + 1) mod 10) {0..<n}"
      using distinct unfolding distinct_map by simp
    ultimately show False
      using inj_onD[of "\<lambda>i. (int i + 1) mod 10" "{0..<n}" 0 10] by simp
  qed
next
  assume n: "n \<le> 10"
  have "distinct (map (\<lambda>i. (int i + 1) mod 10) [0..<10])"
    by code_simp
  then have "distinct (take n (map (\<lambda>i. (int i + 1) mod 10) [0..<10]))"
    by (rule distinct_take)
  then show "distinct (map (\<lambda>i. (int i + 1) mod 10) [0..<n])"
    using n unfolding take_map by simp
qed

lemma ndc_versions:
  assumes "clustersConfig names = Ret cfgs" and "distinct names"
  shows "map (own_version \<circ> fst) cfgs = map (\<lambda>i. (int i + 1) mod 10) [0..<length names]"
  using assms ndc_information_at[OF assms(2)]
  by (auto simp: clustersConfig_def own_version_def ndc_info_def intro!: nth_equalityI split: if_splits)

text \<open>The failover versions of an NDC suite's clusters differ modulo the increment exactly when there are at most ten.\<close>

lemma ndc_versions_differ:
  assumes "clustersConfig names = Ret cfgs" and "distinct names"
  shows "distinct (map (own_version \<circ> fst) cfgs) \<longleftrightarrow> length names \<le> 10"
  unfolding ndc_versions[OF assms] by (rule distinct_versions_iff)

end
