(* ===== verification/NexusPoller.thy ===== *)
theory NexusPoller
  imports Prelude
begin

text \<open>
  The Nexus task poller of the conformance tests (\<^verbatim>\<open>nexus_test_base.go\<close>): endpoints, one poll, the
  call of the test's handler and the answer that is sent for what the handler returned, under both
  failure formats. The frontend client, the failure converters and the handler are parameters.
\<close>

section \<open>Data\<close>

type_synonym payload = nat

text \<open>A link of the SDK, with its URL printed, and of the protocol.\<close>

record link =
  link_URL :: string
  link_Type :: string

datatype start_result = Sync payload | Async string

text \<open>\<open>None\<close> is nil.\<close>

record nexusTaskResponse =
  StartResult :: "start_result option"
  CancelResult :: "unit option"
  Links :: "link list"

datatype retry_behavior = RetryUnspecified | Retryable | NonRetryable

record HandlerError =
  he_Type :: string
  he_Message :: string
  he_Cause :: "go_error option"
  he_RetryBehavior :: retry_behavior
  he_error :: go_error

record OperationError =
  op_State :: string
  op_Message :: string
  op_Cause :: "go_error option"
  op_error :: go_error

text \<open>An error with what \<^verbatim>\<open>errors.AsType\<close> finds in it.\<close>

record handler_failure =
  hf_error :: go_error
  hf_operation :: "OperationError option"
  hf_handler :: "HandlerError option"

text \<open>\<open>'f\<close> are failures in Nexus format, \<open>'t\<close> in Temporal format, \<open>'p\<close> in the protocol's own format.\<close>

datatype ('t, 'p) nexus_response =
    Cancel_response
  | Sync_response payload "link list"
  | Async_response string "link list"
  | Failure_response 't
  | Operation_error_response string 'p

datatype ('t, 'p) failed_body = Failure 't | Error string 'p retry_behavior

record WorkerVersionCapabilities =
  BuildId :: string
  UseVersioning :: bool

record poll_request =
  pq_Namespace :: string
  pq_TaskQueue :: string
  pq_capabilities :: "WorkerVersionCapabilities option"

text \<open>The service of a missing operation is the empty string.\<close>

record poll_response =
  pr_TaskToken :: "nat list option"
  pr_startService :: string
  pr_cancelService :: string
  pr_rest :: nat

record ('f, 't, 'p, 'd) nexus_client =
  nx_ctxErr :: "'d \<Rightarrow> bool"
  nx_Poll :: "poll_request \<Rightarrow> 'd \<Rightarrow> poll_response result \<times> 'd"
  nx_Completed :: "string \<Rightarrow> nat list \<Rightarrow> ('t, 'p) nexus_response \<Rightarrow> 'd \<Rightarrow> go_error option \<times> 'd"
  nx_Failed :: "string \<Rightarrow> nat list \<Rightarrow> ('t, 'p) failed_body \<Rightarrow> 'd \<Rightarrow> go_error option \<times> 'd"
  nx_notFound :: "go_error \<Rightarrow> bool"
  nx_ErrorToFailure :: "go_error \<Rightarrow> 'f result"
  nx_ToTemporal :: "'f \<Rightarrow> 't result"
  nx_ToProto :: "'f \<Rightarrow> 'p"
  nx_message :: "string \<Rightarrow> 'p"

record NexusTestEnv =
  env_Namespace :: string
  useTemporalFailures :: bool

section \<open>Answers\<close>

text \<open>An answer that comes too late is no error: the context is done, or the task is gone.\<close>

definition tolerate :: "('f, 't, 'p, 'd) nexus_client \<Rightarrow> go_error option \<times> 'd \<Rightarrow> go_error option outcome \<times> 'd" where
  "tolerate cl x =
     (case x of
        (None, d) \<Rightarrow> (Ret None, d)
      | (Some err, d) \<Rightarrow> (Ret (if \<not> nx_ctxErr cl d \<and> \<not> nx_notFound cl err then Some err else None), d))"

definition temporal_failure :: "('f, 't, 'p, 'd) nexus_client \<Rightarrow> go_error \<Rightarrow> 't result" where
  "temporal_failure cl err =
     (case nx_ErrorToFailure cl err of
        Inl e \<Rightarrow> Inl e
      | Inr nexusFailure \<Rightarrow> nx_ToTemporal cl nexusFailure)"

definition proto_failure :: "('f, 't, 'p, 'd) nexus_client \<Rightarrow> go_error option \<Rightarrow> string \<Rightarrow> 'p result" where
  "proto_failure cl cause message =
     (case cause of
        None \<Rightarrow> Inr (nx_message cl message)
      | Some c \<Rightarrow>
          (case nx_ErrorToFailure cl c of
             Inl convertErr \<Rightarrow> Inl convertErr
           | Inr causeFailure \<Rightarrow> Inr (nx_ToProto cl causeFailure)))"

definition respondNexusTaskFailed ::
    "('f, 't, 'p, 'd) nexus_client \<Rightarrow> NexusTestEnv \<Rightarrow> nat list \<Rightarrow> HandlerError \<Rightarrow> 'd \<Rightarrow> go_error option outcome \<times> 'd" where
  "respondNexusTaskFailed cl env taskToken he d =
     (if useTemporalFailures env then
        (case temporal_failure cl (he_error he) of
           Inl err \<Rightarrow> (Ret (Some err), d)
         | Inr temporalFailure \<Rightarrow> tolerate cl (nx_Failed cl (env_Namespace env) taskToken (Failure temporalFailure) d))
      else
        (case proto_failure cl (he_Cause he) (he_Message he) of
           Inl convertErr \<Rightarrow> (Ret (Some convertErr), d)
         | Inr protoFailure \<Rightarrow>
             tolerate cl (nx_Failed cl (env_Namespace env) taskToken (Error (he_Type he) protoFailure (he_RetryBehavior he)) d)))"

definition respondNexusTaskCompletedWithOperationError ::
    "('f, 't, 'p, 'd) nexus_client \<Rightarrow> NexusTestEnv \<Rightarrow> nat list \<Rightarrow> OperationError \<Rightarrow> 'd \<Rightarrow> go_error option outcome \<times> 'd" where
  "respondNexusTaskCompletedWithOperationError cl env taskToken opErr d =
     (if useTemporalFailures env then
        (case temporal_failure cl (op_error opErr) of
           Inl err \<Rightarrow> (Ret (Some err), d)
         | Inr temporalFailure \<Rightarrow>
             tolerate cl (nx_Completed cl (env_Namespace env) taskToken (Failure_response temporalFailure) d))
      else
        (case proto_failure cl (op_Cause opErr) (op_Message opErr) of
           Inl convertErr \<Rightarrow> (Ret (Some convertErr), d)
         | Inr protoFailure \<Rightarrow>
             tolerate cl (nx_Completed cl (env_Namespace env) taskToken
               (Operation_error_response (op_State opErr) protoFailure) d)))"

text \<open>The links are copied one by one.\<close>

fun append_links :: "link list \<Rightarrow> link list \<Rightarrow> link list" where
  "append_links acc [] = acc"
| "append_links acc (l # ls) = append_links (acc @ [\<lparr>link_URL = link_URL l, link_Type = link_Type l\<rparr>]) ls"

definition success_response :: "nexusTaskResponse \<Rightarrow> ('t, 'p) nexus_response outcome" where
  "success_response result =
     (if CancelResult result \<noteq> None then Ret Cancel_response
      else case StartResult result of
        Some (Sync value) \<Rightarrow> Ret (Sync_response value (append_links [] (Links result)))
      | Some (Async token) \<Rightarrow> Ret (Async_response token (append_links [] (Links result)))
      | None \<Rightarrow> Panic ''unreachable'')"

section \<open>The poller\<close>

type_synonym 'd nexusTaskHandler = "poll_response \<Rightarrow> 'd \<Rightarrow> (handler_failure + nexusTaskResponse option) \<times> 'd"

definition answer_result ::
    "('f, 't, 'p, 'd) nexus_client \<Rightarrow> NexusTestEnv \<Rightarrow> nat list \<Rightarrow> handler_failure + nexusTaskResponse option \<Rightarrow> 'd
     \<Rightarrow> go_error option outcome \<times> 'd" where
  "answer_result cl env token r d =
     (case r of
        Inl handlerErr \<Rightarrow>
          (case hf_operation handlerErr of
             Some opErr \<Rightarrow> respondNexusTaskCompletedWithOperationError cl env token opErr d
           | None \<Rightarrow>
               (case hf_handler handlerErr of
                  Some he \<Rightarrow> respondNexusTaskFailed cl env token he d
                | None \<Rightarrow> (Ret (Some (hf_error handlerErr)), d)))
      | Inr None \<Rightarrow> (Ret None, d)
      | Inr (Some result) \<Rightarrow>
          (case success_response result of
             Panic msg \<Rightarrow> (Panic msg, d)
           | Hang \<Rightarrow> (Hang, d)
           | Ret response \<Rightarrow> tolerate cl (nx_Completed cl (env_Namespace env) token response d)))"

definition versionedNexusTaskPollerDo ::
    "('f, 't, 'p, 'd) nexus_client \<Rightarrow> NexusTestEnv \<Rightarrow> string \<Rightarrow> string \<Rightarrow> 'd nexusTaskHandler \<Rightarrow> 'd
     \<Rightarrow> go_error option outcome \<times> 'd" where
  "versionedNexusTaskPollerDo cl env taskQueue buildID handler d =
     (let vc = (if buildID \<noteq> '''' then Some \<lparr>BuildId = buildID, UseVersioning = True\<rparr> else None);
          (res, d) = nx_Poll cl \<lparr>pq_Namespace = env_Namespace env, pq_TaskQueue = taskQueue, pq_capabilities = vc\<rparr> d
      in if nx_ctxErr cl d then (Ret None, d)
         else case res of
           Inl err \<Rightarrow> (Ret (Some err), d)
         | Inr res \<Rightarrow>
             (case pr_TaskToken res of
                None \<Rightarrow> (Ret None, d)
              | Some token \<Rightarrow>
                  if pr_startService res \<noteq> ''test-service'' \<and> pr_cancelService res \<noteq> ''test-service''
                  then (Ret (Some (Errorf ''expected service to be test-service'')), d)
                  else (case handler res d of (r, d) \<Rightarrow> answer_result cl env token r d)))"

definition nexusTaskPoller ::
    "('f, 't, 'p, 'd) nexus_client \<Rightarrow> NexusTestEnv \<Rightarrow> string \<Rightarrow> 'd nexusTaskHandler \<Rightarrow> 'd \<Rightarrow> go_error option outcome \<times> 'd" where
  "nexusTaskPoller cl env taskQueue handler = versionedNexusTaskPollerDo cl env taskQueue '''' handler"

section \<open>Endpoints\<close>

text \<open>
  The name of an endpoint for a test: slashes and underscores of the test's name become dashes. An
  endpoint is created now and deleted, whatever comes of it, when the test ends: the ids and
  versions that are to be deleted are those of the test, the last one first.
\<close>

definition RandomizedNexusEndpoint :: "string \<Rightarrow> string \<Rightarrow> string" where
  "RandomizedNexusEndpoint name uuid =
     map (\<lambda>c. if c = CHR ''/'' \<or> c = CHR ''_'' then CHR ''-'' else c) name @ ''-'' @ uuid"

datatype endpoint_target = Worker string string | External string

record endpoint =
  ep_Id :: string
  ep_Version :: int
  ep_Name :: string
  ep_Target :: endpoint_target

definition create_endpoint ::
    "(string \<Rightarrow> endpoint_target \<Rightarrow> 'd \<Rightarrow> endpoint result \<times> 'd) \<Rightarrow> string \<Rightarrow> endpoint_target \<Rightarrow> (string \<times> int) list \<Rightarrow> 'd
     \<Rightarrow> endpoint outcome \<times> (string \<times> int) list \<times> 'd" where
  "create_endpoint create name target cleanups d =
     (case create name target d of
        (Inl err, d) \<Rightarrow> (Panic (error_text err), cleanups, d)
      | (Inr ep, d) \<Rightarrow> (Ret ep, (ep_Id ep, ep_Version ep) # cleanups, d))"

definition createNexusEndpoint ::
    "(string \<Rightarrow> endpoint_target \<Rightarrow> 'd \<Rightarrow> endpoint result \<times> 'd) \<Rightarrow> NexusTestEnv \<Rightarrow> string \<Rightarrow> string \<Rightarrow> (string \<times> int) list \<Rightarrow> 'd
     \<Rightarrow> endpoint outcome \<times> (string \<times> int) list \<times> 'd" where
  "createNexusEndpoint create env name taskQueue = create_endpoint create name (Worker (env_Namespace env) taskQueue)"

definition createRandomNexusEndpoint ::
    "(string \<Rightarrow> endpoint_target \<Rightarrow> 'd \<Rightarrow> endpoint result \<times> 'd) \<Rightarrow> NexusTestEnv \<Rightarrow> string \<Rightarrow> string \<Rightarrow> (string \<times> int) list \<Rightarrow> 'd
     \<Rightarrow> endpoint outcome \<times> (string \<times> int) list \<times> 'd" where
  "createRandomNexusEndpoint create env test_name uuid =
     createNexusEndpoint create env (RandomizedNexusEndpoint test_name uuid) ''unused''"

text \<open>\<open>serve\<close> starts the mock server at the address it was given.\<close>

definition createRandomExternalNexusServer ::
    "(string \<Rightarrow> endpoint_target \<Rightarrow> 'd \<Rightarrow> endpoint result \<times> 'd) \<Rightarrow> (string \<Rightarrow> 'd \<Rightarrow> 'd) \<Rightarrow> string \<Rightarrow> string \<Rightarrow> string
     \<Rightarrow> (string \<times> int) list \<Rightarrow> 'd \<Rightarrow> string outcome \<times> (string \<times> int) list \<times> 'd" where
  "createRandomExternalNexusServer create serve test_name uuid listenAddr cleanups d =
     (let endpointName = RandomizedNexusEndpoint test_name uuid;
          d = serve listenAddr d;
          (out, cleanups, d) = create_endpoint create endpointName (External (''http://'' @ listenAddr)) cleanups d
      in (and_then out (\<lambda>_. Ret endpointName), cleanups, d))"

section \<open>The calls of a run\<close>

text \<open>The same client with the calls it gets next to its state.\<close>

datatype ('t, 'p) nexus_call =
    Poll_call poll_request
  | Completed_call string "nat list" "('t, 'p) nexus_response"
  | Failed_call string "nat list" "('t, 'p) failed_body"

definition logged :: "('f, 't, 'p, 'd) nexus_client \<Rightarrow> ('f, 't, 'p, 'd \<times> ('t, 'p) nexus_call list) nexus_client" where
  "logged cl =
     \<lparr>nx_ctxErr = (\<lambda>(d, log). nx_ctxErr cl d),
      nx_Poll = (\<lambda>q (d, log). case nx_Poll cl q d of (r, d) \<Rightarrow> (r, d, log @ [Poll_call q])),
      nx_Completed = (\<lambda>ns t r (d, log). case nx_Completed cl ns t r d of (e, d) \<Rightarrow> (e, d, log @ [Completed_call ns t r])),
      nx_Failed = (\<lambda>ns t b (d, log). case nx_Failed cl ns t b d of (e, d) \<Rightarrow> (e, d, log @ [Failed_call ns t b])),
      nx_notFound = nx_notFound cl, nx_ErrorToFailure = nx_ErrorToFailure cl, nx_ToTemporal = nx_ToTemporal cl,
      nx_ToProto = nx_ToProto cl, nx_message = nx_message cl\<rparr>"

definition with_log :: "'d nexusTaskHandler \<Rightarrow> ('d \<times> 'l) nexusTaskHandler" where
  "with_log handler res s = (case s of (d, log) \<Rightarrow> (case handler res d of (r, d) \<Rightarrow> (r, d, log)))"

text \<open>The answer to a task of a namespace, in the format the environment asks for.\<close>

fun answers_task :: "NexusTestEnv \<Rightarrow> nat list \<Rightarrow> handler_failure + nexusTaskResponse option \<Rightarrow> ('t, 'p) nexus_call \<Rightarrow> bool" where
  "answers_task env token (Inr (Some result)) (Completed_call ns t r) \<longleftrightarrow>
     ns = env_Namespace env \<and> t = token \<and> success_response result = Ret r"
| "answers_task env token (Inl f) (Completed_call ns t r) \<longleftrightarrow>
     ns = env_Namespace env \<and> t = token \<and>
     (\<exists>opErr. hf_operation f = Some opErr \<and>
        (if useTemporalFailures env then \<exists>tf. r = Failure_response tf else \<exists>p. r = Operation_error_response (op_State opErr) p))"
| "answers_task env token (Inl f) (Failed_call ns t b) \<longleftrightarrow>
     ns = env_Namespace env \<and> t = token \<and> hf_operation f = None \<and>
     (\<exists>he. hf_handler f = Some he \<and>
        (if useTemporalFailures env then \<exists>tf. b = Failure tf else \<exists>p. b = Error (he_Type he) p (he_RetryBehavior he)))"
| "answers_task env token _ _ \<longleftrightarrow> False"

lemma logged_Completed:
  "tolerate (logged cl) (nx_Completed (logged cl) ns t r (d, log)) = (out, d', log') \<Longrightarrow> log' = log @ [Completed_call ns t r] \<and> (\<exists>e. out = Ret e)"
  by (auto simp: tolerate_def logged_def split: prod.splits option.splits)

lemma logged_Failed:
  "tolerate (logged cl) (nx_Failed (logged cl) ns t b (d, log)) = (out, d', log') \<Longrightarrow> log' = log @ [Failed_call ns t b] \<and> (\<exists>e. out = Ret e)"
  by (auto simp: tolerate_def logged_def split: prod.splits option.splits)

lemma append_links_eq: "append_links acc ls = acc @ ls"
  by (induction ls arbitrary: acc) simp_all

lemma respondNexusTaskFailed_log:
  assumes "respondNexusTaskFailed (logged cl) env token he (d, log) = (out, d', log')"
  shows "(\<exists>e. log' = log \<and> out = Ret (Some e)) \<or>
    (\<exists>b. log' = log @ [Failed_call (env_Namespace env) token b] \<and>
       (if useTemporalFailures env then \<exists>tf. b = Failure tf else \<exists>p. b = Error (he_Type he) p (he_RetryBehavior he)))"
  using assms by (auto simp: respondNexusTaskFailed_def split: if_splits sum.splits dest!: logged_Failed)

lemma respondNexusTaskCompletedWithOperationError_log:
  assumes "respondNexusTaskCompletedWithOperationError (logged cl) env token opErr (d, log) = (out, d', log')"
  shows "(\<exists>e. log' = log \<and> out = Ret (Some e)) \<or>
    (\<exists>r. log' = log @ [Completed_call (env_Namespace env) token r] \<and>
       (if useTemporalFailures env then \<exists>tf. r = Failure_response tf else \<exists>p. r = Operation_error_response (op_State opErr) p))"
  using assms by (auto simp: respondNexusTaskCompletedWithOperationError_def split: if_splits sum.splits dest!: logged_Completed)

text \<open>One answer, or none: when the handler gave none, when there is an error, or by a panic.\<close>

lemma answer_result_log:
  assumes "answer_result (logged cl) env token r (d, log) = (out, d', log')"
  shows "(\<exists>call. log' = log @ [call] \<and> answers_task env token r call) \<or>
    log' = log \<and> (r = Inr None \<and> out = Ret None \<or> (\<exists>e. out = Ret (Some e)) \<or>
      (\<exists>result. r = Inr (Some result) \<and> StartResult result = None \<and> CancelResult result = None \<and> is_panic out))"
proof (cases r)
  case (Inl f)
  show ?thesis
  proof (cases "hf_operation f")
    case (Some opErr)
    with Inl assms have "respondNexusTaskCompletedWithOperationError (logged cl) env token opErr (d, log) = (out, d', log')"
      by (simp add: answer_result_def)
    from respondNexusTaskCompletedWithOperationError_log[OF this] show ?thesis
      using Inl Some by (cases "useTemporalFailures env") auto
  next
    case None
    show ?thesis
    proof (cases "hf_handler f")
      case (Some he)
      with Inl None assms have "respondNexusTaskFailed (logged cl) env token he (d, log) = (out, d', log')"
        by (simp add: answer_result_def)
      from respondNexusTaskFailed_log[OF this] show ?thesis
        using Inl None Some by (cases "useTemporalFailures env") auto
    qed (use Inl None assms in \<open>auto simp: answer_result_def\<close>)
  qed
next
  case (Inr result)
  then show ?thesis
    using assms
    by (auto simp: answer_result_def success_response_def split: option.splits outcome.splits if_splits start_result.splits
        dest!: logged_Completed)
qed

section \<open>Properties\<close>

text \<open>
  One run of the Nexus poller polls once and answers at most once. When the poll brings a task of
  the test's service, the answer is for that task and in the form of what the handler returned: a success with its
  links, an operation error or a handler error in the chosen failure format. No answer is sent only
  if the handler gave none, if the run reports an error, or if the handler's result is neither a start nor a
  cancellation, where it panics. Without such a task nothing is answered.
\<close>

theorem nexus_task_answered_once:
  fixes cl :: "('f, 't, 'p, 'd) nexus_client"
  assumes "versionedNexusTaskPollerDo (logged cl) env queue buildID (with_log handler) (d, []) = (out, d', log)"
  shows "\<exists>q answer. log = Poll_call q # answer \<and> pq_Namespace q = env_Namespace env \<and> pq_TaskQueue q = queue \<and>
    (pq_capabilities q = None \<longleftrightarrow> buildID = '''') \<and>
    (case nx_Poll cl q d of
       (Inr res, d1) \<Rightarrow>
         if nx_ctxErr cl d1 \<or> pr_TaskToken res = None \<or> ''test-service'' \<notin> {pr_startService res, pr_cancelService res}
         then answer = []
         else let r = fst (handler res d1) in
           (\<exists>call. answer = [call] \<and> answers_task env (the (pr_TaskToken res)) r call) \<or>
           answer = [] \<and> (r = Inr None \<and> out = Ret None \<or> (\<exists>e. out = Ret (Some e)) \<or>
             (\<exists>result. r = Inr (Some result) \<and> StartResult result = None \<and> CancelResult result = None \<and> is_panic out))
     | (Inl _, _) \<Rightarrow> answer = [])"
proof -
  define q where "q = \<lparr>pq_Namespace = env_Namespace env, pq_TaskQueue = queue,
    pq_capabilities = (if buildID \<noteq> '''' then Some \<lparr>BuildId = buildID, UseVersioning = True\<rparr> else None)\<rparr>"
  obtain p d1 where poll: "nx_Poll cl q d = (p, d1)" by fastforce
  then have lpoll: "nx_Poll (logged cl) q (d, []) = (p, d1, [Poll_call q])"
    by (simp add: logged_def)
  have lctx: "nx_ctxErr (logged cl) (d1, [Poll_call q]) = nx_ctxErr cl d1"
    by (simp add: logged_def)
  have fields: "pq_Namespace q = env_Namespace env" "pq_TaskQueue q = queue" "pq_capabilities q = None \<longleftrightarrow> buildID = ''''"
    by (simp_all add: q_def)
  note run = assms[unfolded versionedNexusTaskPollerDo_def Let_def, folded q_def, unfolded lpoll, simplified lctx prod.case]
  show ?thesis
  proof (cases p)
    case (Inl err)
    then show ?thesis
      using run fields poll by (auto split: if_splits)
  next
    case (Inr res)
    let ?none = "nx_ctxErr cl d1 \<or> pr_TaskToken res = None \<or> ''test-service'' \<notin> {pr_startService res, pr_cancelService res}"
    show ?thesis
    proof (cases ?none)
      case True
      then have "log = [Poll_call q]"
        using run Inr by (auto split: if_splits option.splits)
      then show ?thesis
        using True fields poll Inr by auto
    next
      case False
      then obtain token where token: "pr_TaskToken res = Some token" by auto
      obtain r d2 where handled: "handler res d1 = (r, d2)" by fastforce
      have "answer_result (logged cl) env token r (d2, [Poll_call q]) = (out, d', log)"
        using run Inr False token handled by (auto simp: with_log_def split: if_splits)
      from answer_result_log[OF this] show ?thesis
        using False fields poll Inr token handled by auto
    qed
  qed
qed

definition example_nexus :: "(nat, nat, nat, unit) nexus_client" where
  "example_nexus =
     \<lparr>nx_ctxErr = (\<lambda>_. False),
      nx_Poll = (\<lambda>_ d. (Inr \<lparr>pr_TaskToken = Some [7], pr_startService = ''test-service'', pr_cancelService = '''', pr_rest = 0\<rparr>, d)),
      nx_Completed = (\<lambda>_ _ _ d. (Some (Errorf ''not found''), d)), nx_Failed = (\<lambda>_ _ _ d. (None, d)),
      nx_notFound = (\<lambda>_. True), nx_ErrorToFailure = (\<lambda>_. Inr 1), nx_ToTemporal = (\<lambda>_. Inr 2), nx_ToProto = (\<lambda>_. 3),
      nx_message = length\<rparr>"

definition example_handler :: "unit nexusTaskHandler" where
  "example_handler _ d =
     (Inl \<lparr>hf_error = Errorf ''bad request'', hf_operation = None,
        hf_handler = Some \<lparr>he_Type = ''BAD_REQUEST'', he_Message = ''bad'', he_Cause = None, he_RetryBehavior = NonRetryable,
          he_error = Errorf ''bad request''\<rparr>\<rparr>, d)"

theorem nexus_task_answered_once_witness:
  "\<exists>q p. snd (snd (versionedNexusTaskPollerDo (logged example_nexus) \<lparr>env_Namespace = ''ns'', useTemporalFailures = False\<rparr> ''tq'' ''v1''
     (with_log example_handler) ((), []))) = [Poll_call q, Failed_call ''ns'' [7] (Error ''BAD_REQUEST'' p NonRetryable)]"
proof -
  let ?env = "\<lparr>env_Namespace = ''ns'', useTemporalFailures = False\<rparr>"
  let ?run = "versionedNexusTaskPollerDo (logged example_nexus) ?env ''tq'' ''v1'' (with_log example_handler) ((), [])"
  obtain out d' log where run: "?run = (out, d', log)"
    by (metis prod_cases3)
  have "fst ?run = Ret None"
    by code_simp
  with run have "out = Ret None"
    by simp
  obtain q answer where log: "log = Poll_call q # answer"
    "\<exists>call. answer = [call] \<and> answers_task ?env [7] (fst (example_handler undefined ())) call"
    using nexus_task_answered_once[OF run] \<open>out = Ret None\<close>
    by (auto simp: example_nexus_def example_handler_def)
  then obtain call where "answer = [call]" "answers_task ?env [7] (fst (example_handler undefined ())) call"
    by blast
  then show ?thesis
    using run log(1) by (cases call) (auto simp: example_handler_def)
qed

text \<open>The links of a start result are sent as they are, and in their order.\<close>

lemma success_links:
  "CancelResult result = None \<Longrightarrow> StartResult result = Some (Sync v) \<Longrightarrow> success_response result = Ret (Sync_response v (Links result))"
  "CancelResult result = None \<Longrightarrow> StartResult result = Some (Async t) \<Longrightarrow> success_response result = Ret (Async_response t (Links result))"
  by (simp_all add: success_response_def append_links_eq)

end
