(* ===== verification/Certs.thy ===== *)
theory Certs
  imports GoStdlib
begin

text \<open>
  The certificates of the tests (\<^verbatim>\<open>testutils/certificate.go\<close>, \<^verbatim>\<open>testutils/tls.go\<close>), the root directory and
  temporary files (\<^verbatim>\<open>source_root.go\<close>, \<^verbatim>\<open>io.go\<close>). RSA, X.509, PEM, the parser of IP addresses, the clock and
  the file system are parameters over the state of the machine.
\<close>

section \<open>Certificates\<close>

type_synonym key = nat
type_synonym ip = nat

datatype key_usage = KeyUsageCertSign | KeyUsageKeyEncipherment | KeyUsageDigitalSignature

datatype ext_key_usage = ExtKeyUsageServerAuth | ExtKeyUsageClientAuth

text \<open>Times are in seconds; a day of \<^verbatim>\<open>AddDate\<close> in UTC has 24 hours.\<close>

record x509_template =
  SerialNumber :: int
  CommonName :: string
  Country :: "string list"
  Organization :: "string list"
  NotBefore :: int
  NotAfter :: int
  BasicConstraintsValid :: bool
  IsCA :: bool
  ExtKeyUsage :: "ext_key_usage list"
  KeyUsage :: "key_usage set"
  IPAddresses :: "ip list"
  DNSNames :: "string list"

text \<open>A parsed certificate: its fields, its public key and the public key it was signed for with.\<close>

record x509_cert =
  x_template :: x509_template
  x_public :: nat
  x_signer :: nat

record tls_Certificate =
  Certificate :: "byte list list"
  PrivateKey :: key

record 'd crypto =
  cr_now :: "'d \<Rightarrow> int"
  cr_ParseIP :: "string \<Rightarrow> ip option"
  cr_IsLoopback :: "ip \<Rightarrow> bool"
  cr_IPv6loopback :: ip
  cr_IPv4loopback :: ip
  cr_ToLower :: "string \<Rightarrow> string"
  cr_Int63n :: "int \<Rightarrow> 'd \<Rightarrow> int \<times> 'd"
  cr_GenerateKey :: "nat \<Rightarrow> 'd \<Rightarrow> key result \<times> 'd"
  cr_Public :: "key \<Rightarrow> nat"
  cr_CreateCertificate :: "x509_template \<Rightarrow> x509_template \<Rightarrow> nat \<Rightarrow> key \<Rightarrow> 'd \<Rightarrow> byte list result \<times> 'd"
  cr_ParseCertificate :: "byte list \<Rightarrow> x509_cert result"
  cr_MarshalPKCS1 :: "key \<Rightarrow> byte list"
  cr_pemEncode :: "string \<times> byte list \<Rightarrow> byte list result"
  cr_pemCerts :: "byte list \<Rightarrow> byte list list"
  cr_X509KeyPair :: "byte list \<Rightarrow> byte list \<Rightarrow> tls_Certificate result"
  cr_WriteFile :: "string \<Rightarrow> byte list \<Rightarrow> 'd \<Rightarrow> go_error option \<times> 'd"

text \<open>The first element of a slice.\<close>

definition index0 :: "'a list \<Rightarrow> 'd \<Rightarrow> 'a result outcome \<times> 'd" where
  "index0 xs d = (case xs of [] \<Rightarrow> (Panic ''index out of range [0] with length 0'', d) | x # _ \<Rightarrow> (Ret (Inr x), d))"

text \<open>The addresses and names a certificate is for, from its common name.\<close>

definition name_template :: "'d crypto \<Rightarrow> string \<Rightarrow> x509_template \<Rightarrow> x509_template" where
  "name_template cr commonName template =
     (let loopback = [cr_IPv6loopback cr, cr_IPv4loopback cr];
          template = (case cr_ParseIP cr commonName of
             Some ip \<Rightarrow>
               if cr_IsLoopback cr ip then template\<lparr>IPAddresses := loopback, DNSNames := [''localhost'']\<rparr>
               else template\<lparr>IPAddresses := [ip]\<rparr>
           | None \<Rightarrow> template\<lparr>DNSNames := [commonName]\<rparr>)
      in if cr_ToLower cr commonName = ''localhost'' then template\<lparr>IPAddresses := loopback\<rparr> else template)"

definition ca_template :: "'d crypto \<Rightarrow> string \<Rightarrow> ext_key_usage list \<Rightarrow> int \<Rightarrow> x509_template" where
  "ca_template cr commonName extUsage now =
     name_template cr commonName
       \<lparr>SerialNumber = now, CommonName = commonName, Country = [''USA''], Organization = [''TemporalTechnologiesTesting''],
        NotBefore = now - 60, NotAfter = now + 86400, BasicConstraintsValid = True, IsCA = True, ExtKeyUsage = extUsage,
        KeyUsage = {KeyUsageCertSign, KeyUsageKeyEncipherment, KeyUsageDigitalSignature}, IPAddresses = [], DNSNames = []\<rparr>"

definition generateSelfSignedX509CA ::
    "'d crypto \<Rightarrow> string \<Rightarrow> ext_key_usage list \<Rightarrow> nat \<Rightarrow> 'd \<Rightarrow> tls_Certificate result outcome \<times> 'd" where
  "generateSelfSignedX509CA cr commonName extUsage keyLengthBits d =
     (let template = ca_template cr commonName extUsage (cr_now cr d) in
      and_try (do_call (cr_GenerateKey cr keyLengthBits d)) (\<lambda>privateKey d.
      and_try (do_call (cr_CreateCertificate cr template template (cr_Public cr privateKey) privateKey d)) (\<lambda>cert d.
        (Ret (Inr \<lparr>Certificate = [cert], PrivateKey = privateKey\<rparr>), d))))"

definition server_template :: "'d crypto \<Rightarrow> string \<Rightarrow> int \<Rightarrow> int \<Rightarrow> x509_template" where
  "server_template cr commonName serial now =
     name_template cr commonName
       \<lparr>SerialNumber = serial, CommonName = commonName, Country = [''USA''], Organization = [''TemporalTechnologiesTesting''],
        NotBefore = now - 60, NotAfter = now + 86400, BasicConstraintsValid = True, IsCA = False,
        ExtKeyUsage = [ExtKeyUsageServerAuth, ExtKeyUsageClientAuth], KeyUsage = {KeyUsageDigitalSignature},
        IPAddresses = [], DNSNames = []\<rparr>"

text \<open>The serial number 0 stands for a random one.\<close>

definition pick_serial :: "'d crypto \<Rightarrow> int \<Rightarrow> 'd \<Rightarrow> int \<times> 'd" where
  "pick_serial cr serialNumber d = (if serialNumber = 0 then cr_Int63n cr 100000000000000000 d else (serialNumber, d))"

definition generateServerX509UsingCAAndSerialNumber ::
    "'d crypto \<Rightarrow> string \<Rightarrow> int \<Rightarrow> tls_Certificate \<Rightarrow> 'd \<Rightarrow> (tls_Certificate \<times> key) result outcome \<times> 'd" where
  "generateServerX509UsingCAAndSerialNumber cr commonName serialNumber ca d =
     (let now = cr_now cr d;
          (i, d) = pick_serial cr serialNumber d;
          template = server_template cr commonName i now
      in and_try (do_call (cr_GenerateKey cr 4096 d)) (\<lambda>privateKey d.
         and_try (index0 (Certificate ca) d) (\<lambda>der d.
         and_try (do_call (cr_ParseCertificate cr der, d)) (\<lambda>caCert d.
         and_try (do_call (cr_CreateCertificate cr template (x_template caCert) (cr_Public cr privateKey) (PrivateKey ca) d)) (\<lambda>cert d.
           (Ret (Inr (\<lparr>Certificate = [cert], PrivateKey = privateKey\<rparr>, privateKey)), d))))))"

section \<open>Files and chains\<close>

definition CertFilePath :: "string \<Rightarrow> string" where
  "CertFilePath dir = dir @ ''/cert_pub.pem''"

definition KeyFilePath :: "string \<Rightarrow> string" where
  "KeyFilePath dir = dir @ ''/cert_priv.pem''"

definition CAFilePath :: "string \<Rightarrow> string" where
  "CAFilePath dir = dir @ ''/ca_pub.pem''"

record CertChain =
  CertPubFile :: string
  CertKeyFile :: string
  CaPubFile :: string

text \<open>\<^verbatim>\<open>pem.Encode\<close> into a buffer, which is dropped after an error.\<close>

definition pemEncodeToBytes :: "'d crypto \<Rightarrow> string \<times> byte list \<Rightarrow> byte list result" where
  [simp]: "pemEncodeToBytes cr block = cr_pemEncode cr block"

definition pemEncodeToFile :: "'d crypto \<Rightarrow> string \<Rightarrow> string \<times> byte list \<Rightarrow> 'd \<Rightarrow> go_error option \<times> 'd" where
  "pemEncodeToFile cr file block d =
     (case pemEncodeToBytes cr block of Inl err \<Rightarrow> (Some err, d) | Inr bytes \<Rightarrow> cr_WriteFile cr file bytes d)"

definition GenerateSelfSignedCA :: "'d crypto \<Rightarrow> string \<Rightarrow> 'd \<Rightarrow> tls_Certificate result outcome \<times> 'd" where
  "GenerateSelfSignedCA cr filePath d =
     and_try (generateSelfSignedX509CA cr ''undefined'' [] 1024 d) (\<lambda>caCert d.
     and_try (index0 (Certificate caCert) d) (\<lambda>der d.
     and_try (do_err (pemEncodeToFile cr filePath (''CERTIFICATE'', der) d)) (\<lambda>_ d.
       (Ret (Inr caCert), d))))"

text \<open>A pool is the list of the certificates in it.\<close>

definition GenerateSelfSignedCAPool :: "'d crypto \<Rightarrow> tls_Certificate \<Rightarrow> 'd \<Rightarrow> byte list list result outcome \<times> 'd" where
  "GenerateSelfSignedCAPool cr caCert d =
     and_try (index0 (Certificate caCert) d) (\<lambda>der d.
     and_try (do_call (pemEncodeToBytes cr (''CERTIFICATE'', der), d)) (\<lambda>caPem d.
       (Ret (Inr (cr_pemCerts cr caPem)), d)))"

definition GenerateServerCert ::
    "'d crypto \<Rightarrow> tls_Certificate \<Rightarrow> string \<Rightarrow> int \<Rightarrow> string \<Rightarrow> string \<Rightarrow> 'd \<Rightarrow> tls_Certificate result outcome \<times> 'd" where
  "GenerateServerCert cr caCert commonName serialNumber certPubFile certPrivFile d =
     and_try (generateServerX509UsingCAAndSerialNumber cr commonName serialNumber caCert d) (\<lambda>(serverCert, privKey) d.
     and_try (index0 (Certificate serverCert) d) (\<lambda>der d.
     and_try (do_err (pemEncodeToFile cr certPubFile (''CERTIFICATE'', der) d)) (\<lambda>_ d.
     and_try (do_err (pemEncodeToFile cr certPrivFile (''RSA PRIVATE KEY'', cr_MarshalPKCS1 cr privKey) d)) (\<lambda>_ d.
     and_try (do_call (pemEncodeToBytes cr (''CERTIFICATE'', der), d)) (\<lambda>certPem d.
     and_try (do_call (pemEncodeToBytes cr (''RSA PRIVATE KEY'', cr_MarshalPKCS1 cr privKey), d)) (\<lambda>keyPem d.
       do_call (cr_X509KeyPair cr certPem keyPem, d)))))))"

definition GenerateTestChainWithSN ::
    "'d crypto \<Rightarrow> string \<Rightarrow> string \<Rightarrow> int \<Rightarrow> 'd \<Rightarrow> (CertChain \<times> tls_Certificate) result outcome \<times> 'd" where
  "GenerateTestChainWithSN cr tempDir commonName serialNumber d =
     and_try (GenerateSelfSignedCA cr (CAFilePath tempDir) d) (\<lambda>caCert d.
     and_try (GenerateServerCert cr caCert commonName serialNumber (CertFilePath tempDir) (KeyFilePath tempDir) d) (\<lambda>_ d.
       (Ret (Inr (\<lparr>CertPubFile = CertFilePath tempDir, CertKeyFile = KeyFilePath tempDir,
          CaPubFile = CAFilePath tempDir\<rparr>, caCert)), d)))"

definition GenerateTestChain :: "'d crypto \<Rightarrow> string \<Rightarrow> string \<Rightarrow> 'd \<Rightarrow> CertChain result outcome \<times> 'd" where
  "GenerateTestChain cr tempDir commonName d =
     and_try (GenerateTestChainWithSN cr tempDir commonName 0 d) (\<lambda>(chain, _) d. (Ret (Inr chain), d))"

fun server_certs ::
    "'d crypto \<Rightarrow> tls_Certificate \<Rightarrow> string \<Rightarrow> string \<Rightarrow> nat list \<Rightarrow> 'd \<Rightarrow> tls_Certificate list result outcome \<times> 'd" where
  "server_certs cr caCert tempDir commonName [] d = (Ret (Inr []), d)"
| "server_certs cr caCert tempDir commonName (i # is) d =
     and_try (GenerateServerCert cr caCert commonName (int i + 100) (tempDir @ ''/cert_pub_'' @ Itoa (int i) @ ''.pem'')
       (tempDir @ ''/cert_priv_'' @ Itoa (int i) @ ''.pem'') d) (\<lambda>cert d.
     and_try (server_certs cr caCert tempDir commonName is d) (\<lambda>certs d. (Ret (Inr (cert # certs)), d)))"

text \<open>An error of the last pool is returned with the other results, which its callers do not look at then.\<close>

definition GenerateTestCerts ::
    "'d crypto \<Rightarrow> string \<Rightarrow> string \<Rightarrow> nat \<Rightarrow> 'd
     \<Rightarrow> (tls_Certificate list \<times> byte list list \<times> byte list list) result outcome \<times> 'd" where
  "GenerateTestCerts cr tempDir commonName num d =
     and_try (GenerateSelfSignedCA cr (CAFilePath tempDir) d) (\<lambda>caCert d.
     and_try (GenerateSelfSignedCAPool cr caCert d) (\<lambda>caPool d.
     and_try (server_certs cr caCert tempDir commonName [0..<num] d) (\<lambda>certs d.
     and_try (GenerateSelfSignedCA cr (CAFilePath tempDir) d) (\<lambda>wrongCACert d.
     and_try (GenerateSelfSignedCAPool cr wrongCACert d) (\<lambda>wrongCAPool d.
       (Ret (Inr (certs, caPool, wrongCAPool)), d))))))"

text \<open>A file as text; \<open>os_ReadFile\<close> is the file system.\<close>

definition ConvertFileToBase64 :: "(string \<Rightarrow> byte list result) \<Rightarrow> string \<Rightarrow> string outcome" where
  "ConvertFileToBase64 os_ReadFile file =
     (case os_ReadFile file of Inl err \<Rightarrow> Panic (error_text err) | Inr fileBytes \<Rightarrow> Ret (EncodeToString fileBytes))"

lemma ConvertFileToBase64_faithful:
  "ConvertFileToBase64 os_ReadFile file = Ret s \<longleftrightarrow> (\<exists>bs. os_ReadFile file = Inr bs \<and> s = EncodeToString bs)"
  "ConvertFileToBase64 os_ReadFile file = Ret s \<Longrightarrow> os_ReadFile file = Inr (base64_read s)"
  by (auto simp: ConvertFileToBase64_def base64_roundtrip split: sum.splits)

section \<open>Root directory and temporary files\<close>

type_synonym getenv = "string \<Rightarrow> string"

definition WithGetenv :: "getenv \<Rightarrow> getenv \<Rightarrow> getenv" where
  "WithGetenv g old = g"

definition GetRepoRootDirectory :: "getenv \<Rightarrow> string \<Rightarrow> (getenv \<Rightarrow> getenv) list \<Rightarrow> string" where
  "GetRepoRootDirectory os_Getenv rootDirectory opts =
     (let customRootDirectory = fold (\<lambda>opt p. opt p) opts os_Getenv ''TEMPORAL_ROOT'' in
      if customRootDirectory \<noteq> '''' then customRootDirectory else rootDirectory)"

section \<open>What is assumed of the libraries\<close>

text \<open>
  \<open>files\<close> are the files of a state and \<open>used\<close> the public keys generated so far. Generated keys are new; a created
  certificate parses to what it was created from, signed with the key it was created with; PEM keeps the
  bytes; a written file has what was written.
\<close>

definition crypto_ok :: "'d crypto \<Rightarrow> ('d \<Rightarrow> string \<rightharpoonup> byte list) \<Rightarrow> ('d \<Rightarrow> nat set) \<Rightarrow> bool" where
  "crypto_ok cr files used \<longleftrightarrow>
     (\<forall>n d k d'. cr_GenerateKey cr n d = (Inr k, d') \<longrightarrow>
        cr_Public cr k \<notin> used d \<and> used d' = insert (cr_Public cr k) (used d) \<and> files d' = files d) \<and>
     (\<forall>t p pub k d der d'. cr_CreateCertificate cr t p pub k d = (Inr der, d') \<longrightarrow> used d' = used d \<and> files d' = files d \<and>
        cr_ParseCertificate cr der = Inr \<lparr>x_template = t, x_public = pub, x_signer = cr_Public cr k\<rparr>) \<and>
     (\<forall>der p. cr_pemEncode cr (''CERTIFICATE'', der) = Inr p \<longrightarrow> cr_pemCerts cr p = [der]) \<and>
     (\<forall>der k cp kp c. cr_pemEncode cr (''CERTIFICATE'', der) = Inr cp \<longrightarrow>
        cr_pemEncode cr (''RSA PRIVATE KEY'', cr_MarshalPKCS1 cr k) = Inr kp \<longrightarrow>
        cr_X509KeyPair cr cp kp = Inr c \<longrightarrow> Certificate c = [der]) \<and>
     (\<forall>f bs d d'. cr_WriteFile cr f bs d = (None, d') \<longrightarrow> used d' = used d \<and> files d' = (files d)(f \<mapsto> bs)) \<and>
     (\<forall>n d. used (snd (cr_Int63n cr n d)) = used d \<and> files (snd (cr_Int63n cr n d)) = files d)"

lemma crypto_okD:
  assumes "crypto_ok cr files used"
  shows "cr_GenerateKey cr n d = (Inr k, d') \<Longrightarrow>
      cr_Public cr k \<notin> used d \<and> used d' = insert (cr_Public cr k) (used d) \<and> files d' = files d"
    and "cr_CreateCertificate cr t p pub k d = (Inr der, d') \<Longrightarrow> used d' = used d \<and> files d' = files d \<and>
      cr_ParseCertificate cr der = Inr \<lparr>x_template = t, x_public = pub, x_signer = cr_Public cr k\<rparr>"
    and "cr_pemEncode cr (''CERTIFICATE'', der) = Inr cp \<Longrightarrow> cr_pemCerts cr cp = [der]"
    and "cr_pemEncode cr (''CERTIFICATE'', der) = Inr cp \<Longrightarrow> cr_pemEncode cr (''RSA PRIVATE KEY'', cr_MarshalPKCS1 cr k) = Inr kp \<Longrightarrow>
      cr_X509KeyPair cr cp kp = Inr c \<Longrightarrow> Certificate c = [der]"
    and "cr_WriteFile cr f bs d = (None, d') \<Longrightarrow> used d' = used d \<and> files d' = (files d)(f \<mapsto> bs)"
    and "used (snd (cr_Int63n cr m d)) = used d"
  using assms unfolding crypto_ok_def by (elim conjE; simp)+

lemma index0_Ret [simp]: "index0 xs d = (Ret (Inr a), d') \<longleftrightarrow> d' = d \<and> (\<exists>ys. xs = a # ys)"
  by (auto simp: index0_def split: list.splits)

lemma pemEncodeToFile_None:
  "pemEncodeToFile cr f b d = (None, d') \<longleftrightarrow> (\<exists>bs. cr_pemEncode cr b = Inr bs \<and> cr_WriteFile cr f bs d = (None, d'))"
  by (auto simp: pemEncodeToFile_def split: sum.splits)

lemma name_template_fields [simp]:
  "SerialNumber (name_template cr n t) = SerialNumber t" "IsCA (name_template cr n t) = IsCA t"
  "CommonName (name_template cr n t) = CommonName t"
  by (simp_all add: name_template_def Let_def split: option.split)

text \<open>A certificate is for the name it is asked for, and a loopback name always for both loopback addresses.\<close>

lemma name_template_names:
  "cr_ParseIP cr n = None \<Longrightarrow> DNSNames (name_template cr n t) = [n]"
  "cr_ParseIP cr n = Some a \<Longrightarrow> cr_IsLoopback cr a \<or> cr_ToLower cr n = ''localhost'' \<Longrightarrow>
     IPAddresses (name_template cr n t) = [cr_IPv6loopback cr, cr_IPv4loopback cr]"
  "cr_ParseIP cr n = Some a \<Longrightarrow> \<not> cr_IsLoopback cr a \<Longrightarrow> cr_ToLower cr n \<noteq> ''localhost'' \<Longrightarrow> IPAddresses (name_template cr n t) = [a]"
  by (auto simp: name_template_def Let_def)

lemma GenerateSelfSignedCA_Ret:
  assumes "crypto_ok cr files used" and "GenerateSelfSignedCA cr file d = (Ret (Inr ca), d')"
  shows "\<exists>der c bs. Certificate ca = [der] \<and> cr_ParseCertificate cr der = Inr c \<and> x_public c = cr_Public cr (PrivateKey ca) \<and>
    IsCA (x_template c) \<and> cr_Public cr (PrivateKey ca) \<notin> used d \<and> used d' = insert (cr_Public cr (PrivateKey ca)) (used d) \<and>
    cr_pemEncode cr (''CERTIFICATE'', der) = Inr bs \<and> files d' file = Some bs"
proof -
  obtain k d1 der d2 bs where run: "cr_GenerateKey cr 1024 d = (Inr k, d1)"
    "cr_CreateCertificate cr (ca_template cr ''undefined'' [] (cr_now cr d)) (ca_template cr ''undefined'' [] (cr_now cr d))
       (cr_Public cr k) k d1 = (Inr der, d2)"
    "ca = \<lparr>Certificate = [der], PrivateKey = k\<rparr>" "cr_pemEncode cr (''CERTIFICATE'', der) = Inr bs" "cr_WriteFile cr file bs d2 = (None, d')"
    using assms(2)
    by (auto simp: GenerateSelfSignedCA_def generateSelfSignedX509CA_def and_try_Ret Let_def pemEncodeToFile_None)
  show ?thesis
    using crypto_okD(1)[OF assms(1) run(1)] crypto_okD(2)[OF assms(1) run(2)] crypto_okD(5)[OF assms(1) run(5)] run(3,4)
    by (simp add: ca_template_def)
qed

lemma GenerateServerCert_Ret:
  assumes "crypto_ok cr files used" and "GenerateServerCert cr ca name serial pf kf d = (Ret (Inr cert), d')" and "serial \<noteq> 0"
  shows "\<exists>der c. Certificate cert = [der] \<and> cr_ParseCertificate cr der = Inr c \<and> SerialNumber (x_template c) = serial \<and>
    CommonName (x_template c) = name \<and> x_signer c = cr_Public cr (PrivateKey ca) \<and> used d \<subseteq> used d'"
proof -
  obtain k d1 and caCert :: x509_cert and der d2 cp kp d3 where run: "cr_GenerateKey cr 4096 d = (Inr k, d1)"
    "cr_CreateCertificate cr (server_template cr name serial (cr_now cr d)) (x_template caCert) (cr_Public cr k) (PrivateKey ca) d1 =
       (Inr der, d2)"
    "cr_pemEncode cr (''CERTIFICATE'', der) = Inr cp" "cr_pemEncode cr (''RSA PRIVATE KEY'', cr_MarshalPKCS1 cr k) = Inr kp"
    "cr_WriteFile cr pf cp d2 = (None, d3)" "cr_WriteFile cr kf kp d3 = (None, d')" "cr_X509KeyPair cr cp kp = Inr cert"
    using assms(2,3)
    by (auto simp: GenerateServerCert_def generateServerX509UsingCAAndSerialNumber_def pick_serial_def and_try_Ret Let_def
        pemEncodeToFile_None)
  have "Certificate cert = [der]"
    by (rule crypto_okD(4)[OF assms(1) run(3,4,7)])
  moreover have "used d \<subseteq> used d'"
    using crypto_okD(1)[OF assms(1) run(1)] crypto_okD(2)[OF assms(1) run(2)] crypto_okD(5)[OF assms(1) run(5)]
      crypto_okD(5)[OF assms(1) run(6)] by auto
  ultimately show ?thesis
    using crypto_okD(2)[OF assms(1) run(2)] by (simp add: server_template_def)
qed

lemma server_certs_Ret:
  assumes "crypto_ok cr files used"
  shows "server_certs cr ca dir name is d = (Ret (Inr certs), d') \<Longrightarrow> length certs = length is \<and> used d \<subseteq> used d' \<and>
    (\<forall>j<length is. \<exists>der c. Certificate (certs ! j) = [der] \<and> cr_ParseCertificate cr der = Inr c \<and>
       SerialNumber (x_template c) = int (is ! j) + 100 \<and> CommonName (x_template c) = name \<and>
       x_signer c = cr_Public cr (PrivateKey ca))"
proof (induction "is" arbitrary: d certs)
  case (Cons i "is")
  obtain cert d1 rest where run: "GenerateServerCert cr ca name (int i + 100) (dir @ ''/cert_pub_'' @ Itoa (int i) @ ''.pem'')
       (dir @ ''/cert_priv_'' @ Itoa (int i) @ ''.pem'') d = (Ret (Inr cert), d1)"
    "server_certs cr ca dir name is d1 = (Ret (Inr rest), d')" "certs = cert # rest"
    using Cons.prems by (auto simp: and_try_Ret)
  show ?case
    using GenerateServerCert_Ret[OF assms run(1)] Cons.IH[OF run(2)] run(3)
    by (auto simp: less_Suc_eq_0_disj)
qed simp

lemma GenerateSelfSignedCAPool_Ret:
  assumes "crypto_ok cr files used" and "Certificate ca = [der]" and "GenerateSelfSignedCAPool cr ca d = (Ret (Inr pool), d')"
  shows "pool = [der] \<and> d' = d"
  using assms(2,3) by (auto simp: GenerateSelfSignedCAPool_def and_try_Ret crypto_okD(3)[OF assms(1)])

section \<open>Properties\<close>

text \<open>A certificate is good for a pool that has the authority it was signed by.\<close>

definition verifies :: "'d crypto \<Rightarrow> byte list \<Rightarrow> byte list list \<Rightarrow> bool" where
  "verifies cr der pool \<longleftrightarrow> (\<exists>c ca cc. cr_ParseCertificate cr der = Inr c \<and> ca \<in> set pool \<and> cr_ParseCertificate cr ca = Inr cc \<and>
     IsCA (x_template cc) \<and> x_signer c = x_public cc)"

text \<open>
  Test certificates. A successful call returns the asked number of certificates, for the asked name, with serial
  numbers from 100 on; each is good for the first pool and for no authority of the wrong pool. The file of the
  authority in the directory, however, is that of the wrong pool: it was written over.
\<close>

theorem test_certs_verify:
  assumes "crypto_ok cr files used" and "GenerateTestCerts cr dir name num d = (Ret (Inr (certs, pool, wrong)), d')"
  shows "length certs = num \<and>
    (\<forall>i<num. \<exists>der c. Certificate (certs ! i) = [der] \<and> cr_ParseCertificate cr der = Inr c \<and>
       SerialNumber (x_template c) = int i + 100 \<and> CommonName (x_template c) = name \<and>
       verifies cr der pool \<and> \<not> verifies cr der wrong) \<and>
    (\<exists>der bs. wrong = [der] \<and> cr_pemEncode cr (''CERTIFICATE'', der) = Inr bs \<and> files d' (CAFilePath dir) = Some bs)"
proof -
  obtain ca d1 d2 d3 wca d4 where run: "GenerateSelfSignedCA cr (CAFilePath dir) d = (Ret (Inr ca), d1)"
    "GenerateSelfSignedCAPool cr ca d1 = (Ret (Inr pool), d2)"
    "server_certs cr ca dir name [0..<num] d2 = (Ret (Inr certs), d3)"
    "GenerateSelfSignedCA cr (CAFilePath dir) d3 = (Ret (Inr wca), d4)"
    "GenerateSelfSignedCAPool cr wca d4 = (Ret (Inr wrong), d')"
    using assms(2) by (auto simp: GenerateTestCerts_def and_try_Ret)
  obtain der c where ca: "Certificate ca = [der]" "cr_ParseCertificate cr der = Inr c" "x_public c = cr_Public cr (PrivateKey ca)"
    "IsCA (x_template c)" "cr_Public cr (PrivateKey ca) \<in> used d1"
    using GenerateSelfSignedCA_Ret[OF assms(1) run(1)] by blast
  obtain wder wc bs where wca: "Certificate wca = [wder]" "cr_ParseCertificate cr wder = Inr wc"
    "x_public wc = cr_Public cr (PrivateKey wca)" "cr_Public cr (PrivateKey wca) \<notin> used d3"
    "cr_pemEncode cr (''CERTIFICATE'', wder) = Inr bs" "files d4 (CAFilePath dir) = Some bs"
    using GenerateSelfSignedCA_Ret[OF assms(1) run(4)] by blast
  have pools: "pool = [der]" "d2 = d1" "wrong = [wder]" "d' = d4"
    using GenerateSelfSignedCAPool_Ret[OF assms(1) ca(1) run(2)] GenerateSelfSignedCAPool_Ret[OF assms(1) wca(1) run(5)] by simp_all
  note certs = server_certs_Ret[OF assms(1) run(3)]
  have "x_public wc \<noteq> cr_Public cr (PrivateKey ca)"
    using certs ca(5) wca(3,4) pools(2) by auto
  then have good: "verifies cr x pool \<and> \<not> verifies cr x wrong"
    if "cr_ParseCertificate cr x = Inr y" "x_signer y = cr_Public cr (PrivateKey ca)" for x y
    using that ca wca(2) pools by (auto simp: verifies_def)
  show ?thesis
  proof (intro conjI allI impI)
    fix i assume "i < num"
    then obtain x y where "Certificate (certs ! i) = [x]" "cr_ParseCertificate cr x = Inr y"
      "SerialNumber (x_template y) = int i + 100" "CommonName (x_template y) = name" "x_signer y = cr_Public cr (PrivateKey ca)"
      using certs by auto
    then show "\<exists>der c. Certificate (certs ! i) = [der] \<and> cr_ParseCertificate cr der = Inr c \<and>
        SerialNumber (x_template c) = int i + 100 \<and> CommonName (x_template c) = name \<and>
        verifies cr der pool \<and> \<not> verifies cr der wrong"
      using good by blast
  qed (use certs wca(5,6) pools in auto)
qed

text \<open>
  A toy library: a certificate is the place of its template in a table, its public key and the key of its signer, as
  three bytes; a public key is the key.
\<close>

record toy_world =
  toy_keys :: nat
  toy_files :: "string \<rightharpoonup> byte list"

fun toy_parse :: "x509_template list \<Rightarrow> byte list \<Rightarrow> x509_cert result" where
  "toy_parse tbl [i, p, s] = Inr \<lparr>x_template = tbl ! unat i, x_public = unat p, x_signer = unat s\<rparr>"
| "toy_parse tbl _ = Inl (Errorf ''malformed certificate'')"

definition toy_crypto :: "x509_template list \<Rightarrow> toy_world crypto" where
  "toy_crypto tbl =
     \<lparr>cr_now = (\<lambda>_. 0), cr_ParseIP = (\<lambda>_. None), cr_IsLoopback = (\<lambda>_. False), cr_IPv6loopback = 0, cr_IPv4loopback = 1,
      cr_ToLower = id, cr_Int63n = (\<lambda>_ d. (1, d)),
      cr_GenerateKey = (\<lambda>_ d. (Inr (toy_keys d), d\<lparr>toy_keys := Suc (toy_keys d)\<rparr>)), cr_Public = id,
      cr_CreateCertificate = (\<lambda>t _ pub k d. (case find (\<lambda>i. tbl ! i = t) [0..<length tbl] of
         Some i \<Rightarrow> if i < 256 \<and> pub < 256 \<and> k < 256 then Inr [of_nat i, of_nat pub, of_nat k] else Inl (Errorf ''too large'')
       | None \<Rightarrow> Inl (Errorf ''not supported''), d)),
      cr_ParseCertificate = toy_parse tbl, cr_MarshalPKCS1 = (\<lambda>k. [of_nat k]),
      cr_pemEncode = (\<lambda>(t, bs). Inr ((if t = ''CERTIFICATE'' then 0 else 1) # bs)), cr_pemCerts = (\<lambda>bs. [tl bs]),
      cr_X509KeyPair = (\<lambda>cp kp. Inr \<lparr>Certificate = [tl cp], PrivateKey = 0\<rparr>),
      cr_WriteFile = (\<lambda>f bs d. (None, d\<lparr>toy_files := (toy_files d)(f \<mapsto> bs)\<rparr>))\<rparr>"

lemma toy_crypto_ok: "crypto_ok (toy_crypto tbl) toy_files (\<lambda>d. {..<toy_keys d})"
  by (auto simp: crypto_ok_def toy_crypto_def find_Some_iff unat_of_nat take_bit_nat_eq_self split: option.splits if_splits)

definition toy_table :: "x509_template list" where
  "toy_table = [ca_template (toy_crypto []) ''undefined'' [] 0, server_template (toy_crypto []) ''n'' 100 0]"

theorem test_certs_verify_witness:
  "\<exists>certs pool wrong d' der. GenerateTestCerts (toy_crypto toy_table) ''dir'' ''n'' 1 \<lparr>toy_keys = 0, toy_files = Map.empty\<rparr> =
      (Ret (Inr (certs, pool, wrong)), d') \<and> Certificate (certs ! 0) = [der] \<and>
    verifies (toy_crypto toy_table) der pool \<and> \<not> verifies (toy_crypto toy_table) der wrong"
proof -
  let ?run = "GenerateTestCerts (toy_crypto toy_table) ''dir'' ''n'' 1 \<lparr>toy_keys = 0, toy_files = Map.empty\<rparr>"
  have "(case fst ?run of Ret (Inr _) \<Rightarrow> True | _ \<Rightarrow> False)"
    by code_simp
  then obtain certs pool wrong d' where run: "?run = (Ret (Inr (certs, pool, wrong)), d')"
    by (cases ?run) (auto split: outcome.splits sum.splits)
  then show ?thesis
    using test_certs_verify[OF toy_crypto_ok run] by auto
qed

end
