(* ===== verification/UpdateHelpers.thy ===== *)
theory UpdateHelpers
  imports Prelude
begin

text \<open>
  The helpers that start workflows and send updates in the conformance tests (\<^verbatim>\<open>workflow_utils.go\<close>,
  \<^verbatim>\<open>update_workflow_utils.go\<close>). An update is sent from a goroutine while its sender waits until the server has
  admitted it; the variant that tolerates no error runs the sender itself in a goroutine and meets the test over two
  unbuffered channels. That protocol is a step relation over the three parties. The frontend client and the test
  variables are parameters.
\<close>

section \<open>Requests\<close>

record test_vars =
  tv_request :: string
  tv_WorkflowID :: string
  tv_RunID :: string
  tv_WorkflowType :: string
  tv_TaskQueue :: string
  tv_UpdateID :: string
  tv_HandlerName :: string

record StartRequest =
  st_RequestId :: string
  st_Namespace :: string
  st_WorkflowId :: string
  st_WorkflowType :: string
  st_TaskQueue :: string

definition startWorkflowRequest :: "string \<Rightarrow> test_vars \<Rightarrow> StartRequest" where
  "startWorkflowRequest ns tv =
     \<lparr>st_RequestId = tv_request tv, st_Namespace = ns, st_WorkflowId = tv_WorkflowID tv, st_WorkflowType = tv_WorkflowType tv,
      st_TaskQueue = tv_TaskQueue tv\<rparr>"

definition mustStartWorkflow ::
    "(StartRequest \<Rightarrow> 'd \<Rightarrow> string result \<times> 'd) \<Rightarrow> string \<Rightarrow> test_vars \<Rightarrow> 'd \<Rightarrow> string outcome \<times> 'd" where
  "mustStartWorkflow start ns tv d =
     (case start (startWorkflowRequest ns tv) d of
        (Inl err, d) \<Rightarrow> (Panic (''Failed to start workflow: '' @ error_text err), d)
      | (Inr runId, d) \<Rightarrow> (Ret runId, d))"

datatype stage = UNSPECIFIED | ADMITTED | ACCEPTED | COMPLETED

fun stage_number :: "stage \<Rightarrow> nat" where
  "stage_number UNSPECIFIED = 0"
| "stage_number ADMITTED = 1"
| "stage_number ACCEPTED = 2"
| "stage_number COMPLETED = 3"

instantiation stage :: linorder
begin
definition less_eq_stage :: "stage \<Rightarrow> stage \<Rightarrow> bool" where
  "less_eq_stage a b \<longleftrightarrow> stage_number a \<le> stage_number b"
definition less_stage :: "stage \<Rightarrow> stage \<Rightarrow> bool" where
  "less_stage a b \<longleftrightarrow> stage_number a < stage_number b"
instance
proof
  fix a b :: stage
  show "a \<le> b \<Longrightarrow> b \<le> a \<Longrightarrow> a = b"
    by (cases a; cases b) (simp_all add: less_eq_stage_def)
qed (auto simp: less_eq_stage_def less_stage_def)
end

record UpdateRequest =
  up_Namespace :: string
  up_WorkflowExecution :: "string \<times> string"
  up_WaitPolicy :: "stage option"
  up_UpdateId :: string
  up_Name :: string
  up_Args :: string

definition updateWorkflowRequest :: "string \<Rightarrow> test_vars \<Rightarrow> stage option \<Rightarrow> UpdateRequest" where
  "updateWorkflowRequest ns tv waitPolicy =
     \<lparr>up_Namespace = ns, up_WorkflowExecution = (tv_WorkflowID tv, tv_RunID tv), up_WaitPolicy = waitPolicy,
      up_UpdateId = tv_UpdateID tv, up_Name = tv_HandlerName tv, up_Args = ''args-value-of-'' @ tv_UpdateID tv\<rparr>"

record PollUpdateRequest =
  pu_Namespace :: string
  pu_WorkflowExecution :: "string \<times> string"
  pu_UpdateId :: string
  pu_WaitPolicy :: "stage option"

definition pollUpdate ::
    "(PollUpdateRequest \<Rightarrow> 'd \<Rightarrow> stage result \<times> 'd) \<Rightarrow> string \<Rightarrow> test_vars \<Rightarrow> stage option \<Rightarrow> 'd \<Rightarrow> stage result \<times> 'd" where
  "pollUpdate poll ns tv waitPolicy =
     poll \<lparr>pu_Namespace = ns, pu_WorkflowExecution = (tv_WorkflowID tv, tv_RunID tv), pu_UpdateId = tv_UpdateID tv,
       pu_WaitPolicy = waitPolicy\<rparr>"

text \<open>The condition that \<^verbatim>\<open>waitUpdateAdmitted\<close> waits for.\<close>

definition check_admitted ::
    "(PollUpdateRequest \<Rightarrow> 'd \<Rightarrow> stage result \<times> 'd) \<Rightarrow> string \<Rightarrow> test_vars \<Rightarrow> 'd \<Rightarrow> bool \<times> 'd" where
  "check_admitted poll ns tv d =
     (case pollUpdate poll ns tv (Some UNSPECIFIED) d of
        (Inl _, d) \<Rightarrow> (False, d)
      | (Inr s, d) \<Rightarrow> (ADMITTED \<le> s, d))"

section \<open>Sending an update\<close>

text \<open>
  The goroutine of \<^verbatim>\<open>sendUpdateInternal\<close>: it has not been started, waits for the RPC, holds the answer until someone
  receives it, or is done. An answer is the response and the error of the RPC.
\<close>

datatype ('r) sender = Not_started | In_rpc | Holds "'r option" "go_error option" | Sent

text \<open>
  The goroutine of \<^verbatim>\<open>sendUpdateNoErrorInternal\<close>: it starts, waits for the admission, offers the synchronisation,
  waits for the answer, offers the response, or is done. A requirement that fails ends the goroutine that it is
  made in (\<^verbatim>\<open>FailNow\<close> calls \<^verbatim>\<open>runtime.Goexit\<close>).
\<close>

datatype ('r) relay = Starting | Awaiting_admission | Offers_sync | Awaiting_answer | Offers "'r option" | Finished | Exited

text \<open>The test: it waits for the synchronisation, has the channel, or has the response.\<close>

datatype ('r) test_side = Awaiting_sync | Has_channel | Has_response "'r option"

text \<open>
  A run: the three parties, the state of the server as the admission polls see it and what they were answered, and whether the test receives from the channel
  that it is given; some tests drop it.
\<close>

record ('r, 'd) update_run =
  sender_of :: "'r sender"
  relay_of :: "'r relay"
  test_of :: "'r test_side"
  world :: 'd
  poll_log :: "stage result list"
  test_failed :: bool
  receives :: bool

definition sendUpdateNoErrorInternal :: "'d \<Rightarrow> bool \<Rightarrow> ('r, 'd) update_run" where
  "sendUpdateNoErrorInternal d rcv =
     \<lparr>sender_of = Not_started, relay_of = Starting, test_of = Awaiting_sync, world = d, poll_log = [], test_failed = False, receives = rcv\<rparr>"

text \<open>
  The steps; a channel without buffer is one step of both sides. The answer is what the RPC gives, with the error reported to
  the test. The admission is polled for at most \<open>ticks\<close> times (5 seconds at 10 milliseconds), and the deadline may pass before any poll.
\<close>

inductive update_step ::
    "(PollUpdateRequest \<Rightarrow> 'd \<Rightarrow> stage result \<times> 'd) \<Rightarrow> string \<Rightarrow> test_vars \<Rightarrow> nat
     \<Rightarrow> ('r, 'd) update_run \<Rightarrow> ('r, 'd) update_run \<Rightarrow> bool" for poll ns tv ticks where
  spawn: "relay_of s = Starting \<Longrightarrow> sender_of s = Not_started \<Longrightarrow>
    update_step poll ns tv ticks s (s\<lparr>relay_of := Awaiting_admission, sender_of := In_rpc\<rparr>)"
| answer: "sender_of s = In_rpc \<Longrightarrow>
    update_step poll ns tv ticks s (s\<lparr>sender_of := Holds resp err, test_failed := test_failed s \<or> err \<noteq> None\<rparr>)"
| tick: "relay_of s = Awaiting_admission \<Longrightarrow> length (poll_log s) < ticks \<Longrightarrow>
    check_admitted poll ns tv (world s) = (ok, d) \<Longrightarrow>
    update_step poll ns tv ticks s (s\<lparr>relay_of := (if ok then Offers_sync else Awaiting_admission), world := d,
      poll_log := poll_log s @ [fst (pollUpdate poll ns tv (Some UNSPECIFIED) (world s))]\<rparr>)"
| give_up: "relay_of s = Awaiting_admission \<Longrightarrow>
    update_step poll ns tv ticks s (s\<lparr>relay_of := Exited, test_failed := True\<rparr>)"
| sync: "relay_of s = Offers_sync \<Longrightarrow> test_of s = Awaiting_sync \<Longrightarrow>
    update_step poll ns tv ticks s (s\<lparr>relay_of := Awaiting_answer, test_of := Has_channel\<rparr>)"
| receive: "relay_of s = Awaiting_answer \<Longrightarrow> sender_of s = Holds resp err \<Longrightarrow>
    update_step poll ns tv ticks s (s\<lparr>relay_of := Offers resp, sender_of := Sent\<rparr>)"
| deliver: "relay_of s = Offers resp \<Longrightarrow> test_of s = Has_channel \<Longrightarrow> receives s \<Longrightarrow>
    update_step poll ns tv ticks s (s\<lparr>relay_of := Finished, test_of := Has_response resp\<rparr>)"

inductive_cases update_stepE: "update_step poll ns tv ticks s s'"

section \<open>Where the three parties can be\<close>

definition seen_admitted :: "('r, 'd) update_run \<Rightarrow> bool" where
  "seen_admitted s \<longleftrightarrow> (\<exists>log st. poll_log s = log @ [Inr st] \<and> st \<in> {ADMITTED, ACCEPTED, COMPLETED})"

definition update_inv :: "('r, 'd) update_run \<Rightarrow> bool" where
  "update_inv s \<longleftrightarrow>
     (case relay_of s of
        Starting \<Rightarrow> sender_of s = Not_started \<and> test_of s = Awaiting_sync
      | Awaiting_admission \<Rightarrow> sender_of s \<notin> {Not_started, Sent} \<and> test_of s = Awaiting_sync
      | Offers_sync \<Rightarrow> sender_of s \<notin> {Not_started, Sent} \<and> test_of s = Awaiting_sync \<and> seen_admitted s
      | Awaiting_answer \<Rightarrow> sender_of s \<notin> {Not_started, Sent} \<and> test_of s = Has_channel \<and> seen_admitted s
      | Offers resp \<Rightarrow> sender_of s = Sent \<and> test_of s = Has_channel \<and> seen_admitted s
      | Finished \<Rightarrow> sender_of s = Sent \<and> seen_admitted s \<and> receives s \<and> (\<exists>resp. test_of s = Has_response resp)
      | Exited \<Rightarrow> sender_of s \<notin> {Not_started, Sent} \<and> test_of s = Awaiting_sync \<and> test_failed s)"

lemma update_inv_start: "update_inv (sendUpdateNoErrorInternal d rcv)"
  by (simp add: update_inv_def sendUpdateNoErrorInternal_def)

lemma admitted_stages: "ADMITTED \<le> st \<longleftrightarrow> st \<in> {ADMITTED, ACCEPTED, COMPLETED}"
  by (cases st) (simp_all add: less_eq_stage_def)

lemma seen_admitted_tick:
  assumes "check_admitted poll ns tv d = (True, d')"
  shows "\<exists>st. fst (pollUpdate poll ns tv (Some UNSPECIFIED) d) = Inr st \<and> st \<in> {ADMITTED, ACCEPTED, COMPLETED}"
  using assms by (auto simp: check_admitted_def admitted_stages split: prod.splits sum.splits)

lemma update_inv_step: "update_step poll ns tv ticks s s' \<Longrightarrow> update_inv s \<Longrightarrow> update_inv s'"
proof (induction rule: update_step.induct)
  case (tick s ok d)
  then show ?case
    using seen_admitted_tick[of poll ns tv "world s" d] by (auto simp: update_inv_def seen_admitted_def split: if_splits)
qed (auto simp: update_inv_def seen_admitted_def split: relay.splits)

lemma update_inv_run: "(update_step poll ns tv ticks)\<^sup>*\<^sup>* (sendUpdateNoErrorInternal d rcv) s \<Longrightarrow> update_inv s"
  by (induction rule: rtranclp_induct) (auto intro: update_inv_start update_inv_step)

lemma receives_run: "(update_step poll ns tv ticks)\<^sup>*\<^sup>* s s' \<Longrightarrow> receives s' = receives s"
  by (induction rule: rtranclp_induct) (auto elim!: update_stepE)

text \<open>Every step takes one of the parties forward, or uses up a poll.\<close>

fun relay_rank :: "'r relay \<Rightarrow> nat" where
  "relay_rank Starting = 5"
| "relay_rank Awaiting_admission = 4"
| "relay_rank Offers_sync = 3"
| "relay_rank Awaiting_answer = 2"
| "relay_rank (Offers _) = 1"
| "relay_rank _ = 0"

fun sender_rank :: "'r sender \<Rightarrow> nat" where
  "sender_rank In_rpc = 1"
| "sender_rank Not_started = 1"
| "sender_rank _ = 0"

definition update_rank :: "nat \<Rightarrow> ('r, 'd) update_run \<Rightarrow> nat" where
  "update_rank ticks s = relay_rank (relay_of s) + sender_rank (sender_of s) + (ticks - length (poll_log s))"

lemma update_step_rank: "update_step poll ns tv ticks s s' \<Longrightarrow> update_rank ticks s' < update_rank ticks s"
  by (induction rule: update_step.induct) (auto simp: update_rank_def)

section \<open>Properties\<close>

text \<open>
  C36: Sending an update with no error tolerated. The test gets its channel only after a poll of the server has answered that the update is
  admitted, accepted or completed. When the admission is polled at most \<open>n\<close> times, every run ends after at most \<open>n + 6\<close> steps, in one of three ways: the test has the
  response and both goroutines are done; the test does not receive from its channel, and the goroutine that has the response waits
  for ever to hand it over; or no poll saw the admission in time, the goroutine that was to synchronise has exited, and the test and
  the goroutine of the RPC wait for it for ever.
\<close>

theorem update_helper_runs:
  assumes "(update_step poll ns tv ticks ^^ n) (sendUpdateNoErrorInternal d rcv) s"
  shows "n \<le> ticks + 6 \<and>
    (test_of s \<noteq> Awaiting_sync \<longrightarrow> (\<exists>log st. poll_log s = log @ [Inr st] \<and> st \<in> {ADMITTED, ACCEPTED, COMPLETED})) \<and>
    ((\<nexists>s'. update_step poll ns tv ticks s s') \<longrightarrow>
      (rcv \<and> relay_of s = Finished \<and> sender_of s = Sent \<and> (\<exists>resp. test_of s = Has_response resp)) \<or>
      (\<not> rcv \<and> (\<exists>resp. relay_of s = Offers resp) \<and> sender_of s = Sent \<and> test_of s = Has_channel) \<or>
      (relay_of s = Exited \<and> (\<exists>resp err. sender_of s = Holds resp err) \<and> test_of s = Awaiting_sync \<and> test_failed s))"
proof -
  have run: "(update_step poll ns tv ticks)\<^sup>*\<^sup>* (sendUpdateNoErrorInternal d rcv) s"
    using assms relpowp_imp_rtranclp by metis
  have inv: "update_inv s" and rcv: "receives s = rcv"
    using update_inv_run[OF run] receives_run[OF run] by (simp_all add: sendUpdateNoErrorInternal_def)
  have "n \<le> ticks + 6"
    using relpowp_measure[where R = "update_step poll ns tv ticks" and f = "update_rank ticks", OF update_step_rank[of poll ns tv ticks] assms]
    by (simp add: update_rank_def sendUpdateNoErrorInternal_def)
  moreover have "test_of s \<noteq> Awaiting_sync \<longrightarrow> seen_admitted s"
    using inv by (auto simp: update_inv_def split: relay.splits)
  moreover have "rcv \<and> relay_of s = Finished \<and> sender_of s = Sent \<and> (\<exists>resp. test_of s = Has_response resp) \<or>
      \<not> rcv \<and> (\<exists>resp. relay_of s = Offers resp) \<and> sender_of s = Sent \<and> test_of s = Has_channel \<or>
      relay_of s = Exited \<and> (\<exists>resp err. sender_of s = Holds resp err) \<and> test_of s = Awaiting_sync \<and> test_failed s"
    if stuck: "\<nexists>s'. update_step poll ns tv ticks s s'"
  proof -
    have "sender_of s \<noteq> In_rpc"
      using stuck answer by metis
    then have sender: "\<exists>resp err. sender_of s = Holds resp err" if "sender_of s \<notin> {Not_started, Sent}"
      using that by (cases "sender_of s") auto
    show ?thesis
    proof (cases "relay_of s")
      case Awaiting_answer
      then obtain resp err where "sender_of s = Holds resp err"
        using sender inv by (auto simp: update_inv_def)
      then show ?thesis
        using receive[OF Awaiting_answer] stuck by blast
    next
      case (Offers resp)
      then have "sender_of s = Sent" "test_of s = Has_channel"
        using inv by (simp_all add: update_inv_def)
      then show ?thesis
        using deliver[OF Offers] Offers rcv stuck by blast
    qed (use inv rcv stuck spawn[where s = s and poll = poll and ns = ns and tv = tv and ticks = ticks] give_up[where s = s and poll = poll and ns = ns and tv = tv and ticks = ticks]
        sync[where s = s and poll = poll and ns = ns and tv = tv and ticks = ticks] sender in \<open>auto simp: update_inv_def\<close>)
  qed
  ultimately show ?thesis
    by (auto simp: seen_admitted_def)
qed

text \<open>A server that never admits, and a test that is stuck with it.\<close>

definition never_admits :: "PollUpdateRequest \<Rightarrow> nat \<Rightarrow> stage result \<times> nat" where
  "never_admits q d = (Inr UNSPECIFIED, d + 1)"

definition example_vars :: test_vars where
  "example_vars = \<lparr>tv_request = ''rq'', tv_WorkflowID = ''wf'', tv_RunID = ''run'', tv_WorkflowType = ''type'', tv_TaskQueue = ''tq'',
     tv_UpdateID = ''up'', tv_HandlerName = ''handler''\<rparr>"

definition stuck_update :: "(nat, nat) update_run" where
  "stuck_update = \<lparr>sender_of = Holds (Some 1) None, relay_of = Exited, test_of = Awaiting_sync, world = 1,
     poll_log = [Inr UNSPECIFIED], test_failed = True, receives = True\<rparr>"

lemma stuck_update_reached: "(update_step never_admits ''ns'' example_vars 500 ^^ 4) (sendUpdateNoErrorInternal 0 True) stuck_update"
proof -
  let ?step = "update_step never_admits ''ns'' example_vars 500"
  let ?s0 = "sendUpdateNoErrorInternal 0 True :: (nat, nat) update_run"
  let ?s1 = "?s0\<lparr>relay_of := Awaiting_admission, sender_of := In_rpc\<rparr>"
  let ?s2 = "?s1\<lparr>sender_of := Holds (Some 1) None, test_failed := test_failed ?s1 \<or> (None :: go_error option) \<noteq> None\<rparr>"
  let ?s3 = "?s2\<lparr>relay_of := (if False then Offers_sync else Awaiting_admission), world := 1,
      poll_log := poll_log ?s2 @ [fst (pollUpdate never_admits ''ns'' example_vars (Some UNSPECIFIED) (world ?s2))]\<rparr>"
  have "?step ?s0 ?s1"
    by (rule spawn) (simp_all add: sendUpdateNoErrorInternal_def)
  moreover have "?step ?s1 ?s2"
    by (rule answer) simp
  moreover have "?step ?s2 ?s3"
    by (rule tick) (simp_all add: sendUpdateNoErrorInternal_def check_admitted_def pollUpdate_def never_admits_def less_eq_stage_def)
  moreover have "?step ?s3 (?s3\<lparr>relay_of := Exited, test_failed := True\<rparr>)"
    by (rule give_up) simp
  moreover have "?s3\<lparr>relay_of := Exited, test_failed := True\<rparr> = stuck_update"
    by (simp add: stuck_update_def sendUpdateNoErrorInternal_def pollUpdate_def never_admits_def)
  ultimately show ?thesis
    by (auto simp: eval_nat_numeral)
qed

theorem update_helper_runs_witness:
  "(update_step never_admits ''ns'' example_vars 500 ^^ 4) (sendUpdateNoErrorInternal 0 True) stuck_update \<and>
   (\<nexists>s'. update_step never_admits ''ns'' example_vars 500 stuck_update s') \<and>
   test_of stuck_update = Awaiting_sync \<and> test_failed stuck_update"
proof -
  have "\<nexists>s'. update_step never_admits ''ns'' example_vars 500 stuck_update s'"
    by (auto simp: stuck_update_def elim: update_stepE)
  then show ?thesis
    using update_helper_runs[OF stuck_update_reached] stuck_update_reached by (simp add: stuck_update_def)
qed

end
