(* ===== verification/ClusterPool.thy ===== *)
theory ClusterPool
  imports GoStdlib
begin

text \<open>
  The pool of test clusters (\<^verbatim>\<open>test_cluster_pool.go\<close>): shared clusters handed out round robin,
  dedicated ones behind a channel of slots, suite-scoped ones by test name, and clusters that are
  rebuilt after a number of tests. A cluster is a number; creating one takes the next number, and
  the world remembers which ones were torn down.
\<close>

section \<open>Sizes\<close>

record pool =
  clusters :: "nat option list"
  inits :: "bool list"
  counter :: int
  slots :: "nat list option"
  usageCounts :: "int list"
  maxUsage :: int

record world =
  next_cluster :: nat
  torn_down :: "nat list"

definition newPool :: "nat \<Rightarrow> bool \<Rightarrow> pool" where
  "newPool n exclusive =
     \<lparr>clusters = replicate n None, inits = replicate n False, counter = 0,
      slots = (if exclusive then Some [0..<n] else None),
      usageCounts = replicate n 0, maxUsage = 0\<rparr>"

text \<open>A size from the environment; \<open>atoi\<close> is \<^verbatim>\<open>strconv.Atoi\<close>.\<close>

definition env_size :: "(string \<Rightarrow> int result) \<Rightarrow> string \<Rightarrow> string \<Rightarrow> int \<Rightarrow> int outcome" where
  "env_size atoi name v dflt =
     (if v \<noteq> '''' then
        (case atoi v of
           Inl _ \<Rightarrow> Panic (name @ '' must be a positive integer'')
         | Inr n \<Rightarrow> if n \<le> 0 then Panic (name @ '' must be a positive integer'') else Ret n)
      else Ret dflt)"

record clusterPool =
  shared :: pool
  dedicated :: pool
  suiteScoped :: "string \<rightharpoonup> nat option"

definition init_pools :: "(string \<Rightarrow> int result) \<Rightarrow> int \<Rightarrow> string \<Rightarrow> string \<Rightarrow> string \<Rightarrow> clusterPool outcome" where
  "init_pools atoi gomaxprocs envShared envDedicated envCI =
     and_then (env_size atoi ''TEMPORAL_TEST_SHARED_CLUSTERS'' envShared (max 1 (gomaxprocs div 2))) (\<lambda>sharedSize.
     and_then (env_size atoi ''TEMPORAL_TEST_DEDICATED_CLUSTERS'' envDedicated gomaxprocs) (\<lambda>dedicatedSize.
       let usage = (if envCI \<noteq> '''' then 50 else 0) in
       Ret \<lparr>shared = (newPool (nat sharedSize) False)\<lparr>maxUsage := usage\<rparr>,
            dedicated = (newPool (nat dedicatedSize) True)\<lparr>maxUsage := usage\<rparr>,
            suiteScoped = Map.empty\<rparr>))"

section \<open>Handing out clusters\<close>

definition createCluster :: "world \<Rightarrow> nat \<times> world" where
  "createCluster w = (next_cluster w, w\<lparr>next_cluster := next_cluster w + 1\<rparr>)"

definition tearDown :: "nat \<Rightarrow> world \<Rightarrow> world" where
  "tearDown c w = w\<lparr>torn_down := torn_down w @ [c]\<rparr>"

text \<open>Go's remainder takes the sign of the dividend.\<close>

definition go_rem :: "int \<Rightarrow> int \<Rightarrow> int" where
  "go_rem a b = sgn a * (\<bar>a\<bar> mod \<bar>b\<bar>)"

text \<open>The slot a test gets: from the channel, blocking (\<open>Hang\<close>) while it is empty, or the next in turn.\<close>

definition take_slot :: "pool \<Rightarrow> nat outcome \<times> pool" where
  "take_slot p =
     (case slots p of
        Some [] \<Rightarrow> (Hang, p)
      | Some (idx # rest) \<Rightarrow> (Ret idx, p\<lparr>slots := Some rest\<rparr>)
      | None \<Rightarrow>
          (let c = int64 (counter p + 1);
               p = p\<lparr>counter := c\<rparr>
           in if length (clusters p) = 0 then (Panic ''integer divide by zero'', p)
              else let idx = go_rem (int64 (c - 1)) (int (length (clusters p))) in
                if idx < 0 then (Panic ''index out of range'', p) else (Ret (nat idx), p)))"

definition return_slot :: "nat \<Rightarrow> pool \<Rightarrow> pool" where
  "return_slot idx p = (case slots p of None \<Rightarrow> p | Some free \<Rightarrow> p\<lparr>slots := Some (free @ [idx])\<rparr>)"

definition recreate :: "nat \<Rightarrow> pool \<Rightarrow> world \<Rightarrow> pool \<times> world" where
  "recreate idx p w =
     (if maxUsage p > 0 then
        let usage = usageCounts p ! idx + 1;
            p = p\<lparr>usageCounts := (usageCounts p)[idx := usage]\<rparr>
        in if usage > maxUsage p then
             (case clusters p ! idx of
                Some c \<Rightarrow>
                  let w = tearDown c w;
                      (c', w) = createCluster w
                  in (p\<lparr>clusters := (clusters p)[idx := Some c'], usageCounts := (usageCounts p)[idx := 1]\<rparr>, w)
              | None \<Rightarrow> (p, w))
           else (p, w)
      else (p, w))"

definition lazy_init :: "nat \<Rightarrow> pool \<Rightarrow> world \<Rightarrow> pool \<times> world" where
  "lazy_init idx p w =
     (if inits p ! idx then (p, w)
      else let (c, w) = createCluster w
           in (p\<lparr>clusters := (clusters p)[idx := Some c], inits := (inits p)[idx := True]\<rparr>, w))"

text \<open>The result is the cluster and the slot that the cleanup of an exclusive pool gives back.\<close>

definition pool_get :: "pool \<Rightarrow> world \<Rightarrow> (nat \<times> nat) outcome \<times> pool \<times> world" where
  "pool_get p w =
     (case take_slot p of
        (Hang, p) \<Rightarrow> (Hang, p, w)
      | (Panic msg, p) \<Rightarrow> (Panic msg, p, w)
      | (Ret idx, p) \<Rightarrow>
          (let (p, w) = recreate idx p w;
               (p, w) = lazy_init idx p w
           in case clusters p ! idx of
                None \<Rightarrow> (Panic ''nil pointer dereference'', p, w)
              | Some c \<Rightarrow> (Ret (c, idx), p, w)))"

definition acquireSlot :: "pool \<Rightarrow> nat option outcome \<times> pool" where
  "acquireSlot p =
     (case slots p of
        None \<Rightarrow> (Ret None, p)
      | Some [] \<Rightarrow> (Hang, p)
      | Some (idx # rest) \<Rightarrow> (Ret (Some idx), p\<lparr>slots := Some rest\<rparr>))"

section \<open>Choosing a pool\<close>

definition root_name :: "string \<Rightarrow> string" where
  "root_name name = takeWhile (\<lambda>c. c \<noteq> CHR ''/'') name"

definition UseSuiteScopedCluster :: "string \<Rightarrow> clusterPool \<Rightarrow> unit outcome \<times> clusterPool" where
  "UseSuiteScopedCluster name cp =
     (if name \<noteq> root_name name then (Panic (''UseSuiteScopedCluster must be called from a top-level test, got '' @ name), cp)
      else (Ret (), if suiteScoped cp name = None then cp\<lparr>suiteScoped := (suiteScoped cp)(name \<mapsto> None)\<rparr> else cp))"

definition suite_cleanup :: "string \<Rightarrow> clusterPool \<Rightarrow> world \<Rightarrow> clusterPool \<times> world" where
  "suite_cleanup name cp w =
     (cp\<lparr>suiteScoped := (suiteScoped cp)(name := None)\<rparr>,
      case suiteScoped cp name of Some (Some c) \<Rightarrow> tearDown c w | _ \<Rightarrow> w)"

definition getSuiteScoped :: "string \<Rightarrow> clusterPool \<Rightarrow> world \<Rightarrow> nat option \<times> clusterPool \<times> world" where
  "getSuiteScoped name cp w =
     (case suiteScoped cp (root_name name) of
        None \<Rightarrow> (None, cp, w)
      | Some (Some c) \<Rightarrow> (Some c, cp, w)
      | Some None \<Rightarrow>
          (let (c, w) = createCluster w
           in (Some c, cp\<lparr>suiteScoped := (suiteScoped cp)(root_name name \<mapsto> Some c)\<rparr>, w)))"

text \<open>What a test has to undo when it ends; the last registered cleanup runs first.\<close>

datatype cleanup = ReturnSlot nat | TearDown nat

definition getDedicated :: "bool \<Rightarrow> clusterPool \<Rightarrow> world \<Rightarrow> (nat \<times> cleanup list) outcome \<times> clusterPool \<times> world" where
  "getDedicated custom cp w =
     (if custom then
        (case acquireSlot (dedicated cp) of
           (Hang, p) \<Rightarrow> (Hang, cp, w)
         | (Panic msg, p) \<Rightarrow> (Panic msg, cp, w)
         | (Ret idx, p) \<Rightarrow>
             (let (c, w) = createCluster w
              in (Ret (c, (case idx of None \<Rightarrow> [] | Some i \<Rightarrow> [ReturnSlot i]) @ [TearDown c]), cp\<lparr>dedicated := p\<rparr>, w)))
      else
        (case pool_get (dedicated cp) w of
           (Hang, p, w) \<Rightarrow> (Hang, cp\<lparr>dedicated := p\<rparr>, w)
         | (Panic msg, p, w) \<Rightarrow> (Panic msg, cp\<lparr>dedicated := p\<rparr>, w)
         | (Ret (c, idx), p, w) \<Rightarrow> (Ret (c, [ReturnSlot idx]), cp\<lparr>dedicated := p\<rparr>, w)))"

definition getShared :: "clusterPool \<Rightarrow> world \<Rightarrow> (nat \<times> cleanup list) outcome \<times> clusterPool \<times> world" where
  "getShared cp w =
     (case pool_get (shared cp) w of
        (Hang, p, w) \<Rightarrow> (Hang, cp\<lparr>shared := p\<rparr>, w)
      | (Panic msg, p, w) \<Rightarrow> (Panic msg, cp\<lparr>shared := p\<rparr>, w)
      | (Ret (c, idx), p, w) \<Rightarrow> (Ret (c, []), cp\<lparr>shared := p\<rparr>, w))"

text \<open>\<open>custom\<close>: the test brings a dynamic configuration or cluster options.\<close>

definition clusterPool_get ::
    "string \<Rightarrow> bool \<Rightarrow> bool \<Rightarrow> clusterPool \<Rightarrow> world \<Rightarrow> (nat \<times> cleanup list) outcome \<times> clusterPool \<times> world" where
  "clusterPool_get name wantsDedicated custom cp w =
     (if wantsDedicated \<or> custom then getDedicated custom cp w
      else case getSuiteScoped name cp w of
        (Some c, cp, w) \<Rightarrow> (Ret (c, []), cp, w)
      | (None, cp, w) \<Rightarrow> getShared cp w)"

fun run_cleanup :: "cleanup \<Rightarrow> clusterPool \<times> world \<Rightarrow> clusterPool \<times> world" where
  "run_cleanup (ReturnSlot i) (cp, w) = (cp\<lparr>dedicated := return_slot i (dedicated cp)\<rparr>, w)"
| "run_cleanup (TearDown c) (cp, w) = (cp, tearDown c w)"

definition finish_test :: "cleanup list \<Rightarrow> clusterPool \<times> world \<Rightarrow> clusterPool \<times> world" where
  "finish_test cs s = fold run_cleanup (rev cs) s"

section \<open>Shared pools: turns and usage\<close>

lemma take_slot_turn:
  assumes "slots p = None" "counter p = int k" "k < 2 ^ 62" "clusters p \<noteq> []"
  shows "take_slot p = (Ret (k mod length (clusters p)), p\<lparr>counter := int (k + 1)\<rparr>)"
proof -
  have "int64 (int k + 1) = int k + 1" "int64 (int k) = int k" using assms(3) by (auto simp: int64_id)
  moreover have "go_rem (int k) (int (length (clusters p))) = int (k mod length (clusters p))"
    by (simp add: go_rem_def sgn_if of_nat_mod)
  ultimately show ?thesis using assms by (simp add: take_slot_def Let_def)
qed

text \<open>
  \<open>used c\<close> counts the tests that cluster \<open>c\<close> has served. In a pool with a usage limit the counters
  are these numbers, no cluster is over the limit, and the clusters of the pool are distinct.
\<close>

definition pool_inv :: "nat \<Rightarrow> (nat \<Rightarrow> int) \<Rightarrow> pool \<Rightarrow> world \<Rightarrow> bool" where
  "pool_inv n used p w \<longleftrightarrow>
     length (clusters p) = n \<and> length (inits p) = n \<and> length (usageCounts p) = n \<and> 0 < maxUsage p \<and>
     (\<forall>i<n. inits p ! i \<longleftrightarrow> clusters p ! i \<noteq> None) \<and>
     (\<forall>i<n. clusters p ! i = None \<longrightarrow> usageCounts p ! i = 0) \<and>
     (\<forall>i<n. \<forall>c. clusters p ! i = Some c \<longrightarrow> c < next_cluster w \<and> usageCounts p ! i = used c) \<and>
     (\<forall>i<n. \<forall>j<n. \<forall>c. clusters p ! i = Some c \<longrightarrow> clusters p ! j = Some c \<longrightarrow> i = j) \<and>
     (\<forall>c. used c \<le> maxUsage p) \<and> (\<forall>c\<ge>next_cluster w. used c = 0)"

lemma pool_inv_new:
  assumes "0 < m" "w = \<lparr>next_cluster = 0, torn_down = []\<rparr>"
  shows "pool_inv n (\<lambda>_. 0) ((newPool n ex)\<lparr>maxUsage := m\<rparr>) w"
  using assms by (simp add: pool_inv_def newPool_def)

lemma pool_inv_frame: "pool_inv n used p w \<Longrightarrow> pool_inv n used (p\<lparr>counter := c, slots := s\<rparr>) w"
  by (simp add: pool_inv_def)

text \<open>One more test on slot \<open>idx\<close>: the cluster it gets is below its limit.\<close>

lemma pool_inv_serve:
  assumes inv: "pool_inv n used p w" and idx: "idx < n"
    and r: "recreate idx p w = (p1, w1)" and l: "lazy_init idx p1 w1 = (p2, w2)"
  shows "\<exists>c. clusters p2 ! idx = Some c \<and> pool_inv n (used(c := used c + 1)) p2 w2"
proof (cases "clusters p ! idx")
  case None
  then have u: "usageCounts p ! idx = 0" "\<not> inits p ! idx" "length (usageCounts p) = n" "0 < maxUsage p"
    using inv idx by (auto simp: pool_inv_def)
  then have p1: "p1 = p\<lparr>usageCounts := (usageCounts p)[idx := 1]\<rparr>" "w1 = w"
    using r by (auto simp: recreate_def Let_def)
  let ?c = "next_cluster w"
  have p2: "p2 = p\<lparr>usageCounts := (usageCounts p)[idx := 1], clusters := (clusters p)[idx := Some ?c], inits := (inits p)[idx := True]\<rparr>"
    "w2 = w\<lparr>next_cluster := ?c + 1\<rparr>"
    using l u p1 by (auto simp: lazy_init_def createCluster_def)
  have "clusters p2 ! idx = Some ?c" using p2 inv idx by (simp add: pool_inv_def)
  moreover have "pool_inv n (used(?c := used ?c + 1)) p2 w2"
    using inv idx u unfolding p2 pool_inv_def
    by (auto simp: nth_list_update less_Suc_eq split: if_splits)
  ultimately show ?thesis by blast
next
  case (Some c)
  have u: "usageCounts p ! idx = used c" "inits p ! idx" "length (usageCounts p) = n" "length (clusters p) = n" "0 < maxUsage p"
    "used c \<le> maxUsage p" "c < next_cluster w"
    using inv idx Some by (auto simp: pool_inv_def split: option.splits)
  show ?thesis
  proof (cases "used c + 1 > maxUsage p")
    case False
    then have p1: "p1 = p\<lparr>usageCounts := (usageCounts p)[idx := used c + 1]\<rparr>" "w1 = w"
      using r u by (auto simp: recreate_def Let_def)
    then have p2: "p2 = p1" "w2 = w" using l u by (auto simp: lazy_init_def)
    have "pool_inv n (used(c := used c + 1)) p2 w2"
      using inv idx u Some False unfolding p2 p1 pool_inv_def
      by (auto simp: nth_list_update split: if_splits)
    then show ?thesis using p2 p1 Some by auto
  next
    case True
    let ?c = "next_cluster w"
    have p1: "p1 = p\<lparr>clusters := (clusters p)[idx := Some ?c], usageCounts := (usageCounts p)[idx := 1]\<rparr>"
      "w1 = w\<lparr>torn_down := torn_down w @ [c], next_cluster := ?c + 1\<rparr>"
      using r u Some True idx by (auto simp: recreate_def Let_def tearDown_def createCluster_def)
    then have p2: "p2 = p1" "w2 = w1" using l u by (auto simp: lazy_init_def)
    have "pool_inv n (used(?c := used ?c + 1)) p2 w2"
      using inv idx u Some unfolding p2 p1 pool_inv_def
      by (auto simp: nth_list_update less_Suc_eq split: if_splits)
    then show ?thesis using p2 p1 u idx by auto
  qed
qed

lemma recreate_frame: "recreate idx p w = (p1, w1) \<Longrightarrow> slots p1 = slots p \<and> counter p1 = counter p \<and> maxUsage p1 = maxUsage p"
  by (auto simp: recreate_def Let_def createCluster_def split: if_splits option.splits)

lemma lazy_init_frame: "lazy_init idx p w = (p1, w1) \<Longrightarrow> slots p1 = slots p \<and> counter p1 = counter p \<and> maxUsage p1 = maxUsage p"
  by (auto simp: lazy_init_def createCluster_def split: if_splits)

lemma pool_get_shared:
  assumes "pool_inv n used p w" "slots p = None" "counter p = int k" "k < 2 ^ 62" "0 < n"
  shows "\<exists>c p' w'. pool_get p w = (Ret (c, k mod n), p', w') \<and> pool_inv n (used(c := used c + 1)) p' w' \<and>
    slots p' = None \<and> counter p' = int (k + 1) \<and> maxUsage p' = maxUsage p"
proof -
  have n: "length (clusters p) = n" using assms(1) by (simp add: pool_inv_def)
  let ?p = "p\<lparr>counter := int (k + 1)\<rparr>"
  have t: "take_slot p = (Ret (k mod n), ?p)" using take_slot_turn[OF assms(2-4)] n assms(5) by auto
  obtain p1 w1 where r: "recreate (k mod n) ?p w = (p1, w1)" by fastforce
  obtain p2 w2 where l: "lazy_init (k mod n) p1 w1 = (p2, w2)" by fastforce
  have "pool_inv n used ?p w" using assms(1) by (simp add: pool_inv_def)
  from pool_inv_serve[OF this _ r l] assms(5)
  obtain c where c: "clusters p2 ! (k mod n) = Some c" "pool_inv n (used(c := used c + 1)) p2 w2" by auto
  then show ?thesis using t r l recreate_frame[OF r] lazy_init_frame[OF l] assms(2)
    by (simp add: pool_get_def)
qed

text \<open>The clusters and slots that \<open>j\<close> tests in a row are given.\<close>

fun pool_run :: "nat \<Rightarrow> pool \<Rightarrow> world \<Rightarrow> (nat \<times> nat) list" where
  "pool_run 0 p w = []"
| "pool_run (Suc j) p w = (case pool_get p w of (Ret x, p', w') \<Rightarrow> x # pool_run j p' w' | _ \<Rightarrow> [])"

lemma pool_run_spec:
  assumes "pool_inv n used p w" "slots p = None" "counter p = int k" "k + j < 2 ^ 62" "0 < n"
  shows "map snd (pool_run j p w) = map (\<lambda>i. i mod n) [k..<k + j] \<and>
    (\<forall>c. used c + int (count_list (map fst (pool_run j p w)) c) \<le> maxUsage p)"
  using assms
proof (induction j arbitrary: used p w k)
  case 0
  then show ?case by (simp add: pool_inv_def)
next
  case (Suc j)
  have "k < 2 ^ 62" using Suc.prems(4) by simp
  from pool_get_shared[OF Suc.prems(1-3) this Suc.prems(5)] obtain c p' w' where
    g: "pool_get p w = (Ret (c, k mod n), p', w')" "pool_inv n (used(c := used c + 1)) p' w'" "slots p' = None"
      "counter p' = int (k + 1)" "maxUsage p' = maxUsage p" by blast
  have "k + 1 + j < 2 ^ 62" using Suc.prems(4) by simp
  from Suc.IH[OF g(2-4) this Suc.prems(5)] g(5)
  have IH: "map snd (pool_run j p' w') = map (\<lambda>i. i mod n) [k + 1..<k + 1 + j]"
    "\<And>d. (used(c := used c + 1)) d + int (count_list (map fst (pool_run j p' w')) d) \<le> maxUsage p" by auto
  have "[k..<k + Suc j] = k # [k + 1..<k + 1 + j]" by (simp add: upt_conv_Cons)
  moreover have "used d + int (count_list (c # map fst (pool_run j p' w')) d) \<le> maxUsage p" for d
    using IH(2)[of d] by (auto split: if_splits)
  ultimately show ?case using g(1) IH(1) by simp
qed

section \<open>Dedicated pools: one test per slot\<close>

fun slot_of :: "cleanup \<Rightarrow> nat list" where
  "slot_of (ReturnSlot i) = [i]"
| "slot_of (TearDown c) = []"

definition held :: "(nat \<times> cleanup list) list \<Rightarrow> nat list" where
  "held running = concat (map (\<lambda>(c, cs). concat (map slot_of cs)) running)"

text \<open>Tests start and end in any order; each running test has its cluster and its cleanups.\<close>

type_synonym pool_state = "clusterPool \<times> world \<times> (nat \<times> cleanup list) list"

inductive pool_step :: "pool_state \<Rightarrow> pool_state \<Rightarrow> bool" where
  begin_test: "clusterPool_get name wantsDedicated custom cp w = (Ret (c, cs), cp', w') \<Longrightarrow>
    pool_step (cp, w, running) (cp', w', (c, cs) # running)"
| end_test: "finish_test cs (cp, w) = (cp', w') \<Longrightarrow>
    pool_step (cp, w, xs @ (c, cs) # ys) (cp', w', xs @ ys)"

definition slots_inv :: "nat \<Rightarrow> pool_state \<Rightarrow> bool" where
  "slots_inv n s = (case s of (cp, w, running) \<Rightarrow>
     (\<exists>free. slots (dedicated cp) = Some free \<and> mset free + mset (held running) = mset [0..<n]))"

lemma pool_get_slots:
  assumes "pool_get p w = (Ret (c, idx), p', w')" "slots p = Some free"
  shows "\<exists>rest. free = idx # rest \<and> slots p' = Some rest"
proof (cases free)
  case Nil
  then show ?thesis using assms by (simp add: pool_get_def take_slot_def)
next
  case (Cons i rest)
  let ?p = "p\<lparr>slots := Some rest\<rparr>"
  obtain p1 w1 where r: "recreate i ?p w = (p1, w1)" by fastforce
  obtain p2 w2 where l: "lazy_init i p1 w1 = (p2, w2)" by fastforce
  show ?thesis using assms Cons r l recreate_frame[OF r] lazy_init_frame[OF l]
    by (auto simp: pool_get_def take_slot_def split: option.splits)
qed

lemma getDedicated_slots:
  assumes "getDedicated custom cp w = (Ret (c, cs), cp', w')" "slots (dedicated cp) = Some free"
  shows "\<exists>rest. slots (dedicated cp') = Some rest \<and> mset free = mset rest + mset (concat (map slot_of cs))"
proof (cases custom)
  case True
  then show ?thesis using assms
    by (auto simp: getDedicated_def acquireSlot_def createCluster_def split: list.splits)
next
  case False
  then obtain idx p w1 where "pool_get (dedicated cp) w = (Ret (c, idx), p, w1)" "cs = [ReturnSlot idx]" "cp' = cp\<lparr>dedicated := p\<rparr>"
    using assms(1) by (auto simp: getDedicated_def split: prod.splits outcome.splits)
  then show ?thesis using pool_get_slots[OF _ assms(2)] by fastforce
qed

lemma get_slots:
  assumes "clusterPool_get name wd custom cp w = (Ret (c, cs), cp', w')" "slots (dedicated cp) = Some free"
  shows "\<exists>rest. slots (dedicated cp') = Some rest \<and> mset free = mset rest + mset (concat (map slot_of cs))"
proof (cases "wd \<or> custom")
  case True
  then show ?thesis using assms getDedicated_slots by (simp add: clusterPool_get_def)
next
  case False
  then show ?thesis using assms
    by (auto simp: clusterPool_get_def getSuiteScoped_def getShared_def createCluster_def
        split: option.splits prod.splits outcome.splits)
qed

lemma finish_slots:
  "fold run_cleanup cs (cp, w) = (cp', w') \<Longrightarrow> slots (dedicated cp) = Some free \<Longrightarrow>
     \<exists>free'. slots (dedicated cp') = Some free' \<and> mset free' = mset free + mset (concat (map slot_of cs))"
proof (induction cs arbitrary: cp w free)
  case (Cons x cs)
  show ?case
  proof (cases x)
    case (ReturnSlot i)
    with Cons.prems Cons.IH[of "cp\<lparr>dedicated := return_slot i (dedicated cp)\<rparr>" w "free @ [i]"] show ?thesis
      by (auto simp: return_slot_def)
  next
    case (TearDown c)
    with Cons show ?thesis by auto
  qed
qed simp

lemma slots_inv_step: "pool_step s s' \<Longrightarrow> slots_inv n s \<Longrightarrow> slots_inv n s'"
proof (induction rule: pool_step.induct)
  case (begin_test name wd custom cp w c cs cp' w' running)
  then obtain free where f: "slots (dedicated cp) = Some free" "mset free + mset (held running) = mset [0..<n]"
    by (auto simp: slots_inv_def)
  obtain rest where r: "slots (dedicated cp') = Some rest" "mset free = mset rest + mset (concat (map slot_of cs))"
    using get_slots[OF begin_test(1) f(1)] by blast
  have "mset rest + mset (held ((c, cs) # running)) = mset free + mset (held running)" by (simp add: r(2) held_def)
  then show ?case using r(1) f(2) by (simp add: slots_inv_def)
next
  case (end_test cs cp w cp' w' xs c ys)
  then obtain free where f: "slots (dedicated cp) = Some free" "mset free + mset (held (xs @ (c, cs) # ys)) = mset [0..<n]"
    by (auto simp: slots_inv_def)
  have "mset (concat (map slot_of (rev cs))) = mset (concat (map slot_of cs))"
    by (simp add: mset_concat flip: rev_map)
  then obtain rest where r: "slots (dedicated cp') = Some rest" "mset rest = mset free + mset (concat (map slot_of cs))"
    using finish_slots[OF end_test(1)[unfolded finish_test_def] f(1)] by auto
  have "mset rest + mset (held (xs @ ys)) = mset free + mset (held (xs @ (c, cs) # ys))"
    by (simp add: r(2) held_def ac_simps)
  then show ?case using r(1) f(2) by (simp add: slots_inv_def)
qed

lemma slots_inv_reach: "pool_step\<^sup>*\<^sup>* s s' \<Longrightarrow> slots_inv n s \<Longrightarrow> slots_inv n s'"
  by (induction rule: rtranclp_induct) (auto intro: slots_inv_step)

lemma slots_inv_exclusive:
  assumes "slots_inv n (cp, w, running)"
  shows "distinct (held running) \<and> set (held running) \<subseteq> {0..<n} \<and> length (held running) \<le> n"
proof -
  obtain free where f: "mset (free @ held running) = mset [0..<n]" using assms by (auto simp: slots_inv_def)
  then have "distinct (free @ held running)" by (metis distinct_upt mset_eq_imp_distinct_iff)
  moreover have "set (free @ held running) = {0..<n}" using f by (metis atLeastLessThan_upt mset_eq_setD)
  moreover have "length (free @ held running) = n" using f by (metis diff_zero length_upt mset_eq_length)
  ultimately show ?thesis by auto
qed

section \<open>Properties\<close>

text \<open>
  Sharing: tests that ask a new shared pool of \<open>n\<close> clusters for one get them in turn, every request
  is served, and with a usage limit no cluster ever serves more tests than the limit, since it
  is torn down and replaced in time.
\<close>

theorem shared_pool_round_robin:
  assumes "0 < n" "0 < m" "j < 2 ^ 62"
    and "served = pool_run j ((newPool n False)\<lparr>maxUsage := m\<rparr>) \<lparr>next_cluster = 0, torn_down = []\<rparr>"
  shows "map snd served = map (\<lambda>i. i mod n) [0..<j] \<and> (\<forall>c. int (count_list (map fst served) c) \<le> m)"
proof -
  let ?p = "(newPool n False)\<lparr>maxUsage := m\<rparr>"
  have "slots ?p = None" "counter ?p = int 0" "maxUsage ?p = m" by (simp_all add: newPool_def)
  with pool_run_spec[OF pool_inv_new[OF assms(2) refl], of n False 0 j] assms show ?thesis by simp
qed

theorem shared_pool_round_robin_witness:
  "map snd (pool_run 5 ((newPool 2 False)\<lparr>maxUsage := 1\<rparr>) \<lparr>next_cluster = 0, torn_down = []\<rparr>) = [0, 1, 0, 1, 0]"
  using shared_pool_round_robin[of 2 1 5, OF _ _ _ refl] by (simp add: upt_rec)

text \<open>
  Exclusiveness: in whatever order tests start, with whatever wishes, and end, no two tests that
  are running hold the same dedicated slot, and never more than \<open>n\<close> slots are held, of a pool of
  \<open>n\<close>; every slot that is not held is free again.
\<close>

theorem dedicated_slots_exclusive:
  assumes "pool_step\<^sup>*\<^sup>* (cp, w, []) (cp', w', running)" "dedicated cp = newPool n True"
  shows "distinct (held running) \<and> set (held running) \<subseteq> {0..<n} \<and>
    (\<exists>free. slots (dedicated cp') = Some free \<and> mset free + mset (held running) = mset [0..<n])"
proof -
  have "slots_inv n (cp, w, [])" using assms(2) by (simp add: slots_inv_def held_def newPool_def)
  from slots_inv_reach[OF assms(1) this] have inv: "slots_inv n (cp', w', running)" .
  then show ?thesis using slots_inv_exclusive[OF inv] by (auto simp: slots_inv_def)
qed

theorem dedicated_slots_exclusive_witness:
  "distinct (held [(0, [ReturnSlot 0])]) \<and> (\<exists>cp' w'. pool_step\<^sup>*\<^sup>*
     (\<lparr>shared = newPool 1 False, dedicated = newPool 2 True, suiteScoped = Map.empty\<rparr>, \<lparr>next_cluster = 0, torn_down = []\<rparr>, [])
     (cp', w', [(0, [ReturnSlot 0])]))"
proof -
  let ?cp = "\<lparr>shared = newPool 1 False, dedicated = newPool 2 True, suiteScoped = Map.empty\<rparr>"
  let ?w = "\<lparr>next_cluster = 0, torn_down = []\<rparr>"
  obtain cp' w' where "clusterPool_get ''t'' True False ?cp ?w = (Ret (0, [ReturnSlot 0]), cp', w')"
    by (simp add: clusterPool_get_def getDedicated_def pool_get_def take_slot_def newPool_def recreate_def lazy_init_def
        createCluster_def upt_rec)
  then have "pool_step\<^sup>*\<^sup>* (?cp, ?w, []) (cp', w', [(0, [ReturnSlot 0])])" by (intro r_into_rtranclp pool_step.begin_test)
  moreover from dedicated_slots_exclusive[OF this, of 2] have "distinct (held [(0 :: nat, [ReturnSlot 0])])" by simp
  ultimately show ?thesis by blast
qed

end
