(* ===== verification/MetricCapture.thy ===== *)
theory MetricCapture
  imports Prelude
begin

text \<open>
  The metric captures of the conformance tests (\<^verbatim>\<open>metric_capture.go\<close>). A snapshot of the metrics is
  a parameter; a capture filters it, globally or for one namespace, and the global one remembers
  what was asked for so that it can tell when the other one should have been used.
\<close>

section \<open>Model\<close>

record CapturedRecording =
  Tags :: "string \<rightharpoonup> string"
  rec_value :: int

type_synonym snapshot = "string \<Rightarrow> CapturedRecording list"

type_synonym keep_func = "CapturedRecording \<Rightarrow> bool"

definition collectMetricNilKeepPanic :: string where
  "collectMetricNilKeepPanic = ''CollectMetric keep func must not be nil; use Metric(name) to collect all readings''"

record GlobalMetricCapture =
  queriedMetrics :: "string list"

definition newGlobalMetricCapture :: GlobalMetricCapture where
  "newGlobalMetricCapture = \<lparr>queriedMetrics = []\<rparr>"

text \<open>The set of queried names, as a list without repetitions in the order of first use.\<close>

definition add_query :: "string \<Rightarrow> GlobalMetricCapture \<Rightarrow> GlobalMetricCapture" where
  "add_query name c = (if name \<in> set (queriedMetrics c) then c else c\<lparr>queriedMetrics := queriedMetrics c @ [name]\<rparr>)"

fun collect_loop :: "keep_func option \<Rightarrow> CapturedRecording list \<Rightarrow> CapturedRecording list \<Rightarrow> CapturedRecording list" where
  "collect_loop keep [] collected = collected"
| "collect_loop keep (x # xs) collected =
     collect_loop keep xs (if (case keep of None \<Rightarrow> True | Some f \<Rightarrow> f x) then collected @ [x] else collected)"

definition global_collectMetric ::
    "snapshot \<Rightarrow> string \<Rightarrow> keep_func option \<Rightarrow> GlobalMetricCapture \<Rightarrow> CapturedRecording list \<times> GlobalMetricCapture" where
  "global_collectMetric snap name keep c = (collect_loop keep (snap name) [], add_query name c)"

definition global_Metric :: "snapshot \<Rightarrow> string \<Rightarrow> GlobalMetricCapture \<Rightarrow> CapturedRecording list \<times> GlobalMetricCapture" where
  "global_Metric snap name c = global_collectMetric snap name None c"

definition global_CollectMetric ::
    "snapshot \<Rightarrow> string \<Rightarrow> keep_func option \<Rightarrow> GlobalMetricCapture
     \<Rightarrow> CapturedRecording list outcome \<times> GlobalMetricCapture" where
  "global_CollectMetric snap name keep c =
     (if keep = None then (Panic collectMetricNilKeepPanic, c)
      else let (xs, c) = global_collectMetric snap name keep c in (Ret xs, c))"

fun all_tagged :: "CapturedRecording list \<Rightarrow> bool" where
  "all_tagged [] = True"
| "all_tagged (x # xs) = (if Tags x ''namespace'' = None then False else all_tagged xs)"

fun allQueriedMetricsAreNamespaceScoped :: "snapshot \<Rightarrow> string list \<Rightarrow> bool" where
  "allQueriedMetricsAreNamespaceScoped snap [] = True"
| "allQueriedMetricsAreNamespaceScoped snap (name # rest) =
     (if length (snap name) = 0 then False
      else if \<not> all_tagged (snap name) then False
      else allQueriedMetricsAreNamespaceScoped snap rest)"

definition queriedMetricNames :: "(string list \<Rightarrow> string list) \<Rightarrow> GlobalMetricCapture \<Rightarrow> string list" where
  "queriedMetricNames order c = order (queriedMetrics c)"

text \<open>\<open>order\<close> is the order of the range over the set of names.\<close>

definition checkForNamespaceCaptureMisuse ::
    "(string list \<Rightarrow> string list) \<Rightarrow> snapshot \<Rightarrow> GlobalMetricCapture \<Rightarrow> unit outcome" where
  "checkForNamespaceCaptureMisuse order snap c =
     (let names = queriedMetricNames order c in
      if length names = 0 then Ret ()
      else if allQueriedMetricsAreNamespaceScoped snap names
      then Panic ''GlobalMetricCapture was used, but all queried metrics were namespace-scoped; use NamespaceMetricCapture instead''
      else Ret ())"

text \<open>\<^verbatim>\<open>%q\<close> of a metric name, which needs no escapes.\<close>

definition not_scoped :: "string \<Rightarrow> string" where
  "not_scoped name = ''metric '' @ [CHR 0x22] @ name @ [CHR 0x22] @ '' is not namespace-scoped; use GlobalMetricCapture instead''"

fun namespace_loop ::
    "string \<Rightarrow> string \<Rightarrow> keep_func option \<Rightarrow> CapturedRecording list \<Rightarrow> CapturedRecording list
     \<Rightarrow> CapturedRecording list outcome" where
  "namespace_loop ns name keep [] collected = Ret collected"
| "namespace_loop ns name keep (x # xs) collected =
     (case Tags x ''namespace'' of
        None \<Rightarrow> Panic (not_scoped name)
      | Some n \<Rightarrow>
          namespace_loop ns name keep xs
            (if n = ns \<and> (case keep of None \<Rightarrow> True | Some f \<Rightarrow> f x) then collected @ [x] else collected))"

definition namespace_collectMetric :: "string \<Rightarrow> snapshot \<Rightarrow> string \<Rightarrow> keep_func option \<Rightarrow> CapturedRecording list outcome" where
  "namespace_collectMetric ns snap name keep = namespace_loop ns name keep (snap name) []"

definition namespace_Metric :: "string \<Rightarrow> snapshot \<Rightarrow> string \<Rightarrow> CapturedRecording list outcome" where
  "namespace_Metric ns snap name = namespace_collectMetric ns snap name None"

definition namespace_CollectMetric :: "string \<Rightarrow> snapshot \<Rightarrow> string \<Rightarrow> keep_func option \<Rightarrow> CapturedRecording list outcome" where
  "namespace_CollectMetric ns snap name keep =
     (if keep = None then Panic collectMetricNilKeepPanic else namespace_collectMetric ns snap name keep)"

section \<open>What is collected\<close>

definition kept :: "keep_func option \<Rightarrow> CapturedRecording \<Rightarrow> bool" where
  "kept keep x \<longleftrightarrow> (case keep of None \<Rightarrow> True | Some f \<Rightarrow> f x)"

definition scoped :: "CapturedRecording \<Rightarrow> bool" where
  "scoped x \<longleftrightarrow> Tags x ''namespace'' \<noteq> None"

lemma collect_loop_eq: "collect_loop keep xs acc = acc @ filter (kept keep) xs"
  by (induction keep xs acc rule: collect_loop.induct) (auto simp: kept_def)

lemma all_tagged_iff: "all_tagged xs \<longleftrightarrow> (\<forall>x\<in>set xs. scoped x)"
  by (induction xs) (auto simp: scoped_def)

lemma all_scoped_iff:
  "allQueriedMetricsAreNamespaceScoped snap names \<longleftrightarrow>
     (\<forall>name\<in>set names. snap name \<noteq> [] \<and> (\<forall>x\<in>set (snap name). scoped x))"
  by (induction names) (auto simp: all_tagged_iff)

lemma namespace_loop_Ret:
  "\<forall>x\<in>set xs. scoped x \<Longrightarrow>
     namespace_loop ns name keep xs acc = Ret (acc @ filter (\<lambda>x. Tags x ''namespace'' = Some ns \<and> kept keep x) xs)"
  by (induction ns name keep xs acc rule: namespace_loop.induct) (auto simp: scoped_def kept_def split: option.splits)

lemma namespace_loop_Panic:
  "\<exists>x\<in>set xs. \<not> scoped x \<Longrightarrow> namespace_loop ns name keep xs acc = Panic (not_scoped name)"
proof (induction xs arbitrary: acc)
  case (Cons y ys)
  then show ?case by (cases "Tags y ''namespace''") (auto simp: scoped_def)
qed simp

lemma global_run_queried:
  "set (queriedMetrics (fold add_query names c)) = set (queriedMetrics c) \<union> set names"
  "distinct (queriedMetrics c) \<Longrightarrow> distinct (queriedMetrics (fold add_query names c))"
  by (induction names arbitrary: c) (auto simp: add_query_def)

section \<open>Properties\<close>

text \<open>
  The two metric captures. A namespace capture returns the recordings of its namespace that the
  test keeps, and panics when the metric has a recording without a namespace tag. A global
  capture that was used for metrics which all have recordings, every one tagged with a
  namespace, is reported as a misuse, and no other use is.
\<close>

theorem metric_captures:
  assumes "\<And>xs. set (order xs) = set xs"
    and "c = fold (\<lambda>name c. snd (global_Metric snap name c)) names newGlobalMetricCapture"
  shows "namespace_Metric ns snap name =
      (if \<forall>x\<in>set (snap name). scoped x then Ret (filter (\<lambda>x. Tags x ''namespace'' = Some ns) (snap name))
       else Panic (not_scoped name)) \<and>
    (is_panic (checkForNamespaceCaptureMisuse order snap c) \<longleftrightarrow>
       names \<noteq> [] \<and> (\<forall>n\<in>set names. snap n \<noteq> [] \<and> (\<forall>x\<in>set (snap n). scoped x)))"
proof -
  have "c = fold add_query names newGlobalMetricCapture"
    using assms(2) by (simp add: global_Metric_def global_collectMetric_def)
  then have q: "set (order (queriedMetrics c)) = set names"
    using assms(1) global_run_queried(1)[of names newGlobalMetricCapture] by (simp add: newGlobalMetricCapture_def)
  then have e: "order (queriedMetrics c) = [] \<longleftrightarrow> names = []" by (metis set_empty)
  have "is_panic (checkForNamespaceCaptureMisuse order snap c) \<longleftrightarrow>
      names \<noteq> [] \<and> (\<forall>n\<in>set names. snap n \<noteq> [] \<and> (\<forall>x\<in>set (snap n). scoped x))"
    by (simp add: checkForNamespaceCaptureMisuse_def queriedMetricNames_def Let_def all_scoped_iff q e)
  moreover have "filter (\<lambda>x. Tags x ''namespace'' = Some ns \<and> kept None x) xs = filter (\<lambda>x. Tags x ''namespace'' = Some ns) xs" for xs
    by (simp add: kept_def)
  ultimately show ?thesis using namespace_loop_Ret[of "snap name" ns name None "[]"] namespace_loop_Panic[of "snap name" ns name None "[]"]
    by (auto simp: namespace_Metric_def namespace_collectMetric_def)
qed

theorem metric_captures_witness:
  "is_panic (checkForNamespaceCaptureMisuse id (\<lambda>_. [\<lparr>Tags = [''namespace'' \<mapsto> ''ns''], rec_value = 1\<rparr>])
     (fold (\<lambda>name c. snd (global_Metric (\<lambda>_. [\<lparr>Tags = [''namespace'' \<mapsto> ''ns''], rec_value = 1\<rparr>]) name c)) [''m'']
       newGlobalMetricCapture))"
  using metric_captures[of id _ "\<lambda>_. [\<lparr>Tags = [''namespace'' \<mapsto> ''ns''], rec_value = 1\<rparr>]" "[''m'']", OF _ refl]
  by (simp add: scoped_def)

end
