(* ===== verification/TestEnv.thy ===== *)
theory TestEnv
  imports TestBase ClusterPool MetricCapture "HOL-Library.AList"
begin

text \<open>
  The test environment (\<^verbatim>\<open>test_env.go\<close>): the distribution of tests over shards, the options of a test and what they imply
  for its cluster, the guard against dedicated clusters nobody needs, and the operations of a test, each confined to
  the test's own namespace on a shared cluster. \<^verbatim>\<open>t.Fatal\<close> and \<^verbatim>\<open>t.Skip\<close> end the test: \<open>Panic\<close>.
\<close>

section \<open>Shards\<close>

datatype shard_decision = Runs | Skipped | Fatal string

text \<open>
  \<open>Getenv\<close> reads the environment, \<open>Fingerprint32\<close> is the hash of the farm package, \<open>shardSalt\<close> the embedded file. The
  fingerprint has 32 bits: as a Go integer it is not negative, and \<^verbatim>\<open>%\<close> is the remainder.
\<close>

definition checkTestShard ::
    "(string \<Rightarrow> string) \<Rightarrow> (byte list \<Rightarrow> u32) \<Rightarrow> string \<Rightarrow> string \<Rightarrow> shard_decision" where
  "checkTestShard Getenv Fingerprint32 shardSalt name =
     (let totalStr = Getenv ''TEST_TOTAL_SHARDS'';
          indexStr = Getenv ''TEST_SHARD_INDEX''
      in if totalStr = '''' \<or> indexStr = '''' then Runs
         else case strconv_Atoi totalStr of
           Inl _ \<Rightarrow> Fatal ''Couldn't convert TEST_TOTAL_SHARDS''
         | Inr totalShards \<Rightarrow>
             if totalShards < 1 then Fatal ''Couldn't convert TEST_TOTAL_SHARDS''
             else case strconv_Atoi indexStr of
               Inl _ \<Rightarrow> Fatal ''Couldn't convert TEST_SHARD_INDEX''
             | Inr index \<Rightarrow>
                 if index < 0 \<or> index \<ge> totalShards then Fatal ''Couldn't convert TEST_SHARD_INDEX''
                 else let nameToHash = name @ TrimSpace shardSalt;
                          testIndex = uint (Fingerprint32 (bytes_of_string nameToHash)) mod totalShards
                      in if testIndex \<noteq> index then Skipped else Runs)"

section \<open>Settings and scopes\<close>

text \<open>The precedences of the dynamic configuration that are told apart here.\<close>

datatype precedence = PrecedenceNamespace | PrecedenceTaskQueue | PrecedenceDestination | OtherPrecedence nat

fun canBeNamespaceScoped :: "precedence \<Rightarrow> bool" where
  "canBeNamespaceScoped PrecedenceNamespace = True"
| "canBeNamespaceScoped PrecedenceTaskQueue = True"
| "canBeNamespaceScoped PrecedenceDestination = True"
| "canBeNamespaceScoped (OtherPrecedence _) = False"

text \<open>A \<^verbatim>\<open>dynamicconfig.GenericSetting\<close>: its key, its precedence and its validation.\<close>

record generic_setting =
  setting_Key :: string
  setting_Precedence :: precedence
  setting_Validate :: "dyn_value \<Rightarrow> go_error option"

section \<open>The guard of dedicated clusters\<close>

record dedicatedClusterGuard =
  guard_required :: bool
  usageReason :: string

definition newDedicatedClusterGuard :: "bool \<Rightarrow> dedicatedClusterGuard" where
  "newDedicatedClusterGuard required = \<lparr>guard_required = required, usageReason = ''''\<rparr>"

definition guard_record :: "string \<Rightarrow> dedicatedClusterGuard \<Rightarrow> dedicatedClusterGuard" where
  "guard_record reason u =
     (if \<not> guard_required u then u
      else if usageReason u = '''' then u\<lparr>usageReason := reason\<rparr> else u)"

definition guard_validate :: "dedicatedClusterGuard \<Rightarrow> go_error option" where
  "guard_validate u =
     (if \<not> guard_required u then None
      else if usageReason u = ''''
      then Some (Errorf ''testcore.WithDedicatedCluster() was requested but no dedicated-cluster-only feature was used'')
      else None)"

section \<open>Options\<close>

record testOptions =
  dedicatedCluster :: bool
  dedicatedReason :: string
  dynamicConfigSettings :: "(generic_setting \<times> dyn_value) list"
  clusterOptions :: "TestClusterOption list"

definition no_options :: testOptions where
  "no_options = \<lparr>dedicatedCluster = False, dedicatedReason = '''', dynamicConfigSettings = [], clusterOptions = []\<rparr>"

type_synonym TestOption = "testOptions \<Rightarrow> testOptions outcome"

definition WithDedicatedCluster :: TestOption where
  "WithDedicatedCluster o' = Ret (o'\<lparr>dedicatedCluster := True\<rparr>)"

definition WithSdkWorker :: TestOption where
  "WithSdkWorker o' = Ret o'"

definition WithFxOptions :: "service \<Rightarrow> handle list \<Rightarrow> TestOption" where
  "WithFxOptions serviceName opts o' =
     Ret (o'\<lparr>dedicatedCluster := True, clusterOptions := clusterOptions o' @ [WithFxOptionsForService serviceName opts],
             dedicatedReason := ''custom fx options used''\<rparr>)"

definition WithWorkerService :: "string \<Rightarrow> TestOption" where
  "WithWorkerService reason o' =
     Ret (o'\<lparr>dedicatedCluster := True, clusterOptions := clusterOptions o' @ [withWorkerService True],
             dedicatedReason := ''worker service required: '' @ reason\<rparr>)"

definition WithPersistenceFaultInjection :: "handle option \<Rightarrow> TestOption" where
  "WithPersistenceFaultInjection cfg o' =
     Ret (o'\<lparr>dedicatedCluster := True, clusterOptions := clusterOptions o' @ [WithFaultInjectionConfig cfg],
             dedicatedReason := ''fault injection config used''\<rparr>)"

definition WithDynamicConfig :: "generic_setting \<Rightarrow> dyn_value \<Rightarrow> TestOption" where
  "WithDynamicConfig setting v o' =
     (case setting_Validate setting v of
        Some err \<Rightarrow> Panic (''invalid value for setting '' @ setting_Key setting @ '': '' @ error_text err)
      | None \<Rightarrow>
          (let o' = (if \<not> canBeNamespaceScoped (setting_Precedence setting) then o'\<lparr>dedicatedCluster := True\<rparr> else o')
           in Ret (o'\<lparr>dynamicConfigSettings := dynamicConfigSettings o' @ [(setting, v)]\<rparr>)))"

fun apply_options :: "TestOption list \<Rightarrow> testOptions \<Rightarrow> testOptions outcome" where
  "apply_options [] o' = Ret o'"
| "apply_options (opt # opts) o' = and_then (opt o') (apply_options opts)"

text \<open>The settings of a dedicated cluster, collected in a map, with the guard.\<close>

fun startup_config ::
    "(generic_setting \<times> dyn_value) list \<Rightarrow> (string \<times> dyn_value) list \<Rightarrow> dedicatedClusterGuard
     \<Rightarrow> (string \<times> dyn_value) list \<times> dedicatedClusterGuard" where
  "startup_config [] m u = (m, u)"
| "startup_config ((setting, v) # rest) m u =
     startup_config rest (AList.update (setting_Key setting) v m)
       (if \<not> canBeNamespaceScoped (setting_Precedence setting) then guard_record ''global dynamic config used'' u else u)"

section \<open>The environment of a test\<close>

text \<open>What a test has registered with \<^verbatim>\<open>t.Cleanup\<close>; the last one runs first.\<close>

datatype env_cleanup = Pool_cleanup cleanup | Validate_guard | Restore_config nat | Remove_hook nat | Clear_authorize
  | Clear_claims | Stop_capture nat | Check_and_stop_capture nat | Close_client handle | Stop_worker handle

record test_env =
  env_base :: FunctionalTestBase
  env_cluster :: handle
  nsName :: string
  nsID :: string
  env_poller :: string
  dedicatedGuard :: dedicatedClusterGuard
  sdkClientOnce :: bool
  env_sdkClient :: "handle option"
  sdkWorkerOnce :: bool
  env_sdkWorker :: "handle option"
  sdkWorkerTQ :: string
  cleanups_of :: "env_cleanup list"

text \<open>
  \<open>OverrideDynamicConfig\<close>: on a shared cluster every value is confined to the namespace of the test, also when it comes
  as a list with constraints of its own; settings that cannot be confined are refused.
\<close>

fun confine :: "string \<Rightarrow> dyn_value \<Rightarrow> dyn_value" where
  "confine ns (VConstrained cvs) = VConstrained (map (\<lambda>(_, other, v). (ns, other, v)) cvs)"
| "confine ns v = VConstrained [(ns, 0, v)]"

definition env_OverrideDynamicConfig ::
    "'c config_store \<Rightarrow> generic_setting \<Rightarrow> dyn_value \<Rightarrow> test_env \<Rightarrow> 'c \<Rightarrow> nat outcome \<times> test_env \<times> 'c" where
  "env_OverrideDynamicConfig st setting v e c =
     (if isShared (env_base e) \<and> \<not> canBeNamespaceScoped (setting_Precedence setting) then
        (Panic (''OverrideDynamicConfig for setting '' @ setting_Key setting @
           '' cannot be called on a shared cluster; use testcore.WithDedicatedCluster()''), e, c)
      else
        let v = (if isShared (env_base e) then confine (nsName e) v else v);
            e = (if \<not> isShared (env_base e) \<and> \<not> canBeNamespaceScoped (setting_Precedence setting)
                 then e\<lparr>dedicatedGuard := guard_record ''global dynamic config used'' (dedicatedGuard e)\<rparr> else e);
            (cleanup, c) = cs_override st (setting_Key setting) v c
        in (Ret cleanup, e\<lparr>cleanups_of := Restore_config cleanup # cleanups_of e\<rparr>, c))"

fun override_settings ::
    "'c config_store \<Rightarrow> (generic_setting \<times> dyn_value) list \<Rightarrow> test_env \<Rightarrow> 'c \<Rightarrow> unit outcome \<times> test_env \<times> 'c" where
  "override_settings st [] e c = (Ret (), e, c)"
| "override_settings st ((setting, v) # rest) e c =
     (case env_OverrideDynamicConfig st setting v e c of
        (Ret _, e, c) \<Rightarrow> override_settings st rest e c
      | (Panic msg, e, c) \<Rightarrow> (Panic msg, e, c)
      | (Hang, e, c) \<Rightarrow> (Hang, e, c))"

text \<open>
  \<open>base_of\<close> is the base of the cluster with a given number, \<open>host_of\<close> as for the suites. The cleanup functions
  registered so far are returned also when the test ends here.
\<close>

definition NewEnv ::
    "'d test_ops \<Rightarrow> 'c config_store \<Rightarrow> (string \<Rightarrow> string) \<Rightarrow> (byte list \<Rightarrow> u32) \<Rightarrow> string
     \<Rightarrow> (nat \<Rightarrow> FunctionalTestBase) \<Rightarrow> (handle \<Rightarrow> string \<times> string \<times> 'h TemporalImpl) \<Rightarrow> string list
     \<Rightarrow> string \<Rightarrow> TestOption list \<Rightarrow> clusterPool \<times> world \<Rightarrow> 'c \<Rightarrow> 'd
     \<Rightarrow> test_env outcome \<times> env_cleanup list \<times> (clusterPool \<times> world) \<times> 'c \<times> 'd" where
  "NewEnv ops st Getenv Fingerprint32 shardSalt base_of host_of expected name opts pools c d =
     (case checkTestShard Getenv Fingerprint32 shardSalt name of
        Skipped \<Rightarrow> (Panic ''skipped'', [], pools, c, d)
      | Fatal msg \<Rightarrow> (Panic msg, [], pools, c, d)
      | Runs \<Rightarrow>
     (case apply_options opts no_options of
        Panic msg \<Rightarrow> (Panic msg, [], pools, c, d)
      | Hang \<Rightarrow> (Hang, [], pools, c, d)
      | Ret options \<Rightarrow>
     (let guard = newDedicatedClusterGuard (dedicatedCluster options);
          guard = (if dedicatedReason options \<noteq> '''' then guard_record (dedicatedReason options) guard else guard);
          (startupConfig, guard) = (if dedicatedCluster options \<and> length (dynamicConfigSettings options) > 0
             then startup_config (dynamicConfigSettings options) [] guard else ([], guard));
          custom = (length startupConfig > 0 \<or> length (clusterOptions options) > 0)
      in case clusterPool_get name (dedicatedCluster options) custom (fst pools) (snd pools) of
        (Panic msg, pools) \<Rightarrow> (Panic msg, [], pools, c, d)
      | (Hang, pools) \<Rightarrow> (Hang, [], pools, c, d)
      | (Ret (n, cs), pools) \<Rightarrow>
     (let registered = rev (map Pool_cleanup cs); base = base_of n
      in case testCluster base of
        None \<Rightarrow> (Panic ''nil pointer dereference'', registered, pools, c, d)
      | Some cluster \<Rightarrow>
     (let (current, adminAPI, host) = host_of cluster;
          (uuid, d) = op_uuid ops d;
          ns = RandomizeStr (ReplaceAll_char (CHR ''/'') (CHR ''-'') name) uuid
      in case RegisterNamespace ops current adminAPI host expected ns 1 ARCHIVAL_STATE_DISABLED [] [] d of
        (Panic msg, d) \<Rightarrow> (Panic msg, registered, pools, c, d)
      | (Hang, d) \<Rightarrow> (Hang, registered, pools, c, d)
      | (Ret (Inl err), d) \<Rightarrow> (Panic (''Failed to register namespace: '' @ error_text err), registered, pools, c, d)
      | (Ret (Inr nsId), d) \<Rightarrow>
     (let (uuid, d) = op_uuid ops d;
          env = \<lparr>env_base = base, env_cluster = cluster, nsName = ns, nsID = nsId, env_poller = ns, dedicatedGuard = guard,
                 sdkClientOnce = False, env_sdkClient = None, sdkWorkerOnce = False, env_sdkWorker = None,
                 sdkWorkerTQ = RandomizeStr (''tq-'' @ name) uuid, cleanups_of = Validate_guard # registered\<rparr>;
          (out, env, c) = (if \<not> dedicatedCluster options \<and> length (dynamicConfigSettings options) > 0
             then override_settings st (dynamicConfigSettings options) env c else (Ret (), env, c))
      in (and_then out (\<lambda>_. Ret env), cleanups_of env, pools, c, d)))))))"

section \<open>Operations of a test\<close>

text \<open>\<open>applies\<close> is \<^verbatim>\<open>hook.Apply\<close>, whose result is the function that removes the hook.\<close>

definition env_InjectHook ::
    "(scope_value \<Rightarrow> 'd \<Rightarrow> nat \<times> 'd) \<Rightarrow> hook_scope \<Rightarrow> test_env \<Rightarrow> 'd \<Rightarrow> nat outcome \<times> test_env \<times> 'd" where
  "env_InjectHook applies sc e d =
     (let inject = (\<lambda>scope e. let (cleanup, d) = applies scope d
                      in (Ret cleanup, e\<lparr>cleanups_of := Remove_hook cleanup # cleanups_of e\<rparr>, d))
      in case sc of
        ScopeNamespace \<Rightarrow> inject (NamespaceScope (nsID e)) e
      | ScopeGlobal \<Rightarrow>
          if isShared (env_base e)
          then (Panic ''InjectHook: global hooks require a dedicated cluster; use testcore.WithDedicatedCluster()'', e, d)
          else inject GlobalScope (e\<lparr>dedicatedGuard := guard_record ''global hook injected'' (dedicatedGuard e)\<rparr>)
      | OtherScope _ \<Rightarrow> (Panic ''InjectHook: unknown scope'', e, d))"

definition env_SetOnAuthorize ::
    "authorize_fun \<Rightarrow> test_env \<Rightarrow> 'h TemporalImpl \<Rightarrow> unit outcome \<times> test_env \<times> 'h TemporalImpl" where
  "env_SetOnAuthorize fn e host =
     (if isShared (env_base e)
      then (Panic ''SetOnAuthorize cannot be called on a shared cluster; use testcore.WithDedicatedCluster()'', e, host)
      else (Ret (), e\<lparr>dedicatedGuard := guard_record ''authorization callback'' (dedicatedGuard e),
                      cleanups_of := Clear_authorize # cleanups_of e\<rparr>, SetOnAuthorize (Some fn) host))"

definition env_SetOnGetClaims ::
    "claims_fun \<Rightarrow> test_env \<Rightarrow> 'h TemporalImpl \<Rightarrow> unit outcome \<times> test_env \<times> 'h TemporalImpl" where
  "env_SetOnGetClaims fn e host =
     (if isShared (env_base e)
      then (Panic ''SetOnGetClaims cannot be called on a shared cluster; use testcore.WithDedicatedCluster()'', e, host)
      else (Ret (), e\<lparr>dedicatedGuard := guard_record ''authorization callback'' (dedicatedGuard e),
                      cleanups_of := Clear_claims # cleanups_of e\<rparr>, SetOnGetClaims (Some fn) host))"

text \<open>
  \<open>StartCapture\<close> of the metrics handler numbers its captures; there is no handler when metrics capture is not enabled.
\<close>

definition StartGlobalMetricCapture ::
    "('d \<Rightarrow> nat \<times> 'd) option \<Rightarrow> test_env \<Rightarrow> 'd \<Rightarrow> (nat \<times> GlobalMetricCapture) outcome \<times> test_env \<times> 'd" where
  "StartGlobalMetricCapture handler e d =
     (if isShared (env_base e)
      then (Panic ''StartGlobalMetricCapture cannot be called on a shared cluster; use testcore.WithDedicatedCluster()'', e, d)
      else let e = e\<lparr>dedicatedGuard := guard_record ''global metric capture'' (dedicatedGuard e)\<rparr>
      in case handler of
        None \<Rightarrow> (Panic ''StartGlobalMetricCapture is unavailable because metrics capture is not enabled on this cluster'', e, d)
      | Some StartCapture \<Rightarrow>
          (let (capture, d) = StartCapture d
           in (Ret (capture, newGlobalMetricCapture), e\<lparr>cleanups_of := Check_and_stop_capture capture # cleanups_of e\<rparr>, d)))"

definition StartNamespaceMetricCaptureFor ::
    "('d \<Rightarrow> nat \<times> 'd) option \<Rightarrow> string \<Rightarrow> test_env \<Rightarrow> 'd \<Rightarrow> (nat \<times> string) outcome \<times> test_env \<times> 'd" where
  "StartNamespaceMetricCaptureFor handler namespaceName e d =
     (case handler of
        None \<Rightarrow> (Panic ''StartNamespaceMetricCapture is unavailable because metrics capture is not enabled on this cluster'', e, d)
      | Some StartCapture \<Rightarrow>
          (let (capture, d) = StartCapture d
           in (Ret (capture, namespaceName), e\<lparr>cleanups_of := Stop_capture capture # cleanups_of e\<rparr>, d)))"

definition StartNamespaceMetricCapture ::
    "('d \<Rightarrow> nat \<times> 'd) option \<Rightarrow> test_env \<Rightarrow> 'd \<Rightarrow> (nat \<times> string) outcome \<times> test_env \<times> 'd" where
  "StartNamespaceMetricCapture handler e d = StartNamespaceMetricCaptureFor handler (nsName e) e d"

text \<open>The shard number and the RPC as for the suites.\<close>

definition env_CloseShard ::
    "(string \<Rightarrow> string \<Rightarrow> int \<Rightarrow> int) \<Rightarrow> (int \<Rightarrow> 'd \<Rightarrow> go_error option \<times> 'd) \<Rightarrow> string \<Rightarrow> string \<Rightarrow> test_env \<Rightarrow> 'd
     \<Rightarrow> unit outcome \<times> test_env \<times> 'd" where
  "env_CloseShard shard_of close namespaceID workflowID e d =
     (if isShared (env_base e)
      then (Panic ''CloseShard cannot be called on a shared cluster; use testcore.WithDedicatedCluster()'', e, d)
      else let e = e\<lparr>dedicatedGuard := guard_record ''shard closed'' (dedicatedGuard e)\<rparr>;
               (out, d) = CloseShard shard_of close (env_base e) namespaceID workflowID d
           in (out, e, d))"

text \<open>
  Waiting on a channel with the test's context, and sending on it: \<open>ready\<close> when the other side is there, \<open>expired\<close> when
  the context is done; when both hold Go chooses (\<open>choice\<close>), when neither does the test waits.
\<close>

definition env_WaitForChannel :: "bool \<Rightarrow> bool \<Rightarrow> bool \<Rightarrow> unit outcome" where
  "env_WaitForChannel ready expired choice =
     (if ready \<and> (expired \<longrightarrow> choice) then Ret ()
      else if expired then Panic ''context timeout while waiting for channel'' else Hang)"

definition env_SendToChannel :: "bool \<Rightarrow> bool \<Rightarrow> bool \<Rightarrow> unit outcome" where
  "env_SendToChannel ready expired choice =
     (if ready \<and> (expired \<longrightarrow> choice) then Ret ()
      else if expired then Panic ''context timeout while sending to channel'' else Hang)"

text \<open>The client and the worker are created by the first call only, also when that call has failed the test.\<close>

definition env_SdkClient ::
    "'d sdk_ops \<Rightarrow> string \<Rightarrow> handle option \<Rightarrow> test_env \<Rightarrow> 'd \<Rightarrow> handle option outcome \<times> test_env \<times> 'd" where
  "env_SdkClient sdk proxyAddr tls e d =
     (if sdkClientOnce e then (Ret (env_sdkClient e), e, d)
      else let e = e\<lparr>sdkClientOnce := True\<rparr>
      in case sdk_Dial sdk proxyAddr (nsName e) tls d of
        (Inl err, d) \<Rightarrow> (Panic (''Failed to create SDK client: '' @ error_text err), e, d)
      | (Inr client, d) \<Rightarrow>
          (Ret (Some client), e\<lparr>env_sdkClient := Some client, cleanups_of := Close_client client # cleanups_of e\<rparr>, d))"

definition env_SdkWorker ::
    "'d sdk_ops \<Rightarrow> string \<Rightarrow> handle option \<Rightarrow> test_env \<Rightarrow> 'd \<Rightarrow> handle option outcome \<times> test_env \<times> 'd" where
  "env_SdkWorker sdk proxyAddr tls e d =
     (if sdkWorkerOnce e then (Ret (env_sdkWorker e), e, d)
      else case env_SdkClient sdk proxyAddr tls (e\<lparr>sdkWorkerOnce := True\<rparr>) d of
        (Ret (Some client), e, d) \<Rightarrow>
          (let worker = sdk_NewWorker sdk client (sdkWorkerTQ e);
               e = e\<lparr>env_sdkWorker := Some worker\<rparr>
           in case sdk_Start sdk worker d of
             (Some err, d) \<Rightarrow> (Panic (''Failed to start SDK worker: '' @ error_text err), e, d)
           | (None, d) \<Rightarrow> (Ret (Some worker), e\<lparr>cleanups_of := Stop_worker worker # cleanups_of e\<rparr>, d))
      | (Ret None, e, d) \<Rightarrow> (Panic ''nil pointer dereference'', e, d)
      | (Panic msg, e, d) \<Rightarrow> (Panic msg, e, d)
      | (Hang, e, d) \<Rightarrow> (Hang, e, d))"

section \<open>The guard\<close>

lemma guard_record_validates: "reason \<noteq> '''' \<Longrightarrow> guard_validate (guard_record reason u) = None"
  by (simp add: guard_record_def guard_validate_def)

lemma guard_record_keeps: "guard_validate u = None \<Longrightarrow> guard_validate (guard_record reason u) = None"
  by (auto simp: guard_record_def guard_validate_def)

lemma startup_config_guard:
  "guard_validate u = None \<or> (\<exists>x\<in>set xs. \<not> canBeNamespaceScoped (setting_Precedence (fst x))) \<Longrightarrow>
   guard_validate (snd (startup_config xs m u)) = None"
proof (induction xs m u rule: startup_config.induct)
  case (2 setting v rest m u)
  then show ?case
    by (cases "canBeNamespaceScoped (setting_Precedence setting)")
      (auto simp: guard_record_keeps guard_record_validates)
qed simp

text \<open>
  Options never leave a dedicated cluster unexplained, except for the plain request of one: the invariant of the options.
\<close>

definition explained :: "testOptions \<Rightarrow> bool" where
  "explained o' \<longleftrightarrow> dedicatedCluster o' \<longrightarrow> dedicatedReason o' \<noteq> '''' \<or>
     (\<exists>x\<in>set (dynamicConfigSettings o'). \<not> canBeNamespaceScoped (setting_Precedence (fst x)))"

lemma explained_options [inv_intros]:
  "explained o' \<Longrightarrow> WithSdkWorker o' = Ret o2 \<Longrightarrow> explained o2"
  "explained o' \<Longrightarrow> WithFxOptions sv opts o' = Ret o2 \<Longrightarrow> explained o2"
  "explained o' \<Longrightarrow> WithWorkerService reason o' = Ret o2 \<Longrightarrow> explained o2"
  "explained o' \<Longrightarrow> WithPersistenceFaultInjection cfg o' = Ret o2 \<Longrightarrow> explained o2"
  "explained o' \<Longrightarrow> WithDynamicConfig setting v o' = Ret o2 \<Longrightarrow> explained o2"
  by (auto simp: explained_def WithSdkWorker_def WithFxOptions_def WithWorkerService_def WithPersistenceFaultInjection_def
      WithDynamicConfig_def Let_def split: option.splits if_splits)

lemma explained_guard:
  assumes "explained o'"
  shows "guard_validate (snd (startup_config (dynamicConfigSettings o') m
    (if dedicatedReason o' \<noteq> '''' then guard_record (dedicatedReason o') (newDedicatedClusterGuard (dedicatedCluster o'))
     else newDedicatedClusterGuard (dedicatedCluster o')))) = None"
  using assms
  by (intro startup_config_guard)
    (auto simp: explained_def guard_validate_def newDedicatedClusterGuard_def guard_record_def)

section \<open>The order of the clean-up\<close>

text \<open>
  A test that has started a worker stops it before it closes the client the worker uses: cleanup functions run last
  registered first.
\<close>

lemma worker_stopped_before_client_closed:
  assumes "env_SdkWorker sdk addr tls e d = (Ret (Some w), e', d')" "\<not> sdkWorkerOnce e" "\<not> sdkClientOnce e"
  shows "\<exists>client. cleanups_of e' = Stop_worker w # Close_client client # cleanups_of e \<and> w = sdk_NewWorker sdk client (sdkWorkerTQ e)"
  using assms
  by (auto simp: env_SdkWorker_def env_SdkClient_def Let_def split: prod.splits sum.splits option.splits outcome.splits)

lemma client_created_once:
  "env_SdkClient sdk addr tls e d = (out, e', d') \<Longrightarrow> env_SdkClient sdk addr' tls' e' d2 = (Ret (env_sdkClient e'), e', d2)"
  by (auto simp: env_SdkClient_def Let_def split: prod.splits sum.splits if_splits)

section \<open>Properties\<close>

text \<open>
  Every test runs in exactly one shard. When the runs of a test suite are told the same number of shards and each its
  own index, then, whatever the name of the test, the hash and the salt, one of the runs executes the test and all
  others skip it; a run with an index outside the shards fails, so that no test is left out silently.
\<close>

theorem each_test_in_one_shard:
  assumes "1 \<le> n" "n < 2 ^ 63"
    and "\<forall>j. Getenv j ''TEST_TOTAL_SHARDS'' = Itoa n \<and> Getenv j ''TEST_SHARD_INDEX'' = Itoa j"
  shows "(\<exists>i\<in>{0..<n}. \<forall>j\<in>{0..<n}.
      checkTestShard (Getenv j) Fingerprint32 shardSalt name = (if j = i then Runs else Skipped)) \<and>
    (\<forall>j. - (2 ^ 63) \<le> j \<longrightarrow> j < 2 ^ 63 \<longrightarrow> j \<notin> {0..<n} \<longrightarrow>
      checkTestShard (Getenv j) Fingerprint32 shardSalt name = Fatal ''Couldn't convert TEST_SHARD_INDEX'')"
proof -
  define i where "i = uint (Fingerprint32 (bytes_of_string (name @ TrimSpace shardSalt))) mod n"
  have "i \<in> {0..<n}"
    using assms(1) by (simp add: i_def)
  moreover have "checkTestShard (Getenv j) Fingerprint32 shardSalt name = (if j = i then Runs else Skipped)" if "j \<in> {0..<n}" for j
    using assms that Atoi_Itoa[of n] Atoi_Itoa[of j] by (simp add: checkTestShard_def i_def)
  moreover have "checkTestShard (Getenv j) Fingerprint32 shardSalt name = Fatal ''Couldn't convert TEST_SHARD_INDEX''"
    if "- (2 ^ 63) \<le> j" "j < 2 ^ 63" "j \<notin> {0..<n}" for j
    using assms that Atoi_Itoa[of n] Atoi_Itoa[of j] by (auto simp: checkTestShard_def)
  ultimately show ?thesis
    by blast
qed

definition example_getenv :: "int \<Rightarrow> string \<Rightarrow> string" where
  "example_getenv j k =
     (if k = ''TEST_TOTAL_SHARDS'' then Itoa 3 else if k = ''TEST_SHARD_INDEX'' then Itoa j else '''')"

theorem each_test_in_one_shard_witness:
  "checkTestShard (example_getenv 2) (\<lambda>bs. of_nat (length bs)) '' -salt-0 '' ''TestA'' = Skipped \<and>
   (\<exists>i\<in>{0..<3}. checkTestShard (example_getenv i) (\<lambda>bs. of_nat (length bs)) '' -salt-0 '' ''TestA'' = Runs)"
proof -
  have "\<forall>j. example_getenv j ''TEST_TOTAL_SHARDS'' = Itoa 3 \<and> example_getenv j ''TEST_SHARD_INDEX'' = Itoa j"
    by (simp add: example_getenv_def)
  then have "\<exists>i\<in>{0..<3}. \<forall>j\<in>{0..<3}. checkTestShard (example_getenv j) (\<lambda>bs. of_nat (length bs)) '' -salt-0 '' ''TestA'' =
      (if j = i then Runs else Skipped)"
    by (intro each_test_in_one_shard[THEN conjunct1]) simp_all
  moreover have "checkTestShard (example_getenv 2) (\<lambda>bs. of_nat (length bs)) '' -salt-0 '' ''TestA'' = Skipped"
    by code_simp
  ultimately show ?thesis
    by (metis shard_decision.distinct(1))
qed

end
