(* ===== verification/TestIsolation.thy ===== *)
theory TestIsolation
  imports TestEnv
begin

text \<open>
  Tests that share a cluster do not disturb each other's configuration: their overrides are interleaved in any order, and
  what the server reads for the namespace of a test is what it would read if the test ran alone.
\<close>

section \<open>Tests on one cluster\<close>

datatype env_op = Env_override nat generic_setting dyn_value | Env_cleanup nat nat | Env_end nat

fun op_test :: "env_op \<Rightarrow> nat" where
  "op_test (Env_override t _ _) = t"
| "op_test (Env_cleanup t _) = t"
| "op_test (Env_end t) = t"

fun restore_of :: "env_cleanup \<Rightarrow> nat option" where
  "restore_of (Restore_config i) = Some i"
| "restore_of _ = None"

definition restores :: "test_env \<Rightarrow> nat list" where
  "restores e = List.map_filter restore_of (cleanups_of e)"

text \<open>
  A test overrides a setting, calls the function it got for one of its overrides, counted from the newest, or ends. An
  override that is refused stops the test; it ends some time later.
\<close>

fun env_step :: "'c config_store \<Rightarrow> env_op \<Rightarrow> (nat \<Rightarrow> test_env) \<times> 'c \<Rightarrow> (nat \<Rightarrow> test_env) \<times> 'c" where
  "env_step st (Env_override t setting v) (E, c) =
     (case env_OverrideDynamicConfig st setting v (E t) c of (_, e, c) \<Rightarrow> (E(t := e), c))"
| "env_step st (Env_cleanup t n) (E, c) =
     (E, if n < length (restores (E t)) then cs_cleanup st (restores (E t) ! n) c else c)"
| "env_step st (Env_end t) (E, c) = (E(t := (E t)\<lparr>cleanups_of := []\<rparr>), run_cleanups st (restores (E t)) c)"

text \<open>
  What can be read under a namespace: values for any namespace and values for this one. \<open>local_lookup\<close> is what is used
  of the server: a setting that is looked up under a namespace depends on the live values for it only.
\<close>

fun visible_to :: "string \<Rightarrow> dyn_value \<Rightarrow> bool" where
  "visible_to ns (VConstrained cvs) = (\<exists>(n, _, _)\<in>set cvs. n = '''' \<or> n = ns)"
| "visible_to ns _ = True"

definition visible :: "'c config_store \<Rightarrow> string \<Rightarrow> 'c \<Rightarrow> (string \<times> dyn_value) list" where
  "visible st ns c = filter (\<lambda>x. visible_to ns (snd x)) (map snd (cs_stack st c))"

definition local_lookup :: "'c config_store \<Rightarrow> (string \<Rightarrow> 'q \<Rightarrow> 'c \<Rightarrow> 'r) \<Rightarrow> bool" where
  "local_lookup st lookup \<longleftrightarrow> (\<forall>ns q c c'. visible st ns c = visible st ns c' \<longrightarrow> lookup ns q c = lookup ns q c')"

section \<open>The live overrides of a test\<close>

text \<open>For each override of a test, the newest first, whether it is still there.\<close>

definition own :: "'c config_store \<Rightarrow> nat \<Rightarrow> (nat \<Rightarrow> test_env) \<times> 'c \<Rightarrow> (string \<times> dyn_value) option list" where
  "own st t s = map (map_of (cs_stack st (snd s))) (restores (fst s t))"

fun own_op :: "string \<Rightarrow> env_op \<Rightarrow> (string \<times> dyn_value) option list \<Rightarrow> (string \<times> dyn_value) option list" where
  "own_op ns (Env_override t setting v) xs =
     (if canBeNamespaceScoped (setting_Precedence setting) then Some (setting_Key setting, confine ns v) # xs else xs)"
| "own_op ns (Env_cleanup t n) xs = xs[n := None]"
| "own_op ns (Env_end t) xs = []"

definition confined :: "string \<Rightarrow> dyn_value \<Rightarrow> bool" where
  "confined ns v \<longleftrightarrow> (\<exists>cvs. v = VConstrained cvs \<and> (\<forall>(n, _, _)\<in>set cvs. n = ns))"

lemma confined_confine: "confined ns (confine ns v)"
  by (cases v) (auto simp: confined_def)

lemma confined_invisible: "confined ns' v \<Longrightarrow> ns' \<noteq> ns \<Longrightarrow> ns' \<noteq> '''' \<Longrightarrow> \<not> visible_to ns v"
  by (auto simp: confined_def)

definition desc :: "nat list \<Rightarrow> bool" where
  "desc = sorted_wrt (>)"

text \<open>
  \<open>ns\<close> gives the namespaces of the tests; \<open>base\<close> is the stack of the cluster before the tests, when \<open>n0\<close> cleanup functions
  had been issued.
\<close>

definition shared_inv ::
    "'c config_store \<Rightarrow> (nat \<Rightarrow> string) \<Rightarrow> nat \<Rightarrow> (nat \<times> string \<times> dyn_value) list \<Rightarrow> (nat \<Rightarrow> test_env) \<times> 'c \<Rightarrow> bool" where
  "shared_inv st ns n0 base s \<longleftrightarrow>
     (\<forall>t. isShared (env_base (fst s t)) \<and> nsName (fst s t) = ns t \<and> desc (restores (fst s t)) \<and>
        (\<forall>i\<in>set (restores (fst s t)). n0 \<le> i \<and> i < cs_issued st (snd s))) \<and>
     (\<forall>t t'. t \<noteq> t' \<longrightarrow> set (restores (fst s t)) \<inter> set (restores (fst s t')) = {}) \<and>
     desc (map fst (cs_stack st (snd s))) \<and>
     (\<exists>new. cs_stack st (snd s) = new @ base \<and>
        (\<forall>e\<in>set new. fst e < cs_issued st (snd s) \<and> (\<exists>t. fst e \<in> set (restores (fst s t)) \<and> confined (ns t) (snd (snd e))))) \<and>
     n0 \<le> cs_issued st (snd s) \<and> (\<forall>e\<in>set base. fst e < n0)"

lemma desc_distinct: "desc xs \<Longrightarrow> distinct xs"
  unfolding desc_def by (induction xs) auto

lemma desc_Cons: "desc (x # xs) \<longleftrightarrow> (\<forall>y\<in>set xs. y < x) \<and> desc xs"
  by (auto simp: desc_def)

lemma desc_filter: "desc (map fst xs) \<Longrightarrow> desc (map fst (filter P xs))"
  unfolding desc_def sorted_wrt_map by (rule sorted_wrt_filter)

lemma map_of_filter_fst: "map_of (filter (\<lambda>e. fst e \<in> S) xs) i = (if i \<in> S then map_of xs i else None)"
  by (induction xs) auto

lemma restores_override:
  "env_OverrideDynamicConfig st setting v e c = (out, e', c') \<Longrightarrow> isShared (env_base e) \<Longrightarrow> store_ok st \<Longrightarrow>
   env_base e' = env_base e \<and> nsName e' = nsName e \<and>
   (if canBeNamespaceScoped (setting_Precedence setting)
    then restores e' = cs_issued st c # restores e \<and> cs_issued st c' = Suc (cs_issued st c) \<and>
      cs_stack st c' = (cs_issued st c, setting_Key setting, confine (nsName e) v) # cs_stack st c
    else e' = e \<and> c' = c)"
  using store_override(1-3)[of st "setting_Key setting" "confine (nsName e) v" c]
  by (auto simp: env_OverrideDynamicConfig_def restores_def map_filter_simps Let_def split: if_splits prod.splits)

lemma shared_invE:
  assumes "shared_inv st ns n0 base (E, c)"
  obtains new where "cs_stack st c = new @ base"
    "\<forall>e\<in>set new. fst e < cs_issued st c \<and> (\<exists>t. fst e \<in> set (restores (E t)) \<and> confined (ns t) (snd (snd e)))"
    and "\<forall>e\<in>set base. fst e < n0" "n0 \<le> cs_issued st c"
    and "\<forall>t. isShared (env_base (E t)) \<and> nsName (E t) = ns t \<and> desc (restores (E t)) \<and>
      (\<forall>i\<in>set (restores (E t)). n0 \<le> i \<and> i < cs_issued st c)"
    and "\<forall>t t'. t \<noteq> t' \<longrightarrow> set (restores (E t)) \<inter> set (restores (E t')) = {}"
    and "desc (map fst (cs_stack st c))"
  using assms unfolding shared_inv_def by auto

lemma new_override_owned:
  assumes "\<forall>e\<in>set new. fst e < i \<and> (\<exists>t. fst e \<in> set (restores (E t)) \<and> confined (ns t) (snd (snd e)))"
    and "\<And>u. set (restores (E u)) \<subseteq> set (restores (E' u))" "i \<in> set (restores (E' t))"
  shows "\<forall>e\<in>set ((i, k, confine (ns t) v) # new).
    fst e < Suc i \<and> (\<exists>t. fst e \<in> set (restores (E' t)) \<and> confined (ns t) (snd (snd e)))"
proof
  fix e assume e: "e \<in> set ((i, k, confine (ns t) v) # new)"
  show "fst e < Suc i \<and> (\<exists>t. fst e \<in> set (restores (E' t)) \<and> confined (ns t) (snd (snd e)))"
  proof (cases "e \<in> set new")
    case True
    then show ?thesis
      using assms(1,2) by (meson less_SucI subsetD)
  next
    case False
    then have "fst e = i" "confined (ns t) (snd (snd e))"
      using e by (simp_all add: confined_confine)
    then show ?thesis
      using assms(3) by auto
  qed
qed

lemma shared_inv_override:
  assumes "store_ok st" "shared_inv st ns n0 base (E, c)"
  shows "shared_inv st ns n0 base (env_step st (Env_override t setting v) (E, c))"
proof -
  obtain out e' c' where o: "env_OverrideDynamicConfig st setting v (E t) c = (out, e', c')"
    by (metis prod_cases3)
  have sh: "isShared (env_base (E t))" and nm: "nsName (E t) = ns t"
    using assms(2) by (simp_all add: shared_inv_def)
  note r = restores_override[OF o sh assms(1)]
  show ?thesis
  proof (cases "canBeNamespaceScoped (setting_Precedence setting)")
    case False
    then show ?thesis
      using r o assms(2) by simp
  next
    case True
    let ?i = "cs_issued st c"
    have res: "restores e' = ?i # restores (E t)" "cs_issued st c' = Suc ?i"
      and st': "cs_stack st c' = (?i, setting_Key setting, confine (ns t) v) # cs_stack st c"
      and fr: "env_base e' = env_base (E t)" "nsName e' = ns t"
      using r True nm by simp_all
    from shared_invE[OF assms(2)] obtain new where new: "cs_stack st c = new @ base"
      "\<forall>e\<in>set new. fst e < ?i \<and> (\<exists>t. fst e \<in> set (restores (E t)) \<and> confined (ns t) (snd (snd e)))"
      and base: "\<forall>e\<in>set base. fst e < n0" "n0 \<le> ?i"
      and tests: "\<forall>t. isShared (env_base (E t)) \<and> nsName (E t) = ns t \<and> desc (restores (E t)) \<and>
        (\<forall>i\<in>set (restores (E t)). n0 \<le> i \<and> i < ?i)"
      and disj: "\<forall>t t'. t \<noteq> t' \<longrightarrow> set (restores (E t)) \<inter> set (restores (E t')) = {}"
      and dsc: "desc (map fst (cs_stack st c))" .
    let ?E = "E(t := e')"
    have "set (restores (E u)) \<subseteq> set (restores (?E u))" for u
      by (auto simp: res)
    then have "\<forall>e\<in>set ((?i, setting_Key setting, confine (ns t) v) # new).
        fst e < Suc ?i \<and> (\<exists>t. fst e \<in> set (restores (?E t)) \<and> confined (ns t) (snd (snd e)))"
      by (intro new_override_owned[OF new(2)]) (auto simp: res)
    moreover have "desc (map fst (cs_stack st c'))"
      using dsc new base by (auto simp: st' desc_Cons)
    moreover have "set (restores (?E u)) \<inter> set (restores (?E u')) = {}" if "u \<noteq> u'" for u u'
      using disj tests that by (auto simp: res)
    moreover have "desc (restores (?E u)) \<and> (\<forall>i\<in>set (restores (?E u)). n0 \<le> i \<and> i < Suc ?i)" for u
      using tests base(2) by (auto simp: res desc_Cons less_Suc_eq)
    ultimately show ?thesis
      using o tests base new(1) fr
      by (auto simp: shared_inv_def res(2) st' intro!: exI[of _ "(?i, setting_Key setting, confine (ns t) v) # new"])
  qed
qed

lemma shared_inv_cleanups:
  assumes "store_ok st" "shared_inv st ns n0 base (E, c)" "set is \<subseteq> set (restores (E t))"
    and "\<And>u. env_base (E' u) = env_base (E u) \<and> nsName (E' u) = nsName (E u)"
    and "\<And>u. restores (E' u) = restores (E u) \<or> u = t \<and> restores (E' u) = [] \<and> set (restores (E u)) \<subseteq> set is"
  shows "shared_inv st ns n0 base (E', run_cleanups st is c)"
proof -
  from shared_invE[OF assms(2)] obtain new where new: "cs_stack st c = new @ base"
    "\<forall>e\<in>set new. fst e < cs_issued st c \<and> (\<exists>t. fst e \<in> set (restores (E t)) \<and> confined (ns t) (snd (snd e)))"
    and base: "\<forall>e\<in>set base. fst e < n0" "n0 \<le> cs_issued st c"
    and tests: "\<forall>t. isShared (env_base (E t)) \<and> nsName (E t) = ns t \<and> desc (restores (E t)) \<and>
        (\<forall>i\<in>set (restores (E t)). n0 \<le> i \<and> i < cs_issued st c)"
    and disj: "\<forall>t t'. t \<noteq> t' \<longrightarrow> set (restores (E t)) \<inter> set (restores (E t')) = {}"
    and dsc: "desc (map fst (cs_stack st c))" .
  note run = run_cleanups_stack[OF assms(1), of "is" c]
  have "filter (\<lambda>e. fst e \<notin> set is) base = base"
    using base(1) tests assms(3) by (fastforce simp: filter_id_conv)
  then have stack: "cs_stack st (run_cleanups st is c) = filter (\<lambda>e. fst e \<notin> set is) new @ base"
    by (simp add: run new(1))
  have sub: "set (restores (E' u)) \<subseteq> set (restores (E u))" "desc (restores (E' u))" for u
    using assms(5)[of u] tests by (auto simp: desc_def)
  have keep: "\<exists>u. fst e \<in> set (restores (E' u)) \<and> confined (ns u) (snd (snd e))"
    if "e \<in> set new" "fst e \<notin> set is" for e
    using new(2) that assms(5) by (metis subsetD)
  show ?thesis
    unfolding shared_inv_def fst_conv snd_conv
  proof (intro conjI allI impI exI[of _ "filter (\<lambda>e. fst e \<notin> set is) new"])
    fix u u' :: nat assume "u \<noteq> u'"
    then show "set (restores (E' u)) \<inter> set (restores (E' u')) = {}"
      using disj sub(1) by (meson disjoint_iff subsetD)
  next
    show "desc (map fst (cs_stack st (run_cleanups st is c)))"
      using dsc by (simp add: run desc_filter)
  next
    fix u
    show "\<forall>i\<in>set (restores (E' u)). n0 \<le> i \<and> i < cs_issued st (run_cleanups st is c)"
      using tests sub(1)[of u] run by (metis subsetD)
  qed (use tests base stack keep sub(2) assms(4) run new(2) in auto)
qed

lemma shared_inv_step:
  assumes "store_ok st" "shared_inv st ns n0 base s"
  shows "shared_inv st ns n0 base (env_step st p s)"
proof (cases s)
  case (Pair E c)
  show ?thesis
  proof (cases p)
    case (Env_override t setting v)
    then show ?thesis
      using shared_inv_override[OF assms(1), of ns n0 base E c t setting v] assms(2) Pair by simp
  next
    case (Env_cleanup t n)
    have "shared_inv st ns n0 base (E, run_cleanups st [restores (E t) ! n] c)" if "n < length (restores (E t))"
      using assms Pair that by (intro shared_inv_cleanups[where t = t and E = E]) auto
    then show ?thesis
      using assms Pair Env_cleanup by auto
  next
    case (Env_end t)
    have "shared_inv st ns n0 base (E(t := (E t)\<lparr>cleanups_of := []\<rparr>), run_cleanups st (restores (E t)) c)"
      using assms Pair by (intro shared_inv_cleanups[where t = t and E = E]) (auto simp: restores_def map_filter_simps)
    then show ?thesis
      using Env_end Pair by simp
  qed
qed

lemma shared_inv_run: "store_ok st \<Longrightarrow> shared_inv st ns n0 base s \<Longrightarrow> shared_inv st ns n0 base (fold (env_step st) ops s)"
  by (induction ops arbitrary: s) (simp_all add: shared_inv_step)

lemma map_of_run_cleanups:
  "store_ok st \<Longrightarrow> map_of (cs_stack st (run_cleanups st is c)) i = (if i \<in> set is then None else map_of (cs_stack st c) i)"
  using map_of_filter_fst[of "- set is" "cs_stack st c" i] by (simp add: run_cleanups_stack)

lemma own_after_cleanup:
  assumes "store_ok st" "distinct (restores e)" "n < length (restores e)"
  shows "map (map_of (cs_stack st (cs_cleanup st (restores e ! n) c))) (restores e) = (map (map_of (cs_stack st c)) (restores e))[n := None]"
    and "restores e ! n \<notin> set is \<Longrightarrow>
      map (map_of (cs_stack st (cs_cleanup st (restores e ! n) c))) is = map (map_of (cs_stack st c)) is"
proof -
  let ?i = "restores e ! n"
  have m: "map_of (cs_stack st (cs_cleanup st ?i c)) j = (if j = ?i then None else map_of (cs_stack st c) j)" for j
    using map_of_run_cleanups[OF assms(1), of "[?i]" c j] by simp
  show "map (map_of (cs_stack st (cs_cleanup st ?i c))) (restores e) = (map (map_of (cs_stack st c)) (restores e))[n := None]"
    using assms(2,3) by (intro nth_equalityI) (auto simp: m nth_list_update nth_eq_iff_index_eq)
  show "?i \<notin> set is \<Longrightarrow> map (map_of (cs_stack st (cs_cleanup st ?i c))) is = map (map_of (cs_stack st c)) is"
    by (auto simp: m)
qed

text \<open>An operation changes the overrides of its own test, in a way that depends on nothing else.\<close>

lemma own_step:
  assumes "store_ok st" "shared_inv st ns n0 base s"
  shows "own st t (env_step st p s) = (if op_test p = t then own_op (ns t) p (own st t s) else own st t s)"
proof (cases s)
  case (Pair E c)
  have tests: "\<forall>t. isShared (env_base (E t)) \<and> nsName (E t) = ns t \<and> desc (restores (E t)) \<and>
      (\<forall>i\<in>set (restores (E t)). i < cs_issued st c)"
    and disj: "\<forall>t t'. t \<noteq> t' \<longrightarrow> set (restores (E t)) \<inter> set (restores (E t')) = {}"
    using assms(2) Pair unfolding shared_inv_def by auto
  show ?thesis
  proof (cases p)
    case (Env_override u setting v)
    obtain out e' c' where o: "env_OverrideDynamicConfig st setting v (E u) c = (out, e', c')"
      by (metis prod_cases3)
    note r = restores_override[OF o _ assms(1)]
    show ?thesis
      using r tests o Env_override Pair by (auto simp: own_def)
  next
    case (Env_cleanup u n)
    show ?thesis
    proof (cases "n < length (restores (E u))")
      case True
      have "distinct (restores (E u))" "restores (E u) ! n \<notin> set (restores (E t))" if "u \<noteq> t"
        using disj tests that True nth_mem desc_distinct by blast+
      then have "map (map_of (cs_stack st (cs_cleanup st (restores (E u) ! n) c))) (restores (E t)) =
          map (map_of (cs_stack st c)) (restores (E t))" if "u \<noteq> t"
        using own_after_cleanup(2)[OF assms(1) _ True] that by blast
      moreover have "map (map_of (cs_stack st (cs_cleanup st (restores (E u) ! n) c))) (restores (E u)) =
          (map (map_of (cs_stack st c)) (restores (E u)))[n := None]"
        using own_after_cleanup(1)[OF assms(1) _ True] tests desc_distinct by blast
      ultimately show ?thesis
        using True Env_cleanup Pair by (auto simp: own_def)
    next
      case False
      then show ?thesis
        using Env_cleanup Pair by (auto simp: own_def list_update_beyond)
    qed
  next
    case (Env_end u)
    have "map (map_of (cs_stack st (run_cleanups st (restores (E u)) c))) (restores (E t)) =
        map (map_of (cs_stack st c)) (restores (E t))" if "u \<noteq> t"
      using disj that by (auto simp: map_of_run_cleanups[OF assms(1)])
    then show ?thesis
      using Env_end Pair by (auto simp: own_def restores_def map_filter_simps)
  qed
qed

lemma own_run:
  "store_ok st \<Longrightarrow> shared_inv st ns n0 base s \<Longrightarrow>
   own st t (fold (env_step st) ops s) = fold (own_op (ns t)) (filter (\<lambda>p. op_test p = t) ops) (own st t s)"
  by (induction ops arbitrary: s) (simp_all add: own_step shared_inv_step)

section \<open>What a test reads\<close>

definition somes :: "'a option list \<Rightarrow> 'a list" where
  "somes xs = List.map_filter (\<lambda>x. x) xs"

lemma live_entries:
  assumes "desc (map fst xs)" "desc r"
  shows "somes (map (map_of xs) r) = map snd (filter (\<lambda>e. fst e \<in> set r) xs)"
  using assms(2)
proof (induction r)
  case Nil
  then show ?case
    by (simp add: somes_def map_filter_simps)
next
  case (Cons i r)
  have lt: "\<forall>j\<in>set r. j < i" and IH: "somes (map (map_of xs) r) = map snd (filter (\<lambda>e. fst e \<in> set r) xs)"
    using Cons by (simp_all add: desc_Cons)
  show ?case
  proof (cases "map_of xs i")
    case None
    then have "\<forall>e\<in>set xs. fst e \<noteq> i"
      by (auto simp: map_of_eq_None_iff)
    then have "filter (\<lambda>e. fst e \<in> set (i # r)) xs = filter (\<lambda>e. fst e \<in> set r) xs"
      by (intro filter_cong) auto
    then show ?thesis
      using None IH by (simp add: somes_def map_filter_simps)
  next
    case (Some x)
    then obtain as bs where xs: "xs = as @ (i, x) # bs"
      by (meson map_of_SomeD split_list)
    have as: "\<forall>e\<in>set as. i < fst e" and bs: "\<forall>e\<in>set bs. fst e < i"
      using assms(1) unfolding xs by (auto simp: desc_def sorted_wrt_append)
    have "filter (\<lambda>e. fst e \<in> set r) as = []" "filter (\<lambda>e. fst e \<in> set (i # r)) as = []"
      "filter (\<lambda>e. fst e \<in> set (i # r)) bs = filter (\<lambda>e. fst e \<in> set r) bs"
      using as bs lt by (fastforce simp: filter_empty_conv intro!: filter_cong)+
    moreover have "i \<notin> set r"
      using lt by blast
    ultimately show ?thesis
      using Some IH by (simp add: xs somes_def map_filter_simps)
  qed
qed

text \<open>The values for the namespace of a test are those of its own overrides and those of the cluster.\<close>

lemma visible_own:
  assumes "shared_inv st ns n0 base s" "inj ns" "\<forall>t. ns t \<noteq> ''''"
  shows "visible st (ns t) (snd s) =
    filter (\<lambda>x. visible_to (ns t) (snd x)) (somes (own st t s)) @ filter (\<lambda>x. visible_to (ns t) (snd x)) (map snd base)"
proof -
  let ?c = "snd s" and ?r = "restores (fst s t)" and ?v = "\<lambda>x. visible_to (ns t) (snd x)"
  obtain new where new: "cs_stack st ?c = new @ base"
    "\<forall>e\<in>set new. \<exists>t. fst e \<in> set (restores (fst s t)) \<and> confined (ns t) (snd (snd e))"
    and base: "\<forall>e\<in>set base. fst e < n0" and r: "desc ?r" "\<forall>i\<in>set ?r. n0 \<le> i"
    and dsc: "desc (map fst (cs_stack st ?c))"
    using assms(1) unfolding shared_inv_def by auto
  have "filter (\<lambda>e. fst e \<in> set ?r) base = []"
    using base r(2) by (fastforce simp: filter_empty_conv)
  then have own: "somes (own st t s) = map snd (filter (\<lambda>e. fst e \<in> set ?r) new)"
    using live_entries[OF dsc r(1)] by (simp add: own_def new(1))
  have "fst e \<in> set ?r" if e: "e \<in> set new" "?v (snd e)" for e
  proof -
    obtain u where u: "fst e \<in> set (restores (fst s u))" "confined (ns u) (snd (snd e))"
      using new(2) e(1) by blast
    then have "ns u = ns t"
      using confined_invisible[OF u(2), of "ns t"] e(2) assms(3) by blast
    then show ?thesis
      using u(1) assms(2) by (simp add: inj_eq)
  qed
  then have "filter (\<lambda>e. ?v (snd e)) new = filter (\<lambda>e. ?v (snd e)) (filter (\<lambda>e. fst e \<in> set ?r) new)"
    by (auto intro!: filter_cong)
  then show ?thesis
    by (simp add: visible_def new(1) own filter_map comp_def)
qed

lemma override_all_desc:
  "store_ok st \<Longrightarrow> desc (map fst (cs_stack st c)) \<and> (\<forall>e\<in>set (cs_stack st c). fst e < cs_issued st c) \<Longrightarrow>
   desc (map fst (cs_stack st (override_all st xs c)))"
proof (induction st xs c rule: override_all.induct)
  case (2 st k v rest c)
  then show ?case
    by (simp add: overrideDynamicConfigForClusterLifetime_def store_override desc_Cons less_Suc_eq)
qed simp

definition fresh_tests :: "(nat \<Rightarrow> string) \<Rightarrow> (nat \<Rightarrow> test_env) \<Rightarrow> bool" where
  "fresh_tests ns E \<longleftrightarrow> (\<forall>t. isShared (env_base (E t)) \<and> nsName (E t) = ns t \<and> restores (E t) = [])"

lemma shared_inv_start:
  assumes "store_ok st" "cs_stack st c0 = []" "fresh_tests ns E" "c = override_all st lifetime c0"
  shows "shared_inv st ns (cs_issued st c) (cs_stack st c) (E, c)"
  using assms override_all_desc[of st c0 lifetime] override_all_issued[OF assms(1), of c0 lifetime]
  by (simp add: shared_inv_def fresh_tests_def desc_def)

section \<open>Property\<close>

text \<open>
  C38: isolation of tests on a shared cluster. Any number of tests, each with a namespace of its own, override settings, undo
  overrides and end, in any order. Whatever the server then looks up under the namespace of a test is what it would have
  found if only that test had run; and a test cannot override a setting that no namespace can be given for: it is stopped
  and the configuration stays as it was.
\<close>

theorem shared_tests_isolated:
  assumes "store_ok st" "local_lookup st lookup" "cs_stack st c0 = []"
    and "fresh_tests ns E" "inj ns" "\<forall>t. ns t \<noteq> ''''"
    and "c = override_all st lifetime c0"
  shows "lookup (ns t) q (snd (fold (env_step st) ops (E, c))) =
      lookup (ns t) q (snd (fold (env_step st) (filter (\<lambda>p. op_test p = t) ops) (E, c))) \<and>
    (\<not> canBeNamespaceScoped (setting_Precedence setting) \<longrightarrow>
      is_panic (fst (env_OverrideDynamicConfig st setting v (E t) c)) \<and>
      snd (snd (env_OverrideDynamicConfig st setting v (E t) c)) = c)"
proof -
  let ?s = "(E, c)" and ?ops = "filter (\<lambda>p. op_test p = t) ops"
  have inv: "shared_inv st ns (cs_issued st c) (cs_stack st c) ?s"
    by (rule shared_inv_start[OF assms(1,3,4,7)])
  have "own st t (fold (env_step st) ops ?s) = own st t (fold (env_step st) ?ops ?s)"
    by (simp add: own_run[OF assms(1) inv])
  then have "visible st (ns t) (snd (fold (env_step st) ops ?s)) = visible st (ns t) (snd (fold (env_step st) ?ops ?s))"
    by (simp add: visible_own[OF shared_inv_run[OF assms(1) inv] assms(5,6)])
  then have "lookup (ns t) q (snd (fold (env_step st) ops ?s)) = lookup (ns t) q (snd (fold (env_step st) ?ops ?s))"
    using assms(2) unfolding local_lookup_def by blast
  moreover have "isShared (env_base (E t))"
    using assms(4) by (simp add: fresh_tests_def)
  ultimately show ?thesis
    by (simp add: env_OverrideDynamicConfig_def)
qed

text \<open>Three tests on the store in memory; a lookup takes the newest value for the namespace.\<close>

definition example_setting :: generic_setting where
  "example_setting = \<lparr>setting_Key = ''FrontendRPS'', setting_Precedence = PrecedenceNamespace, setting_Validate = (\<lambda>_. None)\<rparr>"

definition example_base :: FunctionalTestBase where
  "example_base = \<lparr>base_Logger = None, otelExporter = None, testCluster = Some 0, testClusterConfig = None, base_namespace = ''ns'',
     base_namespaceID = ''id'', base_externalNamespace = ''ext'', sdkClient = None, sdkWorker = None, taskQueue = ''tq'',
     base_taskPoller = None, isShared = True\<rparr>"

definition example_tests :: "nat \<Rightarrow> test_env" where
  "example_tests t = \<lparr>env_base = example_base, env_cluster = 0, nsName = ''ns-'' @ digits t, nsID = ''id'', env_poller = ''ns'',
     dedicatedGuard = newDedicatedClusterGuard False, sdkClientOnce = False, env_sdkClient = None, sdkWorkerOnce = False,
     env_sdkWorker = None, sdkWorkerTQ = ''tq'', cleanups_of = [Validate_guard]\<rparr>"

definition newest_value :: "string \<Rightarrow> string \<Rightarrow> mem_config \<Rightarrow> dyn_value option" where
  "newest_value ns key c = map_of (visible mem_store ns c) key"

definition example_env_ops :: "env_op list" where
  "example_env_ops = [Env_override 1 example_setting (VInt 5), Env_override 2 example_setting (VInt 7), Env_cleanup 2 0, Env_end 1]"

lemma digit_2: "digits 2 = ''2''"
  by code_simp

theorem shared_tests_isolated_witness:
  "newest_value ''ns-2'' ''FrontendRPS''
     (snd (fold (env_step mem_store) (take 2 example_env_ops) (example_tests, override_all mem_store [(''FrontendRPS'', VInt 3000)] (0, []))))
   = Some (VConstrained [(''ns-2'', 0, VInt 7)])"
proof -
  let ?c = "override_all mem_store [(''FrontendRPS'', VInt 3000)] (0, [])" and ?ns = "\<lambda>t. ''ns-'' @ digits t"
  have "local_lookup mem_store newest_value"
    by (simp add: local_lookup_def newest_value_def)
  moreover have "fresh_tests ?ns example_tests"
    by (simp add: fresh_tests_def example_tests_def example_base_def restores_def map_filter_simps)
  moreover have "cs_stack mem_store (0, []) = []"
    by (simp add: mem_store_def)
  moreover have "inj ?ns" "\<forall>t. ?ns t \<noteq> ''''"
    by (auto intro: injI)
  ultimately have "newest_value (?ns 2) ''FrontendRPS'' (snd (fold (env_step mem_store) (take 2 example_env_ops) (example_tests, ?c))) =
      newest_value (?ns 2) ''FrontendRPS'' (snd (fold (env_step mem_store) (filter (\<lambda>p. op_test p = 2) (take 2 example_env_ops)) (example_tests, ?c)))"
    using shared_tests_isolated[OF mem_store_ok, where lookup = newest_value and ns = ?ns and E = example_tests and t = 2] by blast
  also have "\<dots> = Some (VConstrained [(''ns-2'', 0, VInt 7)])"
    by (simp add: example_env_ops_def env_OverrideDynamicConfig_def example_tests_def example_base_def example_setting_def newest_value_def
        visible_def mem_store_def overrideDynamicConfigForClusterLifetime_def digit_2)
  finally show ?thesis
    by (simp add: digit_2)
qed

end
