(* ===== verification/TestData.thy ===== *)
theory TestData
  imports GoStdlib
begin

text \<open>
  The data of the tests: the gob data converter (\<^verbatim>\<open>test_data_converter.go\<close>), version histories and replication messages
  (\<^verbatim>\<open>utils.go\<close>), little-endian integers (\<^verbatim>\<open>functional_test_base.go\<close>), recorded event batches (\<^verbatim>\<open>ndc/test_data.go\<close>), contexts
  (\<^verbatim>\<open>context.go\<close>) and temporary files (\<^verbatim>\<open>testutils/io.go\<close>). Gob, JSON and the version histories of the server are parameters.
\<close>

section \<open>The data converter\<close>

record payload =
  pl_Metadata :: "string \<rightharpoonup> byte list"
  pl_Data :: "byte list"

text \<open>
  \<open>gob_Encode\<close> and \<open>gob_Decode\<close> are the two halves of \<^verbatim>\<open>encoding/gob\<close>, the second into a variable whose old value is given;
  \<open>zero_of\<close> is the zero value of the type of a value, \<open>type_name\<close> the verb \<^verbatim>\<open>%T\<close> and \<open>show_value\<close> the verb \<^verbatim>\<open>%+v\<close>.
\<close>

record 'v gob =
  gob_Encode :: "'v \<Rightarrow> byte list result"
  gob_Decode :: "byte list \<Rightarrow> 'v \<Rightarrow> 'v result"
  zero_of :: "'v \<Rightarrow> 'v"
  type_name :: "'v \<Rightarrow> string"
  show_value :: "'v \<Rightarrow> string"

record TestDataConverter =
  NumOfCallToPayloads :: int
  NumOfCallFromPayloads :: int

definition NewTestDataConverter :: TestDataConverter where
  "NewTestDataConverter = \<lparr>NumOfCallToPayloads = 0, NumOfCallFromPayloads = 0\<rparr>"

definition ErrEncodingIsNotSet :: go_error where
  "ErrEncodingIsNotSet = Errorf ''payload encoding metadata is not set''"

definition ErrEncodingIsNotSupported :: go_error where
  "ErrEncodingIsNotSupported = Errorf ''payload encoding is not supported''"

definition ToPayload :: "'v gob \<Rightarrow> 'v \<Rightarrow> payload result" where
  "ToPayload g v =
     (case gob_Encode g v of
        Inl err \<Rightarrow> Inl err
      | Inr buf \<Rightarrow> Inr \<lparr>pl_Metadata = [''encoding'' \<mapsto> bytes_of_string ''gob''], pl_Data = buf\<rparr>)"

definition decodeGob :: "'v gob \<Rightarrow> payload \<Rightarrow> 'v \<Rightarrow> 'v result" where
  "decodeGob g p old = gob_Decode g (pl_Data p) old"

definition check_encoding :: "payload \<Rightarrow> go_error option" where
  "check_encoding p =
     (case pl_Metadata p ''encoding'' of
        None \<Rightarrow> Some ErrEncodingIsNotSet
      | Some encoding \<Rightarrow> if string_of_bytes encoding \<noteq> ''gob'' then Some ErrEncodingIsNotSupported else None)"

definition FromPayload :: "'v gob \<Rightarrow> payload \<Rightarrow> 'v \<Rightarrow> 'v result" where
  "FromPayload g p old = (case check_encoding p of Some err \<Rightarrow> Inl err | None \<Rightarrow> decodeGob g p old)"

fun to_payloads_loop :: "'v gob \<Rightarrow> nat \<Rightarrow> 'v list \<Rightarrow> payload list \<Rightarrow> payload list result" where
  "to_payloads_loop g i [] result = Inr result"
| "to_payloads_loop g i (v # vs) result =
     (case ToPayload g v of
        Inl err \<Rightarrow> Inl (Wrap (''args['' @ Itoa (int i) @ ''], '' @ type_name g v) err)
      | Inr p \<Rightarrow> to_payloads_loop g (Suc i) vs (result @ [p]))"

definition ToPayloads :: "'v gob \<Rightarrow> 'v list \<Rightarrow> TestDataConverter \<Rightarrow> payload list result \<times> TestDataConverter" where
  "ToPayloads g vs tdc = (to_payloads_loop g 0 vs [], tdc\<lparr>NumOfCallToPayloads := NumOfCallToPayloads tdc + 1\<rparr>)"

text \<open>The variables behind the pointers are a list; there may be fewer of them than payloads.\<close>

fun from_payloads_loop :: "'v gob \<Rightarrow> nat \<Rightarrow> payload list \<Rightarrow> 'v list \<Rightarrow> go_error option outcome \<times> 'v list" where
  "from_payloads_loop g i [] vars = (Ret None, vars)"
| "from_payloads_loop g i (p # ps) vars =
     (if length vars \<le> i then (Panic ''index out of range'', vars)
      else case FromPayload g p (vars ! i) of
        Inl err \<Rightarrow> (Ret (Some (Wrap (''args['' @ Itoa (int i) @ '']'') err)), vars)
      | Inr v \<Rightarrow> from_payloads_loop g (Suc i) ps (vars[i := v]))"

definition FromPayloads ::
    "'v gob \<Rightarrow> payload list \<Rightarrow> 'v list \<Rightarrow> TestDataConverter \<Rightarrow> (go_error option outcome \<times> 'v list) \<times> TestDataConverter" where
  "FromPayloads g ps vars tdc =
     (from_payloads_loop g 0 ps vars, tdc\<lparr>NumOfCallFromPayloads := NumOfCallFromPayloads tdc + 1\<rparr>)"

text \<open>\<open>nil_value\<close> is the empty interface the value is decoded into.\<close>

definition ToString :: "'v gob \<Rightarrow> 'v \<Rightarrow> payload \<Rightarrow> string" where
  "ToString g nil_value p =
     (case check_encoding p of
        Some err \<Rightarrow> error_text err
      | None \<Rightarrow> (case decodeGob g p nil_value of Inl err \<Rightarrow> error_text err | Inr v \<Rightarrow> show_value g v))"

definition ToStrings :: "'v gob \<Rightarrow> 'v \<Rightarrow> payload list \<Rightarrow> string list" where
  "ToStrings g nil_value ps = map (ToString g nil_value) ps"

text \<open>
  gob leaves out fields that are zero, so a decoded value is merged into what the variable held; and it does not tell an
  empty slice from none. The hypothesis is about values that gob can represent (\<open>V\<close>) and variables that are zero: what is
  encoded is decoded again.
\<close>

definition gob_ok :: "'v gob \<Rightarrow> 'v set \<Rightarrow> bool" where
  "gob_ok g V \<longleftrightarrow> (\<forall>v\<in>V. \<forall>buf. gob_Encode g v = Inr buf \<longrightarrow> gob_Decode g buf (zero_of g v) = Inr v)"

definition zeroed :: "'v gob \<Rightarrow> nat \<Rightarrow> 'v list \<Rightarrow> 'v list \<Rightarrow> bool" where
  "zeroed g i vs vars \<longleftrightarrow> take (length vs) (drop i vars) = map (zero_of g) (take (length vars - i) vs)"

lemma zeroed_Cons: "zeroed g i (v # vs) vars \<Longrightarrow> i < length vars \<Longrightarrow> vars ! i = zero_of g v \<and> zeroed g (Suc i) vs (vars[i := w])"
  by (simp add: zeroed_def Cons_nth_drop_Suc[symmetric] Suc_diff_Suc[symmetric] del: diff_Suc_Suc)

lemma FromPayload_ToPayload: "gob_ok g V \<Longrightarrow> v \<in> V \<Longrightarrow> ToPayload g v = Inr p \<Longrightarrow> FromPayload g p (zero_of g v) = Inr v"
  by (auto simp: gob_ok_def ToPayload_def FromPayload_def check_encoding_def decodeGob_def split: sum.splits)

lemma gob_ok_Cons: "gob_ok g (set (v # vs)) \<Longrightarrow> gob_ok g (set vs)"
  by (simp add: gob_ok_def)

lemma to_payloads_loop_Inr:
  "to_payloads_loop g i vs acc = Inr ps \<longleftrightarrow> (\<exists>qs. ps = acc @ qs \<and> list_all2 (\<lambda>v p. ToPayload g v = Inr p) vs qs)"
proof (induction vs arbitrary: i acc)
  case (Cons v vs)
  then show ?case
    by (cases "ToPayload g v") (auto simp: list_all2_Cons1)
qed auto

text \<open>The first value that cannot be encoded decides the error.\<close>

lemma to_payloads_loop_Inl:
  assumes "\<forall>v\<in>set us. \<exists>p. ToPayload g v = Inr p" "ToPayload g v = Inl err"
  shows "to_payloads_loop g i (us @ v # vs) acc = Inl (Wrap (''args['' @ Itoa (int (i + length us)) @ ''], '' @ type_name g v) err)"
  using assms(1)
proof (induction us arbitrary: i acc)
  case (Cons u us)
  then obtain p where "ToPayload g u = Inr p"
    by auto
  with Cons show ?case
    by (simp add: algebra_simps)
qed (simp add: assms(2))

lemma from_payloads_loop_values:
  assumes "list_all2 (\<lambda>v p. ToPayload g v = Inr p) vs ps" "gob_ok g (set vs)" "zeroed g i vs vars" "i + length vs \<le> length vars"
  shows "from_payloads_loop g i ps vars = (Ret None, take i vars @ vs @ drop (i + length vs) vars)"
  using assms
proof (induction vs ps arbitrary: i vars rule: list_all2_induct)
  case (Cons v vs p ps)
  have i: "i < length vars"
    using Cons.prems by simp
  then have "FromPayload g p (vars ! i) = Inr v"
    using FromPayload_ToPayload[OF Cons.prems(1) _ Cons(1)] zeroed_Cons[OF Cons.prems(2)] by simp
  then show ?case
    using Cons.IH[of "Suc i" "vars[i := v]"] Cons.prems i zeroed_Cons[OF Cons.prems(2), of v] gob_ok_Cons[OF Cons.prems(1)]
    by (simp add: take_Suc_conv_app_nth)
qed simp

text \<open>With too few variables the call panics, after it has filled those it has.\<close>

lemma from_payloads_loop_short:
  assumes "list_all2 (\<lambda>v p. ToPayload g v = Inr p) vs ps" "gob_ok g (set vs)" "zeroed g i vs vars"
    and "i \<le> length vars" "length vars < i + length vs"
  shows "from_payloads_loop g i ps vars = (Panic ''index out of range'', take i vars @ take (length vars - i) vs)"
  using assms
proof (induction vs ps arbitrary: i vars rule: list_all2_induct)
  case (Cons v vs p ps)
  show ?case
  proof (cases "i < length vars")
    case True
    then have "FromPayload g p (vars ! i) = Inr v"
      using FromPayload_ToPayload[OF Cons.prems(1) _ Cons(1)] zeroed_Cons[OF Cons.prems(2)] by simp
    then show ?thesis
      using Cons.IH[of "Suc i" "vars[i := v]"] Cons.prems True zeroed_Cons[OF Cons.prems(2) True, of v] gob_ok_Cons[OF Cons.prems(1)]
      by (simp add: take_Suc_conv_app_nth Suc_diff_Suc[symmetric] take_Cons' del: take_Suc_Cons)
  qed (use Cons.prems in simp)
qed simp

section \<open>Helpers\<close>

text \<open>\<open>decode\<close> is \<^verbatim>\<open>payloads.Decode\<close> into a string, \<open>to_payload\<close> the default data converter. A failed requirement stops the test.\<close>

definition DecodeString :: "('p \<Rightarrow> string result) \<Rightarrow> 'p \<Rightarrow> string outcome" where
  "DecodeString decode pls = (case decode pls of Inl err \<Rightarrow> Panic (error_text err) | Inr s \<Rightarrow> Ret s)"

definition MustToPayload :: "('v \<Rightarrow> 'p result) \<Rightarrow> 'v \<Rightarrow> 'p outcome" where
  "MustToPayload to_payload v = (case to_payload v of Inl err \<Rightarrow> Panic (error_text err) | Inr p \<Rightarrow> Ret p)"

text \<open>
  \<^verbatim>\<open>binary.Read\<close> of an \<^verbatim>\<open>int32\<close> in little-endian order, from the bytes of a payload (\<open>decode_bytes\<close>); bytes after the fourth
  stay unread.
\<close>

fun read_int32_le :: "byte list \<Rightarrow> u32 result" where
  "read_int32_le (b0 # b1 # b2 # b3 # _) =
     Inr (ucast b0 + 2 ^ 8 * ucast b1 + 2 ^ 16 * ucast b2 + 2 ^ 24 * ucast b3)"
| "read_int32_le [] = Inl (Errorf ''EOF'')"
| "read_int32_le _ = Inl (Errorf ''unexpected EOF'')"

definition DecodePayloadsByteSliceInt32 :: "('p \<Rightarrow> byte list result) \<Rightarrow> 'p \<Rightarrow> int outcome" where
  "DecodePayloadsByteSliceInt32 decode_bytes ps =
     (case decode_bytes ps of
        Inl err \<Rightarrow> Panic (error_text err)
      | Inr buf \<Rightarrow> (case read_int32_le buf of Inl err \<Rightarrow> Panic (error_text err) | Inr r \<Rightarrow> Ret (sint r)))"

text \<open>
  Replication messages: \<open>None\<close> is nil, also for the messages inside a response.
\<close>

datatype 'm proto_message = HistoryStreamResponse "'m option" | AdminStreamResponse "'m option" | OtherMessage nat

fun ExtractReplicationMessages :: "'m proto_message option \<Rightarrow> 'm option" where
  "ExtractReplicationMessages None = None"
| "ExtractReplicationMessages (Some (HistoryStreamResponse (Some m))) = Some m"
| "ExtractReplicationMessages (Some (HistoryStreamResponse None)) = None"
| "ExtractReplicationMessages (Some (AdminStreamResponse (Some m))) = Some m"
| "ExtractReplicationMessages (Some (AdminStreamResponse None)) = None"
| "ExtractReplicationMessages (Some (OtherMessage _)) = None"

text \<open>
  A version history is built item by item: \<open>add_item\<close> is \<^verbatim>\<open>versionhistory.AddOrUpdateVersionHistoryItem\<close> on an item of event
  id and version, \<open>new_history\<close> the empty history. An event is its id and version.
\<close>

record event =
  ev_EventId :: int
  ev_Version :: int

fun add_events :: "(int \<times> int \<Rightarrow> 'h \<Rightarrow> 'h result) \<Rightarrow> event list \<Rightarrow> 'h \<Rightarrow> 'h result" where
  "add_events add_item [] h = Inr h"
| "add_events add_item (e # es) h =
     (case add_item (ev_EventId e, ev_Version e) h of Inl err \<Rightarrow> Inl err | Inr h \<Rightarrow> add_events add_item es h)"

fun add_batches :: "(int \<times> int \<Rightarrow> 'h \<Rightarrow> 'h result) \<Rightarrow> event list list \<Rightarrow> 'h \<Rightarrow> 'h result" where
  "add_batches add_item [] h = Inr h"
| "add_batches add_item (batch # rest) h =
     (case add_events add_item batch h of Inl err \<Rightarrow> Inl err | Inr h \<Rightarrow> add_batches add_item rest h)"

definition EventBatchesToVersionHistory ::
    "(int \<times> int \<Rightarrow> 'h \<Rightarrow> 'h result) \<Rightarrow> 'h \<Rightarrow> 'h option \<Rightarrow> event list list \<Rightarrow> 'h result" where
  "EventBatchesToVersionHistory add_item new_history versionHistory eventBatches =
     add_batches add_item eventBatches (case versionHistory of None \<Rightarrow> new_history | Some h \<Rightarrow> h)"

lemma add_events_append:
  "add_events add_item (es @ fs) h =
     (case add_events add_item es h of Inl err \<Rightarrow> Inl err | Inr h \<Rightarrow> add_events add_item fs h)"
  by (induction es arbitrary: h) (auto split: sum.splits)

lemma add_batches_concat: "add_batches add_item bs h = add_events add_item (concat bs) h"
  by (induction bs arbitrary: h) (auto simp: add_events_append split: sum.splits)

section \<open>Recorded events\<close>

text \<open>The JSON values that are told apart; \<open>JOther\<close> carries the name of the Go type.\<close>

datatype json_value = JArray "json_value list" | JOther string

text \<open>
  \<open>read_file\<close> is \<^verbatim>\<open>os.ReadFile\<close>, \<open>unmarshal\<close> and \<open>marshal\<close> are \<^verbatim>\<open>encoding/json\<close>, \<open>decode_events\<close> is the history decoder of the server.
\<close>

record test_data_ops =
  td_read_file :: "string \<Rightarrow> byte list result"
  td_unmarshal :: "byte list \<Rightarrow> (string \<rightharpoonup> json_value) result"
  td_marshal :: "json_value list \<Rightarrow> byte list result"
  td_decode_events :: "byte list \<Rightarrow> event list result"

fun marshal_batches :: "test_data_ops \<Rightarrow> nat \<Rightarrow> json_value list \<Rightarrow> byte list list \<Rightarrow> byte list list result" where
  "marshal_batches ops i [] elements = Inr elements"
| "marshal_batches ops i (JOther ty # rest) elements =
     Inl (Errorf (''element '' @ Itoa (int i) @ '' is not a sub-array, is type '' @ ty))"
| "marshal_batches ops i (JArray subArray # rest) elements =
     (case td_marshal ops subArray of Inl err \<Rightarrow> Inl err | Inr temp \<Rightarrow> marshal_batches ops (Suc i) rest (elements @ [temp]))"

text \<open>The result is a slice of the length of the batches, filled position by position.\<close>

fun decode_batches :: "test_data_ops \<Rightarrow> nat \<Rightarrow> byte list list \<Rightarrow> event list list \<Rightarrow> event list list result" where
  "decode_batches ops i [] historyBatches = Inr historyBatches"
| "decode_batches ops i (batch # rest) historyBatches =
     (case td_decode_events ops batch of
        Inl err \<Rightarrow> Inl err
      | Inr historyEvents \<Rightarrow> decode_batches ops (Suc i) rest (historyBatches[i := historyEvents]))"

fun flatten :: "event list list \<Rightarrow> event list \<Rightarrow> event list" where
  "flatten [] eventsFlatted = eventsFlatted"
| "flatten (batch # rest) eventsFlatted = flatten rest (eventsFlatted @ batch)"

definition GetEventBatchesFromTestEvents ::
    "test_data_ops \<Rightarrow> (int \<times> int \<Rightarrow> 'h \<Rightarrow> 'h result) \<Rightarrow> 'h \<Rightarrow> string \<Rightarrow> string \<Rightarrow> (event list list \<times> 'h) result" where
  "GetEventBatchesFromTestEvents ops add_item new_history fileName workflowId =
     (case td_read_file ops (''./testevents/'' @ fileName) of
        Inl err \<Rightarrow> Inl err
      | Inr content \<Rightarrow>
     (case td_unmarshal ops content of
        Inl err \<Rightarrow> Inl err
      | Inr result \<Rightarrow>
     (case result workflowId of
        Some (JArray batches) \<Rightarrow>
          (case marshal_batches ops 0 batches [] of
             Inl err \<Rightarrow> Inl err
           | Inr elements \<Rightarrow>
          (case decode_batches ops 0 elements (replicate (length batches) []) of
             Inl err \<Rightarrow> Inl err
           | Inr historyBatches \<Rightarrow>
          (case EventBatchesToVersionHistory add_item new_history None [flatten historyBatches []] of
             Inl err \<Rightarrow> Inl err
           | Inr versionHistory \<Rightarrow> Inr (historyBatches, versionHistory))))
      | _ \<Rightarrow> Inl (Errorf ''workflowId not found in test data''))))"

lemma flatten_eq: "flatten bs acc = acc @ concat bs"
  by (induction bs arbitrary: acc) simp_all

lemma marshal_batches_Inr:
  "marshal_batches ops i js acc = Inr es \<longleftrightarrow>
     (\<exists>fs. es = acc @ fs \<and> list_all2 (\<lambda>j f. \<exists>sub. j = JArray sub \<and> td_marshal ops sub = Inr f) js fs)"
proof (induction js arbitrary: i acc)
  case (Cons j js)
  show ?case
  proof (cases j)
    case (JArray sub)
    then show ?thesis
      using Cons by (cases "td_marshal ops sub") (auto simp: list_all2_Cons1)
  next
    case (JOther ty)
    then show ?thesis
      by (auto simp: list_all2_Cons1)
  qed
qed auto

lemma decode_batches_Inr:
  assumes "i + length es = length out"
  shows "decode_batches ops i es out = Inr hs \<longleftrightarrow>
    (\<exists>gs. hs = take i out @ gs \<and> list_all2 (\<lambda>e g. td_decode_events ops e = Inr g) es gs)"
  using assms
proof (induction es arbitrary: i out)
  case (Cons e es)
  show ?case
  proof (cases "td_decode_events ops e")
    case (Inr g)
    have "decode_batches ops i (e # es) out = Inr hs \<longleftrightarrow>
        (\<exists>gs. hs = take (Suc i) (out[i := g]) @ gs \<and> list_all2 (\<lambda>e g. td_decode_events ops e = Inr g) es gs)"
      using Cons.IH[of "Suc i" "out[i := g]"] Cons.prems Inr by simp
    also have "take (Suc i) (out[i := g]) = take i out @ [g]"
      using Cons.prems by (simp add: take_Suc_conv_app_nth)
    finally show ?thesis
      using Inr by (auto simp: list_all2_Cons1)
  qed (auto simp: list_all2_Cons1)
qed auto

section \<open>Contexts and temporary files\<close>

text \<open>
  \<open>derive\<close> and \<open>standalone\<close> are the two constructors of the server's \<^verbatim>\<open>rpc\<close> package, with the timeout in seconds; a nil parent is
  \<open>None\<close>.
\<close>

definition NewContext :: "('x \<Rightarrow> int \<Rightarrow> 'x) \<Rightarrow> (int \<Rightarrow> 'x) \<Rightarrow> int \<Rightarrow> 'x option list \<Rightarrow> 'x" where
  "NewContext derive standalone timeoutMultiplier parents =
     (let defaultTestTimeout = 90 * timeoutMultiplier in
      case parents of
        Some parent # _ \<Rightarrow> derive parent defaultTestTimeout
      | _ \<Rightarrow> standalone defaultTestTimeout)"

text \<open>
  A temporary file or directory: \<open>create\<close> makes one with a name of its choice, \<open>remove\<close> takes it away. The test removes it
  when it ends.
\<close>

definition CreateTemp ::
    "('f \<Rightarrow> string result \<times> 'f) \<Rightarrow> string list \<Rightarrow> 'f \<Rightarrow> string outcome \<times> string list \<times> 'f" where
  "CreateTemp create cleanups fs =
     (case create fs of
        (Inl err, fs) \<Rightarrow> (Panic (error_text err), cleanups, fs)
      | (Inr name, fs) \<Rightarrow> (Ret name, name # cleanups, fs))"

definition MkdirTemp ::
    "('f \<Rightarrow> string result \<times> 'f) \<Rightarrow> string list \<Rightarrow> 'f \<Rightarrow> string outcome \<times> string list \<times> 'f" where
  "MkdirTemp create cleanups fs =
     (case create fs of
        (Inl err, fs) \<Rightarrow> (Panic (error_text err), cleanups, fs)
      | (Inr name, fs) \<Rightarrow> (Ret name, name # cleanups, fs))"

section \<open>Properties\<close>

text \<open>
  The gob data converter. Values that are converted to payloads come back as they were, into zero variables if there are
  enough of them; with too few variables the call panics after filling those it has; a value that cannot be encoded fails the
  whole conversion with its position; a payload without the encoding, or with another one, is refused; and every call is
  counted.
\<close>

theorem converter_roundtrip:
  assumes "gob_ok g (set vs)" "zeroed g 0 vs vars" "ToPayloads g vs tdc = (res, tdc1)"
  shows "NumOfCallToPayloads tdc1 = NumOfCallToPayloads tdc + 1 \<and>
    (case res of
       Inr ps \<Rightarrow> length ps = length vs \<and> FromPayloads g ps vars tdc1 =
         ((if length vs \<le> length vars then (Ret None, vs @ drop (length vs) vars)
           else (Panic ''index out of range'', take (length vars) vs)),
          tdc1\<lparr>NumOfCallFromPayloads := NumOfCallFromPayloads tdc + 1\<rparr>)
     | Inl err \<Rightarrow> \<exists>i<length vs. \<exists>e. ToPayload g (vs ! i) = Inl e \<and> (\<forall>j<i. \<exists>p. ToPayload g (vs ! j) = Inr p) \<and>
         err = Wrap (''args['' @ Itoa (int i) @ ''], '' @ type_name g (vs ! i)) e) \<and>
    (pl_Metadata p ''encoding'' = None \<longrightarrow> FromPayload g p v = Inl ErrEncodingIsNotSet) \<and>
    (\<forall>enc. pl_Metadata p ''encoding'' = Some enc \<longrightarrow> string_of_bytes enc \<noteq> ''gob'' \<longrightarrow>
       FromPayload g p v = Inl ErrEncodingIsNotSupported)"
proof -
  have res: "res = to_payloads_loop g 0 vs []" and tdc1: "tdc1 = tdc\<lparr>NumOfCallToPayloads := NumOfCallToPayloads tdc + 1\<rparr>"
    using assms(3) by (simp_all add: ToPayloads_def)
  have "case res of
       Inr ps \<Rightarrow> length ps = length vs \<and> from_payloads_loop g 0 ps vars =
         (if length vs \<le> length vars then (Ret None, vs @ drop (length vs) vars)
          else (Panic ''index out of range'', take (length vars) vs))
     | Inl err \<Rightarrow> \<exists>i<length vs. \<exists>e. ToPayload g (vs ! i) = Inl e \<and> (\<forall>j<i. \<exists>p. ToPayload g (vs ! j) = Inr p) \<and>
         err = Wrap (''args['' @ Itoa (int i) @ ''], '' @ type_name g (vs ! i)) e"
  proof (cases "\<forall>v\<in>set vs. \<exists>p. ToPayload g v = Inr p")
    case True
    then have "\<forall>v\<in>set vs. ToPayload g v = Inr (projr (ToPayload g v))"
      by force
    then have "list_all2 (\<lambda>v p. ToPayload g v = Inr p) vs (map (\<lambda>v. projr (ToPayload g v)) vs)"
      by (simp add: list_all2_conv_all_nth)
    then obtain ps where ps: "list_all2 (\<lambda>v p. ToPayload g v = Inr p) vs ps" ..
    then have "res = Inr ps" "length ps = length vs"
      using to_payloads_loop_Inr[of g 0 vs "[]" ps] list_all2_lengthD[OF ps] by (simp_all add: res)
    then show ?thesis
      using from_payloads_loop_values[OF ps assms(1,2)] from_payloads_loop_short[OF ps assms(1,2)] by simp
  next
    case False
    then obtain us x ws where split: "vs = us @ x # ws" "\<forall>v\<in>set us. \<exists>p. ToPayload g v = Inr p" "\<nexists>p. ToPayload g x = Inr p"
      using split_list_first_prop[of vs "\<lambda>v. \<nexists>p. ToPayload g v = Inr p"] by blast
    then obtain e where e: "ToPayload g x = Inl e"
      by (cases "ToPayload g x") auto
    have "res = Inl (Wrap (''args['' @ Itoa (int (length us)) @ ''], '' @ type_name g x) e)"
      using to_payloads_loop_Inl[OF split(2) e, of 0 ws "[]"] by (simp add: res split(1))
    then show ?thesis
      using e split(1,2) by (auto simp: nth_append intro!: exI[of _ "length us"])
  qed
  then show ?thesis
    by (auto simp: tdc1 FromPayloads_def FromPayload_def check_encoding_def split: sum.splits)
qed

definition example_gob :: "string gob" where
  "example_gob = \<lparr>gob_Encode = (\<lambda>v. Inr (bytes_of_string v)), gob_Decode = (\<lambda>bs _. Inr (string_of_bytes bs)),
     zero_of = (\<lambda>_. ''''), type_name = (\<lambda>_. ''string''), show_value = (\<lambda>v. v)\<rparr>"

theorem converter_roundtrip_witness:
  "case ToPayloads example_gob [''a'', ''bc''] NewTestDataConverter of
     (Inr ps, tdc) \<Rightarrow> fst (FromPayloads example_gob ps ['''', '''', ''z''] tdc) = (Ret None, [''a'', ''bc'', ''z''])
   | (Inl _, _) \<Rightarrow> False"
proof -
  have ok: "gob_ok example_gob (set [''a'', ''bc''])" "zeroed example_gob 0 [''a'', ''bc''] ['''', '''', ''z'']"
    by (auto simp: gob_ok_def zeroed_def example_gob_def comp_def)
  have ex: "\<exists>ps tdc. ToPayloads example_gob [''a'', ''bc''] NewTestDataConverter = (Inr ps, tdc)"
    by (simp add: ToPayloads_def ToPayload_def example_gob_def)
  then show ?thesis
    using converter_roundtrip[OF ok, of NewTestDataConverter] by fastforce
qed

text \<open>
  Recorded events: what \<^verbatim>\<open>GetEventBatchesFromTestEvents\<close> returns are the decoded sub-arrays in their order, and the version
  history is the one of these batches.
\<close>

theorem recorded_events_read:
  assumes "GetEventBatchesFromTestEvents ops add_item new_history fileName workflowId = Inr (historyBatches, h)"
  shows "\<exists>content result batches. td_read_file ops (''./testevents/'' @ fileName) = Inr content \<and>
    td_unmarshal ops content = Inr result \<and> result workflowId = Some (JArray batches) \<and>
    list_all2 (\<lambda>j es. \<exists>sub buf. j = JArray sub \<and> td_marshal ops sub = Inr buf \<and> td_decode_events ops buf = Inr es)
      batches historyBatches \<and>
    EventBatchesToVersionHistory add_item new_history None historyBatches = Inr h"
proof -
  obtain content result batches elements where r: "td_read_file ops (''./testevents/'' @ fileName) = Inr content"
    "td_unmarshal ops content = Inr result" "result workflowId = Some (JArray batches)"
    "marshal_batches ops 0 batches [] = Inr elements"
    "decode_batches ops 0 elements (replicate (length batches) []) = Inr historyBatches"
    "EventBatchesToVersionHistory add_item new_history None [flatten historyBatches []] = Inr h"
    using assms by (auto simp: GetEventBatchesFromTestEvents_def split: sum.splits option.splits json_value.splits)
  have m: "list_all2 (\<lambda>j f. \<exists>sub. j = JArray sub \<and> td_marshal ops sub = Inr f) batches elements"
    using r(4) by (simp add: marshal_batches_Inr)
  have d: "list_all2 (\<lambda>e g. td_decode_events ops e = Inr g) elements historyBatches"
    using r(5) list_all2_lengthD[OF m] by (simp add: decode_batches_Inr)
  have "list_all2 (\<lambda>j es. \<exists>sub buf. j = JArray sub \<and> td_marshal ops sub = Inr buf \<and> td_decode_events ops buf = Inr es)
      batches historyBatches"
    by (rule list_all2_trans[OF _ m d]) blast
  moreover have "EventBatchesToVersionHistory add_item new_history None historyBatches = Inr h"
    using r(6) by (simp add: EventBatchesToVersionHistory_def add_batches_concat flatten_eq)
  ultimately show ?thesis
    using r(1-3) by blast
qed

end
