(* ===== verification/TestHelpers.thy ===== *)
theory TestHelpers
  imports TestEnv MixedBuild
begin

text \<open>
  The rest of the helpers of the suites: set-up and tear-down of a suite on its slot of the cluster pool, and requests of
  \<^verbatim>\<open>testcore/functional_test_base.go\<close>; the deployment version of \<^verbatim>\<open>matching_utils.go\<close>; the client factories of
  \<^verbatim>\<open>testcore/onebox.go\<close>; waiting for visibility in \<^verbatim>\<open>xdc/base.go\<close>. A failed requirement stops the test: \<open>Panic\<close>.
\<close>

section \<open>Suites\<close>

text \<open>A suite takes a slot of the dedicated pool, for as long as it runs, and sets its cluster up.\<close>

definition SetupSuiteWithCluster ::
    "'d test_ops \<Rightarrow> handle \<Rightarrow> handle \<Rightarrow> handle \<Rightarrow> handle option \<Rightarrow> (handle \<Rightarrow> string \<times> string \<times> 'c TemporalImpl)
     \<Rightarrow> string list \<Rightarrow> TestClusterOption list \<Rightarrow> pool \<Rightarrow> FunctionalTestBase \<Rightarrow> 'd
     \<Rightarrow> unit outcome \<times> cleanup list \<times> pool \<times> FunctionalTestBase \<times> 'd" where
  "SetupSuiteWithCluster ops no_policy new_logger sqlite exporter host_of expected options p s d =
     (case acquireSlot p of
        (Panic msg, p) \<Rightarrow> (Panic msg, [], p, s, d)
      | (Hang, p) \<Rightarrow> (Hang, [], p, s, d)
      | (Ret idx, p) \<Rightarrow>
          (let (r, s, d) = setupCluster ops no_policy new_logger sqlite exporter host_of expected options s d
           in (r, (case idx of None \<Rightarrow> [] | Some i \<Rightarrow> [ReturnSlot i]), p, s, d)))"

definition SetupSuite ::
    "'d test_ops \<Rightarrow> handle \<Rightarrow> handle \<Rightarrow> handle \<Rightarrow> handle option \<Rightarrow> (handle \<Rightarrow> string \<times> string \<times> 'c TemporalImpl)
     \<Rightarrow> string list \<Rightarrow> pool \<Rightarrow> FunctionalTestBase \<Rightarrow> 'd \<Rightarrow> unit outcome \<times> cleanup list \<times> pool \<times> FunctionalTestBase \<times> 'd" where
  "SetupSuite ops no_policy new_logger sqlite exporter host_of expected p s d =
     SetupSuiteWithCluster ops no_policy new_logger sqlite exporter host_of expected [] p s d"

text \<open>\<open>close_logger\<close> closes a logger if it is a test logger, so that errors of the tear-down do not fail the test.\<close>

definition TearDownSuite :: "'d test_ops \<Rightarrow> (handle \<Rightarrow> 'd \<Rightarrow> 'd) \<Rightarrow> FunctionalTestBase \<Rightarrow> 'd \<Rightarrow> unit outcome \<times> 'd" where
  "TearDownSuite ops close_logger s d =
     TearDownCluster ops s (case base_Logger s of None \<Rightarrow> d | Some l \<Rightarrow> close_logger l d)"

text \<open>The slot a suite has taken comes back with its clean-up, also when the set-up of its cluster has failed.\<close>

lemma suite_returns_its_slot:
  assumes "SetupSuiteWithCluster ops np nl sq ex host_of exp opts p s d = (r, cs, p', s', d')" "r \<noteq> Hang" "slots p = Some free"
  shows "\<exists>i. cs = [ReturnSlot i] \<and> slots p' = Some (tl free) \<and> hd free = i"
proof (cases free)
  case Nil
  then show ?thesis
    using assms by (simp add: SetupSuiteWithCluster_def acquireSlot_def)
next
  case (Cons i rest)
  then show ?thesis
    using assms by (auto simp: SetupSuiteWithCluster_def acquireSlot_def split: prod.splits)
qed

text \<open>
  \<^verbatim>\<open>createCluster\<close> of \<^verbatim>\<open>testcore/test_cluster_pool.go\<close>: the options of a pooled cluster, in their order, and its set-up on a new base. An empty
  map of overrides and no map are the same to it.
\<close>

definition new_base :: FunctionalTestBase where
  "new_base = \<lparr>base_Logger = None, otelExporter = None, testCluster = None, testClusterConfig = None, base_namespace = '''',
     base_namespaceID = '''', base_externalNamespace = '''', sdkClient = None, sdkWorker = None, taskQueue = '''', base_taskPoller = None,
     isShared = False\<rparr>"

definition pool_options :: "(string \<rightharpoonup> dyn_value) \<Rightarrow> bool \<Rightarrow> TestClusterOption list \<Rightarrow> TestClusterOption list" where
  "pool_options dynamicConfig is_shared clusterOpts =
     [withWorkerService False] @ (if is_shared then [WithSharedCluster] else []) @
     (if dynamicConfig \<noteq> Map.empty then [WithDynamicConfigOverrides dynamicConfig] else []) @ clusterOpts"

definition pool_createCluster ::
    "'d test_ops \<Rightarrow> handle \<Rightarrow> handle \<Rightarrow> handle \<Rightarrow> handle option \<Rightarrow> (handle \<Rightarrow> string \<times> string \<times> 'c TemporalImpl)
     \<Rightarrow> string list \<Rightarrow> (string \<rightharpoonup> dyn_value) \<Rightarrow> bool \<Rightarrow> TestClusterOption list \<Rightarrow> 'd \<Rightarrow> unit outcome \<times> FunctionalTestBase \<times> 'd" where
  "pool_createCluster ops no_policy new_logger sqlite exporter host_of expected dynamicConfig is_shared clusterOpts d =
     setupCluster ops no_policy new_logger sqlite exporter host_of expected (pool_options dynamicConfig is_shared clusterOpts) new_base d"

text \<open>The options of the test come last: a pooled cluster has a worker service only when one of them asks for it.\<close>

lemma pool_options_applied:
  "ApplyTestClusterOptions no_policy (pool_options dynamicConfig is_shared clusterOpts) =
     fold (\<lambda>opt params. opt params) clusterOpts
       ((ApplyTestClusterOptions no_policy [])\<lparr>EnableWorkerService := False, SharedCluster := is_shared,
          DynamicConfigOverrides := (if dynamicConfig = Map.empty then None else Some dynamicConfig)\<rparr>)"
  by (simp add: ApplyTestClusterOptions_def pool_options_def withWorkerService_def WithSharedCluster_def WithDynamicConfigOverrides_def)

lemma pool_worker_off:
  assumes "\<forall>opt\<in>set clusterOpts. \<forall>params. EnableWorkerService (opt params) = EnableWorkerService params"
  shows "\<not> EnableWorkerService (ApplyTestClusterOptions no_policy (pool_options dynamicConfig is_shared clusterOpts))"
proof -
  have "EnableWorkerService (fold (\<lambda>opt params. opt params) clusterOpts params) = EnableWorkerService params" for params
    using assms by (induction clusterOpts arbitrary: params) simp_all
  then show ?thesis
    by (simp add: pool_options_applied)
qed

lemma pool_cluster_shared:
  assumes "pool_createCluster ops no_policy new_logger sqlite exporter host_of expected dynamicConfig is_shared [] d = (Ret (), s, d')"
  shows "isShared s = is_shared"
  using assms
  by (auto simp: pool_createCluster_def setupCluster_def new_base_def pool_options_applied Let_def
      split: prod.splits sum.splits outcome.splits)

section \<open>Requests of a test\<close>

definition require_value :: "'a result \<times> 'd \<Rightarrow> 'a outcome \<times> 'd" where
  "require_value x = (case x of (Inl err, d) \<Rightarrow> (Panic (error_text err), d) | (Inr v, d) \<Rightarrow> (Ret v, d))"

definition DecodePayloadsString :: "('p \<Rightarrow> string result) \<Rightarrow> 'p \<Rightarrow> string outcome" where
  "DecodePayloadsString decode ps = (case decode ps of Inl err \<Rightarrow> Panic (error_text err) | Inr r \<Rightarrow> Ret r)"

definition DecodePayloadsInt :: "('p \<Rightarrow> int result) \<Rightarrow> 'p \<Rightarrow> int outcome" where
  "DecodePayloadsInt decode ps = (case decode ps of Inl err \<Rightarrow> Panic (error_text err) | Inr r \<Rightarrow> Ret r)"

definition base_OverrideDynamicConfig ::
    "'c config_store \<Rightarrow> string \<Rightarrow> dyn_value \<Rightarrow> cleanups \<Rightarrow> 'c \<Rightarrow> nat \<times> cleanups \<times> 'c" where
  "base_OverrideDynamicConfig st key v t c = overrideDynamicConfigForTest st key v t c"

text \<open>The answer is the identifier of the namespace.\<close>

definition GetNamespaceID :: "(string \<Rightarrow> 'd \<Rightarrow> string result \<times> 'd) \<Rightarrow> string \<Rightarrow> 'd \<Rightarrow> string outcome \<times> 'd" where
  "GetNamespaceID describe namespace d = require_value (describe namespace d)"

record signal_request =
  sg_Namespace :: string
  sg_Execution :: "string \<times> string"
  SignalName :: string
  sg_Input :: handle
  sg_Identity :: string

definition SendSignal ::
    "(signal_request \<Rightarrow> 'd \<Rightarrow> go_error option \<times> 'd) \<Rightarrow> string \<Rightarrow> string \<times> string \<Rightarrow> string \<Rightarrow> handle \<Rightarrow> string \<Rightarrow> 'd \<Rightarrow> go_error option \<times> 'd" where
  "SendSignal signal ns execution signalName input identity d =
     signal \<lparr>sg_Namespace = ns, sg_Execution = execution, SignalName = signalName, sg_Input = input, sg_Identity = identity\<rparr> d"

text \<open>Waiting and sending with a context of the caller: as for a test environment.\<close>

definition base_WaitForChannel :: "bool \<Rightarrow> bool \<Rightarrow> bool \<Rightarrow> unit outcome" where
  "base_WaitForChannel ready expired choice =
     (if ready \<and> (expired \<longrightarrow> choice) then Ret ()
      else if expired then Panic ''context timeout while waiting for channel'' else Hang)"

definition base_SendToChannel :: "bool \<Rightarrow> bool \<Rightarrow> bool \<Rightarrow> unit outcome" where
  "base_SendToChannel ready expired choice =
     (if ready \<and> (expired \<longrightarrow> choice) then Ret ()
      else if expired then Panic ''context timeout while sending to channel'' else Hang)"

section \<open>Deployment versions\<close>

record sync_request =
  sy_NamespaceId :: string
  sy_TaskQueue :: string
  sy_TaskQueueTypes :: "nat list"
  sy_Version :: handle
  RoutingUpdateTime :: int
  CurrentSinceTime :: int

text \<open>\<open>sync\<close> answers the version of the user data it has written, \<open>check\<close> returns when that version has reached all partitions.\<close>

definition syncDeploymentVersionToTaskQueues ::
    "(sync_request \<Rightarrow> 'd \<Rightarrow> int result \<times> 'd) \<Rightarrow> (string \<times> string \<times> int \<Rightarrow> 'd \<Rightarrow> go_error option \<times> 'd) \<Rightarrow> int \<Rightarrow> string \<Rightarrow> string
     \<Rightarrow> handle \<Rightarrow> nat list \<Rightarrow> 'd \<Rightarrow> unit outcome \<times> 'd" where
  "syncDeploymentVersionToTaskQueues sync check now namespaceID tq version tqTypes d =
     (case require_value (sync \<lparr>sy_NamespaceId = namespaceID, sy_TaskQueue = tq, sy_TaskQueueTypes = tqTypes, sy_Version = version,
             RoutingUpdateTime = now, CurrentSinceTime = now\<rparr> d) of
        (Ret v, d) \<Rightarrow> require_NoError (check (namespaceID, tq, v) d) (\<lambda>d. (Ret (), d))
      | (Panic msg, d) \<Rightarrow> (Panic msg, d)
      | (Hang, d) \<Rightarrow> (Hang, d))"

text \<open>A test goes on only when the very version that was written has reached all partitions.\<close>

lemma synced_version_propagated:
  assumes "syncDeploymentVersionToTaskQueues sync check now ns tq version types d = (Ret (), d')"
  shows "\<exists>req v d1. sy_NamespaceId req = ns \<and> sy_TaskQueue req = tq \<and> sy_Version req = version \<and>
    sync req d = (Inr v, d1) \<and> check (ns, tq, v) d1 = (None, d')"
  using assms
  by (auto simp: syncDeploymentVersionToTaskQueues_def require_value_def require_NoError_def split: prod.splits sum.splits option.splits)
    (metis sync_request.select_convs(1,2,4))

section \<open>Clients\<close>

text \<open>\<open>new_client\<close> dials an address for a namespace, \<open>new_worker\<close> makes a worker for a task queue with an identity.\<close>

definition newClientAndWorker ::
    "(string \<Rightarrow> string \<Rightarrow> 'd \<Rightarrow> handle result \<times> 'd) \<Rightarrow> (handle \<Rightarrow> string \<Rightarrow> string \<Rightarrow> handle) \<Rightarrow> string \<Rightarrow> string \<Rightarrow> string \<Rightarrow> string \<Rightarrow> 'd
     \<Rightarrow> (handle \<times> handle) outcome \<times> 'd" where
  "newClientAndWorker new_client new_worker hostport ns tq identity d =
     (let (r, d) = require_value (new_client hostport ns d)
      in (and_then r (\<lambda>sdkClient. Ret (sdkClient, new_worker sdkClient tq identity)), d))"

definition count_attempt :: "(string \<Rightarrow> 'd \<Rightarrow> int result \<times> 'd) \<Rightarrow> string \<Rightarrow> int \<Rightarrow> 'd \<Rightarrow> unit option \<times> 'd" where
  "count_attempt count_workflows ns expectedCount d =
     (let (r, d) = count_workflows ns d
      in (case r of Inl _ \<Rightarrow> None | Inr n \<Rightarrow> if n = expectedCount then Some () else None, d))"

text \<open>\<open>n\<close> is the number of attempts that fit into fifteen seconds.\<close>

definition waitForVisibilityCount ::
    "nat \<Rightarrow> (string \<Rightarrow> 'd \<Rightarrow> int result \<times> 'd) \<Rightarrow> string \<Rightarrow> int \<Rightarrow> 'd \<Rightarrow> unit outcome \<times> 'd" where
  "waitForVisibilityCount n count_workflows ns expectedCount d =
     (case eventually_some n (count_attempt count_workflows ns expectedCount) d of
        (None, d) \<Rightarrow> (Panic ''visibility should index the workflow runs before force-replication'', d)
      | (Some _, d) \<Rightarrow> (Ret (), d))"

lemma visibility_counted:
  assumes "waitForVisibilityCount n count_workflows ns expectedCount d = (Ret (), d')"
  shows "\<exists>d0. count_workflows ns d0 = (Inr expectedCount, d')"
proof -
  have "eventually_some n (count_attempt count_workflows ns expectedCount) d = (Some (), d')"
    using assms by (auto simp: waitForVisibilityCount_def split: prod.splits option.splits)
  then show ?thesis
    by (auto dest!: eventually_some_cond simp: count_attempt_def split: prod.splits sum.splits if_splits)
qed

record clientFactoryProvider =
  fp_config :: cluster_config
  fp_mockAdminClient :: "string \<rightharpoonup> handle"

record clientFactory =
  cf_Factory :: handle
  cf_config :: cluster_config
  cf_mockAdminClient :: "string \<rightharpoonup> handle"

definition newClientFactoryProvider :: "cluster_config \<Rightarrow> (string \<rightharpoonup> handle) \<Rightarrow> clientFactoryProvider" where
  "newClientFactoryProvider config mocks = \<lparr>fp_config = config, fp_mockAdminClient = mocks\<rparr>"

definition NewFactory :: "handle \<Rightarrow> clientFactoryProvider \<Rightarrow> clientFactory" where
  "NewFactory f p = \<lparr>cf_Factory = f, cf_config = fp_config p, cf_mockAdminClient = fp_mockAdminClient p\<rparr>"

definition factory_NewRemoteAdminClient ::
    "(string \<Rightarrow> int \<Rightarrow> int \<Rightarrow> handle) \<Rightarrow> string list \<Rightarrow> clientFactory \<Rightarrow> string \<Rightarrow> int \<Rightarrow> int \<Rightarrow> handle" where
  "factory_NewRemoteAdminClient new_client keys f =
     NewRemoteAdminClientWithTimeout (cf_config f) (cf_mockAdminClient f) new_client keys"

text \<open>A mock stands in for the admin client of the one cluster at its address.\<close>

lemma mock_reached_by_address:
  assumes "name \<in> set keys" "\<And>n. at_address (ClusterInformation config) addr n \<longleftrightarrow> n = name" "mocks name = Some mock"
  shows "factory_NewRemoteAdminClient new_client keys (NewFactory f (newClientFactoryProvider config mocks)) addr t lt = mock"
  using cluster_at_unique[OF assms(1,2)] assms(3)
  by (simp add: factory_NewRemoteAdminClient_def NewFactory_def newClientFactoryProvider_def NewRemoteAdminClientWithTimeout_def)

record sdk_ClientFactory =
  sf_hostPort :: string
  sf_tlsConfig :: "handle option"
  sf_stickyCacheSize :: int

definition sdkClientFactoryProvider ::
    "(service \<Rightarrow> string) \<Rightarrow> (handle \<Rightarrow> handle result) \<Rightarrow> int \<Rightarrow> handle option \<Rightarrow> sdk_ClientFactory outcome" where
  "sdkClientFactoryProvider makeURL GetFrontendClientConfig stickyCacheSize provider =
     (let factory = (\<lambda>tls. \<lparr>sf_hostPort = makeURL FrontendService, sf_tlsConfig = tls, sf_stickyCacheSize = stickyCacheSize\<rparr>)
      in case provider of
           None \<Rightarrow> Ret (factory None)
         | Some p \<Rightarrow> (case GetFrontendClientConfig p of Inl err \<Rightarrow> Panic (error_text err) | Inr cfg \<Rightarrow> Ret (factory (Some cfg))))"

definition injectHook :: "(scope_value \<Rightarrow> 'd \<Rightarrow> nat \<times> 'd) \<Rightarrow> scope_value \<Rightarrow> nat list \<Rightarrow> 'd \<Rightarrow> nat \<times> nat list \<times> 'd" where
  "injectHook applies scope t d = (let (cleanup, d) = applies scope d in (cleanup, cleanup # t, d))"

end
