(* ===== verification/Scripts.thy ===== *)
theory Scripts
  imports GoStdlib
begin

text \<open>
  The two programs in \<^verbatim>\<open>scripts/\<close>: \<^verbatim>\<open>start_workflows.go\<close>, which starts a thousand workflows through the proxy from goroutines
  behind a semaphore, and \<^verbatim>\<open>worker.go\<close>, the worker that runs them. The Temporal SDK is a parameter.
\<close>

section \<open>What both programs agree on\<close>

record client_options =
  HostPort :: string
  client_Namespace :: string

record start_options =
  so_ID :: string
  so_TaskQueue :: string

definition starter_client :: client_options where
  "starter_client = \<lparr>HostPort = ''localhost:8088'', client_Namespace = ''default''\<rparr>"

definition workflow_id :: "int \<Rightarrow> nat \<Rightarrow> string" where
  "workflow_id nanos index = ''test-workflow-'' @ Itoa nanos @ ''-'' @ Itoa (int index)"

definition start_request :: "int \<Rightarrow> nat \<Rightarrow> start_options \<times> string" where
  "start_request nanos index =
     (\<lparr>so_ID = workflow_id nanos index, so_TaskQueue = ''test-task-queue''\<rparr>, ''DummyWorkflowType'')"

section \<open>Starting the workflows\<close>

definition numWorkflows :: nat where
  "numWorkflows = 1000"

definition sem_capacity :: nat where
  "sem_capacity = 2"

text \<open>
  \<open>tokens\<close> is the number of values in the channel \<^verbatim>\<open>sem\<close>, \<open>wg\<close> the counter of the wait group. A goroutine is in its call,
  before the deferred receive, or before the deferred \<^verbatim>\<open>Done\<close>; \<open>requested\<close> are the calls made, in order.
\<close>

record starter =
  next_index :: nat
  tokens :: nat
  executing :: "nat list"
  releasing :: "nat list"
  finishing :: "nat list"
  wg :: nat
  requested :: "(nat \<times> start_options \<times> string) list"
  main_done :: bool

definition start_main :: "nat \<Rightarrow> starter" where
  "start_main n = \<lparr>next_index = 0, tokens = 0, executing = [], releasing = [], finishing = [], wg = n, requested = [], main_done = False\<rparr>"

text \<open>A failed call is only logged, so its answer makes no difference; the clock may show anything.\<close>

inductive starter_step :: "nat \<Rightarrow> starter \<Rightarrow> starter \<Rightarrow> bool" for n where
  spawn: "next_index s < n \<Longrightarrow> tokens s < sem_capacity \<Longrightarrow>
    starter_step n s (s\<lparr>next_index := next_index s + 1, tokens := tokens s + 1, executing := executing s @ [next_index s]\<rparr>)"
| execute: "i \<in> set (executing s) \<Longrightarrow>
    starter_step n s (s\<lparr>executing := remove1 i (executing s), releasing := releasing s @ [i],
      requested := requested s @ [(i, start_request nanos i)]\<rparr>)"
| release: "i \<in> set (releasing s) \<Longrightarrow> 0 < tokens s \<Longrightarrow>
    starter_step n s (s\<lparr>releasing := remove1 i (releasing s), tokens := tokens s - 1, finishing := finishing s @ [i]\<rparr>)"
| finish: "i \<in> set (finishing s) \<Longrightarrow> starter_step n s (s\<lparr>finishing := remove1 i (finishing s), wg := wg s - 1\<rparr>)"
| wait: "next_index s = n \<Longrightarrow> wg s = 0 \<Longrightarrow> \<not> main_done s \<Longrightarrow> starter_step n s (s\<lparr>main_done := True\<rparr>)"

inductive_cases starter_stepE: "starter_step n s s'"

definition starter_inv :: "nat \<Rightarrow> starter \<Rightarrow> bool" where
  "starter_inv n s \<longleftrightarrow>
     next_index s \<le> n \<and> tokens s = length (executing s) + length (releasing s) \<and> tokens s \<le> sem_capacity \<and>
     wg s = n - next_index s + length (executing s) + length (releasing s) + length (finishing s) \<and>
     distinct (executing s @ map fst (requested s)) \<and>
     set (executing s) \<union> fst ` set (requested s) = {0..<next_index s} \<and>
     (\<forall>x\<in>set (requested s). \<exists>nanos. snd x = start_request nanos (fst x)) \<and>
     (main_done s \<longrightarrow> next_index s = n \<and> wg s = 0)"

lemma length_remove1_Suc: "i \<in> set xs \<Longrightarrow> length xs = Suc (length (remove1 i xs))"
  by (induction xs) auto

lemma starter_inv_start: "starter_inv n (start_main n)"
  by (simp add: starter_inv_def start_main_def)

lemma starter_inv_step:
  assumes "starter_step n s s'" "starter_inv n s"
  shows "starter_inv n s'"
  using assms(1)
proof cases
  case spawn
  have "next_index s \<notin> set (executing s) \<union> fst ` set (requested s)"
    using assms(2) by (simp add: starter_inv_def)
  then show ?thesis
    using assms(2) spawn by (auto simp: starter_inv_def atLeastLessThanSuc)
next
  case (execute i nanos)
  then show ?thesis
    using assms(2) length_remove1_Suc[OF execute(2)]
    by (auto simp: starter_inv_def)
next
  case (release i)
  then show ?thesis
    using assms(2) length_remove1_Suc[OF release(2)] by (auto simp: starter_inv_def)
next
  case (finish i)
  then show ?thesis
    using assms(2) length_remove1_Suc[OF finish(2)] by (auto simp: starter_inv_def)
next
  case wait
  then show ?thesis
    using assms(2) by (auto simp: starter_inv_def)
qed

definition starter_rank :: "nat \<Rightarrow> starter \<Rightarrow> nat" where
  "starter_rank n s = 4 * (n - next_index s) + 3 * length (executing s) + 2 * length (releasing s) + length (finishing s) +
     (if main_done s then 0 else 1)"

lemma starter_rank_step: "starter_step n s s' \<Longrightarrow> starter_rank n s' < starter_rank n s"
proof (induction rule: starter_step.induct)
  case (execute i s)
  then show ?case
    using length_remove1_Suc[OF execute] by (auto simp: starter_rank_def)
next
  case (release i s)
  then show ?case
    using length_remove1_Suc[OF release(1)] by (auto simp: starter_rank_def)
next
  case (finish i s)
  then show ?case
    using length_remove1_Suc[OF finish] by (auto simp: starter_rank_def)
qed (auto simp: starter_rank_def)

text \<open>As long as the program has not ended, something can go on.\<close>

lemma starter_progress:
  assumes "starter_inv n s" "\<not> main_done s"
  shows "\<exists>s'. starter_step n s s'"
proof (cases "executing s = [] \<and> releasing s = [] \<and> finishing s = []")
  case True
  then show ?thesis
    using assms spawn[of s n] wait[of s n] by (auto simp: starter_inv_def sem_capacity_def le_less)
next
  case False
  then consider i where "i \<in> set (executing s)" | i where "i \<in> set (releasing s)" | i where "i \<in> set (finishing s)"
    by (meson list.set_sel(1))
  then show ?thesis
  proof cases
    case (2 i)
    then have "0 < tokens s"
      using assms(1) length_pos_if_in_set[OF 2] by (simp add: starter_inv_def)
    then show ?thesis
      using release[OF 2] by blast
  qed (blast intro: execute finish)+
qed

lemma starter_inv_run: "(starter_step n ^^ k) (start_main n) s \<Longrightarrow> starter_inv n s"
proof (induction k arbitrary: s)
  case 0
  then show ?case
    using starter_inv_start by auto
next
  case (Suc k)
  then show ?case
    using starter_inv_step by auto
qed

text \<open>The index is the part of an id after its last dash.\<close>

lemma workflow_id_inj:
  assumes "workflow_id a i = workflow_id b j"
  shows "i = j"
proof -
  have no_dash: "CHR ''-'' \<notin> set (rev (digits k))" for k
    using digits_chars[of "CHR ''-''" k] by auto
  have rev_id: "rev (workflow_id c k) = rev (digits k) @ CHR ''-'' # rev (Itoa c) @ rev ''test-workflow-''" for c k
    by (simp add: workflow_id_def Itoa_def)
  have "rev (digits i) @ CHR ''-'' # rev (Itoa a) @ rev ''test-workflow-'' = rev (digits j) @ CHR ''-'' # rev (Itoa b) @ rev ''test-workflow-''"
    using arg_cong[OF assms, of rev] by (simp only: rev_id)
  then have "rev (digits i) = rev (digits j)"
    by (simp only: split_at_first_unique[OF no_dash no_dash])
  then show ?thesis
    by simp
qed

lemma requested_ids_distinct:
  assumes "\<forall>x\<in>set xs. \<exists>nanos. snd x = start_request nanos (fst x)" "distinct (map fst xs)"
  shows "distinct (map (\<lambda>x. so_ID (fst (snd x))) xs)"
proof -
  have "x = y" if xy: "x \<in> set xs" "y \<in> set xs" "so_ID (fst (snd x)) = so_ID (fst (snd y))" for x y
  proof -
    obtain a b where "snd x = start_request a (fst x)" "snd y = start_request b (fst y)"
      using assms(1) xy(1,2) by blast
    then have "fst x = fst y"
      using xy(3) workflow_id_inj by (simp add: start_request_def)
    then show ?thesis
      using assms(2) xy(1,2) by (simp add: distinct_map inj_on_def)
  qed
  then show ?thesis
    using assms(2) by (simp add: distinct_map inj_on_def)
qed

section \<open>The worker\<close>

definition DummyActivityType :: "string \<Rightarrow> string result" where
  "DummyActivityType name = Inr (''Hello '' @ name @ '' from Activity!'')"

text \<open>
  \<open>execute_activity\<close> is \<^verbatim>\<open>workflow.ExecuteActivity(...).Get\<close> with a start-to-close timeout in seconds: the server runs the
  activity and returns its result, or an error.
\<close>

definition DummyWorkflowType :: "(int \<Rightarrow> (string \<Rightarrow> string result) \<Rightarrow> string \<Rightarrow> string result) \<Rightarrow> string result" where
  "DummyWorkflowType execute_activity =
     (case execute_activity 10 DummyActivityType ''Temporal'' of Inl err \<Rightarrow> Inl err | Inr result \<Rightarrow> Inr (''Success: '' @ result))"

record worker_setup =
  ws_client :: client_options
  ws_TaskQueue :: string
  ws_workflows :: "string list"
  ws_activities :: "string list"

text \<open>\<open>dial\<close> and \<open>run\<close> are the SDK's; either failure ends the program with a message.\<close>

definition worker_main :: "(client_options \<Rightarrow> go_error option) \<Rightarrow> (worker_setup \<Rightarrow> go_error option) \<Rightarrow> worker_setup outcome" where
  "worker_main dial run =
     (let options = \<lparr>HostPort = ''localhost:8088'', client_Namespace = ''default''\<rparr> in
      case dial options of
        Some err \<Rightarrow> Panic (''Unable to create Temporal client: '' @ error_text err)
      | None \<Rightarrow>
          (let w = \<lparr>ws_client = options, ws_TaskQueue = ''test-task-queue'', ws_workflows = [''DummyWorkflowType''],
                    ws_activities = [''DummyActivityType'']\<rparr>
           in case run w of Some err \<Rightarrow> Panic (''Worker failed to start: '' @ error_text err) | None \<Rightarrow> Ret w))"

lemma worker_main_setup:
  "worker_main dial run = Ret w \<Longrightarrow>
     ws_client w = starter_client \<and> ws_TaskQueue w = ''test-task-queue'' \<and> ws_workflows w = [''DummyWorkflowType'']"
  by (auto simp: worker_main_def starter_client_def Let_def split: option.splits)

section \<open>Properties\<close>

text \<open>
  Starting the workflows. However the goroutines are scheduled, at most two workflows are being started at any time; the
  program ends after at most \<open>4 * n + 1\<close> steps and never blocks before; and when it ends each of the \<open>n\<close> workflows has
  been asked for exactly once, under pairwise different ids, on the task queue and with the type that the worker serves
  through the same address and namespace.
\<close>

theorem workflows_started_once:
  assumes "(starter_step n ^^ k) (start_main n) s"
  shows "k \<le> 4 * n + 1 \<and> length (executing s) \<le> 2 \<and>
    ((\<nexists>s'. starter_step n s s') \<longrightarrow> main_done s) \<and>
    (main_done s \<longrightarrow> mset (map fst (requested s)) = mset [0..<n]) \<and>
    distinct (map (\<lambda>x. so_ID (fst (snd x))) (requested s)) \<and>
    (\<forall>w x. worker_main dial run = Ret w \<longrightarrow> x \<in> set (requested s) \<longrightarrow>
       ws_client w = starter_client \<and> so_TaskQueue (fst (snd x)) = ws_TaskQueue w \<and> snd (snd x) \<in> set (ws_workflows w))"
proof -
  have inv: "starter_inv n s"
    by (rule starter_inv_run[OF assms])
  have "k + starter_rank n s \<le> starter_rank n (start_main n)"
    by (rule relpowp_measure[OF starter_rank_step assms])
  then have "k \<le> 4 * n + 1"
    by (simp add: starter_rank_def start_main_def)
  moreover have "length (executing s) \<le> 2"
    using inv by (simp add: starter_inv_def sem_capacity_def)
  moreover have "main_done s" if "\<nexists>s'. starter_step n s s'"
    using starter_progress[OF inv] that by blast
  moreover have "mset (map fst (requested s)) = mset [0..<n]" if "main_done s"
    using inv that by (intro set_eq_iff_mset_eq_distinct[THEN iffD1]) (auto simp: starter_inv_def)
  moreover have reqs: "\<forall>x\<in>set (requested s). \<exists>nanos. snd x = start_request nanos (fst x)" and "distinct (map fst (requested s))"
    using inv by (simp_all add: starter_inv_def)
  then have "distinct (map (\<lambda>x. so_ID (fst (snd x))) (requested s))"
    by (rule requested_ids_distinct)
  moreover have "ws_client w = starter_client \<and> so_TaskQueue (fst (snd x)) = ws_TaskQueue w \<and> snd (snd x) \<in> set (ws_workflows w)"
    if "worker_main dial run = Ret w" "x \<in> set (requested s)" for w x
    using worker_main_setup[OF that(1)] reqs that(2) by (auto simp: start_request_def)
  ultimately show ?thesis
    by blast
qed

text \<open>One workflow from start to end, with the clock at 7.\<close>

definition example_finished :: starter where
  "example_finished = \<lparr>next_index = 1, tokens = 0, executing = [], releasing = [], finishing = [], wg = 0,
     requested = [(0, start_request 7 0)], main_done = True\<rparr>"

lemma example_finished_reached: "(starter_step 1 ^^ 5) (start_main 1) example_finished"
proof -
  let ?s1 = "(start_main 1)\<lparr>next_index := 1, tokens := 1, executing := [0]\<rparr>"
  let ?s2 = "?s1\<lparr>executing := [], releasing := [0], requested := [(0, start_request 7 0)]\<rparr>"
  let ?s3 = "?s2\<lparr>releasing := [], tokens := 0, finishing := [0]\<rparr>"
  let ?s4 = "?s3\<lparr>finishing := [], wg := 0\<rparr>"
  have steps: "starter_step 1 (start_main 1) ?s1" "starter_step 1 ?s1 ?s2" "starter_step 1 ?s2 ?s3" "starter_step 1 ?s3 ?s4"
    "starter_step 1 ?s4 example_finished"
    using spawn[of "start_main 1" 1] execute[of 0 ?s1 1 7] release[of 0 ?s2 1] finish[of 0 ?s3 1] wait[of ?s4 1]
    by (simp_all add: start_main_def sem_capacity_def example_finished_def)
  have five: "5 = Suc (Suc (Suc (Suc (Suc 0))))"
    by simp
  show ?thesis
    unfolding five
    by (rule relpowp_Suc_I2[where P = "starter_step 1", OF steps(1)], rule relpowp_Suc_I2[where P = "starter_step 1", OF steps(2)], rule relpowp_Suc_I2[where P = "starter_step 1", OF steps(3)],
        rule relpowp_Suc_I2[where P = "starter_step 1", OF steps(4)], rule relpowp_Suc_I2[where P = "starter_step 1", OF steps(5)], rule relpowp_0_I)
qed

theorem workflows_started_once_witness:
  "(starter_step 1 ^^ 5) (start_main 1) example_finished \<and> mset (map fst (requested example_finished)) = mset [0..<1]"
  using workflows_started_once[OF example_finished_reached] example_finished_reached by (simp add: example_finished_def)

end
