(* ===== verification/Spec2Isabelle.thy ===== *)
theory Spec2Isabelle
  imports ProxyRace ClusterLedger TaskRecorder StreamRecorder TaskPoller MixedBuild CrossDC NexusPoller Certs UpdateHelpers
    TestIsolation TestData TestHelpers Scripts
begin

text \<open>
  \<^bold>\<open>Tempura, verified.\<close> Tempura is a proxy in front of several Temporal clusters. Clients speak to one
  \<^emph>\<open>virtual\<close> namespace; the proxy keeps every workflow on one \<^emph>\<open>physical\<close> namespace of one cluster, chosen by
  consistent hashing when the workflow is first seen and remembered in Redis, rewrites the namespace in each
  request and forwards it there. Polls have no workflow yet and are sent to all clusters at once. An admin API
  adds and cordons physical namespaces at run time. The repository also holds conformance tests, which start Temporal
  servers in the test process, put Tempura in front of them and run Temporal's own test suites through it.

  \<^bold>\<open>Parts, and the theories that model them.\<close> One definition models one function or method and keeps its name
  where Isabelle allows it.

  The proxy (files at the top of \<^verbatim>\<open>src/\<close>):
  \<^item> \<open>Ring\<close>: \<^verbatim>\<open>ConsistentHash\<close> of \<^verbatim>\<open>resolver.go\<close>, the sorted slice of hashes and the map of slots.
  \<^item> \<open>Mappings\<close>: the routing cache over Redis, \<^verbatim>\<open>mappings.go\<close>.
  \<^item> \<open>Namespaces\<close>: \<^verbatim>\<open>virtualnamespace.go\<close>: names, virtual namespaces, the registry with its shared objects, loading
    and checkpoint.
  \<^item> \<open>Resolver\<close>: \<^verbatim>\<open>Resolver.Resolve\<close> of \<^verbatim>\<open>resolver.go\<close> and the payloads of \<^verbatim>\<open>payload.go\<close>. \<open>ResolverRace\<close>: the same function as the
    separate steps of concurrent calls, which take no lock, beside the admin API.
  \<^item> \<open>Framing\<close>, \<open>TaskToken\<close>, \<open>Messages\<close>: the gRPC frame, the walk over a task token, and the messages as far as the
    proxy looks into them (\<^verbatim>\<open>proxy.go\<close>, \<^verbatim>\<open>connpark.go\<close>).
  \<^item> \<open>ConnPark\<close>: the poll fan-out of \<^verbatim>\<open>connpark.go\<close>, as a sequence over an order of arrival and as a step relation of
    goroutines, channel and receive loop.
  \<^item> \<open>Proxy\<close>: \<^verbatim>\<open>proxy.go\<close>: dispatch by path, the eight rewriting handlers, the two poll handlers, the director,
    the response writer, start and stop.
  \<^item> \<open>Admin\<close>: the handlers of \<^verbatim>\<open>apis.go\<close>.
  \<^item> \<open>System\<close>: \<^verbatim>\<open>main.go\<close>, and the running program as a sequence of served requests, admin calls and checkpoints over one
    registry and one cache.
  \<^item> \<open>Journeys\<close>: both polls in one form, and a workflow on its way through several requests: polled, answered, completed,
    asked about afterwards.
  \<^item> \<open>ProxyRace\<close>: the running program with any number of handlers side by side, as the goroutines of \<^verbatim>\<open>net/http\<close> run them: each
    call of a handler to the cache or the registry is a step, and so is each step of a poll's own goroutines; requests
    arrive and admin calls and checkpoints happen in between.

  The conformance tests (\<^verbatim>\<open>conformance-tests/\<close>):
  \<^item> \<open>DynConfig\<close>, \<open>OneBox\<close>: the dynamic configuration and the in-process server (\<^verbatim>\<open>testcore/onebox.go\<close>): its
    construction, start and stop.
  \<^item> \<open>TestBase\<close>: the suites' base (\<^verbatim>\<open>testcore/functional_test_base.go\<close>): cluster options, registration of namespaces
    with the cluster and with Tempura, set-up and tear-down, histories.
  \<^item> \<open>Harness\<close>: \<open>TestBase\<close> and \<open>OneBox\<close> composed with \<open>System\<close>: the suites' requests through a running Tempura.
  \<^item> \<open>TestCluster\<close>, \<open>ClusterLedger\<close>: set-up and tear-down of a cluster with its stores, server, Redis and Tempura process
    (\<^verbatim>\<open>testcore/test_cluster.go\<close>), and the ledger of what they acquire and release.
  \<^item> \<open>TestEnv\<close>, \<open>TestIsolation\<close>: \<^verbatim>\<open>testcore/test_env.go\<close>: shards, options, the guard of dedicated clusters, the operations of a
    test with their clean-up, and tests side by side on one shared cluster.
  \<^item> \<open>TestData\<close>, \<open>TestHelpers\<close>: \<^verbatim>\<open>testcore/test_data_converter.go\<close>, \<^verbatim>\<open>testcore/utils.go\<close>, \<^verbatim>\<open>ndc/test_data.go\<close>, \<^verbatim>\<open>testutils/io.go\<close>; the
    remaining helpers of the suites.
  \<^item> \<open>CrossDC\<close>: \<^verbatim>\<open>xdc/base.go\<close> and \<^verbatim>\<open>ndc/cluster_config.go\<close>: two connected clusters, replicated namespaces, failover.
  \<^item> \<open>TaskPoller\<close>, \<open>NexusPoller\<close>, \<open>UpdateHelpers\<close>: \<^verbatim>\<open>testcore/taskpoller.go\<close>, \<^verbatim>\<open>nexus_test_base.go\<close>, and the
    helpers \<^verbatim>\<open>workflow_utils.go\<close> and \<^verbatim>\<open>update_workflow_utils.go\<close> with their goroutine and channel.
  \<^item> \<open>Wrapper\<close>, \<open>TaskRecorder\<close>, \<open>StreamRecorder\<close>: the recorders \<^verbatim>\<open>testcore/task_queue_recorder.go\<close> and
    \<^verbatim>\<open>testcore/replication_stream_recorder.go\<close> and the contract they share.
  \<^item> \<open>MetricCapture\<close>, \<open>MatchingBehavior\<close>, \<open>ClusterPool\<close>, \<open>Certs\<close>: \<^verbatim>\<open>testcore/metric_capture.go\<close>,
    \<^verbatim>\<open>testcore/matching_behavior.go\<close>, \<^verbatim>\<open>testcore/test_cluster_pool.go\<close>, \<^verbatim>\<open>testutils/\<close>.
  \<^item> \<open>MixedBrain\<close>, \<open>MixedServers\<close>, \<open>MixedBuild\<close>: \<^verbatim>\<open>mixedbrain/\<close>: ports, configuration, TCP proxy, choice of the release, formation
    check; release tags and the life of a server process; the commands that build servers, and proxied connections.

  \<open>Scripts\<close>: the example programs \<^verbatim>\<open>scripts/start_workflows.go\<close> and \<^verbatim>\<open>scripts/worker.go\<close>.

  \<open>Prelude\<close> and \<open>GoStdlib\<close> are shared: outcomes (return, panic, no return), Go errors, bytes, and the functions of Go's
  standard library that are called, written out. \<open>JsonText\<close> writes and reads the JSON text of a table of ASCII names; it shows
  that what the checkpoint expects of JSON (\<open>json_faithful\<close>) can hold.

  \<^bold>\<open>How code becomes definitions.\<close> A struct is a record, state is passed and returned, an error is the left of a
  sum, a panic is an outcome next to the state it was reached in (\<^verbatim>\<open>net/http\<close> recovers it). Integers are
  words, or integers with their wrap-around written out, where it matters (ring hashes, framing, task token). Pointers
  that are shared are indices of a heap (the registry). Go's random choices and map orders are arguments. What is not in
  the repository is a parameter, with its documented behaviour as a named hypothesis of the theorems that need it: Redis
  (\<open>redis_ok\<close>), Murmur3 (\<open>collision_free\<close>, for the names in use, where no virtual node may be lost), protobuf (\<open>codec_ok\<close>), JSON
  (\<open>json_faithful\<close>: finite tables of ASCII names come back; \<open>json_reads_plain\<close>), gzip, the transport, the Temporal server, the dynamic configuration store
  (\<open>store_ok\<close>), clock and ticker (\<open>time_laws\<close>), \<^verbatim>\<open>EventuallyWithT\<close> (\<open>later_ok\<close>), X.509 (\<open>crypto_ok\<close>), gob
  (\<open>gob_ok\<close>), lookups in the dynamic configuration that see the values for their namespace only (\<open>local_lookup\<close>). Every theorem
  with a hypothesis has a witness that instantiates the parameters by concrete functions.

  \<^bold>\<open>Interfaces.\<close> \<open>kv_cache\<close> (the cache, for the resolver), \<open>slot_ring\<close> and \<open>draining_ring\<close> (the ring, for virtual
  namespaces), \<open>drainable_group\<close> (a virtual namespace, for the resolver), \<open>sticky_router\<close> (the resolver, for the proxy),
  \<open>routed_handler\<close> (a handler, for the program), \<open>recording_wrapper\<close> (the recorders). Each is interpreted on the model's
  own definitions where these are, and the properties use the facts of the interpretation.

  \<^bold>\<open>What the theorems show.\<close>
  \<^item> Routing: a workflow stays on its cluster through any requests, admin calls and checkpoints; a new one goes to an
    active physical namespace; completion releases it; polls return the first task and remember where it came
    from; the goroutines of a poll refine the sequential poll and end. Concurrent resolves answer what each would have
    answered alone, on a registry that does not change; a removal between them can split a workflow over two clusters.
  \<^item> Journeys: a task is answered by the cluster it came from; a completed workflow whose namespace is removed is
    sought on another cluster.
  \<^item> Concurrency: a workflow stays on its cluster while handlers interleave at every call they make; the handlers make boundedly many
    steps, and when none can make another every request has been answered or the process has gone down; serving a
    request as one operation is one of the runs of its handler; a task that is received after the completion of its workflow
    writes the routing entry anew.
  \<^item> The ring: keys go clockwise, only keys of the added or removed slot move, without collisions the history of changes
    does not matter; one collision is enough for a removal to panic and for keys to be sent nowhere.
  \<^item> State: the cache does to its pairs what a map does, the admin API refines a table of statuses, a restart routes alike, a drained namespace gets
    no new workflow.
  \<^item> Formats: frames, task tokens and physical names round-trip, with the exact conditions.
  \<^item> Errors: a request that is not understood is passed on, without its body when that cannot be read, and a poll that is not
    understood is answered with 500; an unknown virtual namespace panics; a task token whose length
    overflows loops or panics; concurrent creates lose updates.
  \<^item> The tests: Tempura forwards the requests of a suite to the suite's own cluster; a cluster that was set up has Tempura
    in front of its own frontend, and its tear-down stops the services in the opposite order of their start and asks for
    the release of what was acquired, all but the profiler and the connection to Tempura, while a set-up that fails stops
    no service; overrides end with their tests, and tests on a shared
    cluster do not see each other's; every test runs in exactly one shard; the data converter round-trips; registering a namespace always returns, and succeeds with a new name on
    a cluster that gets ready, and with a name that is taken it fails; a confirmed failover was seen by every registry; the pollers answer a task at most once; a test that
    sends an update goes on only once it is seen admitted, and the goroutines end when the test receives the answer; stopping a server process never blocks for good; the recorders are
    transparent, and the task recorder keeps every task of the calls it wraps and none of those it only passes on. The starter of the example scripts starts every workflow once, two at a time, and ends.

  \<^bold>\<open>Loops.\<close> Loops over data are recursive functions, with a measure where the recursion is not structural. Loops that need
  not end are partial functions into the option type, where no result is \<open>None\<close> (\<open>token_loop\<close>, \<open>page_loop\<close>, \<open>wait_loop\<close>,
  \<open>more_pages\<close>); that they return is proved as such: for task tokens without a varint of \<open>2 ^ 62\<close> or more, where the walk cannot go
  back, for the waiting loops on a ticker that moves the clock, for page loops on servers with finitely many pages. There
  is no fuel.

  \<^bold>\<open>Not modelled.\<close> The HTTP and HTTP/2 servers, the reverse proxy and the transport themselves; the scheduling
  of goroutines below the calls of a handler to the cache and the registry, which their locks and Redis make atomic (the
  unsynchronised counters of the cache are incremented as part of the call); an admin call and a checkpoint beside running handlers are one
  step each, the two halves of a create apart; flushes and cancellation of a response in flight; flag parsing; signals and the operating system side of processes; accessors, whose
  field is read where they are called, and calls that only hand over to third-party packages; assertion helpers of the suites,
  which are the testing framework; the test cases. What is left of the implementation's lines are imports, logging, such
  accessors and such calls.
\<close>

end
